(* ===== verification/Prelude.thy ===== *)
theory Prelude
  imports Main "HOL-Library.Signed_Division"
begin

text \<open>
  Shared vocabulary of the development: the result type of fallible operations, the four SQL
  statements of the store on tables kept as lists of rows, and the transition-system interface the
  concurrent parts instantiate. Facts on tables are collected in \<open>table_simps\<close>; facts that
  an operation leaves a part of the state alone in \<open>frame_simps\<close>.
\<close>

named_theorems table_simps
named_theorems frame_simps

section \<open>Results\<close>

text \<open>A Go function that returns a value and an error: \<open>Inl\<close> is a non-nil error.\<close>

type_synonym ('e, 'a) result = "'e + 'a"

definition bind_result :: "('e, 'a) result \<Rightarrow> ('a \<Rightarrow> ('e, 'b) result) \<Rightarrow> ('e, 'b) result" where
  "bind_result r f = (case r of Inl e \<Rightarrow> Inl e | Inr a \<Rightarrow> f a)"

lemma bind_result_simps [simp]:
  "bind_result (Inl e) f = Inl e"
  "bind_result (Inr a) f = f a"
  by (simp_all add: bind_result_def)

lemma bind_result_Inr_iff:
  "bind_result r f = Inr b \<longleftrightarrow> (\<exists>a. r = Inr a \<and> f a = Inr b)"
  by (cases r) auto

lemma bind_result_InrE [elim!]:
  assumes "bind_result r f = Inr b"
  obtains a where "r = Inr a" and "f a = Inr b"
  using assms by (auto simp: bind_result_Inr_iff)

section \<open>Tables\<close>

text \<open>
  A table is the list of its rows in insertion order. The statements the store issues:
  \<open>UPDATE ... SET ... WHERE\<close>, \<open>DELETE ... WHERE\<close>, a single-row \<open>SELECT ... WHERE\<close> and
  \<open>SELECT COUNT(*)\<close>.
\<close>

definition sql_update :: "('r \<Rightarrow> bool) \<Rightarrow> ('r \<Rightarrow> 'r) \<Rightarrow> 'r list \<Rightarrow> 'r list" where
  "sql_update P f rows = map (\<lambda>r. if P r then f r else r) rows"

definition sql_delete :: "('r \<Rightarrow> bool) \<Rightarrow> 'r list \<Rightarrow> 'r list" where
  "sql_delete P rows = filter (\<lambda>r. \<not> P r) rows"

definition sql_find :: "('r \<Rightarrow> bool) \<Rightarrow> 'r list \<Rightarrow> 'r option" where
  "sql_find P rows = find P rows"

definition sql_count :: "('r \<Rightarrow> bool) \<Rightarrow> 'r list \<Rightarrow> nat" where
  "sql_count P rows = length (filter P rows)"

lemma set_sql_update [table_simps]:
  "set (sql_update P f rows) = (\<lambda>r. if P r then f r else r) ` set rows"
  by (simp add: sql_update_def)

lemma set_sql_delete [table_simps]: "set (sql_delete P rows) = {r \<in> set rows. \<not> P r}"
  by (auto simp: sql_delete_def)

lemma bex_sql_update:
  "(\<And>r. Q (f r) \<longleftrightarrow> Q r) \<Longrightarrow> (\<exists>r \<in> set (sql_update P f rows). Q r) \<longleftrightarrow> (\<exists>r \<in> set rows. Q r)"
  unfolding sql_update_def by (induction rows) auto

lemma length_sql_update [table_simps]: "length (sql_update P f rows) = length rows"
  by (simp add: sql_update_def)

lemma sql_update_id [table_simps]:
  "\<forall>r \<in> set rows. \<not> P r \<Longrightarrow> sql_update P f rows = rows"
  by (induction rows) (auto simp: sql_update_def)

lemma sql_delete_id [table_simps]: "\<forall>r \<in> set rows. \<not> P r \<Longrightarrow> sql_delete P rows = rows"
  by (simp add: sql_delete_def)

lemma map_key_sql_update [table_simps]:
  "(\<And>r. key (f r) = key r) \<Longrightarrow> map key (sql_update P f rows) = map key rows"
  by (simp add: sql_update_def)

lemma distinct_map_sql_delete [table_simps]:
  "distinct (map key rows) \<Longrightarrow> distinct (map key (sql_delete P rows))"
  by (simp add: sql_delete_def distinct_map_filter)

lemma sql_find_SomeD:
  assumes "sql_find P rows = Some r"
  shows "r \<in> set rows" and "P r"
  using assms by (auto simp: sql_find_def find_Some_iff)

lemma sql_find_None_iff [table_simps]: "sql_find P rows = None \<longleftrightarrow> (\<forall>r \<in> set rows. \<not> P r)"
  by (auto simp: sql_find_def find_None_iff)

lemma sql_find_append [table_simps]:
  "sql_find P (xs @ ys) = (case sql_find P xs of None \<Rightarrow> sql_find P ys | Some r \<Rightarrow> Some r)"
  by (induction xs) (auto simp: sql_find_def)

lemma sql_find_Cons [simp]:
  "sql_find P [] = None"
  "sql_find P (x # xs) = (if P x then Some x else sql_find P xs)"
  by (simp_all add: sql_find_def)

lemma distinct_key_inj:
  assumes "distinct (map key rows)" and "x \<in> set rows" and "y \<in> set rows" and "key x = key y"
  shows "x = y"
  using assms by (auto simp: distinct_map inj_on_def)

text \<open>A row is found by its primary key.\<close>

lemma sql_find_key:
  assumes "distinct (map key rows)" and "r \<in> set rows"
  shows "sql_find (\<lambda>x. key x = key r) rows = Some r"
proof (cases "sql_find (\<lambda>x. key x = key r) rows")
  case None
  with assms(2) show ?thesis by (auto simp: table_simps)
next
  case (Some r')
  then have "r' \<in> set rows" and "key r' = key r" by (auto dest: sql_find_SomeD)
  with assms have "r' = r" by (auto dest: distinct_key_inj)
  with Some show ?thesis by simp
qed

lemma sql_find_key_iff:
  assumes "distinct (map key rows)"
  shows "sql_find (\<lambda>x. key x = k) rows = Some r \<longleftrightarrow> r \<in> set rows \<and> key r = k"
  using assms sql_find_key sql_find_SomeD by fastforce

lemma sql_count_0_iff [table_simps]: "sql_count P rows = 0 \<longleftrightarrow> (\<forall>r \<in> set rows. \<not> P r)"
  by (simp add: sql_count_def filter_empty_conv)

lemma sql_count_pos_iff [table_simps]: "0 < sql_count P rows \<longleftrightarrow> (\<exists>r \<in> set rows. P r)"
  using sql_count_0_iff [of P rows] by auto

section \<open>Transition systems\<close>

text \<open>
  The interface between a state-changing component and its invariants: the initial states, one
  relation for all steps of all actors, and a predicate that the provider proves inductive. The
  clients' lemma is that it then holds wherever any interleaving of steps leads.
\<close>

locale transition_system =
  fixes initial :: "'s \<Rightarrow> bool"
    and step :: "'s \<Rightarrow> 's \<Rightarrow> bool"
    and inv :: "'s \<Rightarrow> bool"
  assumes initial_inv: "initial s \<Longrightarrow> inv s"
    and step_inv: "inv s \<Longrightarrow> step s t \<Longrightarrow> inv t"
begin

lemma steps_inv:
  assumes "step\<^sup>*\<^sup>* s t" and "inv s"
  shows "inv t"
  using assms by (induction rule: rtranclp_induct) (auto intro: step_inv)

lemma reachable_inv: "initial s \<Longrightarrow> step\<^sup>*\<^sup>* s t \<Longrightarrow> inv t"
  by (blast intro: initial_inv steps_inv)

end

text \<open>
  A transition system with a relation that every step of an invariant state satisfies, such as
  \<open>what is finished stays finished\<close>. If the relation is a preorder, any run satisfies it.
\<close>

locale monotone_system = transition_system +
  fixes rel :: "'s \<Rightarrow> 's \<Rightarrow> bool"
  assumes rel_refl: "rel s s"
    and rel_trans: "rel s t \<Longrightarrow> rel t u \<Longrightarrow> rel s u"
    and step_rel: "inv s \<Longrightarrow> step s t \<Longrightarrow> rel s t"
begin

lemma steps_rel:
  assumes "step\<^sup>*\<^sup>* s t" and "inv s"
  shows "rel s t"
  using assms
proof (induction rule: rtranclp_induct)
  case base
  show ?case by (rule rel_refl)
next
  case (step t u)
  then have "rel s t" and "inv t" by (auto intro: steps_inv)
  with step.hyps(2) show ?case by (blast intro: rel_trans step_rel)
qed

end

end
