(* ===== verification/GoTime.thy ===== *)
theory GoTime
  imports Prelude "HOL-Library.Char_ord" "HOL-Library.List_Lexorder"
begin

text \<open>
  What the program uses of Go's \<open>time\<close> package. An instant is an integer number of nanoseconds
  since the Unix epoch (UTC), a \<open>time.Duration\<close> a 64-bit number of nanoseconds; the conversions
  the code performs on 64-bit integers wrap, and \<open>Time.Sub\<close> saturates. The civil calendar is the
  standard library's decomposition into 400, 100, 4 and 1 year cycles; the RFC 3339 layouts print
  its fields with fixed widths. The second half shows that the printed date orders instants.
\<close>

section \<open>Instants, durations and 64-bit arithmetic\<close>

type_synonym time = int
type_synonym duration = int

definition second :: duration where
  "second = 1000000000"

text \<open>The value of a 64-bit signed operation whose exact result is \<open>x\<close>.\<close>

definition int64_wrap :: "int \<Rightarrow> int" where
  "int64_wrap x = (x + 2 ^ 63) mod 2 ^ 64 - 2 ^ 63"

definition is_int64 :: "int \<Rightarrow> bool" where
  "is_int64 x \<longleftrightarrow> - (2 ^ 63) \<le> x \<and> x < 2 ^ 63"

lemma int64_wrap_id: "is_int64 x \<Longrightarrow> int64_wrap x = x"
  by (simp add: int64_wrap_def is_int64_def)

lemma int64_wrap_is_int64: "is_int64 (int64_wrap x)"
proof -
  have "0 \<le> (x + 2 ^ 63) mod (2 ^ 64 :: int)" and "(x + 2 ^ 63) mod (2 ^ 64 :: int) < 2 ^ 64"
    by simp_all
  then show ?thesis by (simp add: int64_wrap_def is_int64_def)
qed

text \<open>\<open>time.Duration(n) * time.Second\<close>.\<close>

definition seconds :: "int \<Rightarrow> duration" where
  "seconds n = int64_wrap (n * second)"

text \<open>\<open>t.Unix()\<close>, \<open>t.Nanosecond()\<close> and \<open>time.Unix(s, ns)\<close>.\<close>

definition unix :: "time \<Rightarrow> int" where
  "unix t = t div second"

definition nanosecond :: "time \<Rightarrow> int" where
  "nanosecond t = t mod second"

definition time_unix :: "int \<Rightarrow> int \<Rightarrow> time" where
  "time_unix s ns = s * second + ns"

text \<open>\<open>t.Sub(u)\<close> saturates at the largest and smallest duration.\<close>

definition time_sub :: "time \<Rightarrow> time \<Rightarrow> duration" where
  "time_sub t u = max (- (2 ^ 63)) (min (2 ^ 63 - 1) (t - u))"

lemma nanosecond_bounds: "0 \<le> nanosecond t" "nanosecond t < second"
  by (simp_all add: nanosecond_def second_def)

lemma unix_nanosecond: "unix t * second + nanosecond t = t"
  by (simp add: unix_def nanosecond_def)

lemma unix_time_unix: "0 \<le> ns \<Longrightarrow> ns < second \<Longrightarrow> unix (time_unix s ns) = s"
  by (simp add: unix_def time_unix_def second_def)

lemma nanosecond_time_unix: "0 \<le> ns \<Longrightarrow> ns < second \<Longrightarrow> nanosecond (time_unix s ns) = ns"
  by (simp add: nanosecond_def time_unix_def second_def)

section \<open>The civil calendar\<close>

text \<open>Days from 1 January of year 1 to 1 January 1970.\<close>

definition unix_to_internal_days :: int where
  "unix_to_internal_days = 719162"

text \<open>Year and day of the year (from 0) of a day counted from 1 January of year 1.\<close>

definition year_day :: "int \<Rightarrow> int \<times> int" where
  "year_day d0 =
     (let n400 = d0 div 146097; d1 = d0 mod 146097;
          n100 = min 3 (d1 div 36524); d2 = d1 - 36524 * n100;
          n4 = d2 div 1461; d3 = d2 mod 1461;
          n1 = min 3 (d3 div 365); d4 = d3 - 365 * n1
      in (400 * n400 + 100 * n100 + 4 * n4 + n1 + 1, d4))"

definition is_leap :: "int \<Rightarrow> bool" where
  "is_leap y \<longleftrightarrow> y mod 4 = 0 \<and> (y mod 100 \<noteq> 0 \<or> y mod 400 = 0)"

definition days_before :: "bool \<Rightarrow> int list" where
  "days_before leap =
     (if leap then [0, 31, 60, 91, 121, 152, 182, 213, 244, 274, 305, 335]
      else [0, 31, 59, 90, 120, 151, 181, 212, 243, 273, 304, 334])"

definition month_day :: "bool \<Rightarrow> int \<Rightarrow> int \<times> int" where
  "month_day leap yday =
     (let bs = takeWhile (\<lambda>b. b \<le> yday) (days_before leap)
      in (int (length bs), yday - last bs + 1))"

definition day_of :: "time \<Rightarrow> int" where
  "day_of t = unix t div 86400 + unix_to_internal_days"

definition clock_of :: "time \<Rightarrow> int" where
  "clock_of t = unix t mod 86400"

definition year_of :: "time \<Rightarrow> int" where
  "year_of t = fst (year_day (day_of t))"

section \<open>RFC 3339 layouts\<close>

definition dig :: "nat \<Rightarrow> char" where
  "dig d = ''0123456789'' ! d"

fun dec :: "nat \<Rightarrow> string" where
  "dec n = (if n < 10 then [dig n] else dec (n div 10) @ [dig (n mod 10)])"

declare dec.simps [simp del]

definition pad :: "nat \<Rightarrow> nat \<Rightarrow> string" where
  "pad w n = replicate (w - length (dec n)) (CHR ''0'') @ dec n"

text \<open>The layout \<open>2006-01-02T15:04:05\<close> of a UTC instant; years from 0 to 9999 print four digits.\<close>

definition date_time :: "time \<Rightarrow> string" where
  "date_time t =
     (let (y, yd) = year_day (day_of t); (m, d) = month_day (is_leap y) yd; c = clock_of t
      in pad 4 (nat y) @ ''-'' @ pad 2 (nat m) @ ''-'' @ pad 2 (nat d) @ ''T''
         @ pad 2 (nat (c div 3600)) @ '':'' @ pad 2 (nat (c div 60 mod 60))
         @ '':'' @ pad 2 (nat (c mod 60)))"

text \<open>\<open>time.RFC3339\<close>, and the fixed nine-digit layout of \<open>comparisonTimeString\<close>.\<close>

definition rfc3339 :: "time \<Rightarrow> string" where
  "rfc3339 t = date_time t @ ''Z''"

definition nano_digits :: "time \<Rightarrow> string" where
  "nano_digits t = pad 9 (nat (nanosecond t))"

text \<open>\<open>time.RFC3339Nano\<close> drops trailing zeros of the fraction, and the point with the last.\<close>

definition trim_zeros :: "string \<Rightarrow> string" where
  "trim_zeros s = rev (dropWhile (\<lambda>c. c = CHR ''0'') (rev s))"

definition rfc3339_nano :: "time \<Rightarrow> string" where
  "rfc3339_nano t =
     (let f = trim_zeros (nano_digits t)
      in date_time t @ (if f = [] then [] else ''.'' @ f) @ ''Z'')"

text \<open>The years the layouts print with four digits.\<close>

definition printable :: "time \<Rightarrow> bool" where
  "printable t \<longleftrightarrow> 0 \<le> year_of t \<and> year_of t \<le> 9999"

section \<open>The printed date orders instants\<close>

subsection \<open>Fixed-width fields\<close>

fun digits :: "nat \<Rightarrow> nat \<Rightarrow> string" where
  "digits 0 n = []"
| "digits (Suc w) n = digits w (n div 10) @ [dig (n mod 10)]"

lemma length_digits [simp]: "length (digits w n) = w"
  by (induction w arbitrary: n) auto

lemma digits_0: "digits w 0 = replicate w (CHR ''0'')"
  by (induction w) (auto simp: dig_def replicate_append_same)

lemma dec_digits:
  assumes "n < 10 ^ w" and "0 < w"
  shows "digits w n = replicate (w - length (dec n)) (CHR ''0'') @ dec n"
    and "length (dec n) \<le> w"
  using assms
proof (induction w arbitrary: n)
  case (Suc w)
  have small: "n < 10 \<Longrightarrow> dec n = [dig n]"
    and big: "\<not> n < 10 \<Longrightarrow> dec n = dec (n div 10) @ [dig (n mod 10)]" for n
    by (simp_all add: dec.simps [of n])
  {
    case 1
    show ?case
    proof (cases "n < 10")
      case True
      then show ?thesis by (simp add: small digits_0)
    next
      case False
      with 1 have "n div 10 < 10 ^ w" and "0 < w" by (auto intro: gr0I)
      from Suc.IH [OF this] False show ?thesis by (simp add: big)
    qed
  next
    case 2
    show ?case
    proof (cases "n < 10")
      case True
      then show ?thesis by (simp add: small)
    next
      case False
      with 2 have "n div 10 < 10 ^ w" and "0 < w" by (auto intro: gr0I)
      from Suc.IH(2) [OF this] False show ?thesis by (simp add: big)
    qed
  }
qed simp_all

lemma pad_digits: "n < 10 ^ w \<Longrightarrow> 0 < w \<Longrightarrow> pad w n = digits w n"
  by (simp add: pad_def dec_digits(1))

lemma list_less_append:
  fixes a b c d :: "'a::linorder list"
  assumes "length a = length b"
  shows "a @ c < b @ d \<longleftrightarrow> a < b \<or> a = b \<and> c < d"
  using assms by (induction a b rule: list_induct2) auto

lemma of_char_dig:
  assumes "d < 10"
  shows "of_char (dig d) = 48 + d"
proof -
  from assms have "d = 0 \<or> d = 1 \<or> d = 2 \<or> d = 3 \<or> d = 4 \<or> d = 5 \<or> d = 6 \<or> d = 7 \<or> d = 8 \<or> d = 9"
    by (auto simp: numeral_eq_Suc less_Suc_eq)
  then show ?thesis by (elim disjE) (simp_all add: dig_def)
qed

lemma dig_less_iff: "m < 10 \<Longrightarrow> n < 10 \<Longrightarrow> dig m < dig n \<longleftrightarrow> m < n"
  by (simp add: less_char_def of_char_dig)

lemma dig_eq_iff:
  assumes "m < 10" and "n < 10"
  shows "dig m = dig n \<longleftrightarrow> m = n"
proof
  assume "dig m = dig n"
  then have "48 + m = 48 + n"
    by (simp only: of_char_dig [OF assms(1), symmetric] of_char_dig [OF assms(2), symmetric])
  then show "m = n" by simp
qed simp

lemma nat_less_div_mod:
  fixes m n :: nat
  shows "m < n \<longleftrightarrow> m div 10 < n div 10 \<or> m div 10 = n div 10 \<and> m mod 10 < n mod 10"
proof -
  have "m = 10 * (m div 10) + m mod 10" and "n = 10 * (n div 10) + n mod 10" by simp_all
  moreover have "m mod 10 < 10" and "n mod 10 < 10" by simp_all
  ultimately show ?thesis by linarith
qed

lemma digits_less_eq:
  assumes "m < 10 ^ w" and "n < 10 ^ w"
  shows "digits w m < digits w n \<longleftrightarrow> m < n" and "digits w m = digits w n \<longleftrightarrow> m = n"
  using assms
proof (induction w arbitrary: m n)
  case (Suc w)
  have d: "m div 10 < 10 ^ w" "n div 10 < 10 ^ w" if "m < 10 ^ Suc w" "n < 10 ^ Suc w" for m n :: nat
    using that by auto
  {
    case 1
    with Suc.IH(1) [OF d] Suc.IH(2) [OF d] show ?case
      by (simp add: list_less_append dig_less_iff nat_less_div_mod [of m n])
  next
    case 2
    with Suc.IH(2) [OF d] show ?case
      by (simp add: dig_eq_iff) (metis div_mult_mod_eq)
  }
qed auto

lemma pad_less_iff: "m < 10 ^ w \<Longrightarrow> n < 10 ^ w \<Longrightarrow> 0 < w \<Longrightarrow> pad w m < pad w n \<longleftrightarrow> m < n"
  by (simp add: pad_digits digits_less_eq)

lemma pad_eq_iff: "m < 10 ^ w \<Longrightarrow> n < 10 ^ w \<Longrightarrow> 0 < w \<Longrightarrow> pad w m = pad w n \<longleftrightarrow> m = n"
  by (simp add: pad_digits digits_less_eq)

lemma length_pad: "n < 10 ^ w \<Longrightarrow> 0 < w \<Longrightarrow> length (pad w n) = w"
  by (simp add: pad_digits)

subsection \<open>Years, months, days\<close>

definition year_start :: "int \<Rightarrow> int" where
  "year_start y = 365 * (y - 1) + (y - 1) div 4 - (y - 1) div 100 + (y - 1) div 400"

definition year_length :: "int \<Rightarrow> int" where
  "year_length y = (if is_leap y then 366 else 365)"

lemma div_pred:
  fixes y c :: int
  assumes "0 < c"
  shows "y div c = (y - 1) div c + (if y mod c = 0 then 1 else 0)"
proof (cases "y mod c = 0")
  case True
  then have y: "c * (y div c) = y" using mult_div_mod_eq [of c y] by simp
  have "(y - 1) div c = y div c - 1"
  proof (rule int_div_pos_eq)
    show "y - 1 = c * (y div c - 1) + (c - 1)" unfolding right_diff_distrib y by simp
  qed (use assms in auto)
  with True show ?thesis by simp
next
  case False
  have "y - 1 = c * (y div c) + (y mod c - 1)" by simp
  moreover have "0 \<le> y mod c - 1" and "y mod c - 1 < c"
    using False assms pos_mod_bound [of c y] pos_mod_sign [of c y] by linarith+
  ultimately have "(y - 1) div c = y div c" by (rule int_div_pos_eq)
  with False show ?thesis by simp
qed

lemma year_start_Suc: "year_start (y + 1) = year_start y + year_length y"
proof -
  define q4 q100 q400 where "q4 = (y - 1) div 4" and "q100 = (y - 1) div 100" and "q400 = (y - 1) div 400"
  have q: "y div 4 = q4 + (if y mod 4 = 0 then 1 else 0)"
    "y div 100 = q100 + (if y mod 100 = 0 then 1 else 0)"
    "y div 400 = q400 + (if y mod 400 = 0 then 1 else 0)"
    unfolding q4_def q100_def q400_def by (rule div_pred; simp)+
  have m: "y mod 100 mod 4 = y mod 4" "y mod 400 mod 100 = y mod 100"
    by (simp_all add: mod_mod_cancel)
  have "y mod 4 = 0" if "y mod 100 = 0"
    using m(1) unfolding that by simp
  moreover have "y mod 100 = 0" if "y mod 400 = 0"
    using m(2) unfolding that by simp
  moreover define b4 b100 b400 where "b4 = (y mod 4 = 0)" and "b100 = (y mod 100 = 0)"
    and "b400 = (y mod 400 = 0)"
  ultimately have b: "b100 \<longrightarrow> b4" "b400 \<longrightarrow> b100" by simp_all
  have "year_start (y + 1) = 365 * y + y div 4 - y div 100 + y div 400"
    by (simp add: year_start_def)
  also have "\<dots> = year_start y + (if b4 \<and> (\<not> b100 \<or> b400) then 366 else 365)"
    unfolding q year_start_def q4_def [symmetric] q100_def [symmetric] q400_def [symmetric]
      b4_def [symmetric] b100_def [symmetric] b400_def [symmetric]
    using b by (cases b4; cases b100; cases b400) simp_all
  finally show ?thesis by (simp only: year_length_def is_leap_def b4_def b100_def b400_def)
qed

lemma year_start_mono:
  assumes "y \<le> z"
  shows "year_start y \<le> year_start z"
  using assms
proof (induction z rule: int_ge_induct)
  case (step z)
  have "0 \<le> year_length z" by (simp add: year_length_def)
  with step year_start_Suc [of z] show ?case by linarith
qed simp

text \<open>The quotient by a cycle's length, cut at 3 because the last cycle may be a day longer.\<close>

lemma quot_bounds:
  fixes d c :: int
  assumes "0 < c" and "0 \<le> d"
  shows "0 \<le> d div c" and "d = c * (d div c) + d mod c" and "0 \<le> d mod c" and "d mod c \<le> c - 1"
  using assms pos_mod_bound [of c d] by (simp_all add: pos_imp_zdiv_nonneg_iff)

lemma cycle_bounds:
  fixes d c :: int
  assumes "0 < c" and "0 \<le> d" and "d \<le> 4 * c"
  shows "0 \<le> min 3 (d div c)" and "min 3 (d div c) \<le> 3" and "0 \<le> d - c * min 3 (d div c)"
    and "d - c * min 3 (d div c) \<le> c" and "min 3 (d div c) < 3 \<Longrightarrow> d - c * min 3 (d div c) \<le> c - 1"
proof -
  note q = quot_bounds [OF assms(1,2)]
  have "c * 3 \<le> c * (d div c)" if "3 \<le> d div c"
    using that assms(1) by (intro mult_left_mono) auto
  then have hi: "0 \<le> d - c * 3 \<and> d - c * 3 \<le> c" if "3 \<le> d div c"
    using q assms(3) that by linarith
  have lo: "0 \<le> d - c * (d div c)" "d - c * (d div c) \<le> c - 1" using q by linarith+
  show "0 \<le> d - c * min 3 (d div c)" and "d - c * min 3 (d div c) \<le> c"
    using hi lo by (cases "3 \<le> d div c"; simp add: min_def)+
  show "min 3 (d div c) < 3 \<Longrightarrow> d - c * min 3 (d div c) \<le> c - 1"
    using lo by (simp add: min_def split: if_splits)
qed (use quot_bounds [OF assms(1,2)] in auto)

text \<open>The cycle decomposition finds the year a day lies in.\<close>

lemma year_day_correct:
  assumes "year_day d0 = (y, yd)"
  shows "d0 = year_start y + yd" and "0 \<le> yd" and "yd < year_length y"
proof -
  define n400 d1 where "n400 = d0 div 146097" and "d1 = d0 mod 146097"
  define n100 d2 where "n100 = min 3 (d1 div 36524)" and "d2 = d1 - 36524 * n100"
  define n4 d3 where "n4 = d2 div 1461" and "d3 = d2 mod 1461"
  define n1 where "n1 = min 3 (d3 div 365)"
  note defs = n400_def d1_def n100_def d2_def n4_def d3_def n1_def
  have "year_day d0 = (400 * n400 + 100 * n100 + 4 * n4 + n1 + 1, d3 - 365 * n1)"
    by (simp only: year_day_def Let_def defs)
  then have y: "y = 400 * n400 + 100 * n100 + 4 * n4 + n1 + 1" and yd: "yd = d3 - 365 * n1"
    using assms by (simp_all only: prod.inject)
  have d0: "d0 = 146097 * n400 + d1" by (simp only: n400_def d1_def mult_div_mod_eq)
  have d1: "0 \<le> d1" "d1 \<le> 146096"
    using pos_mod_sign [of 146097 d0] pos_mod_bound [of 146097 d0] by (simp_all add: d1_def)
  have "d1 \<le> 4 * 36524" using d1 by simp
  note c100 = cycle_bounds [OF zero_less_numeral d1(1) this, folded n100_def, folded d2_def]
  have n100: "0 \<le> n100" "n100 \<le> 3" and d2: "0 \<le> d2" "d2 \<le> 36524" "n100 < 3 \<Longrightarrow> d2 \<le> 36523"
    using c100 by simp_all
  note c4 = quot_bounds [where c = 1461, OF zero_less_numeral d2(1), folded n4_def, folded d3_def]
  have d2': "d2 = 1461 * n4 + d3" and n4: "0 \<le> n4" "n4 \<le> 24" and d3: "0 \<le> d3" "d3 \<le> 1460"
    using c4 d2(2) by linarith+
  have d3': "n4 = 24 \<Longrightarrow> n100 < 3 \<Longrightarrow> d3 \<le> 1459" using d2 d2' by simp
  have "d3 \<le> 4 * 365" using d3 by simp
  note c1 = cycle_bounds [OF zero_less_numeral d3(1) this, folded n1_def, folded yd]
  have n1: "0 \<le> n1" "n1 \<le> 3" and yd0: "0 \<le> yd" and yd1: "n1 < 3 \<Longrightarrow> yd \<le> 364" and yd2: "n1 = 3 \<Longrightarrow> yd \<le> d3 - 1095"
    using c1 d3 yd by (linarith | simp)+
  have q: "(y - 1) div 4 = 100 * n400 + 25 * n100 + n4"
    by (rule int_div_pos_eq [where r = n1]) (use y n1 in auto)
  have q': "(y - 1) div 100 = 4 * n400 + n100"
    by (rule int_div_pos_eq [where r = "4 * n4 + n1"]) (use y n1 n4 in auto)
  have q'': "(y - 1) div 400 = n400"
    by (rule int_div_pos_eq [where r = "100 * n100 + 4 * n4 + n1"]) (use y n1 n4 n100 in auto)
  show "d0 = year_start y + yd"
    unfolding year_start_def q q' q'' using d0 d2' yd y by (simp add: d2_def)
  show "0 \<le> yd" by (rule yd0)
  have leap: "is_leap y" if "n1 = 3" and "\<not> (n4 = 24 \<and> n100 < 3)"
  proof -
    have "y mod 4 = 0"
      by (rule int_mod_pos_eq [where q = "100 * n400 + 25 * n100 + n4 + 1"]) (use y that in auto)
    moreover have "y mod 100 = 4 * n4 + 4" if "n4 < 24"
      by (rule int_mod_pos_eq [where q = "4 * n400 + n100"]) (use y \<open>n1 = 3\<close> that n4 in auto)
    moreover have "y mod 400 = 0" if "n4 = 24" "n100 = 3"
      by (rule int_mod_pos_eq [where q = "n400 + 1"]) (use y \<open>n1 = 3\<close> that in auto)
    ultimately show ?thesis using that n4 n100 by (fastforce simp: is_leap_def)
  qed
  show "yd < year_length y"
  proof (cases "n1 = 3 \<and> \<not> (n4 = 24 \<and> n100 < 3)")
    case True
    with leap have "is_leap y" by blast
    with True yd2 d3 show ?thesis by (simp add: year_length_def)
  next
    case False
    with yd1 yd2 d3' n1 have "yd \<le> 364" by fastforce
    then show ?thesis by (simp add: year_length_def)
  qed
qed

lemma year_day_less:
  assumes "d < e" and "year_day d = (y, yd)" and "year_day e = (z, zd)"
  shows "y < z \<or> y = z \<and> yd < zd"
proof (rule ccontr)
  assume "\<not> ?thesis"
  note c = year_day_correct [OF assms(2)] year_day_correct [OF assms(3)]
  from \<open>\<not> ?thesis\<close> consider "z + 1 \<le> y" | "y = z" "zd \<le> yd" by linarith
  then show False
  proof cases
    case 1
    then have "year_start z + year_length z \<le> year_start y"
      by (metis year_start_Suc year_start_mono)
    with c assms(1) show False by linarith
  next
    case 2
    with c assms(1) show False by simp
  qed
qed

lemma takeWhile_le_mono:
  fixes xs :: "int list"
  assumes "a \<le> b"
  shows "length (takeWhile (\<lambda>x. x \<le> a) xs) \<le> length (takeWhile (\<lambda>x. x \<le> b) xs)"
  using assms by (induction xs) auto

lemma month_day_less:
  assumes "a < b" and "month_day l a = (m, d)" and "month_day l b = (n, e)"
  shows "m < n \<or> m = n \<and> d < e"
proof -
  let ?t = "\<lambda>a. takeWhile (\<lambda>x. x \<le> a) (days_before l)"
  have le: "length (?t a) \<le> length (?t b)" using assms(1) by (intro takeWhile_le_mono) simp
  have "?t a = ?t b" if "length (?t a) = length (?t b)"
    using that by (metis takeWhile_eq_take)
  with le assms show ?thesis by (auto simp: month_day_def Let_def)
qed

lemma month_day_bounds:
  assumes "month_day l yd = (m, d)" and "0 \<le> yd" and "yd < (if l then 366 else 365)"
  shows "1 \<le> m" and "m \<le> 12" and "1 \<le> d" and "d \<le> 31"
  using assms by (auto simp: month_day_def Let_def days_before_def split: if_splits)

subsection \<open>The layouts\<close>

lemma unix_less_iff:
  "unix t < unix u \<longleftrightarrow> day_of t < day_of u \<or> day_of t = day_of u \<and> clock_of t < clock_of u"
proof -
  have "unix v = 86400 * (unix v div 86400) + clock_of v" and "0 \<le> clock_of v" and "clock_of v < 86400"
    and "day_of v = unix v div 86400 + unix_to_internal_days" for v
    by (simp_all add: clock_of_def day_of_def)
  note b = this [of t] this [of u]
  from b show ?thesis by linarith
qed

lemma clock_bounds:
  "0 \<le> clock_of t div 3600" "clock_of t div 3600 < 24" "0 \<le> clock_of t div 60 mod 60"
  "clock_of t div 60 mod 60 < 60" "0 \<le> clock_of t mod 60" "clock_of t mod 60 < 60"
proof -
  have "0 \<le> clock_of t" and "clock_of t < 86400" by (simp_all add: clock_of_def)
  then show "0 \<le> clock_of t div 3600" and "clock_of t div 3600 < 24" by simp_all
qed simp_all

lemma clock_less:
  assumes "clock_of t < clock_of u"
  shows "clock_of t div 3600 < clock_of u div 3600
    \<or> clock_of t div 3600 = clock_of u div 3600
      \<and> (clock_of t div 60 mod 60 < clock_of u div 60 mod 60
        \<or> clock_of t div 60 mod 60 = clock_of u div 60 mod 60 \<and> clock_of t mod 60 < clock_of u mod 60)"
proof -
  have split: "c = 3600 * (c div 3600) + 60 * (c div 60 mod 60) + c mod 60" for c :: int
  proof -
    have "c div 60 = 60 * (c div 60 div 60) + c div 60 mod 60" by (simp only: mult_div_mod_eq)
    moreover have "c div 60 div 60 = c div 3600" by (simp add: zdiv_zmult2_eq [symmetric])
    moreover have "c = 60 * (c div 60) + c mod 60" by (simp only: mult_div_mod_eq)
    ultimately show ?thesis by (simp only: distrib_left)
  qed
  define h i s where "h = clock_of t div 3600" and "i = clock_of t div 60 mod 60" and "s = clock_of t mod 60"
  define h' i' s' where "h' = clock_of u div 3600" and "i' = clock_of u div 60 mod 60" and "s' = clock_of u mod 60"
  note defs = h_def i_def s_def h'_def i'_def s'_def
  have "clock_of t = 3600 * h + 60 * i + s" and "clock_of u = 3600 * h' + 60 * i' + s'"
    unfolding defs by (rule split)+
  moreover have "0 \<le> i" "i < 60" "0 \<le> s" "s < 60" "0 \<le> i'" "i' < 60" "0 \<le> s'" "s' < 60"
    unfolding defs by (rule clock_bounds)+
  ultimately have "h < h' \<or> h = h' \<and> (i < i' \<or> i = i' \<and> s < s')"
    using assms by linarith
  then show ?thesis by (simp only: defs)
qed

text \<open>The fields of the layout of an instant with a four-digit year, and their bounds.\<close>

lemma date_fields:
  assumes "printable t"
  obtains y yd m d where "year_day (day_of t) = (y, yd)" and "month_day (is_leap y) yd = (m, d)"
    and "0 \<le> y" and "y \<le> 9999" and "1 \<le> m" and "m \<le> 12" and "1 \<le> d" and "d \<le> 31"
proof -
  obtain y yd where y: "year_day (day_of t) = (y, yd)" by fastforce
  obtain m d where m: "month_day (is_leap y) yd = (m, d)" by fastforce
  have "0 \<le> yd" and "yd < (if is_leap y then 366 else 365)"
    using year_day_correct [OF y] by (simp_all add: year_length_def)
  from month_day_bounds [OF m this] assms y m that show thesis
    by (simp add: printable_def year_of_def)
qed

lemma length_date_time:
  assumes "printable t"
  shows "length (date_time t) = 19"
proof -
  from assms obtain y yd m d where "year_day (day_of t) = (y, yd)" "month_day (is_leap y) yd = (m, d)"
    and b: "0 \<le> y" "y \<le> 9999" "1 \<le> m" "m \<le> 12" "1 \<le> d" "d \<le> 31"
    by (rule date_fields)
  then show ?thesis
    using clock_bounds [of t] by (simp add: date_time_def Let_def length_pad nat_less_iff)
qed

lemma layout_less:
  fixes y m d h i s y' m' d' h' i' s' :: nat
  assumes "y < 10000" "m < 100" "d < 100" "h < 100" "i < 100" "s < 100"
    and "y' < 10000" "m' < 100" "d' < 100" "h' < 100" "i' < 100" "s' < 100"
    and "y < y' \<or> y = y' \<and> (m < m' \<or> m = m' \<and> (d < d' \<or> d = d' \<and>
      (h < h' \<or> h = h' \<and> (i < i' \<or> i = i' \<and> s < s'))))"
  shows "pad 4 y @ ''-'' @ pad 2 m @ ''-'' @ pad 2 d @ ''T'' @ pad 2 h @ '':'' @ pad 2 i @ '':'' @ pad 2 s
    < pad 4 y' @ ''-'' @ pad 2 m' @ ''-'' @ pad 2 d' @ ''T'' @ pad 2 h' @ '':'' @ pad 2 i' @ '':'' @ pad 2 s'"
  using assms by (simp add: list_less_append length_pad pad_less_iff pad_eq_iff)

lemma nat_lex:
  fixes a b :: int
  assumes "0 \<le> a" and "0 \<le> b"
  shows "nat a < nat b \<longleftrightarrow> a < b" and "nat a = nat b \<longleftrightarrow> a = b"
  using assms by auto

lemma date_time_less:
  assumes "printable t" and "printable u" and "unix t < unix u"
  shows "date_time t < date_time u"
proof -
  from assms(1) obtain y yd m d where t: "year_day (day_of t) = (y, yd)"
    "month_day (is_leap y) yd = (m, d)"
    and tb: "0 \<le> y" "y \<le> 9999" "1 \<le> m" "m \<le> 12" "1 \<le> d" "d \<le> 31"
    by (rule date_fields)
  from assms(2) obtain z zd n e where u: "year_day (day_of u) = (z, zd)"
    "month_day (is_leap z) zd = (n, e)"
    and ub: "0 \<le> z" "z \<le> 9999" "1 \<le> n" "n \<le> 12" "1 \<le> e" "e \<le> 31"
    by (rule date_fields)
  have "y < z \<or> y = z \<and> (m < n \<or> m = n \<and> (d < e \<or> d = e \<and> clock_of t < clock_of u))"
    using assms(3) t u year_day_less [of "day_of t" "day_of u"] month_day_less [of yd zd "is_leap y"]
    unfolding unix_less_iff by fastforce
  note lex = this clock_less [of t u]
  have m: "0 \<le> m" "0 \<le> d" "0 \<le> n" "0 \<le> e" using tb ub by simp_all
  note nb = nat_lex [OF tb(1) ub(1)] nat_lex [OF m(1) m(3)] nat_lex [OF m(2) m(4)]
    nat_lex [OF clock_bounds(1,1)] nat_lex [OF clock_bounds(3,3)] nat_lex [OF clock_bounds(5,5)]
  have small: "nat y < 10000" "nat m < 100" "nat d < 100" "nat z < 10000" "nat n < 100" "nat e < 100"
    using tb ub by linarith+
  have small': "nat (clock_of v div 3600) < 100" "nat (clock_of v div 60 mod 60) < 100"
    "nat (clock_of v mod 60) < 100" for v
    using clock_bounds [of v] by linarith+
  show ?thesis
    unfolding date_time_def t u Let_def split
  proof (rule layout_less)
    show "nat y < nat z \<or> nat y = nat z \<and> (nat m < nat n \<or> nat m = nat n \<and> (nat d < nat e \<or> nat d = nat e \<and>
      (nat (clock_of t div 3600) < nat (clock_of u div 3600) \<or>
       nat (clock_of t div 3600) = nat (clock_of u div 3600) \<and>
       (nat (clock_of t div 60 mod 60) < nat (clock_of u div 60 mod 60) \<or>
        nat (clock_of t div 60 mod 60) = nat (clock_of u div 60 mod 60) \<and>
        nat (clock_of t mod 60) < nat (clock_of u mod 60)))))"
      unfolding nb using lex by blast
  qed (rule small small')+
qed

lemma date_time_unix: "unix t = unix u \<Longrightarrow> date_time t = date_time u"
  by (simp add: date_time_def day_of_def clock_of_def)

lemma date_time_less_iff:
  assumes "printable t" and "printable u"
  shows "date_time t < date_time u \<longleftrightarrow> unix t < unix u" and "date_time t = date_time u \<longleftrightarrow> unix t = unix u"
  using date_time_less [OF assms] date_time_less [OF assms(2,1)] date_time_unix [of t u]
  by (cases "unix t" "unix u" rule: linorder_cases; force)+

lemma length_nano_digits: "length (nano_digits t) = 9"
  using nanosecond_bounds [of t] by (simp add: nano_digits_def length_pad nat_less_iff second_def)

lemma nano_digits_less_iff:
  "nano_digits t < nano_digits u \<longleftrightarrow> nanosecond t < nanosecond u"
  "nano_digits t = nano_digits u \<longleftrightarrow> nanosecond t = nanosecond u"
proof -
  have b: "nat (nanosecond v) < 10 ^ 9" for v
    using nanosecond_bounds [of v] by (simp add: nat_less_iff second_def)
  show "nano_digits t < nano_digits u \<longleftrightarrow> nanosecond t < nanosecond u"
    and "nano_digits t = nano_digits u \<longleftrightarrow> nanosecond t = nanosecond u"
    using nanosecond_bounds(1) unfolding nano_digits_def
    by (simp_all only: pad_less_iff [OF b b] pad_eq_iff [OF b b] nat_lex zero_less_numeral)
qed

lemma rfc3339_eq_iff:
  "printable t \<Longrightarrow> printable u \<Longrightarrow> rfc3339 t = rfc3339 u \<longleftrightarrow> unix t = unix u"
  by (simp add: rfc3339_def date_time_less_iff)

end
