(* ===== verification/GoString.thy ===== *)
theory GoString
  imports Prelude
begin

text \<open>
  What the program uses of Go's \<open>strings\<close> package. A Go string is a list of bytes, as HOL's
  \<open>string\<close> is, so \<open>len\<close> is \<open>length\<close>; the functions below treat the bytes as UTF-8. White space is
  the set of Unicode white space runes, by their encodings. \<open>ToUpper\<close> is given where its result is
  compared with ASCII text: ASCII letters and the two other runes whose upper case is an ASCII
  letter (U+0131 and U+017F); every other byte is left alone, which such a comparison cannot see.
\<close>

definition bytes :: "nat list \<Rightarrow> string" where
  "bytes = map char_of"

definition space_runes :: "string list" where
  "space_runes =
     map bytes [[9], [10], [11], [12], [13], [32], [194, 133], [194, 160], [225, 154, 128],
       [226, 128, 128], [226, 128, 129], [226, 128, 130], [226, 128, 131], [226, 128, 132],
       [226, 128, 133], [226, 128, 134], [226, 128, 135], [226, 128, 136], [226, 128, 137],
       [226, 128, 138], [226, 128, 168], [226, 128, 169], [226, 128, 175], [226, 129, 159],
       [227, 128, 128]]"

definition has_prefix :: "string \<Rightarrow> string \<Rightarrow> bool" where
  "has_prefix s p \<longleftrightarrow> take (length p) s = p"

lemma prefix_drop_shorter: "w \<noteq> [] \<Longrightarrow> has_prefix s w \<Longrightarrow> length (drop (length w) s) < length s"
  by (cases s; cases w) (auto simp: has_prefix_def)

text \<open>Strips one of the given non-empty runes from the front as long as there is one.\<close>

function trim_left :: "string list \<Rightarrow> string \<Rightarrow> string" where
  "trim_left ws s =
     (case find (\<lambda>w. w \<noteq> [] \<and> has_prefix s w) ws of
        None \<Rightarrow> s
      | Some w \<Rightarrow> trim_left ws (drop (length w) s))"
  by pat_completeness auto
termination
proof (relation "measure (\<lambda>(ws, s). length s)", simp)
  fix ws s w
  assume "find (\<lambda>w. w \<noteq> [] \<and> has_prefix s w) ws = Some w"
  then have "w \<noteq> []" and "has_prefix s w" by (auto simp: find_Some_iff)
  then show "((ws, drop (length w) s), (ws, s)) \<in> measure (\<lambda>(ws, s). length s)"
    by (simp add: prefix_drop_shorter del: length_drop)
qed

declare trim_left.simps [simp del]

definition trim_space :: "string \<Rightarrow> string" where
  "trim_space s = rev (trim_left (map rev space_runes) (rev (trim_left space_runes s)))"

lemma trim_left_length: "length (trim_left ws s) \<le> length s"
proof (induction ws s rule: trim_left.induct)
  case (1 ws s)
  show ?case
    using 1 by (subst trim_left.simps) (fastforce split: option.split)
qed

lemma trim_space_length: "length (trim_space s) \<le> length s"
  unfolding trim_space_def
  using trim_left_length [of space_runes s]
    trim_left_length [of "map rev space_runes" "rev (trim_left space_runes s)"] by simp

lemma trim_left_idem: "trim_left ws (trim_left ws s) = trim_left ws s"
proof (induction ws s rule: trim_left.induct)
  case (1 ws s)
  show ?case
  proof (cases "find (\<lambda>w. w \<noteq> [] \<and> has_prefix s w) ws")
    case None
    then show ?thesis by (simp add: trim_left.simps [of ws s])
  next
    case (Some w)
    with 1 show ?thesis by (simp add: trim_left.simps [of ws s])
  qed
qed

lemma trim_space_Nil [simp]: "trim_space [] = []"
  using trim_space_length [of "[]"] by simp

text \<open>\<open>strings.Split\<close> at slashes.\<close>

fun split_slash :: "string \<Rightarrow> string list" where
  "split_slash [] = [[]]"
| "split_slash (c # cs) =
     (if c = CHR ''/'' then [] # split_slash cs
      else case split_slash cs of [] \<Rightarrow> [[c]] | s # ss \<Rightarrow> (c # s) # ss)"

lemma split_slash_none: "CHR ''/'' \<notin> set s \<Longrightarrow> split_slash s = [s]"
  by (induction s) auto

lemma split_slash_first: "CHR ''/'' \<notin> set s \<Longrightarrow> split_slash (s @ CHR ''/'' # t) = s # split_slash t"
  by (induction s) auto

definition ascii_upper :: "char \<Rightarrow> char" where
  "ascii_upper c =
     (if 97 \<le> (of_char c :: nat) \<and> (of_char c :: nat) \<le> 122 then char_of ((of_char c :: nat) - 32) else c)"

fun to_upper :: "string \<Rightarrow> string" where
  "to_upper (a # b # s) =
     (if [a, b] = bytes [196, 177] then CHR ''I'' # to_upper s
      else if [a, b] = bytes [197, 191] then CHR ''S'' # to_upper s
      else ascii_upper a # to_upper (b # s))"
| "to_upper s = map ascii_upper s"

text \<open>\<open>strings.EqualFold\<close> on ASCII text.\<close>

definition equal_fold :: "string \<Rightarrow> string \<Rightarrow> bool" where
  "equal_fold s t \<longleftrightarrow> map ascii_upper s = map ascii_upper t"

lemma equal_fold_refl: "equal_fold s s"
  by (simp add: equal_fold_def)

lemma equal_fold_sym: "equal_fold s t \<Longrightarrow> equal_fold t s"
  by (simp add: equal_fold_def)

lemma equal_fold_trans: "equal_fold s t \<Longrightarrow> equal_fold t u \<Longrightarrow> equal_fold s u"
  by (simp add: equal_fold_def)

text \<open>Text that begins and ends with a printable ASCII character is not trimmed.\<close>

definition visible :: "char \<Rightarrow> bool" where
  "visible c \<longleftrightarrow> 32 < (of_char c :: nat) \<and> (of_char c :: nat) < 127"

lemma trim_left_none: "\<forall>w \<in> set ws. w \<noteq> [] \<longrightarrow> \<not> has_prefix s w \<Longrightarrow> trim_left ws s = s"
  by (subst trim_left.simps) (auto simp: find_None_iff split: option.split dest!: find_Some_iff [THEN iffD1])

lemma has_prefix_hd: "has_prefix s w \<Longrightarrow> w \<noteq> [] \<Longrightarrow> hd w = hd s"
  by (cases s; cases w) (auto simp: has_prefix_def)

lemma space_runes_invisible: "\<forall>w \<in> set space_runes. \<not> visible (hd w) \<and> \<not> visible (last w)"
  by (simp add: space_runes_def bytes_def visible_def of_char_of)

lemma trim_space_visible:
  assumes "s \<noteq> []" and "visible (hd s)" and "visible (last s)"
  shows "trim_space s = s"
proof -
  have "trim_left space_runes s = s"
    using assms(2) space_runes_invisible by (intro trim_left_none) (metis has_prefix_hd)
  moreover have "trim_left (map rev space_runes) (rev s) = rev s"
  proof (rule trim_left_none, intro ballI impI notI)
    fix w assume w: "w \<in> set (map rev space_runes)" "w \<noteq> []" "has_prefix (rev s) w"
    then have "hd w = last s" using has_prefix_hd hd_rev by metis
    moreover obtain v where "v \<in> set space_runes" and "w = rev v" using w(1) by auto
    ultimately show False using space_runes_invisible assms(3) by (metis hd_rev)
  qed
  ultimately show ?thesis by (simp add: trim_space_def)
qed

end
