(* ===== verification/Domain.thy ===== *)
theory Domain
  imports Complex_Main GoTime GoString
begin

text \<open>
  The data model, \<open>internal/domain/types.go\<close> with \<open>errors.go\<close>, \<open>helpers.go\<close> and \<open>events.go\<close>. A Go
  struct is a record whose fields carry the struct's field names behind a short prefix (\<open>r_Status\<close>
  is \<open>Run.Status\<close>); a pointer is an option. Go's string enumerations are datatypes; where the code
  meets values outside the enumeration (a request before validation) there is a constructor for any
  other string. A row of \<open>schedule_runs\<close> is the record \<open>RunRow\<close>, and \<open>Run\<close> extends it by the fields
  the code fills from other tables.
\<close>

section \<open>Enumerations\<close>

datatype ScheduleKind = ScheduleKindCron | ScheduleKindInterval | ScheduleKindOnce | OtherScheduleKind string

datatype TargetKind = TargetKindHTTP | TargetKindShell | TargetKindWorkflow | OtherTargetKind string

datatype OverlapPolicy = OverlapAllow | OverlapForbid | OverlapQueueLatest | OverlapReplace
  | OtherOverlap string

datatype MisfirePolicy = MisfireSkip | MisfireRunOnceIfLate | MisfireCatchUp | OtherMisfire string

datatype RetryStrategy = RetryNone | RetryExponential | OtherRetryStrategy string

datatype RunStatus = RunPending | RunClaimed | RunRunning | RunSucceeded | RunFailed
  | RunRetryScheduled | RunDeadLettered | RunCancelled | RunSkipped

datatype ExternalJobStatus = ExternalJobSubmitting | ExternalJobQueued | ExternalJobRunning
  | ExternalJobSucceeded | ExternalJobFailed | ExternalJobCancelled | OtherExternalJobStatus string

fun IsActiveStatus :: "RunStatus \<Rightarrow> bool" where
  "IsActiveStatus status \<longleftrightarrow> status = RunClaimed \<or> status = RunRunning"

section \<open>Decoded JSON\<close>

text \<open>The value of an \<open>any\<close>: numbers keep their literal, as \<open>json.Number\<close> does.\<close>

datatype json = JNull | JBool bool | JNumber string | JString string | JArray "json list"
  | JObject "(string \<times> json) list"

section \<open>Schedules\<close>

record ScheduleSpec =
  sp_Kind :: ScheduleKind
  sp_Expr :: string
  sp_EverySeconds :: int
  sp_AnchorAt :: "time option"
  sp_At :: "time option"

record HTTPJobSpec =
  hj_PollIntervalSeconds :: int
  hj_LookupURL :: string

record TargetSpec =
  t_Kind :: TargetKind
  t_Method :: string
  t_URL :: string
  t_Headers :: "(string \<times> string) list"
  t_Body :: "(string \<times> json) list option"
  t_Command :: string
  t_Args :: "string list"
  t_WorkflowID :: string
  t_Input :: "(string \<times> json) list option"
  t_HTTPJob :: "HTTPJobSpec option"

definition zero_TargetSpec :: TargetSpec where
  "zero_TargetSpec =
     \<lparr>t_Kind = OtherTargetKind '''', t_Method = '''', t_URL = '''', t_Headers = [], t_Body = None,
      t_Command = '''', t_Args = [], t_WorkflowID = '''', t_Input = None, t_HTTPJob = None\<rparr>"

record Policy =
  p_Overlap :: OverlapPolicy
  p_Misfire :: MisfirePolicy
  p_TimeoutSeconds :: int
  p_MaxConcurrency :: int

record RetryPolicy =
  rp_MaxAttempts :: int
  rp_Strategy :: RetryStrategy
  rp_InitialDelaySeconds :: int
  rp_MaxDelaySeconds :: int

record Schedule =
  s_ID :: string
  s_Name :: string
  s_Enabled :: bool
  s_Timezone :: string
  s_Schedule :: ScheduleSpec
  s_Target :: TargetSpec
  s_Policy :: Policy
  s_Retry :: RetryPolicy
  s_StartAt :: "time option"
  s_EndAt :: "time option"
  s_PausedAt :: "time option"
  s_NextRunAt :: "time option"
  s_LastRunAt :: "time option"
  s_CreatedAt :: time
  s_UpdatedAt :: time

record CreateScheduleRequest =
  c_Name :: string
  c_Enabled :: bool
  c_Timezone :: string
  c_Schedule :: ScheduleSpec
  c_Target :: TargetSpec
  c_Policy :: Policy
  c_Retry :: RetryPolicy
  c_StartAt :: "time option"
  c_EndAt :: "time option"

record PatchPolicy =
  pp_Overlap :: "OverlapPolicy option"
  pp_Misfire :: "MisfirePolicy option"
  pp_TimeoutSeconds :: "int option"
  pp_MaxConcurrency :: "int option"

record PatchRetryPolicy =
  pr_MaxAttempts :: "int option"
  pr_Strategy :: "RetryStrategy option"
  pr_InitialDelaySeconds :: "int option"
  pr_MaxDelaySeconds :: "int option"

record PatchScheduleRequest =
  ps_Name :: "string option"
  ps_Enabled :: "bool option"
  ps_Timezone :: "string option"
  ps_Schedule :: "ScheduleSpec option"
  ps_Target :: "TargetSpec option"
  ps_Policy :: "PatchPolicy option"
  ps_Retry :: "PatchRetryPolicy option"
  ps_StartAt :: "time option option"
  ps_EndAt :: "time option option"

section \<open>External jobs\<close>

text \<open>A \<open>float64\<close> by value; the percentage of a progress report is all the code reads.\<close>

datatype float64 = NaN | PosInf | NegInf | Finite rat

record JobProgress =
  jp_Percent :: "float64 option"
  jp_Message :: string

record JobArtifact =
  ja_Name :: string
  ja_URL :: string
  ja_ContentType :: string

record ExternalJob =
  j_JobID :: string
  j_StatusURL :: string
  j_Status :: ExternalJobStatus
  j_Progress :: "JobProgress option"
  j_Result :: string
  j_Artifacts :: "JobArtifact list"
  j_Error :: string
  j_SubmittedAt :: time
  j_UpdatedAt :: time
  j_DeadlineAt :: time
  j_Compacted :: bool
  j_CanReconcile :: bool
  j_RequestTarget :: TargetSpec

definition Terminal :: "ExternalJob \<Rightarrow> bool" where
  "Terminal j \<longleftrightarrow> j_Status j = ExternalJobSucceeded \<or> j_Status j = ExternalJobFailed
     \<or> j_Status j = ExternalJobCancelled"

definition ReconciliationAvailable :: "ExternalJob \<Rightarrow> bool" where
  "ReconciliationAvailable j =
     (if j_Compacted j \<or> Terminal j then False
      else (j_JobID j \<noteq> '''' \<and> j_StatusURL j \<noteq> '''')
        \<or> (j_Status j = ExternalJobSubmitting
           \<and> (case t_HTTPJob (j_RequestTarget j) of None \<Rightarrow> False | Some h \<Rightarrow> hj_LookupURL h \<noteq> '''')))"

section \<open>Runs\<close>

record RunRow =
  r_ID :: string
  r_ScheduleID :: string
  r_OccurrenceKey :: string
  r_NominalTime :: time
  r_DueTime :: time
  r_Status :: RunStatus
  r_Attempt :: int
  r_ClaimedByWorkerID :: "string option"
  r_ClaimExpiresAt :: "time option"
  r_StartedAt :: "time option"
  r_FinishedAt :: "time option"
  r_HTTPStatusCode :: "int option"
  r_ExitCode :: "int option"
  r_ResultJSON :: string
  r_ErrorText :: "string option"
  r_RetryAvailableAt :: "time option"
  r_CreatedAt :: time
  r_UpdatedAt :: time

record Receipt =
  rc_ID :: string
  rc_RunID :: string
  rc_ReceiptKind :: string
  rc_ContentType :: string
  rc_Body :: string
  rc_CreatedAt :: time

record DeadLetter =
  dl_ID :: string
  dl_RunID :: string
  dl_ScheduleID :: string
  dl_OccurrenceKey :: string
  dl_Reason :: string
  dl_PayloadJSON :: string
  dl_CreatedAt :: time

record TriggerEvent =
  ev_ID :: string
  ev_Source :: string
  ev_Data :: "(string \<times> json) list option"

record RunSummary =
  rs_ID :: string
  rs_ScheduleID :: string
  rs_ScheduleName :: string
  rs_OccurrenceKey :: string
  rs_NominalTime :: time
  rs_DueTime :: time
  rs_Status :: RunStatus
  rs_Attempt :: int
  rs_TargetKind :: TargetKind
  rs_ClaimedByWorkerID :: "string option"
  rs_StartedAt :: "time option"
  rs_FinishedAt :: "time option"
  rs_RetryAvailableAt :: "time option"
  rs_ErrorText :: "string option"
  rs_CreatedAt :: time
  rs_UpdatedAt :: time

record Run = RunRow +
  r_Receipts :: "Receipt list"
  r_Attempts :: "RunSummary list"
  r_DeadLetter :: "DeadLetter option"
  r_ExternalJob :: "ExternalJob option"
  r_Event :: "TriggerEvent option"
  r_ExecutionLeaseToken :: string

record ScheduleSummary =
  ss_ID :: string
  ss_Name :: string
  ss_Enabled :: bool
  ss_Timezone :: string
  ss_Schedule :: ScheduleSpec
  ss_TargetKind :: TargetKind
  ss_PausedAt :: "time option"
  ss_NextRunAt :: "time option"
  ss_LastRunAt :: "time option"
  ss_CreatedAt :: time
  ss_UpdatedAt :: time

record RequestAudit =
  au_ID :: string
  au_Method :: string
  au_Path :: string
  au_StatusCode :: int
  au_RemoteAddr :: string
  au_UserAgent :: string
  au_AuthSubject :: string
  au_CreatedAt :: time

section \<open>Errors and identities\<close>

record ValidationError =
  ve_Field :: string
  ve_Message :: string

record APIError =
  ae_Status :: int
  ae_Code :: string
  ae_Message :: string
  ae_Details :: "ValidationError list"

definition NewValidationError :: "ValidationError list \<Rightarrow> APIError" where
  "NewValidationError details =
     \<lparr>ae_Status = 400, ae_Code = ''validation_failed'', ae_Message = ''validation failed'', ae_Details = details\<rparr>"

text \<open>\<open>%q\<close> of an identifier, for text without quotes, backslashes or control characters.\<close>

definition quoted :: "string \<Rightarrow> string" where
  "quoted s = [char_of (34 :: nat)] @ s @ [char_of (34 :: nat)]"

definition NewNotFoundError :: "string \<Rightarrow> string \<Rightarrow> APIError" where
  "NewNotFoundError kind i =
     \<lparr>ae_Status = 404, ae_Code = ''not_found'', ae_Message = kind @ '' '' @ quoted i @ '' was not found'',
      ae_Details = []\<rparr>"

definition NewConflictError :: "string \<Rightarrow> APIError" where
  "NewConflictError message =
     \<lparr>ae_Status = 409, ae_Code = ''conflict'', ae_Message = message, ae_Details = []\<rparr>"

definition NewBadRequestError :: "string \<Rightarrow> APIError" where
  "NewBadRequestError message =
     \<lparr>ae_Status = 400, ae_Code = ''bad_request'', ae_Message = message, ae_Details = []\<rparr>"

definition NewUnauthorizedError :: "string \<Rightarrow> APIError" where
  "NewUnauthorizedError message =
     \<lparr>ae_Status = 401, ae_Code = ''unauthorized'', ae_Message = message, ae_Details = []\<rparr>"

definition OccurrenceKey :: "string \<Rightarrow> time \<Rightarrow> string" where
  "OccurrenceKey scheduleID nominal = scheduleID @ '':'' @ rfc3339 nominal"

text \<open>Occurrences of one schedule have the same key exactly when they fall in the same second.\<close>

lemma OccurrenceKey_eq_iff:
  "printable t \<Longrightarrow> printable u \<Longrightarrow> OccurrenceKey sid t = OccurrenceKey sid u \<longleftrightarrow> unix t = unix u"
  by (simp add: OccurrenceKey_def rfc3339_eq_iff)

end
