(* ===== verification/External.thy ===== *)
theory External
  imports Domain
begin

text \<open>
  Code outside the repository that the model is parametric in. \<open>Env\<close> collects it: the time zone
  database behind \<open>time.LoadLocation\<close>, the cron parser of \<open>robfig/cron\<close> with the \<open>Next\<close> of a parsed
  expression in a time zone (\<open>None\<close> is the zero time, \<open>no further slot\<close>), and \<open>net/url\<close> parsing with
  the parts of a URL the code looks at. \<open>cron_later\<close> states the documented behaviour of \<open>Next\<close> that
  the planner relies on: the next activation is later than the given time.
\<close>

record URL =
  u_Scheme :: string
  u_Host :: string
  u_Hostname :: string
  u_Port :: string
  u_HasUser :: bool
  u_Fragment :: string

record Env =
  load_location :: "string \<Rightarrow> bool"
  cron_parses :: "string \<Rightarrow> bool"
  cron_next :: "string \<Rightarrow> string \<Rightarrow> time \<Rightarrow> time option"
  url_parse :: "string \<Rightarrow> URL option"
  url_parse_request_uri :: "string \<Rightarrow> bool"

text \<open>Instants whose Unix seconds are far from the ends of the 64-bit range.\<close>

definition time_ok :: "time \<Rightarrow> bool" where
  "time_ok t \<longleftrightarrow> - (2 ^ 60) \<le> unix t \<and> unix t < 2 ^ 60"

definition cron_later :: "Env \<Rightarrow> bool" where
  "cron_later env \<longleftrightarrow> (\<forall>expr tz t u. cron_next env expr tz t = Some u \<longrightarrow> t < u \<and> time_ok u)"

text \<open>A concrete environment for evaluation: UTC, an every-minute cron, and one known URL.\<close>

definition sample_env :: Env where
  "sample_env =
     \<lparr>load_location = (\<lambda>tz. tz = ''UTC''),
      cron_parses = (\<lambda>e. e = ''* * * * *''),
      cron_next = (\<lambda>e tz t.
        let u = (unix t div 60 + 1) * 60 * second in if time_ok u then Some u else None),
      url_parse = (\<lambda>s. if s = ''http://h/x''
        then Some \<lparr>u_Scheme = ''http'', u_Host = ''h'', u_Hostname = ''h'', u_Port = '''',
                   u_HasUser = False, u_Fragment = ''''\<rparr> else None),
      url_parse_request_uri = (\<lambda>s. s = ''http://h/x'')\<rparr>"

lemma unix_less_imp: "unix t < unix u \<Longrightarrow> t < u"
  unfolding unix_def by (rule ccontr) (simp add: not_less zdiv_mono1 second_def leD)

lemma time_less_iff:
  "t < u \<longleftrightarrow> unix t < unix u \<or> unix t = unix u \<and> nanosecond t < nanosecond u"
proof -
  have "t = unix t * second + nanosecond t" and "u = unix u * second + nanosecond u"
    by (simp_all add: unix_nanosecond)
  moreover have "unix t < unix u \<Longrightarrow> t < u" and "unix u < unix t \<Longrightarrow> u < t"
    by (simp_all add: unix_less_imp)
  ultimately show ?thesis by (metis add_less_cancel_left linorder_neqE_linordered_idom order_less_asym)
qed

lemma cron_later_sample: "cron_later sample_env"
proof -
  have "t < (unix t div 60 + 1) * 60 * second" for t
  proof (rule unix_less_imp)
    have "unix t < (unix t div 60 + 1) * 60" by simp
    then show "unix t < unix ((unix t div 60 + 1) * 60 * second)"
      using unix_time_unix [of 0 "(unix t div 60 + 1) * 60"] by (simp add: time_unix_def second_def)
  qed
  then show ?thesis by (auto simp: cron_later_def sample_env_def Let_def split: if_splits)
qed

text \<open>A four-digit year bounds the seconds.\<close>

lemma year_le_time_bound:
  assumes "year_of t \<le> 9999"
  shows "unix t < 2 ^ 60"
proof -
  obtain y yd where y: "year_day (day_of t) = (y, yd)" by fastforce
  note c = year_day_correct [OF y]
  have "y \<le> 9999" using assms y by (simp add: year_of_def)
  then have "year_start y \<le> year_start 9999" by (rule year_start_mono)
  also have "\<dots> < 4000000" by (simp add: year_start_def)
  finally have "day_of t < 4000400" using c by (simp add: year_length_def split: if_splits)
  then have "unix t div 86400 < 4000400" by (simp add: day_of_def unix_to_internal_days_def)
  then have "unix t < 4000400 * 86400" by (simp add: div_less_iff_less_mult)
  then show ?thesis by simp
qed

lemma year_of_mono: "t \<le> u \<Longrightarrow> year_of t \<le> year_of u"
proof -
  assume "t \<le> u"
  then have "unix t \<le> unix u" unfolding unix_def by (simp add: zdiv_mono1 second_def)
  then have "day_of t \<le> day_of u" unfolding day_of_def by (simp add: zdiv_mono1)
  then show ?thesis
    using year_day_less [of "day_of t" "day_of u"]
    by (cases "year_day (day_of t)"; cases "year_day (day_of u)")
       (fastforce simp: year_of_def le_less)
qed

end
