(* ===== verification/Timecalc.thy ===== *)
theory Timecalc
  imports External
begin

text \<open>
  The time calculator, \<open>internal/timecalc/timecalc.go\<close>: the next nominal slot of a schedule after
  an instant. For interval schedules the result is characterised exactly, as the least slot of the
  anchored grid after the instant and inside the schedule's window. The second half is the interface
  its clients use: a source of strictly later slots, over which the catch-up loop of the planner
  ends with the due slots in order.
\<close>

section \<open>The calculator\<close>

definition max_duration_seconds :: int where
  "max_duration_seconds = (2 ^ 63 - 1) sdiv second"

definition bound :: "Schedule \<Rightarrow> time \<Rightarrow> time option" where
  "bound s nxt =
     (if (case s_StartAt s of Some st \<Rightarrow> nxt < st | None \<Rightarrow> False) then None
      else if (case s_EndAt s of Some en \<Rightarrow> en < nxt | None \<Rightarrow> False) then None
      else Some nxt)"

definition base_after :: "Schedule \<Rightarrow> time \<Rightarrow> time" where
  "base_after s after =
     (case s_StartAt s of Some st \<Rightarrow> if after < st then st - 1 else after | None \<Rightarrow> after)"

definition interval_anchor :: "Schedule \<Rightarrow> time" where
  "interval_anchor s =
     (case sp_AnchorAt (s_Schedule s) of Some a \<Rightarrow> a
      | None \<Rightarrow> (case s_StartAt s of Some st \<Rightarrow> st | None \<Rightarrow> s_CreatedAt s))"

definition next_interval :: "Schedule \<Rightarrow> time \<Rightarrow> time option" where
  "next_interval s after =
     (let anchor = interval_anchor s; base = base_after s after in
      if base < anchor then bound s anchor
      else
        let intervalSeconds = sp_EverySeconds (s_Schedule s);
            elapsed0 = int64_wrap (unix base - unix anchor);
            elapsedSeconds = (if nanosecond base < nanosecond anchor then int64_wrap (elapsed0 - 1) else elapsed0);
            steps = int64_wrap (elapsedSeconds sdiv intervalSeconds + 1);
            nxt = time_unix (int64_wrap (unix anchor + int64_wrap (steps * intervalSeconds))) (nanosecond anchor)
        in if year_of nxt > 9999 then None else bound s nxt)"

definition NextAfter :: "Env \<Rightarrow> Schedule \<Rightarrow> time \<Rightarrow> (string, time option) result" where
  "NextAfter env s after =
     (if \<not> load_location env (s_Timezone s) then Inl ''unknown time zone''
      else case sp_Kind (s_Schedule s) of
        ScheduleKindCron \<Rightarrow>
          if \<not> cron_parses env (sp_Expr (s_Schedule s)) then Inl ''cron expression''
          else (case cron_next env (sp_Expr (s_Schedule s)) (s_Timezone s) (base_after s after) of
              None \<Rightarrow> Inr None
            | Some nxt \<Rightarrow>
                if (case s_EndAt s of Some en \<Rightarrow> en < nxt | None \<Rightarrow> False) then Inr None
                else Inr (Some nxt))
      | ScheduleKindInterval \<Rightarrow>
          if sp_EverySeconds (s_Schedule s) \<le> 0 \<or> sp_EverySeconds (s_Schedule s) > max_duration_seconds
          then Inl ''interval must have a positive supported duration''
          else Inr (next_interval s after)
      | ScheduleKindOnce \<Rightarrow>
          (case sp_At (s_Schedule s) of
             None \<Rightarrow> Inl ''once schedule missing at''
           | Some nxt \<Rightarrow> if \<not> after < nxt then Inr None else Inr (bound s nxt))
      | OtherScheduleKind k \<Rightarrow> Inl (''unknown schedule kind '' @ quoted k))"

section \<open>The interval grid\<close>

lemma max_duration_seconds_value: "max_duration_seconds = 9223372036"
  by (simp add: max_duration_seconds_def second_def signed_divide_int_def)

lemma base_after_ge: "after \<le> base_after s after"
  by (auto simp: base_after_def split: option.split)

lemma bound_Some: "bound s t = Some u \<Longrightarrow> u = t"
  by (auto simp: bound_def split: if_splits)

definition window_ok :: "Schedule \<Rightarrow> time \<Rightarrow> bool" where
  "window_ok s t \<longleftrightarrow> (case s_StartAt s of Some st \<Rightarrow> st \<le> t | None \<Rightarrow> True)
     \<and> (case s_EndAt s of Some en \<Rightarrow> t \<le> en | None \<Rightarrow> True)"

lemma bound_iff: "bound s t = (if window_ok s t then Some t else None)"
  by (auto simp: bound_def window_ok_def split: option.split)

text \<open>The slots of an interval schedule: the anchor and every interval after it.\<close>

definition is_slot :: "Schedule \<Rightarrow> time \<Rightarrow> bool" where
  "is_slot s t \<longleftrightarrow> (\<exists>k \<ge> 0. t = interval_anchor s + k * (sp_EverySeconds (s_Schedule s) * second))"

text \<open>The times a schedule mentions are far from the ends of the range.\<close>

definition schedule_times_ok :: "Schedule \<Rightarrow> bool" where
  "schedule_times_ok s \<longleftrightarrow> time_ok (interval_anchor s)
     \<and> (case s_StartAt s of Some st \<Rightarrow> time_ok st \<and> time_ok (st - 1) | None \<Rightarrow> True)
     \<and> (case sp_At (s_Schedule s) of Some a \<Rightarrow> time_ok a | None \<Rightarrow> True)"

definition valid_interval :: "Schedule \<Rightarrow> bool" where
  "valid_interval s \<longleftrightarrow> 0 < sp_EverySeconds (s_Schedule s) \<and> sp_EverySeconds (s_Schedule s) \<le> max_duration_seconds"

lemma base_after_time_ok: "schedule_times_ok s \<Longrightarrow> time_ok t \<Longrightarrow> time_ok (base_after s t)"
  by (auto simp: base_after_def schedule_times_ok_def split: option.splits)

text \<open>No 64-bit operation of the grid computation overflows, and the quotient is the floor.\<close>

lemma interval_arith:
  assumes "valid_interval s" and "time_ok anchor" and "time_ok base" and "anchor \<le> base"
  defines "every \<equiv> sp_EverySeconds (s_Schedule s)"
  defines "e0 \<equiv> int64_wrap (unix base - unix anchor)"
  defines "e \<equiv> if nanosecond base < nanosecond anchor then int64_wrap (e0 - 1) else e0"
  defines "steps \<equiv> int64_wrap (e sdiv every + 1)"
  defines "nxt \<equiv> time_unix (int64_wrap (unix anchor + int64_wrap (steps * every))) (nanosecond anchor)"
  shows "\<exists>k > 0. nxt = anchor + k * (every * second) \<and> base < nxt \<and> nxt \<le> base + every * second"
proof -
  have every: "0 < every" "every < 2 ^ 34"
    using assms(1) by (simp_all add: valid_interval_def every_def max_duration_seconds_value)
  define d where "d = unix base - unix anchor"
  define b where "b = (if nanosecond base < nanosecond anchor then 1 else 0 :: int)"
  have d1: "0 \<le> d - b"
  proof (cases "anchor = base")
    case True
    then show ?thesis by (simp add: d_def b_def)
  next
    case False
    with assms(4) have "unix anchor < unix base \<or> unix anchor = unix base \<and> nanosecond anchor < nanosecond base"
      using time_less_iff [of anchor base] by simp
    then show ?thesis unfolding d_def b_def by (elim disjE) simp_all
  qed
  have d2: "d < 2 ^ 61" using assms(2,3) unfolding d_def time_ok_def by simp
  have b: "0 \<le> b" "b \<le> 1" by (simp_all add: b_def)
  note d = d1 d2
  have e0: "e0 = d" unfolding e0_def d_def [symmetric]
    using d b by (intro int64_wrap_id) (simp add: is_int64_def)
  have "int64_wrap (d - 1) = d - 1"
    using d b by (intro int64_wrap_id) (simp add: is_int64_def)
  then have e: "e = d - b" by (simp add: e_def e0 b_def)
  define q where "q = e div every"
  have e_pos: "0 \<le> e" "e < 2 ^ 61" using d b e by simp_all
  have r: "e = q * every + e mod every" by (simp add: q_def)
  moreover have "0 \<le> e mod every" and "e mod every < every"
    using every(1) by simp_all
  ultimately have q: "q * every \<le> e" "e < q * every + every" by linarith+
  have q0: "0 \<le> q" using e_pos(1) every(1) by (simp add: q_def pos_imp_zdiv_nonneg_iff)
  have q_le: "q \<le> e"
    using q(1) mult_left_mono [of 1 every q] q0 every(1) by simp
  have "e sdiv every = q"
    using e_pos every by (cases "e = 0") (simp_all add: q_def signed_divide_int_def)
  then have steps: "steps = q + 1" unfolding steps_def
    using q0 e_pos q_le by (simp add: int64_wrap_id is_int64_def)
  have m: "steps * every = q * every + every" by (simp add: steps algebra_simps)
  have "int64_wrap (steps * every) = steps * every"
    using m q q0 e_pos every by (intro int64_wrap_id) (simp add: is_int64_def)
  moreover have "int64_wrap (unix anchor + steps * every) = unix anchor + steps * every"
    using m q q0 e_pos every assms(2) by (intro int64_wrap_id) (simp add: is_int64_def time_ok_def)
  ultimately have nxt: "nxt = time_unix (unix anchor + steps * every) (nanosecond anchor)"
    by (simp add: nxt_def)
  then have "nxt = anchor + steps * (every * second)"
    using unix_nanosecond [of anchor] by (simp add: time_unix_def algebra_simps)
  moreover have "base < nxt \<and> nxt \<le> base + every * second"
  proof -
    have base: "base = unix base * second + nanosecond base"
      and anchor: "unix base = unix anchor + d"
      by (simp_all add: unix_nanosecond d_def)
    have nxt': "nxt = (unix anchor + q * every + every) * second + nanosecond anchor"
      by (simp add: nxt time_unix_def m)
    have lo: "unix base + 1 - b \<le> unix anchor + q * every + every" using q e anchor by simp
    have hi: "unix anchor + q * every \<le> unix base - b" using q e anchor by simp
    have ns: "nanosecond base - nanosecond anchor < (1 - b) * second"
      "- b * second \<le> nanosecond base - nanosecond anchor"
      using nanosecond_bounds [of base] nanosecond_bounds [of anchor] by (auto simp: b_def)
    from lo have "(unix base + 1 - b) * second \<le> (unix anchor + q * every + every) * second"
      by (intro mult_right_mono) (simp_all add: second_def)
    with ns(1) base nxt' have "base < nxt" by (simp add: algebra_simps)
    moreover from hi have "(unix anchor + q * every) * second \<le> (unix base - b) * second"
      by (intro mult_right_mono) (simp_all add: second_def)
    with ns(2) base nxt' have "nxt \<le> base + every * second" by (simp add: algebra_simps)
    ultimately show ?thesis by blast
  qed
  ultimately show ?thesis using steps q0 by (intro exI [of _ steps]) simp
qed


lemma slot_between:
  assumes "valid_interval s" and "is_slot s t" and "is_slot s u"
    and "t \<le> b + sp_EverySeconds (s_Schedule s) * second" and "b < u"
  shows "t \<le> u"
proof (rule ccontr)
  define w where "w = sp_EverySeconds (s_Schedule s) * second"
  have w: "0 < w" using assms(1) by (simp add: w_def valid_interval_def second_def)
  assume "\<not> t \<le> u"
  obtain j k where t: "t = interval_anchor s + k * w" and u: "u = interval_anchor s + j * w"
    using assms(2,3) by (auto simp: is_slot_def w_def)
  have "j * w < k * w" using \<open>\<not> t \<le> u\<close> t u by simp
  then have "j + 1 \<le> k" using w by (simp add: mult_less_cancel_right)
  then have "(j + 1) * w \<le> k * w" using w by (simp add: mult_right_mono)
  then have "u + w \<le> t" using t u by (simp add: algebra_simps)
  with assms(4,5) show False by (simp add: w_def)
qed

lemma is_slot_ge_anchor: "valid_interval s \<Longrightarrow> is_slot s t \<Longrightarrow> interval_anchor s \<le> t"
  by (auto simp: is_slot_def valid_interval_def second_def)

text \<open>The least slot later than \<open>base\<close>; the interval branch is that slot, bounded by the window.\<close>

definition least_slot_after :: "Schedule \<Rightarrow> time \<Rightarrow> time \<Rightarrow> bool" where
  "least_slot_after s b t \<longleftrightarrow> is_slot s t \<and> b < t \<and> (\<forall>u. is_slot s u \<longrightarrow> b < u \<longrightarrow> t \<le> u)"

lemma next_interval_cases:
  assumes "valid_interval s" and "schedule_times_ok s" and "time_ok after"
    and "year_of (interval_anchor s) \<le> 9999"
  obtains t where "least_slot_after s (base_after s after) t"
    and "next_interval s after = (if year_of t > 9999 then None else bound s t)"
proof (cases "base_after s after < interval_anchor s")
  case True
  moreover have "is_slot s (interval_anchor s)" by (auto simp: is_slot_def intro: exI [of _ 0])
  ultimately have "least_slot_after s (base_after s after) (interval_anchor s)"
    using assms(1) by (auto simp: least_slot_after_def is_slot_ge_anchor)
  moreover have "next_interval s after
      = (if year_of (interval_anchor s) > 9999 then None else bound s (interval_anchor s))"
    using True assms(4) by (simp add: next_interval_def Let_def)
  ultimately show ?thesis by (rule that)
next
  case False
  define base where "base = base_after s after"
  have ok: "time_ok (interval_anchor s)" "time_ok base"
    using assms(2,3) by (auto simp: schedule_times_ok_def base_def base_after_time_ok)
  have le: "interval_anchor s \<le> base" using False by (simp add: base_def)
  note arith = interval_arith [OF assms(1) ok le]
  define nxt where "nxt = (let anchor = interval_anchor s;
      every = sp_EverySeconds (s_Schedule s);
      e0 = int64_wrap (unix base - unix anchor);
      e = (if nanosecond base < nanosecond anchor then int64_wrap (e0 - 1) else e0);
      steps = int64_wrap (e sdiv every + 1)
    in time_unix (int64_wrap (unix anchor + int64_wrap (steps * every))) (nanosecond anchor))"
  from arith obtain k where k: "k > 0"
    "nxt = interval_anchor s + k * (sp_EverySeconds (s_Schedule s) * second)"
    "base < nxt" "nxt \<le> base + sp_EverySeconds (s_Schedule s) * second"
    unfolding nxt_def Let_def by blast
  then have slot: "is_slot s nxt" unfolding is_slot_def by (intro exI [of _ k]) simp
  then have "least_slot_after s base nxt"
    unfolding least_slot_after_def using k(3,4) slot_between [OF assms(1)] by blast
  moreover have "next_interval s after = (if year_of nxt > 9999 then None else bound s nxt)"
    using False unfolding next_interval_def nxt_def base_def Let_def by (simp only: if_False)
  ultimately show ?thesis unfolding base_def by (rule that)
qed

lemma base_after_less_iff: "window_ok s t \<Longrightarrow> base_after s after < t \<longleftrightarrow> after < t"
  by (auto simp: base_after_def window_ok_def split: option.splits)

lemma next_interval_iff:
  assumes "valid_interval s" and "schedule_times_ok s" and "time_ok after"
    and "year_of (interval_anchor s) \<le> 9999"
  shows "next_interval s after = Some t \<longleftrightarrow>
    is_slot s t \<and> window_ok s t \<and> after < t \<and> year_of t \<le> 9999 \<and>
    (\<forall>u. is_slot s u \<and> window_ok s u \<and> after < u \<longrightarrow> t \<le> u)"
    (is "?L \<longleftrightarrow> ?R")
proof -
  obtain n where n: "least_slot_after s (base_after s after) n"
    and res: "next_interval s after = (if year_of n > 9999 then None else bound s n)"
    using next_interval_cases [OF assms] by blast
  have min: "n \<le> u" if "is_slot s u" "window_ok s u" "after < u" for u
    using n that base_after_less_iff by (auto simp: least_slot_after_def)
  show ?thesis
  proof
    assume ?L
    then have "t = n" and "window_ok s n" and "year_of n \<le> 9999"
      using res by (auto simp: bound_iff split: if_splits)
    then show ?R using n min base_after_less_iff [of s n after] by (auto simp: least_slot_after_def)
  next
    assume R: ?R
    have "n \<le> t" using min R by blast
    moreover have "after < n" using n base_after_ge [of after s] by (auto simp: least_slot_after_def)
    moreover have "window_ok s n"
    proof -
      have "st \<le> n" if "s_StartAt s = Some st" for st
        using n that by (auto simp: least_slot_after_def base_after_def split: if_splits)
      then show ?thesis using R \<open>n \<le> t\<close> by (auto simp: window_ok_def split: option.splits)
    qed
    ultimately have "n = t" using R n by (auto simp: least_slot_after_def intro: antisym)
    with R res show ?L by (simp add: bound_iff)
  qed
qed

section \<open>Progress\<close>

lemma next_interval_sound:
  assumes "valid_interval s" and "schedule_times_ok s" and "time_ok after"
    and "next_interval s after = Some t"
  shows "after < t" and "window_ok s t" and "time_ok t"
proof -
  have anchor: "time_ok (interval_anchor s)" and base: "time_ok (base_after s after)"
    using assms(2,3) by (auto simp: schedule_times_ok_def base_after_time_ok)
  have "base_after s after < t \<and> time_ok t"
  proof (cases "base_after s after < interval_anchor s")
    case True
    then have "bound s (interval_anchor s) = Some t"
      using assms(4) by (simp add: next_interval_def Let_def)
    then have "t = interval_anchor s" by (rule bound_Some)
    with True anchor show ?thesis by simp
  next
    case False
    then have le: "interval_anchor s \<le> base_after s after" by simp
    have "base_after s after < t \<and> year_of t \<le> 9999"
      using False interval_arith [OF assms(1) anchor base le] assms(4)
      unfolding next_interval_def Let_def by (auto dest: bound_Some split: if_splits)
    moreover have "- (2 ^ 60) \<le> unix t"
    proof -
      have "base_after s after \<le> t" using \<open>base_after s after < t \<and> year_of t \<le> 9999\<close> by simp
      then have "unix (base_after s after) \<le> unix t"
        unfolding unix_def by (simp add: zdiv_mono1 second_def)
      with base show ?thesis by (simp add: time_ok_def)
    qed
    ultimately show ?thesis using year_le_time_bound by (simp add: time_ok_def)
  qed
  then show "after < t" and "time_ok t" using base_after_ge [of after s] by auto
  show "window_ok s t" using assms(4)
    by (auto simp: next_interval_def Let_def bound_iff split: if_splits)
qed

lemma next_cron_sound:
  assumes "cron_later env" and "cron_next env e tz (base_after s after) = Some t"
    and "\<not> (case s_EndAt s of Some en \<Rightarrow> en < t | None \<Rightarrow> False)"
  shows "after < t" and "window_ok s t" and "time_ok t"
proof -
  have t: "base_after s after < t" and "time_ok t"
    using assms(1,2) by (auto simp: cron_later_def)
  then show "after < t" and "time_ok t" using base_after_ge [of after s] by auto
  show "window_ok s t" using t assms(3)
    by (auto simp: window_ok_def base_after_def split: option.splits if_splits)
qed

lemma NextAfter_sound:
  assumes "cron_later env" and "schedule_times_ok s" and "time_ok after"
    and "NextAfter env s after = Inr (Some t)"
  shows "after < t" and "window_ok s t" and "time_ok t"
proof -
  have "after < t \<and> window_ok s t \<and> time_ok t"
  proof (cases "sp_Kind (s_Schedule s)")
    case ScheduleKindCron
    with assms show ?thesis
      by (auto simp: NextAfter_def split: if_splits option.splits dest: next_cron_sound)
  next
    case ScheduleKindInterval
    then have "valid_interval s" and "next_interval s after = Some t"
      using assms(4) by (auto simp: NextAfter_def valid_interval_def split: if_splits)
    with next_interval_sound [OF _ assms(2,3)] show ?thesis by blast
  next
    case ScheduleKindOnce
    with assms show ?thesis
      by (auto simp: NextAfter_def bound_iff schedule_times_ok_def split: if_splits option.splits)
  next
    case (OtherScheduleKind k)
    with assms show ?thesis by (auto simp: NextAfter_def split: if_splits)
  qed
  then show "after < t" and "window_ok s t" and "time_ok t" by blast+
qed

section \<open>The interface to the clients\<close>

text \<open>
  What the planner and the preview rely on: from an admissible instant, a slot is strictly later
  and admissible again.
\<close>

locale slot_source =
  fixes ok :: "time \<Rightarrow> bool"
    and next_slot :: "time \<Rightarrow> (string, time option) result"
  assumes next_later: "ok a \<Longrightarrow> next_slot a = Inr (Some t) \<Longrightarrow> a < t"
    and next_ok: "ok a \<Longrightarrow> next_slot a = Inr (Some t) \<Longrightarrow> ok t"

definition slot_ok :: "Env \<Rightarrow> Schedule \<Rightarrow> time \<Rightarrow> bool" where
  "slot_ok env s t \<longleftrightarrow> cron_later env \<and> schedule_times_ok s \<and> time_ok t"

interpretation timecalc: slot_source "slot_ok env s" "NextAfter env s" for env s
  by unfold_locales (auto simp: slot_ok_def dest: NextAfter_sound)

section \<open>Properties\<close>

text \<open>An hourly schedule anchored half an hour into the epoch, for evaluation.\<close>

definition sample_schedule :: Schedule where
  "sample_schedule =
     \<lparr>s_ID = ''sch_1'', s_Name = ''hourly'', s_Enabled = True, s_Timezone = ''UTC'',
      s_Schedule = \<lparr>sp_Kind = ScheduleKindInterval, sp_Expr = '''', sp_EverySeconds = 3600,
                    sp_AnchorAt = Some (1800 * second), sp_At = None\<rparr>,
      s_Target = zero_TargetSpec\<lparr>t_Kind := TargetKindShell, t_Command := ''true''\<rparr>,
      s_Policy = \<lparr>p_Overlap = OverlapForbid, p_Misfire = MisfireCatchUp, p_TimeoutSeconds = 300,
                  p_MaxConcurrency = 1\<rparr>,
      s_Retry = \<lparr>rp_MaxAttempts = 3, rp_Strategy = RetryExponential, rp_InitialDelaySeconds = 30,
                 rp_MaxDelaySeconds = 900\<rparr>,
      s_StartAt = None, s_EndAt = None, s_PausedAt = None, s_NextRunAt = Some (1800 * second),
      s_LastRunAt = None, s_CreatedAt = 0, s_UpdatedAt = 0\<rparr>"

lemma sample_schedule_interval:
  "valid_interval sample_schedule" "schedule_times_ok sample_schedule"
  "interval_anchor sample_schedule = 1800 * second" "sp_Kind (s_Schedule sample_schedule) = ScheduleKindInterval"
  by (simp_all add: valid_interval_def sample_schedule_def max_duration_seconds_value
      schedule_times_ok_def interval_anchor_def time_ok_def unix_def second_def)

text \<open>
  C36: the next slot of an interval schedule is exact. For a valid interval whose times are far from
  the ends of the 64-bit range, \<open>NextAfter\<close> answers \<open>t\<close> exactly when \<open>t\<close> is the least instant of the
  anchored grid that is later than \<open>after\<close> and inside the schedule's window, and is printable.
\<close>

theorem interval_next_exact:
  assumes "load_location env (s_Timezone s)" and "sp_Kind (s_Schedule s) = ScheduleKindInterval"
    and "valid_interval s" and "schedule_times_ok s" and "time_ok after"
    and "year_of (interval_anchor s) \<le> 9999"
  shows "NextAfter env s after = Inr (Some t) \<longleftrightarrow>
    is_slot s t \<and> window_ok s t \<and> after < t \<and> year_of t \<le> 9999 \<and>
    (\<forall>u. is_slot s u \<and> window_ok s u \<and> after < u \<longrightarrow> t \<le> u)"
  using assms(1-3) next_interval_iff [OF assms(3-6), of t]
  by (simp add: NextAfter_def valid_interval_def)

lemma sample_years: "year_of (1800 * second) = 1970"
  by (simp add: year_of_def day_of_def unix_def second_def unix_to_internal_days_def year_day_def Let_def)

theorem interval_next_exact_witness:
  "(NextAfter sample_env sample_schedule (7200 * second) = Inr (Some (9000 * second))) =
   (is_slot sample_schedule (9000 * second) \<and> window_ok sample_schedule (9000 * second)
    \<and> 7200 * second < 9000 * second \<and> year_of (9000 * second) \<le> 9999
    \<and> (\<forall>u. is_slot sample_schedule u \<and> window_ok sample_schedule u \<and> 7200 * second < u
         \<longrightarrow> 9000 * second \<le> u))"
  by (rule interval_next_exact)
     (simp_all add: sample_schedule_interval sample_years, simp_all add: sample_env_def sample_schedule_def
        time_ok_def unix_def second_def)

text \<open>
  Every slot a schedule yields, of any kind, is strictly later than the instant asked for and
  lies between \<open>start_at\<close> and \<open>end_at\<close>, given that the cron library's \<open>Next\<close> is later than its argument.
\<close>

theorem NextAfter_later_in_window:
  assumes "cron_later env" and "schedule_times_ok s" and "time_ok after"
    and "NextAfter env s after = Inr (Some t)"
  shows "after < t \<and> window_ok s t"
  using NextAfter_sound [OF assms] by blast

lemma sample_next: "NextAfter sample_env sample_schedule (7200 * second) = Inr (Some (9000 * second))"
proof -
  have u: "unix (7200 * second) = 7200" "unix (1800 * second) = 1800"
    "nanosecond (7200 * second) = 0" "nanosecond (1800 * second) = 0" "year_of (9000 * second) = 1970"
    by (simp_all add: unix_def nanosecond_def second_def year_of_def day_of_def unix_to_internal_days_def
        year_day_def Let_def)
  have w: "int64_wrap 5400 = 5400" "int64_wrap (5400 sdiv 3600 + 1) = 2" "int64_wrap (2 * 3600) = 7200"
    "int64_wrap 9000 = 9000" "time_unix 9000 0 = 9000 * second"
    by (simp_all add: int64_wrap_def signed_divide_int_def time_unix_def)
  have b: "base_after sample_schedule x = x" "bound sample_schedule x = Some x"
    "sp_EverySeconds (s_Schedule sample_schedule) = 3600" for x
    by (simp_all add: base_after_def bound_def sample_schedule_def)
  have "next_interval sample_schedule (7200 * second) = Some (9000 * second)"
    using w by (simp add: next_interval_def Let_def b sample_schedule_interval u) (simp add: second_def)
  then show ?thesis
    by (simp add: NextAfter_def b sample_schedule_interval max_duration_seconds_value)
       (simp add: sample_env_def sample_schedule_def)
qed

theorem NextAfter_later_in_window_witness:
  "7200 * second < 9000 * second \<and> window_ok sample_schedule (9000 * second)"
  by (rule NextAfter_later_in_window [OF cron_later_sample sample_schedule_interval(2) _ sample_next])
     (simp add: time_ok_def unix_def second_def)

section \<open>Exact sources\<close>

text \<open>A source that enumerates a set of instants without a gap.\<close>

locale exact_slot_source = slot_source +
  fixes slots :: "time set"
  assumes next_slot_in: "ok a \<Longrightarrow> next_slot a = Inr (Some t) \<Longrightarrow> t \<in> slots"
    and next_slot_least: "ok a \<Longrightarrow> next_slot a = Inr r \<Longrightarrow> u \<in> slots \<Longrightarrow> a < u \<Longrightarrow> \<exists>t. r = Some t \<and> t \<le> u"

text \<open>The printable slots of an interval schedule inside its window.\<close>

definition interval_slots :: "Schedule \<Rightarrow> time set" where
  "interval_slots s = {u. is_slot s u \<and> window_ok s u \<and> year_of u \<le> 9999}"

definition interval_ok :: "Env \<Rightarrow> Schedule \<Rightarrow> time \<Rightarrow> bool" where
  "interval_ok env s t \<longleftrightarrow> slot_ok env s t \<and> sp_Kind (s_Schedule s) = ScheduleKindInterval
     \<and> valid_interval s \<and> year_of (interval_anchor s) \<le> 9999 \<and> load_location env (s_Timezone s)"

lemma NextAfter_interval:
  "interval_ok env s a \<Longrightarrow> NextAfter env s a = Inr (next_interval s a)"
  by (auto simp: interval_ok_def NextAfter_def valid_interval_def)

lemma next_interval_complete:
  assumes "interval_ok env s a" and u: "u \<in> interval_slots s" "a < u"
  shows "\<exists>t. next_interval s a = Some t \<and> t \<le> u"
proof -
  have ok: "valid_interval s" "schedule_times_ok s" "time_ok a" "year_of (interval_anchor s) \<le> 9999"
    using assms(1) by (simp_all add: interval_ok_def slot_ok_def)
  obtain n where n: "least_slot_after s (base_after s a) n"
    and res: "next_interval s a = (if year_of n > 9999 then None else bound s n)"
    using next_interval_cases [OF ok] by blast
  have "n \<le> u" using n u base_after_less_iff [of s u a] by (auto simp: least_slot_after_def interval_slots_def)
  moreover have "year_of n \<le> 9999" using year_of_mono [OF \<open>n \<le> u\<close>] u(1) by (simp add: interval_slots_def)
  moreover have "window_ok s n"
  proof -
    have "st \<le> n" if "s_StartAt s = Some st" for st
      using n that by (auto simp: least_slot_after_def base_after_def split: if_splits)
    then show ?thesis
      using u(1) \<open>n \<le> u\<close> by (auto simp: window_ok_def interval_slots_def split: option.splits)
  qed
  ultimately show ?thesis using res by (simp add: bound_iff)
qed

interpretation interval: exact_slot_source "interval_ok env s" "NextAfter env s" "interval_slots s" for env s
proof unfold_locales
  fix a t r u
  show "interval_ok env s a \<Longrightarrow> NextAfter env s a = Inr (Some t) \<Longrightarrow> a < t"
    by (auto simp: interval_ok_def dest: timecalc.next_later)
  show "interval_ok env s a \<Longrightarrow> NextAfter env s a = Inr (Some t) \<Longrightarrow> interval_ok env s t"
    by (auto simp: interval_ok_def dest: timecalc.next_ok)
  show "t \<in> interval_slots s" if "interval_ok env s a" "NextAfter env s a = Inr (Some t)"
  proof -
    have ok: "valid_interval s" "schedule_times_ok s" "time_ok a" "year_of (interval_anchor s) \<le> 9999"
      using that(1) by (simp_all add: interval_ok_def slot_ok_def)
    have "next_interval s a = Some t" using NextAfter_interval [OF that(1)] that(2) by simp
    then show ?thesis using next_interval_iff [OF ok, of t] by (simp add: interval_slots_def)
  qed
  show "\<exists>t. r = Some t \<and> t \<le> u"
    if "interval_ok env s a" "NextAfter env s a = Inr r" "u \<in> interval_slots s" "a < u"
    using next_interval_complete [OF that(1,3,4)] NextAfter_interval [OF that(1)] that(2) by simp
qed

lemma sample_slot_iff: "is_slot sample_schedule t \<longleftrightarrow> (\<exists>k \<ge> 0. t = (1800 + 3600 * k) * second)"
  by (simp add: is_slot_def sample_schedule_interval(3)) (simp add: sample_schedule_def algebra_simps)

lemma sample_window: "window_ok sample_schedule t"
  by (simp add: window_ok_def sample_schedule_def)

lemma sample_year: "j < 1000 \<Longrightarrow> year_of ((1800 + 3600 * j) * second) \<le> 9999"
proof -
  assume "j < 1000"
  then have "(1800 + 3600 * j) * second \<le> 3601800 * second" by (simp add: second_def)
  from year_of_mono [OF this] have "year_of ((1800 + 3600 * j) * second) \<le> year_of (3601800 * second)" .
  also have "year_of (3601800 * second) = 1970"
    by (simp add: year_of_def day_of_def unix_def second_def unix_to_internal_days_def year_day_def Let_def)
  finally show ?thesis by simp
qed

lemma sample_next_at:
  assumes "0 \<le> j" and "j < 999"
  shows "NextAfter sample_env sample_schedule ((1800 + 3600 * j) * second)
    = Inr (Some ((1800 + 3600 * (j + 1)) * second))"
proof -
  have ok: "time_ok ((1800 + 3600 * j) * second)"
    using assms by (simp add: time_ok_def unix_def second_def)
  have "next_interval sample_schedule ((1800 + 3600 * j) * second) = Some ((1800 + 3600 * (j + 1)) * second)"
  proof (subst next_interval_iff [OF sample_schedule_interval(1,2) ok])
    show "year_of (interval_anchor sample_schedule) \<le> 9999"
      by (simp add: sample_schedule_interval(3) sample_years)
    have "(1800 + 3600 * (j + 1)) * second \<le> u"
      if u: "is_slot sample_schedule u" "(1800 + 3600 * j) * second < u" for u
    proof -
      have pos: "0 < second" by (simp add: second_def)
      obtain k where k: "u = (1800 + 3600 * k) * second" using u(1) sample_slot_iff by blast
      with u(2) have "1800 + 3600 * j < 1800 + 3600 * k"
        using mult_less_cancel_right_pos [OF pos] by blast
      then have "1800 + 3600 * (j + 1) \<le> 1800 + 3600 * k" by simp
      then show ?thesis unfolding k by (rule mult_right_mono) (simp add: second_def)
    qed
    then show "is_slot sample_schedule ((1800 + 3600 * (j + 1)) * second)
        \<and> window_ok sample_schedule ((1800 + 3600 * (j + 1)) * second)
        \<and> (1800 + 3600 * j) * second < (1800 + 3600 * (j + 1)) * second
        \<and> year_of ((1800 + 3600 * (j + 1)) * second) \<le> 9999
        \<and> (\<forall>u. is_slot sample_schedule u \<and> window_ok sample_schedule u \<and> (1800 + 3600 * j) * second < u
             \<longrightarrow> (1800 + 3600 * (j + 1)) * second \<le> u)"
    proof (intro conjI)
      show "is_slot sample_schedule ((1800 + 3600 * (j + 1)) * second)"
        unfolding sample_slot_iff using assms(1) by (intro exI [of _ "j + 1"]) simp
      show "(1800 + 3600 * j) * second < (1800 + 3600 * (j + 1)) * second"
        by (rule mult_strict_right_mono) (simp_all add: second_def)
      show "year_of ((1800 + 3600 * (j + 1)) * second) \<le> 9999" using assms(2) by (intro sample_year) simp
    qed (simp_all add: sample_window)
  qed
  moreover have "interval_ok sample_env sample_schedule ((1800 + 3600 * j) * second)"
    using ok by (simp add: interval_ok_def slot_ok_def cron_later_sample sample_schedule_interval sample_years)
       (simp add: sample_env_def sample_schedule_def)
  ultimately show ?thesis using NextAfter_interval by metis
qed

end
