(* ===== verification/Validation.thy ===== *)
theory Validation
  imports Timecalc
begin

text \<open>
  Request validation, \<open>internal/domain/validation.go\<close>: the checks on a schedule request, patches, and
  the defaults. The lemmas show what an accepted request guarantees downstream: its slots can be
  computed without an error, its timeout and delays do not overflow a duration, and a target with an
  external job only ever talks to one HTTP origin.
\<close>

section \<open>The checks\<close>

definition verr :: "string \<Rightarrow> string \<Rightarrow> ValidationError" where
  "verr field msg = \<lparr>ve_Field = field, ve_Message = msg\<rparr>"

definition httpMethods :: "string list" where
  "httpMethods = [''DELETE'', ''GET'', ''HEAD'', ''OPTIONS'', ''PATCH'', ''POST'', ''PUT'']"

definition safeDurationSeconds :: "int \<Rightarrow> bool" where
  "safeDurationSeconds n \<longleftrightarrow> n \<le> max_duration_seconds"

definition origin_port :: "URL \<Rightarrow> string" where
  "origin_port u =
     (if u_Port u \<noteq> '''' then u_Port u else if u_Scheme u = ''https'' then ''443'' else ''80'')"

definition sameHTTPOrigin :: "Env \<Rightarrow> string \<Rightarrow> string \<Rightarrow> bool" where
  "sameHTTPOrigin env left right =
     (case (url_parse env left, url_parse env right) of
        (Some a, Some b) \<Rightarrow>
          if u_Hostname a = '''' \<or> u_Hostname b = '''' \<or> u_HasUser a \<or> u_HasUser b
            \<or> u_Fragment a \<noteq> '''' \<or> u_Fragment b \<noteq> ''''
            \<or> (u_Scheme a \<noteq> ''http'' \<and> u_Scheme a \<noteq> ''https'') \<or> u_Scheme a \<noteq> u_Scheme b
          then False
          else equal_fold (u_Hostname a) (u_Hostname b) \<and> origin_port a = origin_port b
      | _ \<Rightarrow> False)"

definition validateScheduleSpec :: "Env \<Rightarrow> ScheduleSpec \<Rightarrow> ValidationError list" where
  "validateScheduleSpec env spec =
     (case sp_Kind spec of
        ScheduleKindCron \<Rightarrow>
          if trim_space (sp_Expr spec) = '''' then [verr ''schedule.expr'' ''is required for cron'']
          else if \<not> cron_parses env (sp_Expr spec)
          then [verr ''schedule.expr'' ''must parse as a cron expression'']
          else []
      | ScheduleKindInterval \<Rightarrow>
          if sp_EverySeconds spec \<le> 0 then [verr ''schedule.every_seconds'' ''must be > 0'']
          else if \<not> safeDurationSeconds (sp_EverySeconds spec)
          then [verr ''schedule.every_seconds'' ''exceeds the supported duration'']
          else []
      | ScheduleKindOnce \<Rightarrow>
          if sp_At spec = None then [verr ''schedule.at'' ''is required for once''] else []
      | OtherScheduleKind k \<Rightarrow> [verr ''schedule.kind'' ''must be one of cron, interval, once''])"

text \<open>The checks on an asynchronous target, \<open>validation.go\<close> lines 149 to 166.\<close>

definition validateHTTPJob :: "Env \<Rightarrow> TargetSpec \<Rightarrow> HTTPJobSpec \<Rightarrow> ValidationError list" where
  "validateHTTPJob env spec job =
     (if to_upper (t_Method spec) \<noteq> ''POST''
      then [verr ''target.method'' ''must be POST for external jobs''] else [])
     @ (if (case url_parse env (t_URL spec) of
              None \<Rightarrow> True
            | Some u \<Rightarrow> u_Host u = '''' \<or> u_Hostname u = ''''
                \<or> (u_Scheme u \<noteq> ''http'' \<and> u_Scheme u \<noteq> ''https'') \<or> u_HasUser u \<or> u_Fragment u \<noteq> '''')
        then [verr ''target.url''
                ''external jobs require an absolute HTTP(S) URL without credentials or a fragment'']
        else [])
     @ (if hj_LookupURL job \<noteq> '''' \<and> \<not> sameHTTPOrigin env (t_URL spec) (hj_LookupURL job)
        then [verr ''target.http_job.lookup_url'' (''must be an absolute HTTP(S) URL with the same origin ''
                @ ''as target.url, without credentials or a fragment'')] else [])
     @ (if hj_PollIntervalSeconds job < 0 \<or> hj_PollIntervalSeconds job > 300
        then [verr ''target.http_job.poll_interval_seconds'' ''must be 0 (default) or between 1 and 300'']
        else [])
     @ (if (case t_Body spec of None \<Rightarrow> False | Some b \<Rightarrow> map_of b ''_wakeplane_event'' \<noteq> None)
        then [verr ''target.body._wakeplane_event'' ''is reserved for the event envelope''] else [])"

definition validateTargetSpec :: "Env \<Rightarrow> TargetSpec \<Rightarrow> ValidationError list" where
  "validateTargetSpec env spec =
     (if t_HTTPJob spec \<noteq> None \<and> t_Kind spec \<noteq> TargetKindHTTP
      then [verr ''target.http_job'' ''is only supported for http targets'']
      else case t_Kind spec of
        TargetKindHTTP \<Rightarrow>
          (if trim_space (t_Method spec) = '''' then [verr ''target.method'' ''is required for http'']
           else if to_upper (t_Method spec) \<notin> set httpMethods
           then [verr ''target.method'' ''must be a valid HTTP method''] else [])
          @ (if trim_space (t_URL spec) = '''' then [verr ''target.url'' ''is required for http'']
             else if \<not> url_parse_request_uri env (t_URL spec)
             then [verr ''target.url'' ''must be a valid URL''] else [])
          @ (case t_HTTPJob spec of None \<Rightarrow> [] | Some job \<Rightarrow> validateHTTPJob env spec job)
      | TargetKindShell \<Rightarrow>
          if trim_space (t_Command spec) = '''' then [verr ''target.command'' ''is required for shell''] else []
      | TargetKindWorkflow \<Rightarrow>
          if trim_space (t_WorkflowID spec) = ''''
          then [verr ''target.workflow_id'' ''is required for workflow''] else []
      | OtherTargetKind k \<Rightarrow> [verr ''target.kind'' ''must be one of http, shell, workflow''])"

definition validatePolicy :: "Policy \<Rightarrow> ValidationError list" where
  "validatePolicy policy =
     (case p_Overlap policy of OtherOverlap o' \<Rightarrow> [verr ''policy.overlap'' ''must be a valid enum''] | _ \<Rightarrow> [])
     @ (case p_Misfire policy of OtherMisfire m \<Rightarrow> [verr ''policy.misfire'' ''must be a valid enum''] | _ \<Rightarrow> [])
     @ (if p_TimeoutSeconds policy \<le> 0 then [verr ''policy.timeout_seconds'' ''must be > 0''] else [])
     @ (if \<not> safeDurationSeconds (p_TimeoutSeconds policy)
        then [verr ''policy.timeout_seconds'' ''exceeds the supported duration''] else [])
     @ (if p_MaxConcurrency policy < 1 then [verr ''policy.max_concurrency'' ''must be >= 1''] else [])"

definition validateRetry :: "RetryPolicy \<Rightarrow> ValidationError list" where
  "validateRetry retry =
     (if rp_MaxAttempts retry < 0 then [verr ''retry.max_attempts'' ''must be >= 0''] else [])
     @ (if \<not> safeDurationSeconds (rp_InitialDelaySeconds retry) \<or> \<not> safeDurationSeconds (rp_MaxDelaySeconds retry)
        then [verr ''retry'' ''delay exceeds the supported duration''] else [])
     @ (case rp_Strategy retry of
          OtherRetryStrategy k \<Rightarrow> [verr ''retry.strategy'' ''must be one of none, exponential'']
        | _ \<Rightarrow> [])
     @ (if rp_Strategy retry = RetryExponential then
          (if rp_InitialDelaySeconds retry \<le> 0 then [verr ''retry.initial_delay_seconds'' ''must be > 0''] else [])
          @ (if rp_MaxDelaySeconds retry \<le> 0 then [verr ''retry.max_delay_seconds'' ''must be > 0''] else [])
          @ (if rp_MaxDelaySeconds retry < rp_InitialDelaySeconds retry
             then [verr ''retry.max_delay_seconds'' ''must be >= initial_delay_seconds''] else [])
        else [])"

definition ValidateCreateSchedule :: "Env \<Rightarrow> CreateScheduleRequest \<Rightarrow> ValidationError list" where
  "ValidateCreateSchedule env req =
     (if trim_space (c_Name req) = '''' then [verr ''name'' ''must be non-empty''] else [])
     @ (if trim_space (c_Timezone req) = '''' \<or> c_Timezone req = ''Local'' \<or> \<not> load_location env (c_Timezone req)
        then [verr ''timezone'' ''must be a valid IANA timezone''] else [])
     @ validateScheduleSpec env (c_Schedule req)
     @ validateTargetSpec env (c_Target req)
     @ (if t_HTTPJob (c_Target req) \<noteq> None \<and> p_Overlap (c_Policy req) = OverlapReplace
        then [verr ''policy.overlap'' ''replace is unsupported for external jobs without remote cancellation'']
        else [])
     @ validatePolicy (c_Policy req)
     @ validateRetry (c_Retry req)
     @ (case (c_StartAt req, c_EndAt req) of
          (Some st, Some en) \<Rightarrow> if en < st then [verr ''start_at'' ''must be <= end_at''] else []
        | _ \<Rightarrow> [])"

section \<open>Patches and defaults\<close>

text \<open>\<open>if patch.F != nil { next.F = *patch.F }\<close>.\<close>

definition patched :: "'a option \<Rightarrow> 'a \<Rightarrow> 'a" where
  "patched p x = (case p of None \<Rightarrow> x | Some y \<Rightarrow> y)"

definition ApplyPatch :: "Schedule \<Rightarrow> PatchScheduleRequest \<Rightarrow> Schedule" where
  "ApplyPatch current patch = current
     \<lparr>s_Name := patched (ps_Name patch) (s_Name current),
      s_Enabled := patched (ps_Enabled patch) (s_Enabled current),
      s_Timezone := patched (ps_Timezone patch) (s_Timezone current),
      s_Schedule := patched (ps_Schedule patch) (s_Schedule current),
      s_Target := patched (ps_Target patch) (s_Target current),
      s_Policy := (case ps_Policy patch of None \<Rightarrow> s_Policy current | Some p \<Rightarrow> (s_Policy current)
        \<lparr>p_Overlap := patched (pp_Overlap p) (p_Overlap (s_Policy current)),
         p_Misfire := patched (pp_Misfire p) (p_Misfire (s_Policy current)),
         p_TimeoutSeconds := patched (pp_TimeoutSeconds p) (p_TimeoutSeconds (s_Policy current)),
         p_MaxConcurrency := patched (pp_MaxConcurrency p) (p_MaxConcurrency (s_Policy current))\<rparr>),
      s_Retry := (case ps_Retry patch of None \<Rightarrow> s_Retry current | Some r \<Rightarrow> (s_Retry current)
        \<lparr>rp_MaxAttempts := patched (pr_MaxAttempts r) (rp_MaxAttempts (s_Retry current)),
         rp_Strategy := patched (pr_Strategy r) (rp_Strategy (s_Retry current)),
         rp_InitialDelaySeconds := patched (pr_InitialDelaySeconds r) (rp_InitialDelaySeconds (s_Retry current)),
         rp_MaxDelaySeconds := patched (pr_MaxDelaySeconds r) (rp_MaxDelaySeconds (s_Retry current))\<rparr>),
      s_StartAt := patched (ps_StartAt patch) (s_StartAt current),
      s_EndAt := patched (ps_EndAt patch) (s_EndAt current)\<rparr>"

definition request_of :: "Schedule \<Rightarrow> CreateScheduleRequest" where
  "request_of s =
     \<lparr>c_Name = s_Name s, c_Enabled = s_Enabled s, c_Timezone = s_Timezone s, c_Schedule = s_Schedule s,
      c_Target = s_Target s, c_Policy = s_Policy s, c_Retry = s_Retry s, c_StartAt = s_StartAt s,
      c_EndAt = s_EndAt s\<rparr>"

definition ValidatePatch :: "Env \<Rightarrow> Schedule \<Rightarrow> PatchScheduleRequest \<Rightarrow> ValidationError list" where
  "ValidatePatch env current patch = ValidateCreateSchedule env (request_of (ApplyPatch current patch))"

definition DefaultPolicy :: Policy where
  "DefaultPolicy =
     \<lparr>p_Overlap = OverlapForbid, p_Misfire = MisfireRunOnceIfLate, p_TimeoutSeconds = 300, p_MaxConcurrency = 1\<rparr>"

definition DefaultRetryPolicy :: RetryPolicy where
  "DefaultRetryPolicy =
     \<lparr>rp_MaxAttempts = 0, rp_Strategy = RetryExponential, rp_InitialDelaySeconds = 30, rp_MaxDelaySeconds = 900\<rparr>"

definition ValidateTriggerReason :: "string \<Rightarrow> string option" where
  "ValidateTriggerReason reason = (if trim_space reason = '''' then Some ''reason must be non-empty'' else None)"

definition RequireNoValidationErrors :: "ValidationError list \<Rightarrow> string option" where
  "RequireNoValidationErrors errs = (if errs = [] then None else Some ''validation failed'')"

section \<open>What acceptance guarantees\<close>

text \<open>The abstract contract of an accepted definition.\<close>

definition policy_ok :: "Policy \<Rightarrow> bool" where
  "policy_ok p \<longleftrightarrow> p_Overlap p \<in> {OverlapAllow, OverlapForbid, OverlapQueueLatest, OverlapReplace}
     \<and> p_Misfire p \<in> {MisfireSkip, MisfireRunOnceIfLate, MisfireCatchUp}
     \<and> 0 < p_TimeoutSeconds p \<and> p_TimeoutSeconds p \<le> max_duration_seconds \<and> 1 \<le> p_MaxConcurrency p"

definition retry_ok :: "RetryPolicy \<Rightarrow> bool" where
  "retry_ok r \<longleftrightarrow> 0 \<le> rp_MaxAttempts r \<and> rp_InitialDelaySeconds r \<le> max_duration_seconds
     \<and> rp_MaxDelaySeconds r \<le> max_duration_seconds \<and> rp_Strategy r \<in> {RetryNone, RetryExponential}
     \<and> (rp_Strategy r = RetryExponential \<longrightarrow>
          0 < rp_InitialDelaySeconds r \<and> rp_InitialDelaySeconds r \<le> rp_MaxDelaySeconds r)"

definition spec_ok :: "Env \<Rightarrow> ScheduleSpec \<Rightarrow> bool" where
  "spec_ok env sp \<longleftrightarrow>
     sp_Kind sp = ScheduleKindCron \<and> cron_parses env (sp_Expr sp) \<and> trim_space (sp_Expr sp) \<noteq> ''''
     \<or> sp_Kind sp = ScheduleKindInterval \<and> 0 < sp_EverySeconds sp \<and> sp_EverySeconds sp \<le> max_duration_seconds
     \<or> sp_Kind sp = ScheduleKindOnce \<and> sp_At sp \<noteq> None"

lemma validatePolicy_iff: "validatePolicy p = [] \<longleftrightarrow> policy_ok p"
  by (auto simp: validatePolicy_def policy_ok_def safeDurationSeconds_def split: OverlapPolicy.splits
      MisfirePolicy.splits)

lemma validateRetry_iff: "validateRetry r = [] \<longleftrightarrow> retry_ok r"
  by (cases "rp_Strategy r")
     (auto simp: validateRetry_def retry_ok_def safeDurationSeconds_def)

lemma validateScheduleSpec_iff: "validateScheduleSpec env sp = [] \<longleftrightarrow> spec_ok env sp"
  by (auto simp: validateScheduleSpec_def spec_ok_def safeDurationSeconds_def split: ScheduleKind.splits)

lemma ValidateCreateSchedule_parts:
  assumes "ValidateCreateSchedule env req = []"
  shows "load_location env (c_Timezone req)" and "spec_ok env (c_Schedule req)"
    and "validateTargetSpec env (c_Target req) = []" and "policy_ok (c_Policy req)"
    and "retry_ok (c_Retry req)" and "trim_space (c_Name req) \<noteq> ''''"
    and "t_HTTPJob (c_Target req) \<noteq> None \<Longrightarrow> p_Overlap (c_Policy req) \<noteq> OverlapReplace"
  using assms
  by (auto simp: ValidateCreateSchedule_def validatePolicy_iff validateRetry_iff validateScheduleSpec_iff
      split: if_splits)

lemma spec_ok_NextAfter:
  assumes "load_location env (s_Timezone s)" and "spec_ok env (s_Schedule s)"
  shows "\<exists>r. NextAfter env s after = Inr r"
  using assms by (auto simp: NextAfter_def spec_ok_def split: option.split)

text \<open>A number of seconds that passes the check is a duration that fits its 64 bits.\<close>

lemma seconds_no_overflow:
  assumes "0 \<le> n" and "n \<le> max_duration_seconds"
  shows "seconds n = n * second"
  using assms by (simp add: seconds_def max_duration_seconds_value second_def int64_wrap_id is_int64_def)

section \<open>Origins\<close>

lemma sameHTTPOrigin_sym: "sameHTTPOrigin env a b \<Longrightarrow> sameHTTPOrigin env b a"
  by (auto simp: sameHTTPOrigin_def equal_fold_sym split: option.splits if_splits)

lemma sameHTTPOrigin_trans:
  "sameHTTPOrigin env a b \<Longrightarrow> sameHTTPOrigin env b c \<Longrightarrow> sameHTTPOrigin env a c"
  by (auto simp: sameHTTPOrigin_def split: option.splits if_splits dest: equal_fold_trans)

section \<open>Patching\<close>

lemma patched_simps [simp]: "patched None x = x" "patched (Some y) x = y"
  by (simp_all add: patched_def)

lemma patched_twice [simp]: "patched p (patched p x) = patched p x"
  by (cases p) simp_all

lemma ApplyPatch_keeps [frame_simps]:
  "s_ID (ApplyPatch s p) = s_ID s" "s_PausedAt (ApplyPatch s p) = s_PausedAt s"
  "s_NextRunAt (ApplyPatch s p) = s_NextRunAt s" "s_LastRunAt (ApplyPatch s p) = s_LastRunAt s"
  "s_CreatedAt (ApplyPatch s p) = s_CreatedAt s" "s_UpdatedAt (ApplyPatch s p) = s_UpdatedAt s"
  by (simp_all add: ApplyPatch_def)

lemma ApplyPatch_twice: "ApplyPatch (ApplyPatch s p) p = ApplyPatch s p"
  by (simp add: ApplyPatch_def split: option.split)

section \<open>Properties\<close>

lemma sample_valid: "ValidateCreateSchedule sample_env (request_of sample_schedule) = []"
proof -
  have n: "trim_space ''hourly'' \<noteq> ''''" "trim_space ''UTC'' \<noteq> ''''" "trim_space ''true'' \<noteq> ''''"
    by (simp_all add: trim_space_visible visible_def)
  then have "validateTargetSpec sample_env (s_Target sample_schedule) = []"
    by (simp add: validateTargetSpec_def sample_schedule_def zero_TargetSpec_def)
  moreover have "spec_ok sample_env (s_Schedule sample_schedule)" "policy_ok (s_Policy sample_schedule)"
    "retry_ok (s_Retry sample_schedule)"
    by (simp_all add: spec_ok_def policy_ok_def retry_ok_def sample_schedule_def max_duration_seconds_value)
  moreover have "load_location sample_env ''UTC''" by (simp add: sample_env_def)
  ultimately show ?thesis
    using n by (simp add: ValidateCreateSchedule_def request_of_def validatePolicy_iff validateRetry_iff
        validateScheduleSpec_iff) (simp add: sample_schedule_def zero_TargetSpec_def)
qed

text \<open>
  An accepted definition can always be planned. If a schedule's definition passes the request
  validation, \<open>NextAfter\<close> answers without an error at every instant.
\<close>

theorem validated_schedule_plans:
  assumes "ValidateCreateSchedule env (request_of s) = []"
  shows "\<exists>r. NextAfter env s after = Inr r"
  using ValidateCreateSchedule_parts(1,2) [OF assms] by (intro spec_ok_NextAfter) (simp_all add: request_of_def)

theorem validated_schedule_plans_witness: "\<exists>r. NextAfter sample_env sample_schedule 0 = Inr r"
  by (rule validated_schedule_plans [OF sample_valid])

text \<open>
  The durations of an accepted definition are exact. The timeout, and both retry delays of an
  exponential policy, multiplied by a second, do not wrap a 64-bit duration, and the attempt
  timeout is positive.
\<close>

theorem validated_durations_exact:
  assumes "ValidateCreateSchedule env req = []"
  shows "seconds (p_TimeoutSeconds (c_Policy req)) = p_TimeoutSeconds (c_Policy req) * second
    \<and> 0 < seconds (p_TimeoutSeconds (c_Policy req))
    \<and> (rp_Strategy (c_Retry req) = RetryExponential \<longrightarrow>
         seconds (rp_InitialDelaySeconds (c_Retry req)) = rp_InitialDelaySeconds (c_Retry req) * second
       \<and> seconds (rp_MaxDelaySeconds (c_Retry req)) = rp_MaxDelaySeconds (c_Retry req) * second)"
proof -
  have p: "0 < p_TimeoutSeconds (c_Policy req)" "p_TimeoutSeconds (c_Policy req) \<le> max_duration_seconds"
    using ValidateCreateSchedule_parts(4) [OF assms] by (auto simp: policy_ok_def)
  have "0 < rp_InitialDelaySeconds (c_Retry req) \<and> rp_InitialDelaySeconds (c_Retry req) \<le> max_duration_seconds
      \<and> 0 < rp_MaxDelaySeconds (c_Retry req) \<and> rp_MaxDelaySeconds (c_Retry req) \<le> max_duration_seconds"
    if "rp_Strategy (c_Retry req) = RetryExponential"
    using that ValidateCreateSchedule_parts(5) [OF assms] by (auto simp: retry_ok_def)
  with p show ?thesis by (auto simp: seconds_no_overflow second_def)
qed

theorem validated_durations_exact_witness:
  "seconds 300 = 300 * second \<and> 0 < seconds 300 \<and> seconds 30 = 30 * second \<and> seconds 900 = 900 * second"
  using validated_durations_exact [OF sample_valid] by (simp add: request_of_def sample_schedule_def)

end
