(* ===== verification/Store.thy ===== *)
theory Store
  imports Validation "HOL-Library.Product_Lexorder"
begin

text \<open>
  The store, \<open>internal/store/store.go\<close>, over the schema of \<open>migrations/\<close>: the tables as lists of
  rows, and one definition per store method. A method that fails leaves the database as it was (its
  transaction is rolled back), so it is a function to \<open>Inl error\<close> or \<open>Inr\<close> of the new database.
  Each statement or transaction is atomic, as it is on the single SQLite connection. Columns hold
  decoded values; the theory \<open>Timestamps\<close> justifies comparing instants instead of their texts. Fresh
  identifiers and the clock are arguments. Failures of the database itself are not modelled.
\<close>

section \<open>The schema\<close>

record WorkerLease =
  wl_id :: string
  wl_worker_id :: string
  wl_run_id :: string
  wl_lease_key :: string
  wl_acquired_at :: time
  wl_expires_at :: time
  wl_heartbeat_at :: time

record ExternalJobRow =
  ej_occurrence_key :: string
  ej_schedule_id :: string
  ej_checkpoint :: ExternalJob
  ej_job_status :: ExternalJobStatus
  ej_compacted :: bool
  ej_target_snapshot :: "TargetSpec option"
  ej_created_at :: time
  ej_updated_at :: time

record TriggerEventRow =
  te_occurrence_key :: string
  te_schedule_id :: string
  te_event :: TriggerEvent
  te_run_id :: string
  te_created_at :: time

record DB =
  schedules :: "Schedule list"
  schedule_runs :: "RunRow list"
  worker_leases :: "WorkerLease list"
  dead_letters :: "DeadLetter list"
  execution_receipts :: "Receipt list"
  external_jobs :: "ExternalJobRow list"
  trigger_events :: "TriggerEventRow list"
  request_audit_logs :: "RequestAudit list"

definition empty_db :: DB where
  "empty_db =
     \<lparr>schedules = [], schedule_runs = [], worker_leases = [], dead_letters = [], execution_receipts = [],
      external_jobs = [], trigger_events = [], request_audit_logs = []\<rparr>"

text \<open>The errors of the store; \<open>ErrNoRows\<close> is \<open>sql.ErrNoRows\<close> passed through, \<open>ErrUnique\<close> a violated
  unique key, and \<open>ErrConstraint\<close> any other violated constraint.\<close>

datatype store_error = ErrNotFound | ErrAlreadyExists | ErrConflict | ErrLeaseLost | ErrEventConflict
  | ErrSchedulePaused | ErrEventHistoryPruned | ErrNoRows | ErrUnique | ErrConstraint | ErrOther string

type_synonym 'a store_result = "(store_error, 'a) result"

definition terminal_statuses :: "RunStatus list" where
  "terminal_statuses = [RunSucceeded, RunFailed, RunDeadLettered, RunCancelled, RunSkipped]"

definition terminal :: "RunStatus \<Rightarrow> bool" where
  "terminal s \<longleftrightarrow> s \<in> set terminal_statuses"

definition queued :: "RunStatus \<Rightarrow> bool" where
  "queued s \<longleftrightarrow> s = RunPending \<or> s = RunRetryScheduled"

definition unresolved :: "ExternalJobStatus \<Rightarrow> bool" where
  "unresolved s \<longleftrightarrow> s = ExternalJobSubmitting \<or> s = ExternalJobQueued \<or> s = ExternalJobRunning"

text \<open>The \<open>CHECK\<close> constraints of the tables.\<close>

definition schedule_check :: "Schedule \<Rightarrow> bool" where
  "schedule_check s \<longleftrightarrow>
     sp_Kind (s_Schedule s) \<in> {ScheduleKindCron, ScheduleKindInterval, ScheduleKindOnce}
     \<and> t_Kind (s_Target s) \<in> {TargetKindHTTP, TargetKindShell, TargetKindWorkflow}
     \<and> p_Overlap (s_Policy s) \<in> {OverlapAllow, OverlapForbid, OverlapQueueLatest, OverlapReplace}
     \<and> p_Misfire (s_Policy s) \<in> {MisfireSkip, MisfireRunOnceIfLate, MisfireCatchUp}
     \<and> rp_Strategy (s_Retry s) \<in> {RetryNone, RetryExponential}"

definition job_status_check :: "ExternalJobStatus \<Rightarrow> bool" where
  "job_status_check s \<longleftrightarrow> unresolved s
     \<or> s = ExternalJobSucceeded \<or> s = ExternalJobFailed \<or> s = ExternalJobCancelled"

definition receipt_check :: "string \<Rightarrow> bool" where
  "receipt_check k \<longleftrightarrow>
     k \<in> set [''stdout'', ''stderr'', ''http_response'', ''workflow_result'', ''summary'']"

text \<open>\<open>DELETE FROM schedule_runs\<close> with the cascades of its foreign keys.\<close>

definition delete_runs :: "(RunRow \<Rightarrow> bool) \<Rightarrow> DB \<Rightarrow> DB" where
  "delete_runs P db =
     (let gone = map r_ID (filter P (schedule_runs db)) in
      db\<lparr>schedule_runs := sql_delete P (schedule_runs db),
         worker_leases := sql_delete (\<lambda>l. wl_run_id l \<in> set gone) (worker_leases db),
         dead_letters := sql_delete (\<lambda>d. dl_RunID d \<in> set gone) (dead_letters db),
         execution_receipts := sql_delete (\<lambda>c. rc_RunID c \<in> set gone) (execution_receipts db)\<rparr>)"

section \<open>Schedules\<close>

definition CreateSchedule :: "DB \<Rightarrow> Schedule \<Rightarrow> DB store_result" where
  "CreateSchedule db s =
     (if \<not> schedule_check s then Inl ErrConstraint
      else if \<exists>x \<in> set (schedules db). s_ID x = s_ID s \<or> s_Name x = s_Name s then Inl ErrUnique
      else Inr (db\<lparr>schedules := schedules db @ [s]\<rparr>))"

text \<open>Sets every column but \<open>id\<close> and \<open>created_at\<close>; updating no row is not an error.\<close>

definition UpdateSchedule :: "DB \<Rightarrow> Schedule \<Rightarrow> DB store_result" where
  "UpdateSchedule db s =
     (if \<not> (\<exists>x \<in> set (schedules db). s_ID x = s_ID s) then Inr db
      else if \<not> schedule_check s then Inl ErrConstraint
      else if \<exists>x \<in> set (schedules db). s_ID x \<noteq> s_ID s \<and> s_Name x = s_Name s then Inl ErrUnique
      else Inr (db\<lparr>schedules := sql_update (\<lambda>x. s_ID x = s_ID s)
                     (\<lambda>x. s\<lparr>s_ID := s_ID x, s_CreatedAt := s_CreatedAt x\<rparr>) (schedules db)\<rparr>))"

definition GetSchedule :: "DB \<Rightarrow> string \<Rightarrow> Schedule store_result" where
  "GetSchedule db i =
     (case sql_find (\<lambda>s. s_ID s = i) (schedules db) of None \<Rightarrow> Inl ErrNotFound | Some s \<Rightarrow> Inr s)"

definition DeleteSchedule :: "DB \<Rightarrow> string \<Rightarrow> DB store_result" where
  "DeleteSchedule db i =
     (if sql_count (\<lambda>s. s_ID s = i) (schedules db) = 0 then Inl ErrNotFound
      else let db1 = delete_runs (\<lambda>r. r_ScheduleID r = i) db in
        Inr (db1\<lparr>schedules := sql_delete (\<lambda>s. s_ID s = i) (schedules db1),
                 dead_letters := sql_delete (\<lambda>d. dl_ScheduleID d = i) (dead_letters db1),
                 external_jobs := sql_delete (\<lambda>e. ej_schedule_id e = i) (external_jobs db1),
                 trigger_events := sql_delete (\<lambda>e. te_schedule_id e = i) (trigger_events db1)\<rparr>))"

definition ListAllSchedules :: "DB \<Rightarrow> Schedule list" where
  "ListAllSchedules db = sort_key s_CreatedAt (schedules db)"

definition UpdateScheduleRuntime ::
    "DB \<Rightarrow> string \<Rightarrow> time option \<Rightarrow> time option \<Rightarrow> time option \<Rightarrow> bool \<Rightarrow> time \<Rightarrow> DB" where
  "UpdateScheduleRuntime db scheduleID nextRunAt lastRunAt pausedAt enabled now =
     db\<lparr>schedules := sql_update (\<lambda>s. s_ID s = scheduleID)
         (\<lambda>s. s\<lparr>s_Enabled := enabled, s_PausedAt := pausedAt, s_NextRunAt := nextRunAt,
               s_LastRunAt := lastRunAt, s_UpdatedAt := now\<rparr>) (schedules db)\<rparr>"

definition RecordScheduleCompletion :: "DB \<Rightarrow> string \<Rightarrow> time \<Rightarrow> DB" where
  "RecordScheduleCompletion db scheduleID now =
     db\<lparr>schedules := sql_update (\<lambda>s. s_ID s = scheduleID)
         (\<lambda>s. s\<lparr>s_LastRunAt := Some now, s_UpdatedAt := now\<rparr>) (schedules db)\<rparr>"

definition ScheduleEnabledCount :: "DB \<Rightarrow> nat" where
  "ScheduleEnabledCount db = sql_count s_Enabled (schedules db)"

section \<open>Runs\<close>

definition InsertRun :: "DB \<Rightarrow> RunRow \<Rightarrow> DB store_result" where
  "InsertRun db run =
     (if \<exists>x \<in> set (schedule_runs db). r_ID x = r_ID run
          \<or> r_OccurrenceKey x = r_OccurrenceKey run \<and> r_Attempt x = r_Attempt run
      then Inl ErrAlreadyExists
      else if \<not> (\<exists>s \<in> set (schedules db). s_ID s = r_ScheduleID run) then Inl ErrConstraint
      else Inr (db\<lparr>schedule_runs := schedule_runs db @ [run]\<rparr>))"

definition summary_of :: "RunRow \<Rightarrow> Schedule \<Rightarrow> RunSummary" where
  "summary_of r s =
     \<lparr>rs_ID = r_ID r, rs_ScheduleID = r_ScheduleID r, rs_ScheduleName = s_Name s,
      rs_OccurrenceKey = r_OccurrenceKey r, rs_NominalTime = r_NominalTime r, rs_DueTime = r_DueTime r,
      rs_Status = r_Status r, rs_Attempt = r_Attempt r, rs_TargetKind = t_Kind (s_Target s),
      rs_ClaimedByWorkerID = r_ClaimedByWorkerID r, rs_StartedAt = r_StartedAt r,
      rs_FinishedAt = r_FinishedAt r, rs_RetryAvailableAt = r_RetryAvailableAt r,
      rs_ErrorText = r_ErrorText r, rs_CreatedAt = r_CreatedAt r, rs_UpdatedAt = r_UpdatedAt r\<rparr>"

text \<open>\<open>schedule_runs sr JOIN schedules s ON s.id = sr.schedule_id\<close>.\<close>

definition joined_runs :: "DB \<Rightarrow> (RunRow \<times> Schedule) list" where
  "joined_runs db = [(r, s). r \<leftarrow> schedule_runs db, s \<leftarrow> schedules db, s_ID s = r_ScheduleID r]"

definition ListRunAttempts :: "DB \<Rightarrow> string \<Rightarrow> RunSummary list" where
  "ListRunAttempts db key =
     sort_key (\<lambda>a. (rs_Attempt a, rs_CreatedAt a, rs_ID a))
       (map (\<lambda>(r, s). summary_of r s) (filter (\<lambda>(r, s). r_OccurrenceKey r = key) (joined_runs db)))"

definition GetDeadLetterForRun :: "DB \<Rightarrow> string \<Rightarrow> DeadLetter option" where
  "GetDeadLetterForRun db runID = sql_find (\<lambda>d. dl_RunID d = runID) (dead_letters db)"

definition ensureRunExists :: "DB \<Rightarrow> string \<Rightarrow> bool" where
  "ensureRunExists db runID \<longleftrightarrow> sql_find (\<lambda>r. r_ID r = runID) (schedule_runs db) \<noteq> None"

definition ListReceipts :: "DB \<Rightarrow> string \<Rightarrow> Receipt list store_result" where
  "ListReceipts db runID =
     (if \<not> ensureRunExists db runID then Inl ErrNotFound
      else Inr (sort_key (\<lambda>c. (rc_CreatedAt c, rc_ID c))
                  (filter (\<lambda>c. rc_RunID c = runID) (execution_receipts db))))"

text \<open>\<open>decodeExternalJob\<close>: the checkpoint with its target snapshot, and whether it can be reconciled. The
  snapshot \<open>None\<close> is the text \<open>{}\<close> that compaction leaves, which decodes to the zero target.\<close>

definition decodeExternalJob :: "ExternalJob \<Rightarrow> TargetSpec option \<Rightarrow> ExternalJob" where
  "decodeExternalJob checkpoint target =
     (let job = checkpoint\<lparr>j_RequestTarget := (case target of None \<Rightarrow> zero_TargetSpec | Some t \<Rightarrow> t)\<rparr>
      in job\<lparr>j_CanReconcile := ReconciliationAvailable job\<rparr>)"

definition GetExternalJob :: "DB \<Rightarrow> string \<Rightarrow> ExternalJob option" where
  "GetExternalJob db key =
     map_option (\<lambda>e. decodeExternalJob (ej_checkpoint e) (ej_target_snapshot e))
       (sql_find (\<lambda>e. ej_occurrence_key e = key) (external_jobs db))"

definition GetRunEvent :: "DB \<Rightarrow> string \<Rightarrow> TriggerEvent option" where
  "GetRunEvent db key =
     map_option te_event (sql_find (\<lambda>e. te_occurrence_key e = key) (trigger_events db))"

definition plain_run :: "RunRow \<Rightarrow> Run" where
  "plain_run r = RunRow.extend r (Run.fields [] [] None None None '''')"

definition GetRun :: "DB \<Rightarrow> string \<Rightarrow> Run store_result" where
  "GetRun db i =
     (case sql_find (\<lambda>r. r_ID r = i) (schedule_runs db) of
        None \<Rightarrow> Inl ErrNotFound
      | Some r \<Rightarrow> bind_result (ListReceipts db i) (\<lambda>receipts.
          Inr ((plain_run r)
            \<lparr>r_Receipts := receipts, r_Attempts := ListRunAttempts db (r_OccurrenceKey r),
             r_DeadLetter := GetDeadLetterForRun db i,
             r_ExternalJob := GetExternalJob db (r_OccurrenceKey r),
             r_Event := GetRunEvent db (r_OccurrenceKey r)\<rparr>)))"

definition candidate :: "time \<Rightarrow> RunRow \<Rightarrow> bool" where
  "candidate now r \<longleftrightarrow> r_Status r = RunPending \<and> r_DueTime r \<le> now
     \<or> r_Status r = RunRetryScheduled \<and> (case r_RetryAvailableAt r of None \<Rightarrow> False | Some t \<Rightarrow> t \<le> now)"

definition ListCandidateRuns :: "DB \<Rightarrow> time \<Rightarrow> nat \<Rightarrow> RunRow list" where
  "ListCandidateRuns db now n =
     take n (sort_key (\<lambda>r. (r_DueTime r, r_CreatedAt r)) (filter (candidate now) (schedule_runs db)))"

definition ListActiveRuns :: "DB \<Rightarrow> string \<Rightarrow> RunRow list" where
  "ListActiveRuns db scheduleID =
     sort_key r_CreatedAt
       (filter (\<lambda>r. r_ScheduleID r = scheduleID \<and> IsActiveStatus (r_Status r)) (schedule_runs db))"

definition ListPendingRunsBySchedule :: "DB \<Rightarrow> string \<Rightarrow> RunRow list" where
  "ListPendingRunsBySchedule db scheduleID =
     sort_key (\<lambda>r. (r_DueTime r, r_CreatedAt r))
       (filter (\<lambda>r. r_ScheduleID r = scheduleID \<and> queued (r_Status r)) (schedule_runs db))"

definition ActiveRunCount :: "DB \<Rightarrow> string \<Rightarrow> nat" where
  "ActiveRunCount db scheduleID =
     sql_count (\<lambda>r. r_ScheduleID r = scheduleID \<and> IsActiveStatus (r_Status r)) (schedule_runs db)"

definition DueRunCount :: "DB \<Rightarrow> time \<Rightarrow> nat" where
  "DueRunCount db now = sql_count (candidate now) (schedule_runs db)"

definition RetryQueuedCount :: "DB \<Rightarrow> nat" where
  "RetryQueuedCount db = sql_count (\<lambda>r. r_Status r = RunRetryScheduled) (schedule_runs db)"

definition CountStatus :: "DB \<Rightarrow> RunStatus \<Rightarrow> nat" where
  "CountStatus db v = sql_count (\<lambda>r. r_Status r = v) (schedule_runs db)"

definition ClaimedExpiredCount :: "DB \<Rightarrow> time \<Rightarrow> nat" where
  "ClaimedExpiredCount db now =
     sql_count (\<lambda>r. IsActiveStatus (r_Status r)
       \<and> (case r_ClaimExpiresAt r of None \<Rightarrow> False | Some t \<Rightarrow> t \<le> now)) (schedule_runs db)"

definition WorkerLeaseCount :: "DB \<Rightarrow> nat" where
  "WorkerLeaseCount db = length (worker_leases db)"

definition wakeup_time :: "RunRow \<Rightarrow> time" where
  "wakeup_time r =
     (case (r_Status r, r_RetryAvailableAt r) of (RunRetryScheduled, Some t) \<Rightarrow> t | _ \<Rightarrow> r_DueTime r)"

text \<open>The schedule with the earliest queued run: minimum per group, then the least of the groups.\<close>

definition NextDueSchedule :: "DB \<Rightarrow> (string \<times> time) option" where
  "NextDueSchedule db =
     (let waiting = filter (\<lambda>r. queued (r_Status r)) (schedule_runs db);
          groups = map (\<lambda>i. (i, Min (wakeup_time ` set (filter (\<lambda>r. r_ScheduleID r = i) waiting))))
                     (remdups (map r_ScheduleID waiting))
      in case sort_key snd groups of [] \<Rightarrow> None | g # _ \<Rightarrow> Some g)"

definition ExecutorOutcomeCounts :: "DB \<Rightarrow> TargetKind \<Rightarrow> RunStatus \<Rightarrow> nat" where
  "ExecutorOutcomeCounts db kind status =
     (if status \<in> {RunSucceeded, RunFailed, RunDeadLettered, RunCancelled}
      then sql_count (\<lambda>(r, s). t_Kind (s_Target s) = kind \<and> r_Status r = status) (joined_runs db) else 0)"

section \<open>Receipts, dead letters, audit\<close>

definition truncation_marker :: string where
  "truncation_marker = CHR 0x0A # ''[truncated by wakeplane receipt max bytes]'' @ [CHR 0x0A]"

definition truncateReceiptBody :: "string \<Rightarrow> int \<Rightarrow> string" where
  "truncateReceiptBody body maxBytes =
     (if maxBytes \<le> 0 \<or> int (length body) \<le> maxBytes then body
      else if maxBytes \<le> int (length truncation_marker) then take (nat maxBytes) truncation_marker
      else take (nat (maxBytes - int (length truncation_marker))) body @ truncation_marker)"

definition insert_receipt :: "DB \<Rightarrow> Receipt \<Rightarrow> DB store_result" where
  "insert_receipt db c =
     (if \<not> receipt_check (rc_ReceiptKind c) then Inl ErrConstraint
      else if \<exists>x \<in> set (execution_receipts db). rc_ID x = rc_ID c then Inl ErrUnique
      else if \<not> (\<exists>r \<in> set (schedule_runs db). r_ID r = rc_RunID c) then Inl ErrConstraint
      else Inr (db\<lparr>execution_receipts := execution_receipts db @ [c]\<rparr>))"

definition InsertReceipt :: "int \<Rightarrow> DB \<Rightarrow> Receipt \<Rightarrow> DB store_result" where
  "InsertReceipt maxBytes db c = insert_receipt db (c\<lparr>rc_Body := truncateReceiptBody (rc_Body c) maxBytes\<rparr>)"

definition InsertDeadLetter :: "DB \<Rightarrow> DeadLetter \<Rightarrow> DB store_result" where
  "InsertDeadLetter db d =
     (if \<exists>x \<in> set (dead_letters db). dl_ID x = dl_ID d then Inl ErrUnique
      else if \<not> (\<exists>r \<in> set (schedule_runs db). r_ID r = dl_RunID d)
        \<or> \<not> (\<exists>s \<in> set (schedules db). s_ID s = dl_ScheduleID d) then Inl ErrConstraint
      else Inr (db\<lparr>dead_letters := dead_letters db @ [d]\<rparr>))"

definition InsertRequestAudit :: "DB \<Rightarrow> RequestAudit \<Rightarrow> DB store_result" where
  "InsertRequestAudit db a =
     (if \<exists>x \<in> set (request_audit_logs db). au_ID x = au_ID a then Inl ErrUnique
      else Inr (db\<lparr>request_audit_logs := request_audit_logs db @ [a]\<rparr>))"

definition RequestAuditCount :: "DB \<Rightarrow> nat" where
  "RequestAuditCount db = length (request_audit_logs db)"

end
