(* ===== verification/Integrity.thy ===== *)
theory Integrity
  imports Store
begin

text \<open>
  The integrity invariant of the database: the primary keys, unique keys and foreign keys of the
  schema. One lemma per kind of statement shows that it is kept; the methods of the store are
  compositions of these statements.
\<close>

section \<open>Keys and references\<close>

definition schedule_ids :: "DB \<Rightarrow> string set" where
  "schedule_ids db = s_ID ` set (schedules db)"

definition run_ids :: "DB \<Rightarrow> string set" where
  "run_ids db = r_ID ` set (schedule_runs db)"

definition run_key :: "RunRow \<Rightarrow> string \<times> int" where
  "run_key r = (r_OccurrenceKey r, r_Attempt r)"

definition keys_ok :: "DB \<Rightarrow> bool" where
  "keys_ok db \<longleftrightarrow> distinct (map s_ID (schedules db)) \<and> distinct (map s_Name (schedules db))
     \<and> distinct (map r_ID (schedule_runs db)) \<and> distinct (map run_key (schedule_runs db))
     \<and> distinct (map wl_id (worker_leases db)) \<and> distinct (map wl_lease_key (worker_leases db))
     \<and> distinct (map dl_ID (dead_letters db)) \<and> distinct (map rc_ID (execution_receipts db))
     \<and> distinct (map ej_occurrence_key (external_jobs db))
     \<and> distinct (map te_occurrence_key (trigger_events db))
     \<and> (\<forall>l \<in> set (worker_leases db). wl_lease_key l = wl_run_id l)"

definition refs_ok :: "DB \<Rightarrow> bool" where
  "refs_ok db \<longleftrightarrow> (\<forall>r \<in> set (schedule_runs db). r_ScheduleID r \<in> schedule_ids db)
     \<and> (\<forall>l \<in> set (worker_leases db). wl_run_id l \<in> run_ids db)
     \<and> (\<forall>d \<in> set (dead_letters db). dl_RunID d \<in> run_ids db \<and> dl_ScheduleID d \<in> schedule_ids db)
     \<and> (\<forall>c \<in> set (execution_receipts db). rc_RunID c \<in> run_ids db)
     \<and> (\<forall>e \<in> set (external_jobs db). ej_schedule_id e \<in> schedule_ids db)
     \<and> (\<forall>e \<in> set (trigger_events db). te_schedule_id e \<in> schedule_ids db)"

definition wf_db :: "DB \<Rightarrow> bool" where
  "wf_db db \<longleftrightarrow> keys_ok db \<and> refs_ok db"

lemmas wf_defs = wf_db_def keys_ok_def refs_ok_def

lemma ids_frame [simp]:
  "schedule_ids (db\<lparr>schedules := S\<rparr>) = s_ID ` set S"
  "schedule_ids (db\<lparr>schedule_runs := R\<rparr>) = schedule_ids db"
  "schedule_ids (db\<lparr>worker_leases := L\<rparr>) = schedule_ids db"
  "schedule_ids (db\<lparr>dead_letters := D\<rparr>) = schedule_ids db"
  "schedule_ids (db\<lparr>execution_receipts := C\<rparr>) = schedule_ids db"
  "schedule_ids (db\<lparr>external_jobs := J\<rparr>) = schedule_ids db"
  "schedule_ids (db\<lparr>trigger_events := T\<rparr>) = schedule_ids db"
  "schedule_ids (db\<lparr>request_audit_logs := A\<rparr>) = schedule_ids db"
  "run_ids (db\<lparr>schedules := S\<rparr>) = run_ids db"
  "run_ids (db\<lparr>schedule_runs := R\<rparr>) = r_ID ` set R"
  "run_ids (db\<lparr>worker_leases := L\<rparr>) = run_ids db"
  "run_ids (db\<lparr>dead_letters := D\<rparr>) = run_ids db"
  "run_ids (db\<lparr>execution_receipts := C\<rparr>) = run_ids db"
  "run_ids (db\<lparr>external_jobs := J\<rparr>) = run_ids db"
  "run_ids (db\<lparr>trigger_events := T\<rparr>) = run_ids db"
  "run_ids (db\<lparr>request_audit_logs := A\<rparr>) = run_ids db"
  by (simp_all add: schedule_ids_def run_ids_def)

lemma in_ids:
  "i \<in> schedule_ids db \<longleftrightarrow> (\<exists>s \<in> set (schedules db). s_ID s = i)"
  "i \<in> run_ids db \<longleftrightarrow> (\<exists>r \<in> set (schedule_runs db). r_ID r = i)"
  by (auto simp: schedule_ids_def run_ids_def)

lemma not_in_keys: "k \<notin> key ` set rows \<longleftrightarrow> (\<forall>x \<in> set rows. key x \<noteq> k)"
  by auto

lemma wf_empty: "wf_db empty_db"
  by (simp add: wf_defs empty_db_def schedule_ids_def run_ids_def)

lemma wf_dbD:
  assumes "wf_db db"
  shows "distinct (map s_ID (schedules db))" and "distinct (map r_ID (schedule_runs db))"
    and "distinct (map run_key (schedule_runs db))" and "distinct (map wl_id (worker_leases db))"
    and "distinct (map wl_run_id (worker_leases db))" and "distinct (map ej_occurrence_key (external_jobs db))"
    and "distinct (map te_occurrence_key (trigger_events db))" and "distinct (map rc_ID (execution_receipts db))"
proof -
  have "map wl_run_id (worker_leases db) = map wl_lease_key (worker_leases db)"
    using assms unfolding wf_db_def keys_ok_def by (intro map_cong refl) simp
  then show "distinct (map wl_run_id (worker_leases db))" using assms by (simp only: wf_db_def keys_ok_def)
qed (use assms in \<open>simp_all add: wf_defs\<close>)

lemma run_by_id:
  "wf_db db \<Longrightarrow> r \<in> set (schedule_runs db) \<Longrightarrow> sql_find (\<lambda>x. r_ID x = r_ID r) (schedule_runs db) = Some r"
  by (rule sql_find_key) (auto dest: wf_dbD)

lemma run_unique:
  "wf_db db \<Longrightarrow> r \<in> set (schedule_runs db) \<Longrightarrow> r' \<in> set (schedule_runs db) \<Longrightarrow> r_ID r = r_ID r' \<Longrightarrow> r = r'"
  by (rule distinct_key_inj [of r_ID]) (auto dest: wf_dbD)

lemma lease_unique:
  "wf_db db \<Longrightarrow> l \<in> set (worker_leases db) \<Longrightarrow> l' \<in> set (worker_leases db)
   \<Longrightarrow> wl_run_id l = wl_run_id l' \<Longrightarrow> l = l'"
  by (rule distinct_key_inj [of wl_run_id]) (auto dest: wf_dbD)

lemma lease_unique_id:
  "wf_db db \<Longrightarrow> l \<in> set (worker_leases db) \<Longrightarrow> l' \<in> set (worker_leases db)
   \<Longrightarrow> wl_id l = wl_id l' \<Longrightarrow> l = l'"
  by (rule distinct_key_inj [of wl_id]) (auto dest: wf_dbD)

section \<open>Statements keep integrity\<close>

lemma image_sql_update:
  "(\<And>r. key (f r) = key r) \<Longrightarrow> key ` set (sql_update P f rows) = key ` set rows"
  using map_key_sql_update [of key f P rows] by (metis list.set_map)

lemma wf_update_runs:
  assumes "wf_db db"
    and "\<And>r. r_ID (f r) = r_ID r" and "\<And>r. r_ScheduleID (f r) = r_ScheduleID r"
    and "\<And>r. run_key (f r) = run_key r"
  shows "wf_db (db\<lparr>schedule_runs := sql_update P f (schedule_runs db)\<rparr>)"
proof -
  have "\<forall>r \<in> set (sql_update P f (schedule_runs db)). r_ScheduleID r \<in> schedule_ids db"
    using assms(1,3) by (auto simp: wf_db_def refs_ok_def table_simps)
  with assms show ?thesis
    by (simp add: wf_defs map_key_sql_update image_sql_update run_ids_def)
qed

lemma wf_append_run:
  assumes "wf_db db" and "r_ScheduleID r \<in> schedule_ids db"
    and "r_ID r \<notin> run_ids db" and "run_key r \<notin> run_key ` set (schedule_runs db)"
  shows "wf_db (db\<lparr>schedule_runs := schedule_runs db @ [r]\<rparr>)"
  using assms by (auto simp: wf_defs run_ids_def)

lemma wf_delete_leases:
  "wf_db db \<Longrightarrow> wf_db (db\<lparr>worker_leases := sql_delete P (worker_leases db)\<rparr>)"
  by (simp add: wf_defs table_simps)

lemma wf_update_leases:
  assumes "wf_db db"
    and "\<And>l. wl_id (f l) = wl_id l" and "\<And>l. wl_run_id (f l) = wl_run_id l"
    and "\<And>l. wl_lease_key (f l) = wl_lease_key l"
  shows "wf_db (db\<lparr>worker_leases := sql_update P f (worker_leases db)\<rparr>)"
  using assms by (auto simp: wf_defs map_key_sql_update set_sql_update)

lemma wf_append_lease:
  assumes "wf_db db" and "wl_lease_key l = wl_run_id l" and "wl_run_id l \<in> run_ids db"
    and "\<forall>x \<in> set (worker_leases db). wl_id x \<noteq> wl_id l \<and> wl_lease_key x \<noteq> wl_lease_key l"
  shows "wf_db (db\<lparr>worker_leases := worker_leases db @ [l]\<rparr>)"
  using assms by (auto simp: wf_defs)

lemma wf_append_dead_letter:
  assumes "wf_db db" and "dl_ID d \<notin> dl_ID ` set (dead_letters db)"
    and "dl_RunID d \<in> run_ids db" and "dl_ScheduleID d \<in> schedule_ids db"
  shows "wf_db (db\<lparr>dead_letters := dead_letters db @ [d]\<rparr>)"
  using assms by (auto simp: wf_defs)

lemma wf_append_receipt:
  assumes "wf_db db" and "rc_ID c \<notin> rc_ID ` set (execution_receipts db)" and "rc_RunID c \<in> run_ids db"
  shows "wf_db (db\<lparr>execution_receipts := execution_receipts db @ [c]\<rparr>)"
  using assms by (auto simp: wf_defs)

lemma wf_update_schedules:
  assumes "wf_db db" and "\<And>s. s_ID (f s) = s_ID s"
    and "distinct (map s_Name (sql_update P f (schedules db)))"
  shows "wf_db (db\<lparr>schedules := sql_update P f (schedules db)\<rparr>)"
  using assms by (simp add: wf_defs map_key_sql_update image_sql_update schedule_ids_def)

lemma wf_update_schedules_name:
  assumes "wf_db db" and "\<And>s. s_ID (f s) = s_ID s" and "\<And>s. s_Name (f s) = s_Name s"
  shows "wf_db (db\<lparr>schedules := sql_update P f (schedules db)\<rparr>)"
  using assms by (intro wf_update_schedules) (simp_all add: map_key_sql_update wf_defs)

lemma wf_update_external_jobs:
  assumes "wf_db db" and "\<And>e. ej_occurrence_key (f e) = ej_occurrence_key e"
    and "\<And>e. ej_schedule_id (f e) = ej_schedule_id e"
  shows "wf_db (db\<lparr>external_jobs := sql_update P f (external_jobs db)\<rparr>)"
  using assms by (auto simp: wf_defs map_key_sql_update set_sql_update)

lemma wf_append_external_job:
  assumes "wf_db db" and "ej_occurrence_key e \<notin> ej_occurrence_key ` set (external_jobs db)"
    and "ej_schedule_id e \<in> schedule_ids db"
  shows "wf_db (db\<lparr>external_jobs := external_jobs db @ [e]\<rparr>)"
  using assms by (auto simp: wf_defs)

lemma wf_append_trigger_event:
  assumes "wf_db db" and "te_occurrence_key e \<notin> te_occurrence_key ` set (trigger_events db)"
    and "te_schedule_id e \<in> schedule_ids db"
  shows "wf_db (db\<lparr>trigger_events := trigger_events db @ [e]\<rparr>)"
  using assms by (auto simp: wf_defs)

lemma run_ids_delete_runs:
  "run_ids (delete_runs P db) = run_ids db - r_ID ` {r \<in> set (schedule_runs db). P r}"
  if "wf_db db"
proof -
  have "r_ID r \<notin> r_ID ` {r \<in> set (schedule_runs db). P r}" if "r \<in> set (schedule_runs db)" "\<not> P r" for r
    using that run_unique [OF \<open>wf_db db\<close>] by auto
  then show ?thesis by (auto simp: delete_runs_def Let_def run_ids_def table_simps)
qed

lemma schedule_ids_delete_runs [simp]: "schedule_ids (delete_runs P db) = schedule_ids db"
  by (simp add: delete_runs_def Let_def)

lemma wf_delete_runs:
  assumes "wf_db db"
  shows "wf_db (delete_runs P db)"
proof -
  have "keys_ok (delete_runs P db)"
    using assms by (simp add: wf_db_def keys_ok_def delete_runs_def Let_def table_simps)
  moreover have "refs_ok (delete_runs P db)"
    using assms unfolding refs_ok_def run_ids_delete_runs [OF assms] schedule_ids_delete_runs
    by (auto simp: wf_db_def refs_ok_def delete_runs_def Let_def table_simps)
  ultimately show ?thesis by (simp add: wf_db_def)
qed

section \<open>The methods on schedules, runs and receipts\<close>

lemma wf_CreateSchedule: "wf_db db \<Longrightarrow> CreateSchedule db s = Inr db' \<Longrightarrow> wf_db db'"
  by (auto simp: CreateSchedule_def wf_defs schedule_ids_def not_in_keys split: if_splits)

lemma distinct_map_update_one:
  assumes "distinct (map key rows)" and "distinct (map name rows)"
    and "\<forall>x \<in> set rows. key x \<noteq> k \<longrightarrow> name x \<noteq> n" and "\<And>x. name (f x) = n"
  shows "distinct (map name (sql_update (\<lambda>x. key x = k) f rows))"
  using assms(1-3)
proof (induction rows)
  case (Cons a rows)
  show ?case
  proof (cases "key a = k")
    case True
    with Cons.prems(1) have "\<forall>x \<in> set rows. key x \<noteq> k" by (simp add: not_in_keys)
    moreover from this have "n \<notin> name ` set rows" using Cons.prems(3) by auto
    ultimately show ?thesis
      using True Cons.prems(2) assms(4) sql_update_id [of rows "\<lambda>x. key x = k" f]
      by (simp add: sql_update_def)
  next
    case False
    with Cons.prems have "\<forall>x \<in> set rows. name a \<noteq> name (if key x = k then f x else x)"
      by (auto simp: assms(4))
    with False Cons show ?thesis by (auto simp: sql_update_def)
  qed
qed (simp add: sql_update_def)

lemma wf_UpdateSchedule:
  assumes "wf_db db" and "UpdateSchedule db s = Inr db'"
  shows "wf_db db'"
proof (cases "s_ID s \<in> schedule_ids db")
  case False
  then have "\<not> (\<exists>x \<in> set (schedules db). s_ID x = s_ID s)" by (simp add: in_ids)
  with assms show ?thesis by (simp add: UpdateSchedule_def)
next
  case True
  then have db': "db' = db\<lparr>schedules := sql_update (\<lambda>x. s_ID x = s_ID s)
      (\<lambda>x. s\<lparr>s_ID := s_ID x, s_CreatedAt := s_CreatedAt x\<rparr>) (schedules db)\<rparr>"
    and names: "\<forall>x \<in> set (schedules db). s_ID x \<noteq> s_ID s \<longrightarrow> s_Name x \<noteq> s_Name s"
    using assms(2) by (auto simp: UpdateSchedule_def in_ids split: if_splits)
  show ?thesis unfolding db'
    using assms(1) names
    by (intro wf_update_schedules distinct_map_update_one) (simp_all add: wf_defs)
qed

lemma wf_DeleteSchedule:
  assumes "wf_db db" and "DeleteSchedule db i = Inr db'"
  shows "wf_db db'"
proof -
  define db1 where "db1 = delete_runs (\<lambda>r. r_ScheduleID r = i) db"
  have wf1: "wf_db db1" unfolding db1_def using assms(1) by (rule wf_delete_runs)
  have runs: "\<forall>r \<in> set (schedule_runs db1). r_ScheduleID r \<noteq> i"
    by (auto simp: db1_def delete_runs_def Let_def table_simps)
  have db': "db' = db1\<lparr>schedules := sql_delete (\<lambda>s. s_ID s = i) (schedules db1),
      dead_letters := sql_delete (\<lambda>d. dl_ScheduleID d = i) (dead_letters db1),
      external_jobs := sql_delete (\<lambda>e. ej_schedule_id e = i) (external_jobs db1),
      trigger_events := sql_delete (\<lambda>e. te_schedule_id e = i) (trigger_events db1)\<rparr>"
    using assms(2) by (auto simp: DeleteSchedule_def db1_def Let_def split: if_splits)
  have "keys_ok db'" using wf1 unfolding db'
    by (simp add: wf_db_def keys_ok_def distinct_map_sql_delete)
  moreover have "schedule_ids db' = schedule_ids db1 - {i}" and "run_ids db' = run_ids db1"
    unfolding db' by (auto simp: schedule_ids_def run_ids_def table_simps)
  then have "refs_ok db'" using wf1 runs
    by (auto simp: wf_db_def refs_ok_def table_simps db')
  ultimately show ?thesis by (simp add: wf_db_def)
qed

lemma wf_UpdateScheduleRuntime:
  "wf_db db \<Longrightarrow> wf_db (UpdateScheduleRuntime db i nextRunAt lastRunAt pausedAt enabled now)"
  unfolding UpdateScheduleRuntime_def by (rule wf_update_schedules_name) simp_all

lemma wf_RecordScheduleCompletion: "wf_db db \<Longrightarrow> wf_db (RecordScheduleCompletion db i now)"
  unfolding RecordScheduleCompletion_def by (rule wf_update_schedules_name) simp_all

lemma wf_InsertRun:
  assumes "wf_db db" and "InsertRun db run = Inr db'"
  shows "wf_db db'"
proof -
  have "db' = db\<lparr>schedule_runs := schedule_runs db @ [run]\<rparr>"
    using assms(2) by (auto simp: InsertRun_def split: if_splits)
  moreover have "wf_db (db\<lparr>schedule_runs := schedule_runs db @ [run]\<rparr>)"
    using assms by (intro wf_append_run)
      (auto simp: InsertRun_def in_ids run_key_def split: if_splits)
  ultimately show ?thesis by simp
qed

lemma wf_insert_receipt: "wf_db db \<Longrightarrow> insert_receipt db c = Inr db' \<Longrightarrow> wf_db db'"
  by (auto simp: insert_receipt_def in_ids not_in_keys intro!: wf_append_receipt split: if_splits)

lemma wf_InsertReceipt: "wf_db db \<Longrightarrow> InsertReceipt n db c = Inr db' \<Longrightarrow> wf_db db'"
  unfolding InsertReceipt_def by (rule wf_insert_receipt)

lemma wf_InsertDeadLetter: "wf_db db \<Longrightarrow> InsertDeadLetter db d = Inr db' \<Longrightarrow> wf_db db'"
  by (auto simp: InsertDeadLetter_def in_ids not_in_keys intro!: wf_append_dead_letter
      split: if_splits)

lemma wf_InsertRequestAudit: "wf_db db \<Longrightarrow> InsertRequestAudit db a = Inr db' \<Longrightarrow> wf_db db'"
  by (auto simp: InsertRequestAudit_def wf_defs split: if_splits)

end
