(* ===== verification/Leases.thy ===== *)
theory Leases
  imports Integrity
begin

text \<open>
  Claims, leases and the transitions of a run: the rest of \<open>internal/store/store.go\<close> and the parts of
  \<open>internal/store/external_jobs.go\<close> that lock, renew, finish and requeue an execution. A claim puts a
  row in \<open>worker_leases\<close> whose id is the execution's token; every later write of the execution
  presents the token.
\<close>

datatype dialect = SQLite | Postgres

section \<open>Claiming\<close>

text \<open>The keys of \<open>activeOccurrenceQuery\<close>: occurrences of the schedule with a claimed or running run or
  an unresolved external job, other than the given one.\<close>

definition other_active_keys :: "DB \<Rightarrow> string \<Rightarrow> string \<Rightarrow> string list" where
  "other_active_keys db scheduleID key = remdups
     ([r_OccurrenceKey r. r \<leftarrow> schedule_runs db,
         r_ScheduleID r = scheduleID \<and> r_OccurrenceKey r \<noteq> key \<and> IsActiveStatus (r_Status r)]
      @ [ej_occurrence_key e. e \<leftarrow> external_jobs db,
         ej_schedule_id e = scheduleID \<and> ej_occurrence_key e \<noteq> key \<and> unresolved (ej_job_status e)])"

definition ActiveOtherOccurrenceCount :: "DB \<Rightarrow> string \<Rightarrow> string \<Rightarrow> nat" where
  "ActiveOtherOccurrenceCount db scheduleID key = length (other_active_keys db scheduleID key)"

text \<open>\<open>INSERT OR REPLACE\<close> deletes every row that collides on a key; \<open>ON CONFLICT (lease_key) DO UPDATE\<close>
  rewrites the colliding row and fails on a collision of ids with another one.\<close>

definition upsertLease ::
    "dialect \<Rightarrow> DB \<Rightarrow> string \<Rightarrow> string \<Rightarrow> string \<Rightarrow> time \<Rightarrow> time \<Rightarrow> DB store_result" where
  "upsertLease dialect db token workerID runID acquiredAt expiresAt =
     (let l = \<lparr>wl_id = token, wl_worker_id = workerID, wl_run_id = runID, wl_lease_key = runID,
               wl_acquired_at = acquiredAt, wl_expires_at = expiresAt, wl_heartbeat_at = acquiredAt\<rparr>
      in case dialect of
        SQLite \<Rightarrow> Inr (db\<lparr>worker_leases :=
          sql_delete (\<lambda>x. wl_id x = token \<or> wl_lease_key x = runID) (worker_leases db) @ [l]\<rparr>)
      | Postgres \<Rightarrow>
          if \<exists>x \<in> set (worker_leases db). wl_id x = token \<and> wl_lease_key x \<noteq> runID then Inl ErrUnique
          else if \<exists>x \<in> set (worker_leases db). wl_lease_key x = runID
          then Inr (db\<lparr>worker_leases := sql_update (\<lambda>x. wl_lease_key x = runID) (\<lambda>x. l) (worker_leases db)\<rparr>)
          else Inr (db\<lparr>worker_leases := worker_leases db @ [l]\<rparr>))"

definition ClaimRunWithToken ::
    "dialect \<Rightarrow> DB \<Rightarrow> Schedule \<Rightarrow> string \<Rightarrow> string \<Rightarrow> time \<Rightarrow> duration \<Rightarrow> string
     \<Rightarrow> ((bool \<times> string) \<times> DB) store_result" where
  "ClaimRunWithToken dialect db schedule runID workerID now ttl token =
     (if dialect = Postgres \<and> sql_find (\<lambda>s. s_ID s = s_ID schedule) (schedules db) = None then Inl ErrNotFound
      else case sql_find (\<lambda>r. r_ID r = runID) (schedule_runs db) of
        None \<Rightarrow> Inl ErrNotFound
      | Some r \<Rightarrow>
          if r_ScheduleID r \<noteq> s_ID schedule then Inl ErrConflict
          else if r_Status r \<noteq> RunPending \<and> r_Status r \<noteq> RunRetryScheduled then Inr ((False, ''''), db)
          else if sql_count (\<lambda>x. r_OccurrenceKey x = r_OccurrenceKey r \<and> r_ID x \<noteq> runID
              \<and> IsActiveStatus (r_Status x)) (schedule_runs db) > 0 then Inr ((False, ''''), db)
          else
            let activeCount = int (ActiveOtherOccurrenceCount db (s_ID schedule) (r_OccurrenceKey r)) in
            if activeCount \<ge> p_MaxConcurrency (s_Policy schedule) then Inr ((False, ''''), db)
            else if activeCount > 0 \<and> p_Overlap (s_Policy schedule) \<noteq> OverlapAllow then Inr ((False, ''''), db)
            else
              let expires = now + ttl;
                  db1 = db\<lparr>schedule_runs := sql_update (\<lambda>x. r_ID x = runID \<and> queued (r_Status x))
                    (\<lambda>x. x\<lparr>r_Status := RunClaimed, r_ClaimedByWorkerID := Some workerID,
                           r_ClaimExpiresAt := Some expires, r_UpdatedAt := now\<rparr>) (schedule_runs db)\<rparr>
              in bind_result (upsertLease dialect db1 token workerID runID now expires)
                   (\<lambda>db2. Inr ((True, token), db2)))"

definition ClaimRun ::
    "dialect \<Rightarrow> DB \<Rightarrow> Schedule \<Rightarrow> string \<Rightarrow> string \<Rightarrow> time \<Rightarrow> duration \<Rightarrow> string \<Rightarrow> (bool \<times> DB) store_result" where
  "ClaimRun dialect db schedule runID workerID now ttl token =
     bind_result (ClaimRunWithToken dialect db schedule runID workerID now ttl token)
       (\<lambda>((claimed, _), db'). Inr (claimed, db'))"

section \<open>Leases\<close>

definition RenewLease :: "DB \<Rightarrow> string \<Rightarrow> string \<Rightarrow> time \<Rightarrow> duration \<Rightarrow> DB" where
  "RenewLease db runID workerID now ttl =
     (let expires = now + ttl;
          db1 = db\<lparr>worker_leases := sql_update (\<lambda>l. wl_run_id l = runID \<and> wl_worker_id l = workerID)
            (\<lambda>l. l\<lparr>wl_expires_at := expires, wl_heartbeat_at := now\<rparr>) (worker_leases db)\<rparr>
      in db1\<lparr>schedule_runs := sql_update (\<lambda>r. r_ID r = runID \<and> r_ClaimedByWorkerID r = Some workerID)
            (\<lambda>r. r\<lparr>r_ClaimExpiresAt := Some expires, r_UpdatedAt := now\<rparr>) (schedule_runs db1)\<rparr>)"

definition released :: "time \<Rightarrow> RunRow \<Rightarrow> RunRow" where
  "released now r =
     r\<lparr>r_Status := RunPending, r_ClaimedByWorkerID := None, r_ClaimExpiresAt := None, r_UpdatedAt := now\<rparr>"

definition recover_claim :: "time \<Rightarrow> string \<Rightarrow> DB \<Rightarrow> DB" where
  "recover_claim now runID db =
     db\<lparr>schedule_runs := sql_update (\<lambda>r. r_ID r = runID \<and> IsActiveStatus (r_Status r)) (released now) (schedule_runs db),
        worker_leases := sql_delete (\<lambda>l. wl_run_id l = runID) (worker_leases db)\<rparr>"

definition RecoverExpiredClaims :: "DB \<Rightarrow> time \<Rightarrow> DB" where
  "RecoverExpiredClaims db now =
     fold (recover_claim now) (map wl_run_id (filter (\<lambda>l. wl_expires_at l \<le> now) (worker_leases db))) db"

definition ListExpiredLeases :: "DB \<Rightarrow> time \<Rightarrow> (RunRow \<times> Schedule) list" where
  "ListExpiredLeases db now =
     [(r, s). l \<leftarrow> worker_leases db, wl_expires_at l \<le> now, r \<leftarrow> schedule_runs db, r_ID r = wl_run_id l,
        s \<leftarrow> schedules db, s_ID s = r_ScheduleID r]"

definition ResetClaimedRun :: "DB \<Rightarrow> string \<Rightarrow> time \<Rightarrow> DB store_result" where
  "ResetClaimedRun db runID now =
     (case sql_find (\<lambda>r. r_ID r = runID) (schedule_runs db) of
        None \<Rightarrow> Inl ErrNoRows
      | Some r \<Rightarrow>
          if r_Status r \<noteq> RunClaimed then Inr db
          else (case sql_find (\<lambda>l. wl_run_id l = runID) (worker_leases db) of
              None \<Rightarrow> Inr db
            | Some l \<Rightarrow>
                if now < wl_expires_at l then Inr db
                else Inr (db\<lparr>schedule_runs := sql_update (\<lambda>x. r_ID x = runID \<and> r_Status x = RunClaimed)
                                 (released now) (schedule_runs db),
                             worker_leases := sql_delete (\<lambda>x. wl_id x = wl_id l) (worker_leases db)\<rparr>)))"

definition ClearLease :: "DB \<Rightarrow> string \<Rightarrow> DB" where
  "ClearLease db runID = db\<lparr>worker_leases := sql_delete (\<lambda>l. wl_run_id l = runID) (worker_leases db)\<rparr>"

definition ExecutionLeaseToken :: "DB \<Rightarrow> string \<Rightarrow> string \<Rightarrow> string store_result" where
  "ExecutionLeaseToken db runID workerID =
     (case sql_find (\<lambda>l. wl_run_id l = runID \<and> wl_worker_id l = workerID) (worker_leases db) of
        None \<Rightarrow> Inl ErrLeaseLost
      | Some l \<Rightarrow> Inr (wl_id l))"

text \<open>\<open>lockRunLease\<close>: fails unless the run is claimed or running for the worker under this very token,
  and, if required, the lease has not expired.\<close>

definition lockRunLease ::
    "DB \<Rightarrow> string \<Rightarrow> string \<Rightarrow> string \<Rightarrow> time \<Rightarrow> bool \<Rightarrow> unit store_result" where
  "lockRunLease db runID workerID token now requireUnexpired =
     (case sql_find (\<lambda>r. r_ID r = runID) (schedule_runs db) of
        None \<Rightarrow> Inl ErrNoRows
      | Some r \<Rightarrow>
          if (r_Status r \<noteq> RunRunning \<and> r_Status r \<noteq> RunClaimed) \<or> r_ClaimedByWorkerID r \<noteq> Some workerID
          then Inl ErrLeaseLost
          else (case sql_find (\<lambda>l. wl_id l = token \<and> wl_run_id l = runID \<and> wl_worker_id l = workerID)
                       (worker_leases db) of
              None \<Rightarrow> Inl ErrLeaseLost
            | Some l \<Rightarrow> if requireUnexpired \<and> \<not> now < wl_expires_at l then Inl ErrLeaseLost else Inr ()))"

definition lockOwnedRun :: "DB \<Rightarrow> string \<Rightarrow> string \<Rightarrow> string \<Rightarrow> time \<Rightarrow> unit store_result" where
  "lockOwnedRun db runID workerID token now = lockRunLease db runID workerID token now True"

definition RenewLeaseWithToken ::
    "DB \<Rightarrow> string \<Rightarrow> string \<Rightarrow> string \<Rightarrow> time \<Rightarrow> duration \<Rightarrow> DB store_result" where
  "RenewLeaseWithToken db runID workerID token now ttl =
     bind_result (lockOwnedRun db runID workerID token now) (\<lambda>_.
       let expires = now + ttl in
       Inr (db\<lparr>worker_leases := sql_update (\<lambda>l. wl_id l = token)
                  (\<lambda>l. l\<lparr>wl_expires_at := expires, wl_heartbeat_at := now\<rparr>) (worker_leases db),
               schedule_runs := sql_update (\<lambda>r. r_ID r = runID)
                  (\<lambda>r. r\<lparr>r_ClaimExpiresAt := Some expires, r_UpdatedAt := now\<rparr>) (schedule_runs db)\<rparr>))"

section \<open>Running and finishing\<close>

text \<open>\<open>status = 'running', started_at = COALESCE(started_at, ?)\<close>.\<close>

definition started :: "time \<Rightarrow> RunRow \<Rightarrow> RunRow" where
  "started now r =
     r\<lparr>r_Status := RunRunning,
       r_StartedAt := (case r_StartedAt r of None \<Rightarrow> Some now | Some t \<Rightarrow> Some t), r_UpdatedAt := now\<rparr>"

definition MarkRunRunning :: "DB \<Rightarrow> string \<Rightarrow> time \<Rightarrow> DB" where
  "MarkRunRunning db runID now =
     db\<lparr>schedule_runs := sql_update (\<lambda>r. r_ID r = runID) (started now) (schedule_runs db)\<rparr>"

definition MarkRunRunningWithLease :: "DB \<Rightarrow> string \<Rightarrow> string \<Rightarrow> string \<Rightarrow> time \<Rightarrow> DB store_result" where
  "MarkRunRunningWithLease db runID workerID token now =
     bind_result (lockOwnedRun db runID workerID token now) (\<lambda>_. Inr (MarkRunRunning db runID now))"

text \<open>The columns a finished execution writes into its row.\<close>

definition outcome_into :: "'a RunRow_scheme \<Rightarrow> RunRow \<Rightarrow> RunRow" where
  "outcome_into run r =
     r\<lparr>r_Status := r_Status run, r_StartedAt := r_StartedAt run, r_FinishedAt := r_FinishedAt run,
       r_HTTPStatusCode := r_HTTPStatusCode run, r_ExitCode := r_ExitCode run,
       r_ResultJSON := r_ResultJSON run, r_ErrorText := r_ErrorText run,
       r_RetryAvailableAt := r_RetryAvailableAt run\<rparr>"

text \<open>The first statement of \<open>FinishRun\<close>; the second one, when the run is finished, is \<open>ClearLease\<close>.\<close>

definition FinishRun_row :: "DB \<Rightarrow> 'a RunRow_scheme \<Rightarrow> DB" where
  "FinishRun_row db run =
     db\<lparr>schedule_runs := sql_update (\<lambda>r. r_ID r = r_ID run)
         (\<lambda>r. (outcome_into run r)\<lparr>r_ClaimedByWorkerID := r_ClaimedByWorkerID run,
                r_ClaimExpiresAt := r_ClaimExpiresAt run, r_UpdatedAt := r_UpdatedAt run\<rparr>)
         (schedule_runs db)\<rparr>"

definition FinishRun :: "DB \<Rightarrow> 'a RunRow_scheme \<Rightarrow> DB" where
  "FinishRun db run =
     (let db1 = FinishRun_row db run in if r_FinishedAt run \<noteq> None then ClearLease db1 (r_ID run) else db1)"

definition lockExpiredRunningRun :: "DB \<Rightarrow> string \<Rightarrow> time \<Rightarrow> (string \<times> string) store_result" where
  "lockExpiredRunningRun db runID now =
     (case sql_find (\<lambda>r. r_ID r = runID) (schedule_runs db) of
        None \<Rightarrow> Inl ErrNoRows
      | Some r \<Rightarrow>
          if r_Status r \<noteq> RunRunning \<or> r_ClaimedByWorkerID r = None then Inl ErrLeaseLost
          else (case sql_find (\<lambda>l. wl_run_id l = runID) (worker_leases db) of
              None \<Rightarrow> Inl ErrLeaseLost
            | Some l \<Rightarrow>
                if Some (wl_worker_id l) \<noteq> r_ClaimedByWorkerID r \<or> now < wl_expires_at l then Inl ErrLeaseLost
                else Inr (wl_worker_id l, wl_id l)))"

text \<open>\<open>INSERT ... ON CONFLICT (occurrence_key, attempt) DO NOTHING\<close> of the columns of a retry.\<close>

definition retry_row :: "'a RunRow_scheme \<Rightarrow> RunRow" where
  "retry_row retry =
     \<lparr>r_ID = r_ID retry, r_ScheduleID = r_ScheduleID retry, r_OccurrenceKey = r_OccurrenceKey retry,
      r_NominalTime = r_NominalTime retry, r_DueTime = r_DueTime retry, r_Status = r_Status retry,
      r_Attempt = r_Attempt retry, r_ClaimedByWorkerID = None, r_ClaimExpiresAt = None, r_StartedAt = None,
      r_FinishedAt = None, r_HTTPStatusCode = None, r_ExitCode = None, r_ResultJSON = '''', r_ErrorText = None,
      r_RetryAvailableAt = r_RetryAvailableAt retry, r_CreatedAt = r_CreatedAt retry,
      r_UpdatedAt = r_UpdatedAt retry\<rparr>"

definition insert_retry :: "DB \<Rightarrow> 'a RunRow_scheme \<Rightarrow> DB store_result" where
  "insert_retry db retry =
     (if \<exists>x \<in> set (schedule_runs db). r_OccurrenceKey x = r_OccurrenceKey retry \<and> r_Attempt x = r_Attempt retry
      then Inr db
      else if \<exists>x \<in> set (schedule_runs db). r_ID x = r_ID retry then Inl ErrUnique
      else if \<not> (\<exists>s \<in> set (schedules db). s_ID s = r_ScheduleID retry) then Inl ErrConstraint
      else Inr (db\<lparr>schedule_runs := schedule_runs db @ [retry_row retry]\<rparr>))"

definition finish_row :: "DB \<Rightarrow> 'a RunRow_scheme \<Rightarrow> string \<Rightarrow> string \<Rightarrow> time \<Rightarrow> DB" where
  "finish_row db run workerID token now =
     db\<lparr>schedule_runs := sql_update (\<lambda>r. r_ID r = r_ID run)
          (\<lambda>r. (outcome_into run r)\<lparr>r_ClaimedByWorkerID := Some workerID, r_ClaimExpiresAt := None,
                 r_UpdatedAt := now\<rparr>) (schedule_runs db),
        worker_leases := sql_delete (\<lambda>l. wl_id l = token) (worker_leases db)\<rparr>"

definition finishExternalRun ::
    "DB \<Rightarrow> 'a RunRow_scheme \<Rightarrow> string \<Rightarrow> string \<Rightarrow> 'b RunRow_scheme option \<Rightarrow> DeadLetter option \<Rightarrow> time \<Rightarrow> bool
     \<Rightarrow> DB store_result" where
  "finishExternalRun db run workerID0 token0 retry dead now expired =
     bind_result
       (if expired then lockExpiredRunningRun db (r_ID run) now
        else bind_result (lockRunLease db (r_ID run) workerID0 token0 now False)
          (\<lambda>_. Inr (workerID0, token0)))
       (\<lambda>(workerID, token).
          bind_result
            (case retry of None \<Rightarrow> Inr (finish_row db run workerID token now)
             | Some rt \<Rightarrow> insert_retry (finish_row db run workerID token now) rt)
            (\<lambda>db2. case dead of None \<Rightarrow> Inr db2 | Some d \<Rightarrow> InsertDeadLetter db2 d))"

definition FinishRunWithLease :: "DB \<Rightarrow> 'a RunRow_scheme \<Rightarrow> string \<Rightarrow> string \<Rightarrow> time \<Rightarrow> DB store_result" where
  "FinishRunWithLease db run workerID token now =
     finishExternalRun db run workerID token (None :: RunRow option) None now False"

definition FinishExternalFailure ::
    "DB \<Rightarrow> 'a RunRow_scheme \<Rightarrow> string \<Rightarrow> string \<Rightarrow> 'b RunRow_scheme option \<Rightarrow> DeadLetter option \<Rightarrow> time
     \<Rightarrow> DB store_result" where
  "FinishExternalFailure db run workerID token retry dead now =
     finishExternalRun db run workerID token retry dead now False"

definition FinishExpiredRunFailure ::
    "DB \<Rightarrow> 'a RunRow_scheme \<Rightarrow> 'b RunRow_scheme option \<Rightarrow> DeadLetter option \<Rightarrow> time \<Rightarrow> DB store_result" where
  "FinishExpiredRunFailure db run retry dead now = finishExternalRun db run '''' '''' retry dead now True"

definition requeue_message :: "bool \<Rightarrow> string" where
  "requeue_message expired =
     ''external job tracking released for resume; expired='' @ (if expired then ''true'' else ''false'')"

definition RequeueExternalRun ::
    "DB \<Rightarrow> string \<Rightarrow> string \<Rightarrow> string \<Rightarrow> time \<Rightarrow> bool \<Rightarrow> string \<Rightarrow> DB store_result" where
  "RequeueExternalRun db runID workerID token0 now expired receiptID =
     bind_result
       (if \<not> expired then bind_result (lockOwnedRun db runID workerID token0 now) (\<lambda>_. Inr token0)
        else (case sql_find (\<lambda>r. r_ID r = runID) (schedule_runs db) of
            None \<Rightarrow> Inl ErrNoRows
          | Some r \<Rightarrow>
              (case sql_find (\<lambda>l. wl_run_id l = runID) (worker_leases db) of
                 None \<Rightarrow> Inl ErrLeaseLost
               | Some l \<Rightarrow>
                   if r_Status r \<noteq> RunRunning \<or> now < wl_expires_at l then Inl ErrLeaseLost else Inr (wl_id l))))
       (\<lambda>token.
          insert_receipt
            (db\<lparr>schedule_runs := sql_update (\<lambda>r. r_ID r = runID) (released now) (schedule_runs db),
                worker_leases := sql_delete (\<lambda>l. wl_id l = token) (worker_leases db)\<rparr>)
            \<lparr>rc_ID = receiptID, rc_RunID = runID, rc_ReceiptKind = ''summary'', rc_ContentType = ''text/plain'',
             rc_Body = requeue_message expired, rc_CreatedAt = now\<rparr>)"

end
