(* ===== verification/Ownership.thy ===== *)
theory Ownership
  imports Leases
begin

text \<open>
  The ownership invariant of the store and its preservation by every method that touches runs or
  leases: an active run is held by exactly one lease, of the worker named in the row and with the
  expiry named in the row; a lease never belongs to a queued run; an occurrence has at most one
  active run; a run has a finish time exactly when it is in a terminal status.
\<close>

section \<open>The invariant\<close>

definition run_ok :: "RunRow \<Rightarrow> bool" where
  "run_ok r \<longleftrightarrow> (terminal (r_Status r) \<longleftrightarrow> r_FinishedAt r \<noteq> None)
     \<and> (queued (r_Status r) \<longrightarrow> r_ClaimedByWorkerID r = None \<and> r_ClaimExpiresAt r = None)
     \<and> (r_Status r = RunRetryScheduled \<longrightarrow> r_RetryAvailableAt r \<noteq> None)
     \<and> 1 \<le> r_Attempt r"

definition owned :: "DB \<Rightarrow> RunRow \<Rightarrow> bool" where
  "owned db r \<longleftrightarrow> (\<exists>l \<in> set (worker_leases db). wl_run_id l = r_ID r
     \<and> r_ClaimedByWorkerID r = Some (wl_worker_id l) \<and> r_ClaimExpiresAt r = Some (wl_expires_at l))"

definition sys_ok :: "DB \<Rightarrow> bool" where
  "sys_ok db \<longleftrightarrow> wf_db db
     \<and> (\<forall>r \<in> set (schedule_runs db). run_ok r)
     \<and> (\<forall>r \<in> set (schedule_runs db). IsActiveStatus (r_Status r) \<longrightarrow> owned db r)
     \<and> (\<forall>l \<in> set (worker_leases db). \<forall>r \<in> set (schedule_runs db).
          r_ID r = wl_run_id l \<longrightarrow> \<not> queued (r_Status r))
     \<and> (\<forall>r \<in> set (schedule_runs db). \<forall>r' \<in> set (schedule_runs db).
          IsActiveStatus (r_Status r) \<and> IsActiveStatus (r_Status r')
          \<and> r_OccurrenceKey r = r_OccurrenceKey r' \<longrightarrow> r = r')"

declare IsActiveStatus.simps [simp del]

lemma active_values [simp]:
  "IsActiveStatus RunClaimed" "IsActiveStatus RunRunning" "\<not> IsActiveStatus RunPending"
  "\<not> IsActiveStatus RunRetryScheduled" "\<not> IsActiveStatus RunSkipped" "\<not> IsActiveStatus RunSucceeded"
  "\<not> IsActiveStatus RunFailed" "\<not> IsActiveStatus RunDeadLettered" "\<not> IsActiveStatus RunCancelled"
  by (simp_all add: IsActiveStatus.simps)

lemma status_cases: "queued s \<or> IsActiveStatus s \<or> terminal s"
  by (cases s) (simp_all add: queued_def terminal_def terminal_statuses_def)

lemma active_iff: "IsActiveStatus s \<longleftrightarrow> s = RunClaimed \<or> s = RunRunning"
  by (simp add: IsActiveStatus.simps)

lemma status_disjoint:
  "queued s \<Longrightarrow> \<not> IsActiveStatus s" "queued s \<Longrightarrow> \<not> terminal s" "IsActiveStatus s \<Longrightarrow> \<not> terminal s"
  by (cases s, simp_all add: queued_def terminal_def terminal_statuses_def)+

lemma status_values [simp]:
  "queued RunPending" "queued RunRetryScheduled" "terminal RunSkipped" "terminal RunSucceeded"
  "terminal RunFailed" "terminal RunDeadLettered" "terminal RunCancelled"
  "\<not> queued RunClaimed" "\<not> queued RunRunning" "\<not> terminal RunClaimed" "\<not> terminal RunRunning"
  "\<not> terminal RunPending" "\<not> terminal RunRetryScheduled" "\<not> queued RunSkipped"
  by (simp_all add: queued_def terminal_def terminal_statuses_def)

lemma sys_okD:
  assumes "sys_ok db"
  shows "wf_db db"
    and "r \<in> set (schedule_runs db) \<Longrightarrow> run_ok r"
    and "r \<in> set (schedule_runs db) \<Longrightarrow> IsActiveStatus (r_Status r) \<Longrightarrow> owned db r"
    and "l \<in> set (worker_leases db) \<Longrightarrow> r \<in> set (schedule_runs db) \<Longrightarrow> r_ID r = wl_run_id l
         \<Longrightarrow> \<not> queued (r_Status r)"
    and "r \<in> set (schedule_runs db) \<Longrightarrow> r' \<in> set (schedule_runs db) \<Longrightarrow> IsActiveStatus (r_Status r)
         \<Longrightarrow> IsActiveStatus (r_Status r') \<Longrightarrow> r_OccurrenceKey r = r_OccurrenceKey r' \<Longrightarrow> r = r'"
  using assms by (auto simp: sys_ok_def)

lemma sys_ok_empty: "sys_ok empty_db"
  by (simp add: sys_ok_def wf_empty) (simp add: empty_db_def)

section \<open>Kinds of change\<close>

text \<open>Runs and leases stay.\<close>

lemma sys_ok_same:
  assumes "sys_ok db" and "wf_db db'" and "schedule_runs db' = schedule_runs db"
    and "worker_leases db' = worker_leases db"
  shows "sys_ok db'"
  using assms by (simp add: sys_ok_def owned_def)

text \<open>One run changes, with its lease.\<close>

lemma sys_ok_step:
  assumes ok: "sys_ok db" and wf: "wf_db db'" and r: "r \<in> set (schedule_runs db)"
    and runs: "set (schedule_runs db') = insert r' (set (schedule_runs db) - {r})"
    and same: "r_ID r' = r_ID r" "r_OccurrenceKey r' = r_OccurrenceKey r"
    and leases: "\<And>l. wl_run_id l \<noteq> r_ID r \<Longrightarrow>
        l \<in> set (worker_leases db') \<longleftrightarrow> l \<in> set (worker_leases db)"
    and run_ok: "run_ok r'"
    and owned: "IsActiveStatus (r_Status r') \<Longrightarrow> owned db' r'"
    and unqueued: "\<And>l. l \<in> set (worker_leases db') \<Longrightarrow> wl_run_id l = r_ID r \<Longrightarrow> \<not> queued (r_Status r')"
    and alone: "\<And>x. IsActiveStatus (r_Status r') \<Longrightarrow> \<not> IsActiveStatus (r_Status r) \<Longrightarrow>
        x \<in> set (schedule_runs db) \<Longrightarrow> x \<noteq> r \<Longrightarrow> r_OccurrenceKey x = r_OccurrenceKey r
        \<Longrightarrow> \<not> IsActiveStatus (r_Status x)"
  shows "sys_ok db'"
proof -
  note wf0 = sys_okD(1) [OF ok]
  have other: "r_ID x \<noteq> r_ID r" if "x \<in> set (schedule_runs db)" "x \<noteq> r" for x
    using run_unique [OF wf0] r that by blast
  have "owned db' x" if "x \<in> set (schedule_runs db)" "x \<noteq> r" "IsActiveStatus (r_Status x)" for x
    using sys_okD(3) [OF ok] that other leases unfolding owned_def by metis
  moreover have "\<not> queued (r_Status x)"
    if "l \<in> set (worker_leases db')" "x \<in> set (schedule_runs db)" "x \<noteq> r" "r_ID x = wl_run_id l" for l x
    using sys_okD(4) [OF ok] that other leases by metis
  moreover have "\<not> IsActiveStatus (r_Status x)"
    if "x \<in> set (schedule_runs db)" "x \<noteq> r" "r_OccurrenceKey x = r_OccurrenceKey r"
      "IsActiveStatus (r_Status r')" for x
    using sys_okD(5) [OF ok _ r] that alone by blast
  ultimately show ?thesis
    unfolding sys_ok_def runs
    using wf run_ok owned unqueued same sys_okD(2,5) [OF ok] by (auto simp: Ball_def)
qed

lemma set_update_one:
  assumes "wf_db db" and "r \<in> set (schedule_runs db)" and "P r" and "\<And>x. P x \<Longrightarrow> r_ID x = r_ID r"
  shows "set (sql_update P f (schedule_runs db)) = insert (f r) (set (schedule_runs db) - {r})"
proof -
  have "P x \<longleftrightarrow> x = r" if "x \<in> set (schedule_runs db)" for x
    using assms run_unique [OF assms(1) that] by blast
  then have "set (sql_update P f (schedule_runs db)) = (\<lambda>x. if x = r then f x else x) ` set (schedule_runs db)"
    unfolding set_sql_update by (intro image_cong) simp_all
  then show ?thesis using assms(2) by auto
qed

text \<open>A run that is not active is added.\<close>

lemma sys_ok_append:
  assumes ok: "sys_ok db" and wf: "wf_db db'"
    and runs: "set (schedule_runs db') = insert r (set (schedule_runs db))"
    and leases: "worker_leases db' = worker_leases db"
    and fresh: "r_ID r \<notin> run_ids db" and "run_ok r" and inactive: "\<not> IsActiveStatus (r_Status r)"
  shows "sys_ok db'"
proof -
  have "wl_run_id l \<noteq> r_ID r" if "l \<in> set (worker_leases db)" for l
    using that sys_okD(1) [OF ok] fresh by (auto simp: wf_db_def refs_ok_def)
  then have "\<not> queued (r_Status x)"
    if "l \<in> set (worker_leases db)" "x = r \<or> x \<in> set (schedule_runs db)" "r_ID x = wl_run_id l" for l x
    using that sys_okD(4) [OF ok] by metis
  moreover have "owned db' = owned db" by (simp add: owned_def [abs_def] leases)
  ultimately show ?thesis
    unfolding sys_ok_def runs leases using wf assms(6) inactive sys_okD(2,3,5) [OF ok] by auto
qed

text \<open>Runs are deleted with their leases.\<close>

lemma sys_ok_shrink:
  assumes ok: "sys_ok db" and wf: "wf_db db'"
    and runs: "set (schedule_runs db') \<subseteq> set (schedule_runs db)"
    and leases: "\<And>l. l \<in> set (worker_leases db') \<longleftrightarrow> l \<in> set (worker_leases db) \<and> wl_run_id l \<in> run_ids db'"
  shows "sys_ok db'"
proof -
  have "owned db' r" if "r \<in> set (schedule_runs db')" "IsActiveStatus (r_Status r)" for r
  proof -
    have "owned db r" using sys_okD(3) [OF ok] runs that by blast
    moreover have "r_ID r \<in> run_ids db'" using that(1) by (simp add: run_ids_def)
    ultimately show ?thesis using leases unfolding owned_def by metis
  qed
  then show ?thesis unfolding sys_ok_def using wf runs leases sys_okD [OF ok] by (auto simp: subset_iff)
qed

section \<open>Claiming\<close>

lemma ClaimRunWithToken_cases:
  assumes "ClaimRunWithToken dialect db schedule runID workerID now ttl token = Inr ((c, tok), db')"
  shows "c \<Longrightarrow> (\<exists>r. r \<in> set (schedule_runs db) \<and> r_ID r = runID
      \<and> r_ScheduleID r = s_ID schedule \<and> queued (r_Status r) \<and> tok = token
      \<and> (\<forall>x \<in> set (schedule_runs db). r_OccurrenceKey x = r_OccurrenceKey r \<and> r_ID x \<noteq> runID
           \<longrightarrow> \<not> IsActiveStatus (r_Status x))
      \<and> int (ActiveOtherOccurrenceCount db (s_ID schedule) (r_OccurrenceKey r)) < p_MaxConcurrency (s_Policy schedule)
      \<and> (ActiveOtherOccurrenceCount db (s_ID schedule) (r_OccurrenceKey r) = 0
         \<or> p_Overlap (s_Policy schedule) = OverlapAllow)
      \<and> upsertLease dialect (db\<lparr>schedule_runs := sql_update (\<lambda>x. r_ID x = runID \<and> queued (r_Status x))
                    (\<lambda>x. x\<lparr>r_Status := RunClaimed, r_ClaimedByWorkerID := Some workerID,
                           r_ClaimExpiresAt := Some (now + ttl), r_UpdatedAt := now\<rparr>) (schedule_runs db)\<rparr>)
             token workerID runID now (now + ttl) = Inr db')"
    and "\<not> c \<Longrightarrow> db' = db \<and> tok = ''''"
proof -
  obtain r where find: "sql_find (\<lambda>r. r_ID r = runID) (schedule_runs db) = Some r"
    using assms unfolding ClaimRunWithToken_def by (auto split: if_splits option.splits)
  note found = sql_find_SomeD [OF find]
  show "\<not> c \<Longrightarrow> db' = db \<and> tok = ''''" using assms unfolding ClaimRunWithToken_def Let_def
    by (auto simp: find split: if_splits)
  assume c
  with assms show "\<exists>r. r \<in> set (schedule_runs db) \<and> r_ID r = runID
      \<and> r_ScheduleID r = s_ID schedule \<and> queued (r_Status r) \<and> tok = token
      \<and> (\<forall>x \<in> set (schedule_runs db). r_OccurrenceKey x = r_OccurrenceKey r \<and> r_ID x \<noteq> runID
           \<longrightarrow> \<not> IsActiveStatus (r_Status x))
      \<and> int (ActiveOtherOccurrenceCount db (s_ID schedule) (r_OccurrenceKey r)) < p_MaxConcurrency (s_Policy schedule)
      \<and> (ActiveOtherOccurrenceCount db (s_ID schedule) (r_OccurrenceKey r) = 0
         \<or> p_Overlap (s_Policy schedule) = OverlapAllow)
      \<and> upsertLease dialect (db\<lparr>schedule_runs := sql_update (\<lambda>x. r_ID x = runID \<and> queued (r_Status x))
                    (\<lambda>x. x\<lparr>r_Status := RunClaimed, r_ClaimedByWorkerID := Some workerID,
                           r_ClaimExpiresAt := Some (now + ttl), r_UpdatedAt := now\<rparr>) (schedule_runs db)\<rparr>)
             token workerID runID now (now + ttl) = Inr db'"
    using found unfolding ClaimRunWithToken_def Let_def
    by (intro exI [of _ r]) (auto simp: find queued_def table_simps not_le split: if_splits)
qed

lemma map_key_sql_update_if:
  "(\<And>r. P r \<Longrightarrow> key (f r) = key r) \<Longrightarrow> map key (sql_update P f rows) = map key rows"
  by (simp add: sql_update_def)

lemma upsertLease_frame:
  assumes "upsertLease dialect db token w i now expires = Inr db'"
  shows "\<exists>L. db' = db\<lparr>worker_leases := L\<rparr>"
  using assms by (auto simp: upsertLease_def Let_def split: dialect.splits if_splits)

lemma upsertLease_leases:
  assumes "upsertLease dialect db token w i now expires = Inr db'"
    and "wf_db db" and "token \<notin> wl_id ` set (worker_leases db)"
  shows "l \<in> set (worker_leases db') \<longleftrightarrow>
    l = \<lparr>wl_id = token, wl_worker_id = w, wl_run_id = i, wl_lease_key = i, wl_acquired_at = now,
         wl_expires_at = expires, wl_heartbeat_at = now\<rparr>
    \<or> l \<in> set (worker_leases db) \<and> wl_run_id l \<noteq> i"
proof -
  have "wl_lease_key x = wl_run_id x" if "x \<in> set (worker_leases db)" for x
    using assms(2) that by (simp add: wf_db_def keys_ok_def)
  with assms(1,3) show ?thesis
    by (auto simp: upsertLease_def Let_def table_simps split: dialect.splits if_splits)
qed

lemma wf_upsertLease:
  assumes "upsertLease dialect db token w i now expires = Inr db'"
    and wf: "wf_db db" and fresh: "token \<notin> wl_id ` set (worker_leases db)" and "i \<in> run_ids db"
  shows "wf_db db'"
proof -
  define l where "l = \<lparr>wl_id = token, wl_worker_id = w, wl_run_id = i, wl_lease_key = i,
      wl_acquired_at = now, wl_expires_at = expires, wl_heartbeat_at = now\<rparr>"
  obtain L where L: "db' = db\<lparr>worker_leases := L\<rparr>" using upsertLease_frame [OF assms(1)] by blast
  then have L': "L = worker_leases db'" by simp
  have set_L: "x \<in> set L \<longleftrightarrow> x = l \<or> x \<in> set (worker_leases db) \<and> wl_run_id x \<noteq> i" for x
    using upsertLease_leases [OF assms(1) wf fresh, of x] by (simp add: L l_def)
  have ids: "\<forall>x \<in> set (worker_leases db). wl_id x \<noteq> token" using fresh by (auto simp: not_in_keys)
  have d: "distinct (map wl_id (worker_leases db))" "distinct (map wl_lease_key (worker_leases db))"
    using wf by (simp_all add: wf_db_def keys_ok_def)
  have "distinct (map wl_id L) \<and> distinct (map wl_lease_key L)"
  proof (cases "dialect = Postgres \<and> (\<exists>x \<in> set (worker_leases db). wl_lease_key x = i)")
    case True
    then have "L = sql_update (\<lambda>x. wl_lease_key x = i) (\<lambda>x. l) (worker_leases db)"
      using assms(1) unfolding L' by (auto simp: upsertLease_def Let_def l_def split: if_splits)
    moreover have "distinct (map wl_id (sql_update (\<lambda>x. wl_lease_key x = i) (\<lambda>x. l) (worker_leases db)))"
      using d ids by (intro distinct_map_update_one [where n = token]) (auto simp: l_def)
    moreover have "map wl_lease_key (sql_update (\<lambda>x. wl_lease_key x = i) (\<lambda>x. l) (worker_leases db))
        = map wl_lease_key (worker_leases db)"
      by (rule map_key_sql_update_if) (simp add: l_def)
    ultimately show ?thesis using d by simp
  next
    case False
    then have "L = sql_delete (\<lambda>x. wl_id x = token \<or> wl_lease_key x = i) (worker_leases db) @ [l]"
      using assms(1) ids unfolding L'
      by (cases dialect)
         (auto simp: upsertLease_def Let_def l_def sql_delete_id split: if_splits)
    then show ?thesis using d by (auto simp: table_simps l_def)
  qed
  with wf set_L \<open>i \<in> run_ids db\<close> show ?thesis
    unfolding L by (auto simp: wf_db_def keys_ok_def refs_ok_def l_def)
qed

lemma sys_ok_ClaimRunWithToken:
  assumes ok: "sys_ok db"
    and claim: "ClaimRunWithToken dialect db schedule runID w now ttl token = Inr ((c, tok), db')"
    and fresh: "token \<notin> wl_id ` set (worker_leases db)"
  shows "sys_ok db'"
proof (cases c)
  case False
  then show ?thesis using ClaimRunWithToken_cases(2) [OF claim] ok by simp
next
  case True
  define f where "f = (\<lambda>x :: RunRow. x\<lparr>r_Status := RunClaimed, r_ClaimedByWorkerID := Some w,
      r_ClaimExpiresAt := Some (now + ttl), r_UpdatedAt := now\<rparr>)"
  define P where "P = (\<lambda>x :: RunRow. r_ID x = runID \<and> queued (r_Status x))"
  define db1 where "db1 = db\<lparr>schedule_runs := sql_update P f (schedule_runs db)\<rparr>"
  obtain r where r: "r \<in> set (schedule_runs db)" "r_ID r = runID" "queued (r_Status r)"
    and alone: "\<forall>x \<in> set (schedule_runs db). r_OccurrenceKey x = r_OccurrenceKey r \<and> r_ID x \<noteq> runID
           \<longrightarrow> \<not> IsActiveStatus (r_Status x)"
    and up: "upsertLease dialect db1 token w runID now (now + ttl) = Inr db'"
    using ClaimRunWithToken_cases(1) [OF claim True] unfolding db1_def P_def f_def by blast
  note wf = sys_okD(1) [OF ok]
  have wf1: "wf_db db1" unfolding db1_def
    using wf by (rule wf_update_runs) (simp_all add: f_def run_key_def)
  have fresh1: "token \<notin> wl_id ` set (worker_leases db1)" using fresh by (simp add: db1_def)
  have id1: "runID \<in> run_ids db1"
    using r by (simp add: db1_def image_sql_update f_def) (auto simp: image_iff)
  have wf': "wf_db db'" by (rule wf_upsertLease [OF up wf1 fresh1 id1])
  note leases = upsertLease_leases [OF up wf1 fresh1]
  obtain L where L: "db' = db1\<lparr>worker_leases := L\<rparr>" using upsertLease_frame [OF up] by blast
  have runs: "set (schedule_runs db') = insert (f r) (set (schedule_runs db) - {r})"
    unfolding L db1_def using wf r by (simp, intro set_update_one) (simp_all add: P_def)
  have nf: "r_FinishedAt r = None" "1 \<le> r_Attempt r"
    using sys_okD(2) [OF ok r(1)] r(3) by (auto simp: run_ok_def status_disjoint)
  show ?thesis
  proof (rule sys_ok_step [OF ok wf' r(1) runs])
    show "l \<in> set (worker_leases db') \<longleftrightarrow> l \<in> set (worker_leases db)" if "wl_run_id l \<noteq> r_ID r" for l
      using leases [of l] that r(2) by (auto simp: db1_def)
    show "owned db' (f r)"
      unfolding owned_def f_def by (rule bexI [where x = "\<lparr>wl_id = token, wl_worker_id = w, wl_run_id = runID,
          wl_lease_key = runID, wl_acquired_at = now, wl_expires_at = now + ttl, wl_heartbeat_at = now\<rparr>"])
        (simp_all add: r leases)
    show "\<not> IsActiveStatus (r_Status x)"
      if "x \<in> set (schedule_runs db)" "x \<noteq> r" "r_OccurrenceKey x = r_OccurrenceKey r" for x
      using alone that run_unique [OF wf that(1) r(1)] r(2) by auto
  qed (simp_all add: f_def run_ok_def nf)
qed

section \<open>Owned executions\<close>

lemma sql_find_both: "sql_find P rows = Some r \<Longrightarrow> r \<in> set rows \<and> P r"
  by (auto dest: sql_find_SomeD)

lemma swap_tables:
  "db\<lparr>worker_leases := L, schedule_runs := R\<rparr> = db\<lparr>schedule_runs := R, worker_leases := L\<rparr>"
  by simp

lemma lockRunLease_owned:
  assumes "lockRunLease db i w token now strict = Inr u"
  obtains r l where "r \<in> set (schedule_runs db)" and "r_ID r = i" and "IsActiveStatus (r_Status r)"
    and "r_ClaimedByWorkerID r = Some w" and "l \<in> set (worker_leases db)" and "wl_id l = token"
    and "wl_run_id l = i" and "wl_worker_id l = w" and "strict \<Longrightarrow> now < wl_expires_at l"
  using assms unfolding lockRunLease_def
  by (auto simp: active_iff split: option.splits if_splits dest!: sql_find_both)

lemma lockExpiredRunningRun_owned:
  assumes "lockExpiredRunningRun db i now = Inr (w, token)"
  obtains r l where "r \<in> set (schedule_runs db)" and "r_ID r = i" and "r_Status r = RunRunning"
    and "r_ClaimedByWorkerID r = Some w" and "l \<in> set (worker_leases db)" and "wl_id l = token"
    and "wl_run_id l = i" and "wl_worker_id l = w" and "wl_expires_at l \<le> now"
  using assms unfolding lockExpiredRunningRun_def
  by (auto split: option.splits if_splits dest!: sql_find_both)

text \<open>A row of an active run loses its lease and leaves the active statuses.\<close>

lemma sys_ok_leave:
  assumes ok: "sys_ok db" and r: "r \<in> set (schedule_runs db)"
    and l: "l \<in> set (worker_leases db)" "wl_run_id l = r_ID r"
    and P: "P r" "\<And>x. P x \<Longrightarrow> r_ID x = r_ID r"
    and f: "\<And>x. r_ID (f x) = r_ID x" "\<And>x. r_ScheduleID (f x) = r_ScheduleID x"
      "\<And>x. run_key (f x) = run_key x"
    and new: "run_ok (f r)" "\<not> IsActiveStatus (r_Status (f r))"
  shows "sys_ok (db\<lparr>schedule_runs := sql_update P f (schedule_runs db),
                    worker_leases := sql_delete (\<lambda>x. wl_id x = wl_id l) (worker_leases db)\<rparr>)"
    (is "sys_ok ?db'")
proof -
  note wf = sys_okD(1) [OF ok]
  have "wf_db (db\<lparr>schedule_runs := sql_update P f (schedule_runs db)\<rparr>)"
    using wf f by (rule wf_update_runs)
  from wf_delete_leases [OF this] have wf': "wf_db ?db'" by simp
  have runs: "set (schedule_runs ?db') = insert (f r) (set (schedule_runs db) - {r})"
    using set_update_one [where P = P and r = r, OF wf r P] by simp
  have gone: "wl_run_id x \<noteq> r_ID r" if "x \<in> set (worker_leases ?db')" for x
    using that lease_unique [OF wf _ l(1), of x] l(2) by (auto simp: table_simps)
  have kept: "wl_id x \<noteq> wl_id l" if "x \<in> set (worker_leases db)" "wl_run_id x \<noteq> r_ID r" for x
    using that lease_unique_id [OF wf _ l(1), of x] l(2) by auto
  show ?thesis
  proof (rule sys_ok_step [OF ok wf' r runs])
    show "x \<in> set (worker_leases ?db') \<longleftrightarrow> x \<in> set (worker_leases db)" if "wl_run_id x \<noteq> r_ID r" for x
      using that kept by (auto simp: table_simps)
    show "r_OccurrenceKey (f r) = r_OccurrenceKey r" using f(3) [of r] by (simp add: run_key_def)
  qed (use f new gone in auto)
qed

text \<open>A row of an active run is rewritten and stays active, its leases are rewritten in place.\<close>

lemma sys_ok_stay:
  assumes ok: "sys_ok db" and r: "r \<in> set (schedule_runs db)" "r_ID r = i" "IsActiveStatus (r_Status r)"
    and f: "\<And>x. r_ID (f x) = r_ID x" "\<And>x. r_ScheduleID (f x) = r_ScheduleID x"
      "\<And>x. run_key (f x) = run_key x"
    and g: "\<And>x. wl_id (g x) = wl_id x" "\<And>x. wl_run_id (g x) = wl_run_id x"
      "\<And>x. wl_lease_key (g x) = wl_lease_key x"
    and Q: "\<And>x. x \<in> set (worker_leases db) \<Longrightarrow> Q x \<Longrightarrow> wl_run_id x = i"
    and new: "run_ok (f r)" "IsActiveStatus (r_Status (f r))"
    and own: "\<And>l. l \<in> set (worker_leases db) \<Longrightarrow> wl_run_id l = i \<Longrightarrow> r_ClaimedByWorkerID r = Some (wl_worker_id l)
        \<Longrightarrow> r_ClaimExpiresAt r = Some (wl_expires_at l)
        \<Longrightarrow> r_ClaimedByWorkerID (f r) = Some (wl_worker_id (if Q l then g l else l))
          \<and> r_ClaimExpiresAt (f r) = Some (wl_expires_at (if Q l then g l else l))"
  shows "sys_ok (db\<lparr>schedule_runs := sql_update (\<lambda>x. r_ID x = i) f (schedule_runs db),
                    worker_leases := sql_update Q g (worker_leases db)\<rparr>)"
    (is "sys_ok ?db'")
proof -
  note wf = sys_okD(1) [OF ok]
  have "wf_db (db\<lparr>schedule_runs := sql_update (\<lambda>x. r_ID x = i) f (schedule_runs db)\<rparr>)"
    using wf f by (rule wf_update_runs)
  from wf_update_leases [OF this g] have wf': "wf_db ?db'" by simp
  have runs: "set (schedule_runs ?db') = insert (f r) (set (schedule_runs db) - {r})"
    using set_update_one [OF wf r(1)] r(2) by simp
  show ?thesis
  proof (rule sys_ok_step [OF ok wf' r(1) runs])
    show "x \<in> set (worker_leases ?db') \<longleftrightarrow> x \<in> set (worker_leases db)" if "wl_run_id x \<noteq> r_ID r" for x
      using that Q g(2) r(2) by (auto simp: table_simps image_iff)
    show "r_OccurrenceKey (f r) = r_OccurrenceKey r" using f(3) [of r] by (simp add: run_key_def)
    obtain l where l: "l \<in> set (worker_leases db)" "wl_run_id l = r_ID r"
      "r_ClaimedByWorkerID r = Some (wl_worker_id l)" "r_ClaimExpiresAt r = Some (wl_expires_at l)"
      using sys_okD(3) [OF ok r(1) r(3)] unfolding owned_def by blast
    have "(if Q l then g l else l) \<in> set (worker_leases ?db')" using l(1) by (auto simp: table_simps)
    moreover have "wl_run_id (if Q l then g l else l) = r_ID (f r)" using l(2) g(2) f(1) by simp
    ultimately show "owned ?db' (f r)"
      unfolding owned_def using own [OF l(1) _ l(3,4)] l(2) r(2) by blast
  qed (use f new r in \<open>auto simp: status_disjoint dest: status_disjoint\<close>)
qed

lemma sys_ok_RenewLeaseWithToken:
  assumes ok: "sys_ok db" and renew: "RenewLeaseWithToken db i w token now ttl = Inr db'"
  shows "sys_ok db'"
proof -
  obtain r l where r: "r \<in> set (schedule_runs db)" "r_ID r = i" "IsActiveStatus (r_Status r)"
    and l: "l \<in> set (worker_leases db)" "wl_id l = token" "wl_run_id l = i"
    using renew by (auto simp: RenewLeaseWithToken_def lockOwnedRun_def elim!: lockRunLease_owned)
  note wf = sys_okD(1) [OF ok]
  have Q: "wl_run_id x = i" if "x \<in> set (worker_leases db)" "wl_id x = token" for x
    using that lease_unique_id [OF wf _ l(1), of x] l by simp
  have own: "wl_id x = token" if "x \<in> set (worker_leases db)" "wl_run_id x = i" for x
    using that lease_unique [OF wf _ l(1), of x] l by simp
  have "run_ok r" using sys_okD(2) [OF ok r(1)] .
  with r(3) own have "sys_ok (db
      \<lparr>schedule_runs := sql_update (\<lambda>r. r_ID r = i) (\<lambda>r. r\<lparr>r_ClaimExpiresAt := Some (now + ttl), r_UpdatedAt := now\<rparr>)
         (schedule_runs db),
       worker_leases := sql_update (\<lambda>l. wl_id l = token) (\<lambda>l. l\<lparr>wl_expires_at := now + ttl, wl_heartbeat_at := now\<rparr>)
         (worker_leases db)\<rparr>)"
    by (intro sys_ok_stay [OF ok r]) (auto simp: run_key_def run_ok_def Q dest: status_disjoint)
  then show ?thesis using renew by (auto simp: RenewLeaseWithToken_def Let_def swap_tables)
qed

lemma run_ok_started: "run_ok r \<Longrightarrow> IsActiveStatus (r_Status r) \<Longrightarrow> run_ok (started now r)"
  by (auto simp: run_ok_def started_def dest: status_disjoint)

lemma sys_ok_MarkRunRunningWithLease:
  assumes ok: "sys_ok db" and mark: "MarkRunRunningWithLease db i w token now = Inr db'"
  shows "sys_ok db'"
proof -
  obtain r where r: "r \<in> set (schedule_runs db)" "r_ID r = i" "IsActiveStatus (r_Status r)"
    using mark by (auto simp: MarkRunRunningWithLease_def lockOwnedRun_def elim!: lockRunLease_owned)
  have "sys_ok (db\<lparr>schedule_runs := sql_update (\<lambda>r. r_ID r = i) (started now) (schedule_runs db),
       worker_leases := sql_update (\<lambda>l. False) id (worker_leases db)\<rparr>)"
    using run_ok_started [OF sys_okD(2) [OF ok r(1)] r(3)]
    by (intro sys_ok_stay [OF ok r]) (auto simp: run_key_def started_def)
  then show ?thesis using mark
    by (auto simp: MarkRunRunningWithLease_def MarkRunRunning_def sql_update_def)
qed

section \<open>Finishing\<close>

text \<open>What a caller passes to the finishing methods: a terminal status with a finish time, and a retry
  that is scheduled for a known time.\<close>

definition outcome_ok :: "'a RunRow_scheme \<Rightarrow> bool" where
  "outcome_ok run \<longleftrightarrow> terminal (r_Status run) \<and> r_FinishedAt run \<noteq> None"

definition retry_ok_row :: "'a RunRow_scheme \<Rightarrow> bool" where
  "retry_ok_row retry \<longleftrightarrow> r_Status retry = RunRetryScheduled \<and> r_RetryAvailableAt retry \<noteq> None
     \<and> 1 \<le> r_Attempt retry"

lemma outcome_into_simps [simp]:
  "r_ID (outcome_into run r) = r_ID r" "r_ScheduleID (outcome_into run r) = r_ScheduleID r"
  "r_OccurrenceKey (outcome_into run r) = r_OccurrenceKey r" "r_Attempt (outcome_into run r) = r_Attempt r"
  "r_Status (outcome_into run r) = r_Status run" "r_FinishedAt (outcome_into run r) = r_FinishedAt run"
  "run_key (outcome_into run r) = run_key r"
  by (simp_all add: outcome_into_def run_key_def)

lemma run_ok_outcome:
  "outcome_ok run \<Longrightarrow> run_ok r \<Longrightarrow> r_Attempt r' = r_Attempt r \<Longrightarrow> r_Status r' = r_Status run
   \<Longrightarrow> r_FinishedAt r' = r_FinishedAt run \<Longrightarrow> run_ok r' \<and> \<not> IsActiveStatus (r_Status r')"
  by (auto simp: run_ok_def outcome_ok_def dest: status_disjoint)

lemma outcome_idle: "outcome_ok run \<Longrightarrow> \<not> IsActiveStatus (r_Status run) \<and> \<not> queued (r_Status run)"
  by (auto simp: outcome_ok_def dest: status_disjoint)

lemma sys_ok_finish_row:
  assumes ok: "sys_ok db" and run: "outcome_ok run"
    and r: "r \<in> set (schedule_runs db)" "r_ID r = r_ID run"
    and l: "l \<in> set (worker_leases db)" "wl_id l = token" "wl_run_id l = r_ID run"
  shows "sys_ok (finish_row db run w token now)"
proof -
  have "sys_ok (db\<lparr>schedule_runs := sql_update (\<lambda>x. r_ID x = r_ID run)
          (\<lambda>r. (outcome_into run r)\<lparr>r_ClaimedByWorkerID := Some w, r_ClaimExpiresAt := None, r_UpdatedAt := now\<rparr>)
          (schedule_runs db),
        worker_leases := sql_delete (\<lambda>x. wl_id x = wl_id l) (worker_leases db)\<rparr>)"
    using r l run_ok_outcome [OF run sys_okD(2) [OF ok r(1)]] outcome_idle [OF run]
    by (intro sys_ok_leave [OF ok r(1)]) (simp_all add: run_key_def)
  then show ?thesis by (simp add: finish_row_def l(2))
qed

lemma sys_ok_insert_retry:
  assumes ok: "sys_ok db" and retry: "retry_ok_row retry" and ins: "insert_retry db retry = Inr db'"
  shows "sys_ok db'"
proof (cases "db' = db")
  case True
  with ok show ?thesis by simp
next
  case False
  then have db': "db' = db\<lparr>schedule_runs := schedule_runs db @ [retry_row retry]\<rparr>"
    and fresh: "\<forall>x \<in> set (schedule_runs db). r_ID x \<noteq> r_ID retry"
    and key: "\<forall>x \<in> set (schedule_runs db). run_key x \<noteq> run_key (retry_row retry)"
    and sch: "r_ScheduleID retry \<in> schedule_ids db"
    using ins by (auto simp: insert_retry_def in_ids run_key_def retry_row_def split: if_splits)
  have new: "r_ID (retry_row retry) \<notin> run_ids db" using fresh by (auto simp: in_ids retry_row_def)
  have "wf_db db'" unfolding db'
    using sys_okD(1) [OF ok] sch new key
    by (intro wf_append_run) (auto simp: retry_row_def not_in_keys [symmetric] image_iff)
  moreover have "run_ok (retry_row retry)" "\<not> IsActiveStatus (r_Status (retry_row retry))"
    using retry by (simp_all add: run_ok_def retry_ok_row_def retry_row_def)
  ultimately show ?thesis
    using new by (intro sys_ok_append [OF ok, of db' "retry_row retry"]) (simp_all add: db')
qed

lemma sys_ok_InsertDeadLetter: "sys_ok db \<Longrightarrow> InsertDeadLetter db d = Inr db' \<Longrightarrow> sys_ok db'"
  by (rule sys_ok_same, assumption, erule wf_InsertDeadLetter [OF sys_okD(1)])
     (auto simp: InsertDeadLetter_def split: if_splits)

lemma sys_ok_insert_receipt: "sys_ok db \<Longrightarrow> insert_receipt db c = Inr db' \<Longrightarrow> sys_ok db'"
  by (rule sys_ok_same, assumption, erule wf_insert_receipt [OF sys_okD(1)])
     (auto simp: insert_receipt_def split: if_splits)

lemma sys_ok_InsertReceipt: "sys_ok db \<Longrightarrow> InsertReceipt n db c = Inr db' \<Longrightarrow> sys_ok db'"
  unfolding InsertReceipt_def by (rule sys_ok_insert_receipt)

text \<open>The execution that \<open>finishExternalRun\<close> finishes, and its three writes.\<close>

lemma finishExternalRun_cases:
  assumes "finishExternalRun db run w0 token0 retry dead now expired = Inr db'"
  obtains r l w token db1 where "r \<in> set (schedule_runs db)" and "r_ID r = r_ID run"
    and "IsActiveStatus (r_Status r)" and "r_ClaimedByWorkerID r = Some w"
    and "l \<in> set (worker_leases db)" and "wl_id l = token" and "wl_run_id l = r_ID run" and "wl_worker_id l = w"
    and "if expired then r_Status r = RunRunning \<and> wl_expires_at l \<le> now else w = w0 \<and> token = token0"
    and "(case retry of None \<Rightarrow> Inr (finish_row db run w token now)
          | Some rt \<Rightarrow> insert_retry (finish_row db run w token now) rt) = Inr db1"
    and "(case dead of None \<Rightarrow> Inr db1 | Some d \<Rightarrow> InsertDeadLetter db1 d) = Inr db'"
proof (cases expired)
  case True
  with assms obtain w token db1 where *: "lockExpiredRunningRun db (r_ID run) now = Inr (w, token)"
    "(case retry of None \<Rightarrow> Inr (finish_row db run w token now)
      | Some rt \<Rightarrow> insert_retry (finish_row db run w token now) rt) = Inr db1"
    "(case dead of None \<Rightarrow> Inr db1 | Some d \<Rightarrow> InsertDeadLetter db1 d) = Inr db'"
    by (auto simp: finishExternalRun_def)
  from *(1) show ?thesis
    by (rule lockExpiredRunningRun_owned) (rule that [OF _ _ _ _ _ _ _ _ _ *(2,3)], simp_all add: True)
next
  case False
  with assms obtain u db1 where *: "lockRunLease db (r_ID run) w0 token0 now False = Inr u"
    "(case retry of None \<Rightarrow> Inr (finish_row db run w0 token0 now)
      | Some rt \<Rightarrow> insert_retry (finish_row db run w0 token0 now) rt) = Inr db1"
    "(case dead of None \<Rightarrow> Inr db1 | Some d \<Rightarrow> InsertDeadLetter db1 d) = Inr db'"
    by (auto simp: finishExternalRun_def)
  from *(1) show ?thesis
    by (rule lockRunLease_owned) (rule that [OF _ _ _ _ _ _ _ _ _ *(2,3)], simp_all add: False)
qed

lemma sys_ok_finishExternalRun:
  assumes ok: "sys_ok db" and "outcome_ok run" and "\<And>rt. retry = Some rt \<Longrightarrow> retry_ok_row rt"
    and fin: "finishExternalRun db run w0 token0 retry dead now expired = Inr db'"
  shows "sys_ok db'"
  using fin
proof (rule finishExternalRun_cases)
  fix r l w token db1
  assume "r \<in> set (schedule_runs db)" "r_ID r = r_ID run" "l \<in> set (worker_leases db)" "wl_id l = token"
    "wl_run_id l = r_ID run"
    and ret: "(case retry of None \<Rightarrow> Inr (finish_row db run w token now)
          | Some rt \<Rightarrow> insert_retry (finish_row db run w token now) rt) = Inr db1"
    and dl: "(case dead of None \<Rightarrow> Inr db1 | Some d \<Rightarrow> InsertDeadLetter db1 d) = Inr db'"
  then have "sys_ok (finish_row db run w token now)" using ok assms(2) by (intro sys_ok_finish_row)
  then have "sys_ok db1" using ret assms(3) by (auto split: option.splits intro: sys_ok_insert_retry)
  then show "sys_ok db'" using dl by (auto split: option.splits intro: sys_ok_InsertDeadLetter)
qed

section \<open>Releasing and recovering\<close>

lemma released_simps [simp]:
  "r_ID (released now r) = r_ID r" "r_ScheduleID (released now r) = r_ScheduleID r"
  "run_key (released now r) = run_key r" "r_Status (released now r) = RunPending"
  by (simp_all add: released_def run_key_def)

lemma run_ok_released: "run_ok r \<Longrightarrow> IsActiveStatus (r_Status r) \<Longrightarrow> run_ok (released now r)"
  by (auto simp: run_ok_def released_def dest: status_disjoint)

lemma sys_ok_release:
  assumes ok: "sys_ok db" and r: "r \<in> set (schedule_runs db)" "IsActiveStatus (r_Status r)"
    and l: "l \<in> set (worker_leases db)" "wl_run_id l = r_ID r"
    and P: "P r" "\<And>x. P x \<Longrightarrow> r_ID x = r_ID r"
  shows "sys_ok (db\<lparr>schedule_runs := sql_update P (released now) (schedule_runs db),
                    worker_leases := sql_delete (\<lambda>x. wl_id x = wl_id l) (worker_leases db)\<rparr>)"
  using run_ok_released [OF sys_okD(2) [OF ok r(1)] r(2)]
  by (intro sys_ok_leave [where P = P and l = l, OF ok r(1) l P]) simp_all

lemma sys_ok_RequeueExternalRun:
  assumes ok: "sys_ok db" and req: "RequeueExternalRun db i w token0 now expired c = Inr db'"
  shows "sys_ok db'"
proof -
  obtain token where
    lock: "(if \<not> expired then bind_result (lockOwnedRun db i w token0 now) (\<lambda>_. Inr token0)
        else (case sql_find (\<lambda>r. r_ID r = i) (schedule_runs db) of
            None \<Rightarrow> Inl ErrNoRows
          | Some r \<Rightarrow>
              (case sql_find (\<lambda>l. wl_run_id l = i) (worker_leases db) of
                 None \<Rightarrow> Inl ErrLeaseLost
               | Some l \<Rightarrow>
                   if r_Status r \<noteq> RunRunning \<or> now < wl_expires_at l then Inl ErrLeaseLost else Inr (wl_id l))))
        = Inr token"
    and ins: "insert_receipt
            (db\<lparr>schedule_runs := sql_update (\<lambda>r. r_ID r = i) (released now) (schedule_runs db),
                worker_leases := sql_delete (\<lambda>l. wl_id l = token) (worker_leases db)\<rparr>)
            \<lparr>rc_ID = c, rc_RunID = i, rc_ReceiptKind = ''summary'', rc_ContentType = ''text/plain'',
             rc_Body = requeue_message expired, rc_CreatedAt = now\<rparr> = Inr db'"
    using req unfolding RequeueExternalRun_def by (elim bind_result_InrE)
  obtain r l where "r \<in> set (schedule_runs db)" "r_ID r = i" "IsActiveStatus (r_Status r)"
      "l \<in> set (worker_leases db)" "wl_id l = token" "wl_run_id l = i"
    using lock
    by (auto simp: lockOwnedRun_def active_iff elim!: lockRunLease_owned split: if_splits option.splits
        dest!: sql_find_both)
  then have "sys_ok (db\<lparr>schedule_runs := sql_update (\<lambda>r. r_ID r = i) (released now) (schedule_runs db),
                worker_leases := sql_delete (\<lambda>l. wl_id l = token) (worker_leases db)\<rparr>)"
    using sys_ok_release [OF ok, of r l "\<lambda>r. r_ID r = i" now] by simp
  then show ?thesis using ins by (rule sys_ok_insert_receipt)
qed

lemma sys_ok_ResetClaimedRun:
  assumes ok: "sys_ok db" and reset: "ResetClaimedRun db i now = Inr db'"
  shows "sys_ok db'"
proof (cases "db' = db")
  case True
  with ok show ?thesis by simp
next
  case False
  then obtain r l where "r \<in> set (schedule_runs db)" "r_ID r = i" "r_Status r = RunClaimed"
      "l \<in> set (worker_leases db)" "wl_run_id l = i"
    and db': "db' = db\<lparr>schedule_runs := sql_update (\<lambda>x. r_ID x = i \<and> r_Status x = RunClaimed)
                                 (released now) (schedule_runs db),
                             worker_leases := sql_delete (\<lambda>x. wl_id x = wl_id l) (worker_leases db)\<rparr>"
    using reset by (auto simp: ResetClaimedRun_def split: option.splits if_splits dest!: sql_find_both)
  then show ?thesis unfolding db' by (intro sys_ok_release [OF ok]) auto
qed

lemma sys_ok_ClearLease:
  assumes ok: "sys_ok db" and idle: "\<forall>r \<in> set (schedule_runs db). r_ID r = i \<longrightarrow> \<not> IsActiveStatus (r_Status r)"
  shows "sys_ok (ClearLease db i)"
proof -
  have "owned (ClearLease db i) r" if "r \<in> set (schedule_runs db)" "IsActiveStatus (r_Status r)" for r
    using sys_okD(3) [OF ok that] idle that by (auto simp: owned_def ClearLease_def table_simps)
  moreover have "wf_db (ClearLease db i)" unfolding ClearLease_def by (rule wf_delete_leases [OF sys_okD(1) [OF ok]])
  ultimately show ?thesis using sys_okD [OF ok]
    by (auto simp: sys_ok_def ClearLease_def table_simps)
qed

lemma sys_ok_FinishRun_row:
  assumes ok: "sys_ok db" and run: "outcome_ok run"
  shows "sys_ok (FinishRun_row db run)"
proof (cases "r_ID run \<in> run_ids db")
  case False
  then have "FinishRun_row db run = db"
    by (simp add: FinishRun_row_def in_ids sql_update_id)
  with ok show ?thesis by simp
next
  case True
  then obtain r where r: "r \<in> set (schedule_runs db)" "r_ID r = r_ID run" by (auto simp: in_ids)
  define f where "f = (\<lambda>r. (outcome_into run r)\<lparr>r_ClaimedByWorkerID := r_ClaimedByWorkerID run,
                r_ClaimExpiresAt := r_ClaimExpiresAt run, r_UpdatedAt := r_UpdatedAt run\<rparr>)"
  have new: "run_ok (f r) \<and> \<not> IsActiveStatus (r_Status (f r))"
    by (rule run_ok_outcome [OF run sys_okD(2) [OF ok r(1)]]) (simp_all add: f_def)
  have db': "FinishRun_row db run = db\<lparr>schedule_runs := sql_update (\<lambda>r. r_ID r = r_ID run) f (schedule_runs db)\<rparr>"
    by (simp add: FinishRun_row_def f_def)
  have "wf_db (FinishRun_row db run)" unfolding db'
    using sys_okD(1) [OF ok] by (rule wf_update_runs) (simp_all add: f_def run_key_def)
  moreover have "set (schedule_runs (FinishRun_row db run)) = insert (f r) (set (schedule_runs db) - {r})"
    unfolding db' using set_update_one [OF sys_okD(1) [OF ok] r(1)] r(2) by simp
  ultimately show ?thesis
  proof (rule sys_ok_step [OF ok _ r(1)])
    show "\<not> queued (r_Status (f r))" using outcome_idle [OF run] by (simp add: f_def)
  qed (use new in \<open>simp_all add: db' f_def\<close>)
qed

lemma FinishRun_row_idle:
  "outcome_ok run \<Longrightarrow> r \<in> set (schedule_runs (FinishRun_row db run)) \<Longrightarrow> r_ID r = r_ID run
   \<Longrightarrow> \<not> IsActiveStatus (r_Status r)"
  by (auto simp: FinishRun_row_def table_simps outcome_ok_def dest: status_disjoint split: if_splits)

lemma sys_ok_FinishRun: "sys_ok db \<Longrightarrow> outcome_ok run \<Longrightarrow> sys_ok (FinishRun db run)"
  by (auto simp: FinishRun_def Let_def intro!: sys_ok_ClearLease dest: FinishRun_row_idle sys_ok_FinishRun_row)

lemma sys_ok_recover_claim:
  assumes ok: "sys_ok db"
  shows "sys_ok (recover_claim now i db)"
proof (cases "\<exists>r \<in> set (schedule_runs db). r_ID r = i \<and> IsActiveStatus (r_Status r)")
  case True
  then obtain r where r: "r \<in> set (schedule_runs db)" "r_ID r = i" "IsActiveStatus (r_Status r)" by blast
  obtain l where l: "l \<in> set (worker_leases db)" "wl_run_id l = i"
    using sys_okD(3) [OF ok r(1,3)] r(2) by (auto simp: owned_def)
  have "wl_run_id x = i \<longleftrightarrow> wl_id x = wl_id l" if "x \<in> set (worker_leases db)" for x
    using that l lease_unique [OF sys_okD(1) [OF ok] that l(1)] lease_unique_id [OF sys_okD(1) [OF ok] that l(1)]
    by auto
  then have "sql_delete (\<lambda>x. wl_run_id x = i) (worker_leases db) = sql_delete (\<lambda>x. wl_id x = wl_id l) (worker_leases db)"
    by (auto simp: sql_delete_def intro!: filter_cong)
  moreover have "sys_ok (db\<lparr>schedule_runs := sql_update (\<lambda>r. r_ID r = i \<and> IsActiveStatus (r_Status r)) (released now) (schedule_runs db),
                    worker_leases := sql_delete (\<lambda>x. wl_id x = wl_id l) (worker_leases db)\<rparr>)"
    using r l by (intro sys_ok_release [OF ok r(1,3)]) auto
  ultimately show ?thesis by (simp add: recover_claim_def)
next
  case False
  then have "recover_claim now i db = ClearLease db i"
    by (simp add: recover_claim_def ClearLease_def sql_update_id)
  with False show ?thesis using sys_ok_ClearLease [OF ok] by auto
qed

lemma sys_ok_RecoverExpiredClaims: "sys_ok db \<Longrightarrow> sys_ok (RecoverExpiredClaims db now)"
proof -
  have "sys_ok d \<Longrightarrow> sys_ok (fold (recover_claim now) is d)" for "is" d
    by (induction "is" arbitrary: d) (auto intro: sys_ok_recover_claim)
  then show "sys_ok db \<Longrightarrow> sys_ok (RecoverExpiredClaims db now)" by (simp add: RecoverExpiredClaims_def)
qed

section \<open>Other methods\<close>

lemma sys_ok_InsertRun:
  assumes ok: "sys_ok db" and ins: "InsertRun db run = Inr db'"
    and "run_ok run" and "\<not> IsActiveStatus (r_Status run)"
  shows "sys_ok db'"
proof -
  have db': "db' = db\<lparr>schedule_runs := schedule_runs db @ [run]\<rparr>" and "r_ID run \<notin> run_ids db"
    using ins by (auto simp: InsertRun_def in_ids split: if_splits)
  moreover have "wf_db db'" using sys_okD(1) [OF ok] ins by (rule wf_InsertRun)
  ultimately show ?thesis
    using assms(3,4) by (intro sys_ok_append [OF ok, of db' run]) simp_all
qed

lemma sys_ok_CreateSchedule: "sys_ok db \<Longrightarrow> CreateSchedule db s = Inr db' \<Longrightarrow> sys_ok db'"
  by (rule sys_ok_same, assumption, erule wf_CreateSchedule [OF sys_okD(1)])
     (auto simp: CreateSchedule_def split: if_splits)

lemma sys_ok_UpdateSchedule: "sys_ok db \<Longrightarrow> UpdateSchedule db s = Inr db' \<Longrightarrow> sys_ok db'"
  by (rule sys_ok_same, assumption, erule wf_UpdateSchedule [OF sys_okD(1)])
     (auto simp: UpdateSchedule_def split: if_splits)

lemma sys_ok_UpdateScheduleRuntime:
  "sys_ok db \<Longrightarrow> sys_ok (UpdateScheduleRuntime db i nextRunAt lastRunAt pausedAt enabled now)"
  by (rule sys_ok_same, assumption, erule wf_UpdateScheduleRuntime [OF sys_okD(1)])
     (simp_all add: UpdateScheduleRuntime_def)

lemma sys_ok_RecordScheduleCompletion: "sys_ok db \<Longrightarrow> sys_ok (RecordScheduleCompletion db i now)"
  by (rule sys_ok_same, assumption, erule wf_RecordScheduleCompletion [OF sys_okD(1)])
     (simp_all add: RecordScheduleCompletion_def)

lemma sys_ok_InsertRequestAudit: "sys_ok db \<Longrightarrow> InsertRequestAudit db a = Inr db' \<Longrightarrow> sys_ok db'"
  by (rule sys_ok_same, assumption, erule wf_InsertRequestAudit [OF sys_okD(1)])
     (auto simp: InsertRequestAudit_def split: if_splits)

lemma delete_runs_leases:
  assumes "wf_db db"
  shows "l \<in> set (worker_leases (delete_runs P db)) \<longleftrightarrow>
    l \<in> set (worker_leases db) \<and> wl_run_id l \<in> run_ids (delete_runs P db)"
proof -
  have "wl_run_id l \<in> run_ids db" if "l \<in> set (worker_leases db)"
    using assms that by (simp add: wf_db_def refs_ok_def)
  then show ?thesis
    unfolding run_ids_delete_runs [OF assms] by (auto simp: delete_runs_def Let_def table_simps)
qed

lemma sys_ok_delete_runs: "sys_ok db \<Longrightarrow> sys_ok (delete_runs P db)"
  by (rule sys_ok_shrink, assumption)
     (simp_all add: wf_delete_runs delete_runs_leases sys_okD(1), auto simp: delete_runs_def Let_def table_simps)

lemma sys_ok_DeleteSchedule:
  assumes ok: "sys_ok db" and del: "DeleteSchedule db i = Inr db'"
  shows "sys_ok db'"
proof -
  have "sys_ok (delete_runs (\<lambda>r. r_ScheduleID r = i) db)" using ok by (rule sys_ok_delete_runs)
  moreover have "wf_db db'" using sys_okD(1) [OF ok] del by (rule wf_DeleteSchedule)
  ultimately show ?thesis
    by (rule sys_ok_same) (use del in \<open>auto simp: DeleteSchedule_def Let_def split: if_splits\<close>)
qed

end
