(* ===== verification/ExternalJobs.thy ===== *)
theory ExternalJobs
  imports Ownership
begin

text \<open>
  Durable external jobs, the rest of \<open>internal/store/external_jobs.go\<close> with the pruning of
  \<open>store.go\<close>: checkpoints, compaction, reconciliation. The checkpoint column holds the public fields of
  a job (\<open>RequestTarget\<close> is not part of its JSON), so equality of \<open>mustJSONString\<close> texts is equality
  of public fields. The text itself is only stored in receipts; it is the parameter \<open>job_json\<close>.
\<close>

section \<open>Checkpoints\<close>

definition public_job :: "ExternalJob \<Rightarrow> ExternalJob" where
  "public_job j = j\<lparr>j_RequestTarget := zero_TargetSpec\<rparr>"

definition find_job :: "DB \<Rightarrow> string \<Rightarrow> ExternalJobRow option" where
  "find_job db key = sql_find (\<lambda>e. ej_occurrence_key e = key) (external_jobs db)"

text \<open>The checks of \<open>SaveExternalJob\<close> against the prior row; \<open>job\<close> has its \<open>CanReconcile\<close> set.\<close>

definition check_prior :: "ExternalJobRow \<Rightarrow> ExternalJob \<Rightarrow> unit store_result" where
  "check_prior row job =
     (let prior = decodeExternalJob (ej_checkpoint row) (ej_target_snapshot row);
          prior1 = prior\<lparr>j_UpdatedAt := j_UpdatedAt job\<rparr>
      in if j_DeadlineAt prior \<noteq> j_DeadlineAt job \<or> j_SubmittedAt prior \<noteq> j_SubmittedAt job
           \<or> ej_target_snapshot row \<noteq> Some (j_RequestTarget job)
         then Inl (ErrOther ''external job execution snapshot is immutable'')
         else if j_JobID prior \<noteq> '''' \<and> (j_JobID prior \<noteq> j_JobID job \<or> j_StatusURL prior \<noteq> j_StatusURL job)
         then Inl (ErrOther ''external job identity is immutable'')
         else if Terminal prior1 \<and> public_job prior1 \<noteq> public_job job
         then Inl (ErrOther ''external job terminal checkpoint is immutable'')
         else Inr ())"

text \<open>\<open>INSERT ... ON CONFLICT (occurrence_key) DO UPDATE\<close> of the checkpoint.\<close>

definition upsert_job :: "DB \<Rightarrow> string \<Rightarrow> string \<Rightarrow> ExternalJob \<Rightarrow> time \<Rightarrow> DB store_result" where
  "upsert_job db key scheduleID job now =
     (if \<not> job_status_check (j_Status job) then Inl ErrConstraint
      else if find_job db key \<noteq> None
      then Inr (db\<lparr>external_jobs := sql_update (\<lambda>e. ej_occurrence_key e = key)
             (\<lambda>e. e\<lparr>ej_checkpoint := public_job job, ej_job_status := j_Status job, ej_updated_at := now\<rparr>)
             (external_jobs db)\<rparr>)
      else if \<not> (\<exists>s \<in> set (schedules db). s_ID s = scheduleID) then Inl ErrConstraint
      else Inr (db\<lparr>external_jobs := external_jobs db @
             [\<lparr>ej_occurrence_key = key, ej_schedule_id = scheduleID, ej_checkpoint = public_job job,
               ej_job_status = j_Status job, ej_compacted = False,
               ej_target_snapshot = Some (j_RequestTarget job), ej_created_at = j_SubmittedAt job,
               ej_updated_at = now\<rparr>]\<rparr>))"

definition SaveExternalJob ::
    "(ExternalJob \<Rightarrow> string) \<Rightarrow> int \<Rightarrow> DB \<Rightarrow> 'a RunRow_scheme \<Rightarrow> string \<Rightarrow> string \<Rightarrow> ExternalJob \<Rightarrow> time
     \<Rightarrow> string \<Rightarrow> DB store_result" where
  "SaveExternalJob job_json maxBytes db run workerID token job0 now receiptID =
     (let job1 = job0\<lparr>j_CanReconcile := ReconciliationAvailable job0\<rparr>;
          job = job1\<lparr>j_UpdatedAt := now\<rparr> in
      bind_result (lockOwnedRun db (r_ID run) workerID token now) (\<lambda>_.
        let prior = find_job db (r_OccurrenceKey run) in
        bind_result (case prior of None \<Rightarrow> Inr () | Some row \<Rightarrow> check_prior row job1) (\<lambda>_.
          bind_result (upsert_job db (r_OccurrenceKey run) (r_ScheduleID run) job now) (\<lambda>db1.
            if (case prior of None \<Rightarrow> True
                | Some row \<Rightarrow> (ej_checkpoint row)\<lparr>j_UpdatedAt := now\<rparr> \<noteq> public_job job)
            then insert_receipt db1
              \<lparr>rc_ID = receiptID, rc_RunID = r_ID run, rc_ReceiptKind = ''summary'',
               rc_ContentType = ''application/json'', rc_Body = truncateReceiptBody (job_json job) maxBytes,
               rc_CreatedAt = now\<rparr>
            else Inr db1))))"

definition UnresolvedExternalJobCount :: "DB \<Rightarrow> string \<Rightarrow> nat" where
  "UnresolvedExternalJobCount db scheduleID =
     sql_count (\<lambda>e. ej_schedule_id e = scheduleID \<and> unresolved (ej_job_status e)) (external_jobs db)"

section \<open>Pruning and compaction\<close>

definition tombstone :: "ExternalJob \<Rightarrow> ExternalJob" where
  "tombstone job =
     job\<lparr>j_StatusURL := '''', j_Progress := None, j_Result := '''', j_Artifacts := [], j_Error := '''',
        j_RequestTarget := zero_TargetSpec, j_Compacted := True, j_CanReconcile := False\<rparr>"

definition compactable :: "DB \<Rightarrow> ExternalJobRow \<Rightarrow> bool" where
  "compactable db e \<longleftrightarrow> \<not> ej_compacted e
     \<and> (ej_job_status e = ExternalJobSucceeded \<or> ej_job_status e = ExternalJobFailed
        \<or> ej_job_status e = ExternalJobCancelled)
     \<and> \<not> (\<exists>r \<in> set (schedule_runs db). r_OccurrenceKey r = ej_occurrence_key e)"

definition compactPrunedExternalJobs :: "DB \<Rightarrow> DB" where
  "compactPrunedExternalJobs db =
     db\<lparr>external_jobs := sql_update (compactable db)
         (\<lambda>e. e\<lparr>ej_checkpoint := tombstone (ej_checkpoint e), ej_target_snapshot := None, ej_compacted := True\<rparr>)
         (external_jobs db)\<rparr>"

definition prunable :: "DB \<Rightarrow> time \<Rightarrow> RunRow \<Rightarrow> bool" where
  "prunable db cutoff r \<longleftrightarrow> (case r_FinishedAt r of None \<Rightarrow> False | Some t \<Rightarrow> t < cutoff)
     \<and> terminal (r_Status r)
     \<and> \<not> (\<exists>e \<in> set (external_jobs db). ej_occurrence_key e = r_OccurrenceKey r \<and> unresolved (ej_job_status e))"

definition PruneTerminalRunsBefore :: "DB \<Rightarrow> time \<Rightarrow> nat \<times> DB" where
  "PruneTerminalRunsBefore db cutoff =
     (sql_count (prunable db cutoff) (schedule_runs db),
      compactPrunedExternalJobs (delete_runs (prunable db cutoff) db))"

section \<open>Reconciliation\<close>

definition ReconcileExternalJob ::
    "dialect \<Rightarrow> (ExternalJob \<Rightarrow> string) \<Rightarrow> int \<Rightarrow> DB \<Rightarrow> 'a RunRow_scheme \<Rightarrow> ExternalJob \<Rightarrow> ExternalJob \<Rightarrow> time
     \<Rightarrow> string \<Rightarrow> DB store_result" where
  "ReconcileExternalJob dialect reconciled_json maxBytes db run expected observed0 now receiptID =
     (if dialect = Postgres \<and> sql_find (\<lambda>s. s_ID s = r_ScheduleID run) (schedules db) = None then Inl ErrNoRows
      else if sql_count (\<lambda>r. r_OccurrenceKey r = r_OccurrenceKey run
          \<and> (queued (r_Status r) \<or> IsActiveStatus (r_Status r))) (schedule_runs db) > 0 then Inl ErrConflict
      else case find_job db (r_OccurrenceKey run) of
        None \<Rightarrow> Inl ErrNoRows
      | Some row \<Rightarrow>
          let current = decodeExternalJob (ej_checkpoint row) (ej_target_snapshot row);
              observed1 = observed0\<lparr>j_UpdatedAt := now\<rparr>;
              observed = observed1\<lparr>j_CanReconcile := ReconciliationAvailable observed1\<rparr>
          in if j_Compacted current \<or> Terminal current \<or> public_job current \<noteq> public_job expected
               \<or> ej_target_snapshot row \<noteq> Some (j_RequestTarget expected) then Inl ErrConflict
             else if j_JobID current = '''' \<and>
               (j_Status current \<noteq> ExternalJobSubmitting
                \<or> (case t_HTTPJob (j_RequestTarget current) of None \<Rightarrow> True | Some h \<Rightarrow> hj_LookupURL h = '''')
                \<or> j_JobID observed0 = '''' \<or> j_StatusURL observed0 = '''') then Inl ErrConflict
             else if j_JobID current \<noteq> '''' \<and>
               (j_JobID current \<noteq> j_JobID observed0 \<or> j_StatusURL current \<noteq> j_StatusURL observed0)
             then Inl ErrConflict
             else if j_DeadlineAt current \<noteq> j_DeadlineAt observed0 \<or> j_SubmittedAt current \<noteq> j_SubmittedAt observed0
               \<or> ej_target_snapshot row \<noteq> Some (j_RequestTarget observed0) then Inl ErrConflict
             else if \<not> job_status_check (j_Status observed) then Inl ErrConstraint
             else insert_receipt
               (db\<lparr>external_jobs := sql_update (\<lambda>e. ej_occurrence_key e = r_OccurrenceKey run)
                 (\<lambda>e. e\<lparr>ej_checkpoint := public_job observed, ej_job_status := j_Status observed,
                        ej_updated_at := now\<rparr>) (external_jobs db)\<rparr>)
               \<lparr>rc_ID = receiptID, rc_RunID = r_ID run, rc_ReceiptKind = ''summary'',
                rc_ContentType = ''application/json'',
                rc_Body = truncateReceiptBody (reconciled_json observed) maxBytes, rc_CreatedAt = now\<rparr>)"

section \<open>The invariant of job rows\<close>

definition job_row_ok :: "ExternalJobRow \<Rightarrow> bool" where
  "job_row_ok e \<longleftrightarrow> ej_job_status e = j_Status (ej_checkpoint e)
     \<and> j_RequestTarget (ej_checkpoint e) = zero_TargetSpec
     \<and> (ej_compacted e \<longleftrightarrow> ej_target_snapshot e = None)
     \<and> (ej_compacted e \<longrightarrow> \<not> unresolved (ej_job_status e))
     \<and> job_status_check (ej_job_status e)"

definition jobs_ok :: "DB \<Rightarrow> bool" where
  "jobs_ok db \<longleftrightarrow> (\<forall>e \<in> set (external_jobs db). job_row_ok e)"

lemma public_job_simps [simp]:
  "j_JobID (public_job j) = j_JobID j" "j_StatusURL (public_job j) = j_StatusURL j"
  "j_Status (public_job j) = j_Status j" "j_Progress (public_job j) = j_Progress j"
  "j_Result (public_job j) = j_Result j" "j_Artifacts (public_job j) = j_Artifacts j"
  "j_Error (public_job j) = j_Error j" "j_SubmittedAt (public_job j) = j_SubmittedAt j"
  "j_UpdatedAt (public_job j) = j_UpdatedAt j" "j_DeadlineAt (public_job j) = j_DeadlineAt j"
  "j_Compacted (public_job j) = j_Compacted j" "j_CanReconcile (public_job j) = j_CanReconcile j"
  "j_RequestTarget (public_job j) = zero_TargetSpec"
  by (simp_all add: public_job_def)

lemma decode_simps [simp]:
  "j_JobID (decodeExternalJob j t) = j_JobID j" "j_StatusURL (decodeExternalJob j t) = j_StatusURL j"
  "j_Status (decodeExternalJob j t) = j_Status j" "j_Progress (decodeExternalJob j t) = j_Progress j"
  "j_Result (decodeExternalJob j t) = j_Result j" "j_Artifacts (decodeExternalJob j t) = j_Artifacts j"
  "j_Error (decodeExternalJob j t) = j_Error j" "j_SubmittedAt (decodeExternalJob j t) = j_SubmittedAt j"
  "j_UpdatedAt (decodeExternalJob j t) = j_UpdatedAt j" "j_DeadlineAt (decodeExternalJob j t) = j_DeadlineAt j"
  "j_Compacted (decodeExternalJob j t) = j_Compacted j"
  "j_RequestTarget (decodeExternalJob j (Some u)) = u"
  by (simp_all add: decodeExternalJob_def Let_def)

lemma Terminal_iff: "Terminal j \<longleftrightarrow> job_status_check (j_Status j) \<and> \<not> unresolved (j_Status j)"
  by (cases "j_Status j") (simp_all add: Terminal_def job_status_check_def unresolved_def)

lemma find_jobD: "find_job db key = Some e \<Longrightarrow> e \<in> set (external_jobs db) \<and> ej_occurrence_key e = key"
  unfolding find_job_def by (rule sql_find_both)

lemma find_job_unique:
  "wf_db db \<Longrightarrow> e \<in> set (external_jobs db) \<Longrightarrow> find_job db (ej_occurrence_key e) = Some e"
  unfolding find_job_def by (rule sql_find_key) (auto dest: wf_dbD)

section \<open>Preservation\<close>

lemma ball_sql_update:
  "(\<forall>e \<in> set (sql_update P f rows). Q e) \<longleftrightarrow> (\<forall>e \<in> set rows. Q (if P e then f e else e))"
  by (auto simp: sql_update_def)

lemma upsert_job_wf:
  assumes "wf_db db" and "jobs_ok db" and up: "upsert_job db key sid job now = Inr db'"
    and "\<And>row. find_job db key = Some row \<Longrightarrow> \<not> ej_compacted row"
  shows "wf_db db' \<and> jobs_ok db'"
proof (cases "find_job db key")
  case None
  then have "key \<notin> ej_occurrence_key ` set (external_jobs db)"
    by (auto simp: find_job_def table_simps)
  with None assms show ?thesis
    by (auto simp: upsert_job_def in_ids jobs_ok_def job_row_ok_def intro!: wf_append_external_job split: if_splits)
next
  case (Some row)
  have live: "\<not> ej_compacted e" if "e \<in> set (external_jobs db)" "ej_occurrence_key e = key" for e
    using assms(4) find_job_unique [OF assms(1) that(1)] that(2) by simp
  have "job_row_ok (if ej_occurrence_key e = key then e\<lparr>ej_checkpoint := public_job job,
      ej_job_status := j_Status job, ej_updated_at := now\<rparr> else e)"
    if e: "e \<in> set (external_jobs db)" "job_status_check (j_Status job)" for e
  proof (cases "ej_occurrence_key e = key")
    case True
    with live e(1) have "\<not> ej_compacted e" by blast
    moreover have "job_row_ok e" using assms(2) e(1) by (simp add: jobs_ok_def)
    ultimately show ?thesis using True e(2) by (simp add: job_row_ok_def)
  qed (use assms(2) e in \<open>simp add: jobs_ok_def\<close>)
  moreover have "job_status_check (j_Status job)"
    and db': "db' = db\<lparr>external_jobs := sql_update (\<lambda>e. ej_occurrence_key e = key)
             (\<lambda>e. e\<lparr>ej_checkpoint := public_job job, ej_job_status := j_Status job, ej_updated_at := now\<rparr>)
             (external_jobs db)\<rparr>"
    using up Some by (auto simp: upsert_job_def split: if_splits)
  ultimately have "jobs_ok db'" by (simp add: jobs_ok_def ball_sql_update)
  moreover have "wf_db db'" unfolding db' using assms(1) by (rule wf_update_external_jobs) simp_all
  ultimately show ?thesis by blast
qed

lemma upsert_job_frame:
  "upsert_job db key sid job now = Inr db' \<Longrightarrow> schedule_runs db' = schedule_runs db \<and> worker_leases db' = worker_leases db"
  by (auto simp: upsert_job_def split: if_splits)

lemma jobs_ok_insert_receipt: "jobs_ok db \<Longrightarrow> insert_receipt db c = Inr db' \<Longrightarrow> jobs_ok db'"
  by (auto simp: insert_receipt_def jobs_ok_def split: if_splits)

lemma SaveExternalJob_cases:
  assumes "SaveExternalJob job_json n db run w token job0 now c = Inr db'"
  obtains db1 where "lockRunLease db (r_ID run) w token now True = Inr ()"
    and "\<And>row. find_job db (r_OccurrenceKey run) = Some row \<Longrightarrow>
          check_prior row (job0\<lparr>j_CanReconcile := ReconciliationAvailable job0\<rparr>) = Inr ()"
    and "upsert_job db (r_OccurrenceKey run) (r_ScheduleID run)
          (job0\<lparr>j_CanReconcile := ReconciliationAvailable job0, j_UpdatedAt := now\<rparr>) now = Inr db1"
    and "db' = db1 \<or> (\<exists>c. insert_receipt db1 c = Inr db')"
  using assms unfolding SaveExternalJob_def Let_def lockOwnedRun_def
  by (fastforce split: if_splits option.splits)

lemma check_prior_live: "check_prior row job = Inr u \<Longrightarrow> job_row_ok row \<Longrightarrow> \<not> ej_compacted row"
  by (auto simp: check_prior_def Let_def job_row_ok_def split: if_splits)

lemma SaveExternalJob_ok:
  assumes ok: "sys_ok db" "jobs_ok db" and save: "SaveExternalJob job_json n db run w token job0 now c = Inr db'"
  shows "sys_ok db' \<and> jobs_ok db'"
  using save
proof (rule SaveExternalJob_cases)
  fix db1
  assume prior: "\<And>row. find_job db (r_OccurrenceKey run) = Some row \<Longrightarrow>
          check_prior row (job0\<lparr>j_CanReconcile := ReconciliationAvailable job0\<rparr>) = Inr ()"
    and up: "upsert_job db (r_OccurrenceKey run) (r_ScheduleID run)
          (job0\<lparr>j_CanReconcile := ReconciliationAvailable job0, j_UpdatedAt := now\<rparr>) now = Inr db1"
    and db': "db' = db1 \<or> (\<exists>c. insert_receipt db1 c = Inr db')"
  have "\<not> ej_compacted row" if "find_job db (r_OccurrenceKey run) = Some row" for row
    using check_prior_live [OF prior [OF that]] ok(2) find_jobD [OF that] by (auto simp: jobs_ok_def)
  then have *: "wf_db db1 \<and> jobs_ok db1" using upsert_job_wf [OF sys_okD(1) [OF ok(1)] ok(2) up] by blast
  then have "sys_ok db1" using upsert_job_frame [OF up] ok(1) by (auto intro: sys_ok_same)
  with * db' show ?thesis using sys_ok_insert_receipt jobs_ok_insert_receipt by blast
qed

lemma compact_ok: "sys_ok db \<Longrightarrow> jobs_ok db \<Longrightarrow> sys_ok (compactPrunedExternalJobs db) \<and> jobs_ok (compactPrunedExternalJobs db)"
  by (auto simp: compactPrunedExternalJobs_def jobs_ok_def job_row_ok_def table_simps tombstone_def compactable_def
      unresolved_def job_status_check_def intro!: sys_ok_same [of db] wf_update_external_jobs dest: sys_okD(1))

lemma PruneTerminalRunsBefore_ok:
  "sys_ok db \<Longrightarrow> jobs_ok db \<Longrightarrow> sys_ok (snd (PruneTerminalRunsBefore db t)) \<and> jobs_ok (snd (PruneTerminalRunsBefore db t))"
  using compact_ok [OF sys_ok_delete_runs, of db "prunable db t"]
  by (simp add: PruneTerminalRunsBefore_def jobs_ok_def delete_runs_def Let_def)

lemma ReconcileExternalJob_cases:
  assumes "ReconcileExternalJob dialect rj n db run expected observed now c = Inr db'"
  obtains row receipt where "find_job db (r_OccurrenceKey run) = Some row"
    and "\<not> Terminal (ej_checkpoint row)" and "\<not> j_Compacted (ej_checkpoint row)"
    and "j_DeadlineAt observed = j_DeadlineAt (ej_checkpoint row)"
    and "j_SubmittedAt observed = j_SubmittedAt (ej_checkpoint row)"
    and "ej_target_snapshot row = Some (j_RequestTarget observed)"
    and "j_JobID (ej_checkpoint row) \<noteq> '''' \<Longrightarrow> j_JobID observed = j_JobID (ej_checkpoint row)
           \<and> j_StatusURL observed = j_StatusURL (ej_checkpoint row)"
    and "job_status_check (j_Status observed)"
    and "\<forall>r \<in> set (schedule_runs db). r_OccurrenceKey r = r_OccurrenceKey run \<longrightarrow> terminal (r_Status r)"
    and "insert_receipt (db\<lparr>external_jobs := sql_update (\<lambda>e. ej_occurrence_key e = r_OccurrenceKey run)
          (\<lambda>e. e\<lparr>ej_checkpoint := public_job (observed\<lparr>j_UpdatedAt := now,
                    j_CanReconcile := ReconciliationAvailable (observed\<lparr>j_UpdatedAt := now\<rparr>)\<rparr>),
                 ej_job_status := j_Status observed, ej_updated_at := now\<rparr>) (external_jobs db)\<rparr>) receipt = Inr db'"
proof -
  obtain row where row: "find_job db (r_OccurrenceKey run) = Some row"
    using assms unfolding ReconcileExternalJob_def by (auto split: if_splits option.splits)
  show ?thesis
    by (rule that [OF row])
       (use assms row status_cases in
         \<open>auto simp: ReconcileExternalJob_def Let_def Terminal_iff table_simps split: if_splits option.splits\<close>)
qed

end
