(* ===== verification/Events.thy ===== *)
theory Events
  imports ExternalJobs
begin

text \<open>
  Trigger events: \<open>internal/domain/events.go\<close> and \<open>internal/store/events.go\<close>. \<open>encoding/json\<close> is modelled
  as far as it decides which events are accepted (the encoded length of the data) and what the
  occurrence key is computed from; the digest itself is the parameter \<open>sha256_hex\<close>. Equality of
  stored payload texts is equality of events whose empty data is omitted, as \<open>omitempty\<close> does.
\<close>

section \<open>JSON text\<close>

definition hex_digit :: "nat \<Rightarrow> char" where
  "hex_digit n = (if n < 10 then char_of (48 + n) else char_of (87 + n))"

text \<open>The escapes of \<open>encoding/json\<close> for valid UTF-8: quotes, backslashes, control characters, the HTML
  characters, and the line separators U+2028 and U+2029.\<close>

definition escape_byte :: "char \<Rightarrow> string" where
  "escape_byte c =
     (let n = of_char c :: nat in
      if c = CHR 0x22 then [CHR 0x5C, CHR 0x22]
      else if c = CHR 0x5C then [CHR 0x5C, CHR 0x5C]
      else if n = 8 then [CHR 0x5C, CHR ''b'']
      else if n = 12 then [CHR 0x5C, CHR ''f'']
      else if n = 10 then [CHR 0x5C, CHR ''n'']
      else if n = 13 then [CHR 0x5C, CHR ''r'']
      else if n = 9 then [CHR 0x5C, CHR ''t'']
      else if n < 32 \<or> c = CHR ''<'' \<or> c = CHR ''>'' \<or> c = CHR ''&''
      then [CHR 0x5C, CHR ''u'', CHR ''0'', CHR ''0'', hex_digit (n div 16), hex_digit (n mod 16)]
      else [c])"

function json_escape :: "string \<Rightarrow> string" where
  "json_escape s =
     (if has_prefix s (bytes [226, 128, 168]) then CHR 0x5C # ''u2028'' @ json_escape (drop 3 s)
      else if has_prefix s (bytes [226, 128, 169]) then CHR 0x5C # ''u2029'' @ json_escape (drop 3 s)
      else case s of [] \<Rightarrow> [] | c # cs \<Rightarrow> escape_byte c @ json_escape cs)"
  by pat_completeness auto
termination
proof (relation "measure length", simp)
  show "(drop 3 s, s) \<in> measure length" if "has_prefix s (bytes [226, 128, 168])" for s
    using that by (cases s) (auto simp: has_prefix_def bytes_def)
  show "(drop 3 s, s) \<in> measure length" if "has_prefix s (bytes [226, 128, 169])" for s
    using that by (cases s) (auto simp: has_prefix_def bytes_def)
qed auto

declare json_escape.simps [simp del]

definition json_string :: "string \<Rightarrow> string" where
  "json_string s = [CHR 0x22] @ json_escape s @ [CHR 0x22]"

definition comma_separated :: "string list \<Rightarrow> string" where
  "comma_separated xs = concat (case xs of [] \<Rightarrow> [] | y # ys \<Rightarrow> y # map (\<lambda>z. CHR '','' # z) ys)"

text \<open>Object keys are written in sorted order; numbers keep their literal.\<close>

fun json_text :: "json \<Rightarrow> string" where
  "json_text JNull = ''null''"
| "json_text (JBool b) = (if b then ''true'' else ''false'')"
| "json_text (JNumber n) = n"
| "json_text (JString s) = json_string s"
| "json_text (JArray xs) = CHR ''['' # comma_separated (map json_text xs) @ '']''"
| "json_text (JObject entries) =
     CHR ''{'' # comma_separated (map snd (sort_key fst
       (map (\<lambda>(k, v). (k, json_string k @ CHR '':'' # json_text v)) entries))) @ ''}''"

section \<open>Validation\<close>

text \<open>\<open>strings.IndexFunc(value, unicode.IsControl) >= 0\<close>: C0, DEL, and the two-byte encodings of C1.\<close>

fun has_control :: "string \<Rightarrow> bool" where
  "has_control (c # d # cs) \<longleftrightarrow> (of_char c :: nat) < 32 \<or> (of_char c :: nat) = 127
     \<or> (of_char c :: nat) = 194 \<and> 128 \<le> (of_char d :: nat) \<and> (of_char d :: nat) < 160
     \<or> has_control (d # cs)"
| "has_control [c] \<longleftrightarrow> (of_char c :: nat) < 32 \<or> (of_char c :: nat) = 127"
| "has_control [] \<longleftrightarrow> False"

definition event_data_text :: "TriggerEvent \<Rightarrow> string" where
  "event_data_text ev = (case ev_Data ev of None \<Rightarrow> ''null'' | Some d \<Rightarrow> json_text (JObject d))"

definition check_event_field :: "string \<Rightarrow> string \<Rightarrow> string option" where
  "check_event_field name value =
     (if trim_space value = '''' \<or> length value > 256
      then Some (''event '' @ name @ '' must be non-empty and at most 256 bytes'')
      else if has_control value then Some (''event '' @ name @ '' must not contain control characters'')
      else None)"

text \<open>The map of fields is ranged over in an unspecified order, given by \<open>id_first\<close>.\<close>

definition ValidateTriggerEvent :: "bool \<Rightarrow> TriggerEvent \<Rightarrow> string option" where
  "ValidateTriggerEvent id_first ev =
     (let a = check_event_field ''id'' (ev_ID ev); b = check_event_field ''source'' (ev_Source ev);
          (x, y) = (if id_first then (a, b) else (b, a))
      in case x of Some e \<Rightarrow> Some e
         | None \<Rightarrow> (case y of Some e \<Rightarrow> Some e
             | None \<Rightarrow> if length (event_data_text ev) > 65536
                       then Some ''event data must be at most 65536 bytes'' else None))"

section \<open>Recording\<close>

definition event_key :: "(string \<Rightarrow> string) \<Rightarrow> string \<Rightarrow> TriggerEvent \<Rightarrow> string" where
  "event_key sha256_hex scheduleID ev =
     ''event:'' @ sha256_hex (json_text (JArray (map JString [scheduleID, ev_Source ev, ev_ID ev])))"

definition event_payload :: "TriggerEvent \<Rightarrow> TriggerEvent" where
  "event_payload ev = ev\<lparr>ev_Data := (case ev_Data ev of Some [] \<Rightarrow> None | d \<Rightarrow> d)\<rparr>"

definition event_run :: "string \<Rightarrow> string \<Rightarrow> string \<Rightarrow> time \<Rightarrow> RunRow" where
  "event_run runID scheduleID key now =
     \<lparr>r_ID = runID, r_ScheduleID = scheduleID, r_OccurrenceKey = key, r_NominalTime = now, r_DueTime = now,
      r_Status = RunPending, r_Attempt = 1, r_ClaimedByWorkerID = None, r_ClaimExpiresAt = None,
      r_StartedAt = None, r_FinishedAt = None, r_HTTPStatusCode = None, r_ExitCode = None, r_ResultJSON = '''',
      r_ErrorText = None, r_RetryAvailableAt = None, r_CreatedAt = now, r_UpdatedAt = now\<rparr>"

definition TriggerEvent_tx ::
    "(string \<Rightarrow> string) \<Rightarrow> DB \<Rightarrow> string \<Rightarrow> TriggerEvent \<Rightarrow> time \<Rightarrow> string \<Rightarrow> ((Run \<times> bool) \<times> DB) store_result" where
  "TriggerEvent_tx sha256_hex db scheduleID ev now runID =
     (let key = event_key sha256_hex scheduleID ev in
      case sql_find (\<lambda>s. s_ID s = scheduleID) (schedules db) of
        None \<Rightarrow> Inl ErrNotFound
      | Some s \<Rightarrow>
          (case sql_find (\<lambda>e. te_occurrence_key e = key) (trigger_events db) of
             Some prior \<Rightarrow>
               if te_event prior \<noteq> event_payload ev then Inl ErrEventConflict
               else (case GetRun db (te_run_id prior) of
                   Inl ErrNotFound \<Rightarrow> Inl ErrEventHistoryPruned
                 | Inl e \<Rightarrow> Inl e
                 | Inr run \<Rightarrow> Inr ((run, False), db))
           | None \<Rightarrow>
               if \<not> s_Enabled s then Inl ErrSchedulePaused
               else if \<exists>x \<in> set (schedule_runs db). r_ID x = runID \<or> r_OccurrenceKey x = key \<and> r_Attempt x = 1
               then Inl ErrUnique
               else
                 let row = event_run runID scheduleID key now in
                 Inr (((plain_run row)\<lparr>r_Event := Some ev\<rparr>, True),
                   db\<lparr>trigger_events := trigger_events db @
                        [\<lparr>te_occurrence_key = key, te_schedule_id = scheduleID, te_event = event_payload ev,
                          te_run_id = runID, te_created_at = now\<rparr>],
                      schedule_runs := schedule_runs db @ [row]\<rparr>)))"

lemma TriggerEvent_created:
  assumes "TriggerEvent_tx h db sid ev now runID = Inr ((run, True), db')"
  shows "schedule_runs db' = schedule_runs db @ [event_run runID sid (event_key h sid ev) now]"
    and "trigger_events db' = trigger_events db @ [\<lparr>te_occurrence_key = event_key h sid ev, te_schedule_id = sid,
           te_event = event_payload ev, te_run_id = runID, te_created_at = now\<rparr>]"
    and "schedules db' = schedules db" and "worker_leases db' = worker_leases db"
    and "external_jobs db' = external_jobs db" and "sid \<in> schedule_ids db"
    and "runID \<notin> run_ids db" and "run_key (event_run runID sid (event_key h sid ev) now) \<notin> run_key ` set (schedule_runs db)"
    and "event_key h sid ev \<notin> te_occurrence_key ` set (trigger_events db)"
  using assms
  by (auto simp: TriggerEvent_tx_def Let_def in_ids run_key_def event_run_def table_simps
      split: option.splits if_splits sum.splits store_error.splits dest!: sql_find_both)

lemma TriggerEvent_replayed:
  "TriggerEvent_tx h db sid ev now runID = Inr ((run, False), db') \<Longrightarrow> db' = db"
  by (auto simp: TriggerEvent_tx_def Let_def split: option.splits if_splits sum.splits store_error.splits)

lemma TriggerEvent_db:
  assumes "TriggerEvent_tx h db sid ev now runID = Inr ((run, True), db')"
  shows "db' = db\<lparr>trigger_events := trigger_events db', schedule_runs := schedule_runs db'\<rparr>"
  using assms
  by (auto simp: TriggerEvent_tx_def Let_def split: option.splits if_splits sum.splits store_error.splits)

lemma TriggerEvent_ok:
  assumes ok: "sys_ok db" "jobs_ok db"
    and ev: "TriggerEvent_tx h db sid ev now runID = Inr ((run, created), db')"
  shows "sys_ok db' \<and> jobs_ok db'"
proof (cases created)
  case False
  then show ?thesis using TriggerEvent_replayed ev ok by metis
next
  case True
  then have ev': "TriggerEvent_tx h db sid ev now runID = Inr ((run, True), db')" using ev by simp
  note c = TriggerEvent_created [OF ev']
  define db1 where "db1 = db\<lparr>trigger_events := trigger_events db'\<rparr>"
  have wf1: "wf_db db1" unfolding db1_def c(2)
    using c(6,9) sys_okD(1) [OF ok(1)] by (intro wf_append_trigger_event) simp_all
  have "db' = db1\<lparr>schedule_runs := schedule_runs db1 @ [event_run runID sid (event_key h sid ev) now]\<rparr>"
    using TriggerEvent_db [OF ev'] c(1) by (simp add: db1_def)
  moreover have "wf_db (db1\<lparr>schedule_runs := schedule_runs db1 @ [event_run runID sid (event_key h sid ev) now]\<rparr>)"
    using wf1 c(6,7,8) by (intro wf_append_run) (simp_all add: db1_def, simp_all add: event_run_def)
  ultimately have "wf_db db'" by simp
  then show ?thesis
    using ok c(1,4,5,7)
    by (auto simp: jobs_ok_def intro!: sys_ok_append [OF ok(1), of db' "event_run runID sid (event_key h sid ev) now"])
       (auto simp: event_run_def run_ok_def)
qed

end
