(* ===== verification/Dispatcher.thy ===== *)
theory Dispatcher
  imports Events
begin

text \<open>
  The dispatcher, \<open>internal/dispatcher/dispatcher.go\<close>, with the types of \<open>internal/executors/registry.go\<close>.
  An execution is split where other goroutines can act: claiming in \<open>Tick\<close>, the start of \<open>executeRun\<close>,
  the heartbeat and the checkpoints (methods of the store), and its end with the outcome of the
  executor, which is an argument. The in-memory map of active executions is a map from run ids to
  execution tokens, with the set of tokens that have been cancelled. Clock readings and fresh
  identifiers are arguments; an error that the code only logs leaves no trace in the model.
\<close>

section \<open>Executor results\<close>

record ExecReceipt =
  er_Kind :: string
  er_ContentType :: string
  er_Body :: string

record Result =
  x_HTTPStatusCode :: "int option"
  x_ExitCode :: "int option"
  x_ResultJSON :: string
  x_ErrorText :: string
  x_Receipts :: "ExecReceipt list"
  x_Cancelled :: bool
  x_Deferred :: bool
  x_TerminalFailure :: bool

definition zero_Result :: Result where
  "zero_Result = \<lparr>x_HTTPStatusCode = None, x_ExitCode = None, x_ResultJSON = '''', x_ErrorText = '''',
     x_Receipts = [], x_Cancelled = False, x_Deferred = False, x_TerminalFailure = False\<rparr>"

text \<open>What the two goroutines of an execution come to: the heartbeat failed, or the executor returned.\<close>

datatype group_outcome = HeartbeatFailed string | Executed Result

section \<open>Retries\<close>

definition shouldRetry :: "Schedule \<Rightarrow> int \<Rightarrow> bool" where
  "shouldRetry schedule attempt =
     (if rp_Strategy (s_Retry schedule) = RetryNone then False else attempt < rp_MaxAttempts (s_Retry schedule))"

text \<open>The doubling loop, from its counter \<open>i\<close>.\<close>

function backoff_delay :: "RetryPolicy \<Rightarrow> int \<Rightarrow> int \<Rightarrow> int \<Rightarrow> int" where
  "backoff_delay retry attempt i delay =
     (if \<not> i < attempt then delay
      else if delay > rp_MaxDelaySeconds retry sdiv 2 then rp_MaxDelaySeconds retry
      else
        let delay1 = int64_wrap (delay * 2) in
        if delay1 \<ge> rp_MaxDelaySeconds retry then rp_MaxDelaySeconds retry
        else backoff_delay retry attempt (i + 1) delay1)"
  by pat_completeness auto
termination by (relation "measure (\<lambda>(retry, attempt, i, delay). nat (attempt - i))") auto

declare backoff_delay.simps [simp del]

definition backoffFor :: "RetryPolicy \<Rightarrow> int \<Rightarrow> time \<Rightarrow> time" where
  "backoffFor retry attempt now = now + seconds (backoff_delay retry attempt 1 (rp_InitialDelaySeconds retry))"

section \<open>Active executions\<close>

record Active =
  active_executions :: "string \<rightharpoonup> string"
  cancelled_executions :: "string set"

definition registerCancel :: "string \<Rightarrow> string \<Rightarrow> Active \<Rightarrow> Active" where
  "registerCancel runID token a = a\<lparr>active_executions := (active_executions a)(runID \<mapsto> token)\<rparr>"

definition unregisterCancel :: "string \<Rightarrow> string \<Rightarrow> Active \<Rightarrow> Active" where
  "unregisterCancel runID token a =
     (if active_executions a runID = Some token
      then a\<lparr>active_executions := (active_executions a)(runID := None)\<rparr> else a)"

definition cancelRun :: "string \<Rightarrow> Active \<Rightarrow> Active" where
  "cancelRun runID a =
     (case active_executions a runID of
        None \<Rightarrow> a
      | Some token \<Rightarrow> a\<lparr>cancelled_executions := insert token (cancelled_executions a)\<rparr>)"

section \<open>Finishing an execution\<close>

definition timePtrOr :: "time option \<Rightarrow> time \<Rightarrow> time option" where
  "timePtrOr current fallback = (case current of None \<Rightarrow> Some fallback | Some t \<Rightarrow> Some t)"

text \<open>The receipts of a result; a failed insertion is ignored.\<close>

fun insert_receipts :: "int \<Rightarrow> string \<Rightarrow> time \<Rightarrow> (nat \<Rightarrow> string) \<Rightarrow> nat \<Rightarrow> ExecReceipt list \<Rightarrow> DB \<Rightarrow> DB" where
  "insert_receipts maxBytes runID now newID k [] db = db"
| "insert_receipts maxBytes runID now newID k (x # xs) db =
     insert_receipts maxBytes runID now newID (k + 1) xs
       (case InsertReceipt maxBytes db \<lparr>rc_ID = newID k, rc_RunID = runID, rc_ReceiptKind = er_Kind x,
            rc_ContentType = er_ContentType x, rc_Body = er_Body x, rc_CreatedAt = now\<rparr> of
          Inl e \<Rightarrow> db | Inr db1 \<Rightarrow> db1)"

definition failure_status :: "Schedule \<Rightarrow> int \<Rightarrow> Result \<Rightarrow> RunStatus" where
  "failure_status schedule attempt result =
     (if x_Cancelled result then RunCancelled
      else if shouldRetry schedule attempt \<and> \<not> x_TerminalFailure result then RunFailed
      else RunDeadLettered)"

text \<open>The row of the failed attempt as \<open>completeFailureWithResult\<close> fills it in.\<close>

definition failed_run :: "Schedule \<Rightarrow> Run \<Rightarrow> Result \<Rightarrow> time \<Rightarrow> Run" where
  "failed_run schedule run result finishedAt = run
     \<lparr>r_StartedAt := timePtrOr (r_StartedAt run) finishedAt, r_FinishedAt := Some finishedAt,
      r_ClaimExpiresAt := None, r_HTTPStatusCode := x_HTTPStatusCode result, r_ExitCode := x_ExitCode result,
      r_ResultJSON := x_ResultJSON result, r_UpdatedAt := finishedAt,
      r_Status := failure_status schedule (r_Attempt run) result,
      r_ErrorText := (if x_ErrorText result \<noteq> '''' then Some (x_ErrorText result) else r_ErrorText run)\<rparr>"

definition retry_of :: "Schedule \<Rightarrow> Run \<Rightarrow> time \<Rightarrow> string \<Rightarrow> RunRow" where
  "retry_of schedule run finishedAt retryID =
     (let retryAt = backoffFor (s_Retry schedule) (r_Attempt run) finishedAt in
      \<lparr>r_ID = retryID, r_ScheduleID = r_ScheduleID run, r_OccurrenceKey = r_OccurrenceKey run,
       r_NominalTime = r_NominalTime run, r_DueTime = retryAt, r_Status = RunRetryScheduled,
       r_Attempt = r_Attempt run + 1, r_ClaimedByWorkerID = None, r_ClaimExpiresAt = None, r_StartedAt = None,
       r_FinishedAt = None, r_HTTPStatusCode = None, r_ExitCode = None, r_ResultJSON = '''', r_ErrorText = None,
       r_RetryAvailableAt = Some retryAt, r_CreatedAt = finishedAt, r_UpdatedAt = finishedAt\<rparr>)"

definition dead_letter_of :: "Run \<Rightarrow> Result \<Rightarrow> time \<Rightarrow> string \<Rightarrow> DeadLetter" where
  "dead_letter_of run result finishedAt deadID =
     \<lparr>dl_ID = deadID, dl_RunID = r_ID run, dl_ScheduleID = r_ScheduleID run,
      dl_OccurrenceKey = r_OccurrenceKey run, dl_Reason = x_ErrorText result,
      dl_PayloadJSON = r_ResultJSON run, dl_CreatedAt = finishedAt\<rparr>"

text \<open>Identifiers an execution draws when it ends: of the retry, the dead letter, and its receipts.\<close>

record NewIDs =
  id_retry :: string
  id_dead :: string
  id_receipts :: "nat \<Rightarrow> string"

definition completeFailureWithResult ::
    "int \<Rightarrow> string \<Rightarrow> DB \<Rightarrow> Schedule \<Rightarrow> Run \<Rightarrow> Result \<Rightarrow> time \<Rightarrow> NewIDs \<Rightarrow> store_error option \<times> DB" where
  "completeFailureWithResult maxBytes workerID db schedule run0 result finishedAt ids =
     (let run = failed_run schedule run0 result finishedAt;
          retry = (if r_Status run = RunFailed then Some (retry_of schedule run finishedAt (id_retry ids)) else None);
          dead = (if r_Status run = RunDeadLettered
                  then Some (dead_letter_of run result finishedAt (id_dead ids)) else None)
      in case (if r_ExecutionLeaseToken run \<noteq> ''''
               then FinishExternalFailure db run workerID (r_ExecutionLeaseToken run) retry dead finishedAt
               else FinishExpiredRunFailure db run retry dead finishedAt) of
           Inl e \<Rightarrow> (Some e, db)
         | Inr db1 \<Rightarrow>
             (None, insert_receipts maxBytes (r_ID run) finishedAt (id_receipts ids) 0 (x_Receipts result) db1))"

definition completeFailure ::
    "int \<Rightarrow> string \<Rightarrow> DB \<Rightarrow> Schedule \<Rightarrow> Run \<Rightarrow> string \<Rightarrow> bool \<Rightarrow> time \<Rightarrow> NewIDs \<Rightarrow> DB" where
  "completeFailure maxBytes workerID db schedule run err fatal finishedAt ids =
     snd (completeFailureWithResult maxBytes workerID db schedule run
       (zero_Result\<lparr>x_ErrorText := err, x_Cancelled := fatal\<rparr>) finishedAt ids)"

definition finishRun :: "string \<Rightarrow> DB \<Rightarrow> Run \<Rightarrow> time \<Rightarrow> DB store_result" where
  "finishRun workerID db run now =
     (if r_ExecutionLeaseToken run \<noteq> ''''
      then FinishRunWithLease db run workerID (r_ExecutionLeaseToken run) now
      else Inr (FinishRun db run))"

section \<open>Recovery\<close>

text \<open>One expired lease, as listed; \<open>Inl\<close> ends the recovery with an error.\<close>

definition recover_item ::
    "int \<Rightarrow> string \<Rightarrow> time \<Rightarrow> time \<Rightarrow> NewIDs \<Rightarrow> RunRow \<times> Schedule \<Rightarrow> DB \<times> Active
     \<Rightarrow> store_error option \<times> DB \<times> Active" where
  "recover_item maxBytes workerID now clock ids item st =
     (let (row, schedule) = item; (db, act) = st in
      if r_Status row = RunClaimed
      then (case ResetClaimedRun db (r_ID row) now of Inl e \<Rightarrow> (Some e, db, act) | Inr db1 \<Rightarrow> (None, db1, act))
      else if r_Status row = RunRunning
      then
        if GetExternalJob db (r_OccurrenceKey row) \<noteq> None \<or> t_HTTPJob (s_Target schedule) \<noteq> None
        then (case RequeueExternalRun db (r_ID row) '''' '''' now True (id_receipts ids 0) of
            Inr db1 \<Rightarrow> (None, db1, cancelRun (r_ID row) act)
          | Inl e \<Rightarrow> if e = ErrLeaseLost then (None, db, act) else (Some e, db, act))
        else (case completeFailureWithResult maxBytes workerID db schedule (plain_run row)
              (zero_Result\<lparr>x_ErrorText := ''worker lease expired during execution''\<rparr>) clock ids of
            (None, db1) \<Rightarrow> (None, db1, cancelRun (r_ID row) act)
          | (Some e, db1) \<Rightarrow> if e = ErrLeaseLost then (None, db1, act) else (Some e, db1, act))
      else (None, ClearLease db (r_ID row), act))"

fun recover_items ::
    "int \<Rightarrow> string \<Rightarrow> time \<Rightarrow> (nat \<Rightarrow> time) \<Rightarrow> (nat \<Rightarrow> NewIDs) \<Rightarrow> nat \<Rightarrow> (RunRow \<times> Schedule) list
     \<Rightarrow> DB \<times> Active \<Rightarrow> store_error option \<times> DB \<times> Active" where
  "recover_items maxBytes workerID now clock ids k [] st = (None, st)"
| "recover_items maxBytes workerID now clock ids k (item # rest) st =
     (case recover_item maxBytes workerID now (clock k) (ids k) item st of
        (Some e, st1) \<Rightarrow> (Some e, st1)
      | (None, st1) \<Rightarrow> recover_items maxBytes workerID now clock ids (k + 1) rest st1)"

definition recoverExpiredLeases ::
    "int \<Rightarrow> string \<Rightarrow> time \<Rightarrow> (nat \<Rightarrow> time) \<Rightarrow> (nat \<Rightarrow> NewIDs) \<Rightarrow> DB \<times> Active
     \<Rightarrow> store_error option \<times> DB \<times> Active" where
  "recoverExpiredLeases maxBytes workerID now clock ids st =
     recover_items maxBytes workerID now clock ids 0 (ListExpiredLeases (fst st) now) st"

section \<open>Admission\<close>

definition superseded :: "Schedule \<Rightarrow> time \<Rightarrow> RunRow \<Rightarrow> RunRow" where
  "superseded schedule now r = r
     \<lparr>r_Status := RunSkipped,
      r_ErrorText := Some (if p_Overlap (s_Policy schedule) = OverlapReplace
        then ''replace overlap downgraded to queued latest until current execution exits''
        else ''superseded by newer queued occurrence''),
      r_FinishedAt := Some now, r_UpdatedAt := now\<rparr>"

definition enforceQueuePolicy :: "DB \<Rightarrow> Schedule \<Rightarrow> time \<Rightarrow> DB" where
  "enforceQueuePolicy db schedule now =
     (let pending = filter (\<lambda>r. GetExternalJob db (r_OccurrenceKey r) = None)
                      (ListPendingRunsBySchedule db (s_ID schedule))
      in if length pending \<le> 1 then db
         else fold (\<lambda>r d. FinishRun d (superseded schedule now r))
                (filter (\<lambda>r. r_ID r \<noteq> r_ID (last pending)) (butlast pending)) db)"

definition prepareScheduleForClaim ::
    "DB \<times> Active \<Rightarrow> Schedule \<Rightarrow> 'a RunRow_scheme \<Rightarrow> time \<Rightarrow> bool \<times> DB \<times> Active" where
  "prepareScheduleForClaim st schedule run now =
     (let (db, act) = st;
          activeCount = int (ActiveOtherOccurrenceCount db (s_ID schedule) (r_OccurrenceKey run))
      in if activeCount \<ge> p_MaxConcurrency (s_Policy schedule) then (False, enforceQueuePolicy db schedule now, act)
         else if activeCount = 0 then (True, db, act)
         else case p_Overlap (s_Policy schedule) of
           OverlapAllow \<Rightarrow> (activeCount < p_MaxConcurrency (s_Policy schedule), db, act)
         | OverlapForbid \<Rightarrow> (False, db, act)
         | OverlapQueueLatest \<Rightarrow> (False, enforceQueuePolicy db schedule now, act)
         | OverlapReplace \<Rightarrow>
             if UnresolvedExternalJobCount db (s_ID schedule) > 0
             then (False, enforceQueuePolicy db schedule now, act)
             else (False, enforceQueuePolicy db schedule now,
                   fold (\<lambda>r. cancelRun (r_ID r)) (ListActiveRuns db (s_ID schedule)) act)
         | OtherOverlap k \<Rightarrow> (False, db, act))"

section \<open>Tick\<close>

definition claimed_run :: "RunRow \<Rightarrow> string \<Rightarrow> string \<Rightarrow> time \<Rightarrow> Run" where
  "claimed_run row workerID token expires = (plain_run row)
     \<lparr>r_ClaimedByWorkerID := Some workerID, r_ExecutionLeaseToken := token, r_ClaimExpiresAt := Some expires\<rparr>"

text \<open>One candidate; the executions started are collected.\<close>

definition dispatch_candidate ::
    "dialect \<Rightarrow> string \<Rightarrow> duration \<Rightarrow> time \<Rightarrow> time \<Rightarrow> string \<Rightarrow> RunRow \<Rightarrow> DB \<times> Active
     \<Rightarrow> (Schedule \<times> Run) list \<times> DB \<times> Active" where
  "dispatch_candidate dialect workerID ttl now claimedAt token row st =
     (case GetSchedule (fst st) (r_ScheduleID row) of
        Inl e \<Rightarrow> ([], st)
      | Inr schedule \<Rightarrow>
          let (claimable, db1, act1) = prepareScheduleForClaim st schedule row now in
          if \<not> claimable then ([], db1, act1)
          else (case ClaimRunWithToken dialect db1 schedule (r_ID row) workerID claimedAt ttl token of
              Inl e \<Rightarrow> ([], db1, act1)
            | Inr ((claimed, tok), db2) \<Rightarrow>
                if claimed then ([(schedule, claimed_run row workerID tok (claimedAt + ttl))], db2, act1)
                else ([], db2, act1)))"

fun dispatch_candidates ::
    "dialect \<Rightarrow> string \<Rightarrow> duration \<Rightarrow> (nat \<Rightarrow> time) \<Rightarrow> (nat \<Rightarrow> time) \<Rightarrow> (nat \<Rightarrow> string) \<Rightarrow> nat \<Rightarrow> RunRow list
     \<Rightarrow> DB \<times> Active \<Rightarrow> (Schedule \<times> Run) list \<times> DB \<times> Active" where
  "dispatch_candidates dialect workerID ttl clock claimClock newToken k [] st = ([], st)"
| "dispatch_candidates dialect workerID ttl clock claimClock newToken k (row # rest) st =
     (let (started1, st1) = dispatch_candidate dialect workerID ttl (clock k) (claimClock k) (newToken k) row st;
          (started2, st2) = dispatch_candidates dialect workerID ttl clock claimClock newToken (k + 1) rest st1
      in (started1 @ started2, st2))"

definition Dispatcher_Tick ::
    "dialect \<Rightarrow> int \<Rightarrow> string \<Rightarrow> duration \<Rightarrow> time \<Rightarrow> (nat \<Rightarrow> time) \<Rightarrow> (nat \<Rightarrow> NewIDs) \<Rightarrow> (nat \<Rightarrow> time)
     \<Rightarrow> (nat \<Rightarrow> time) \<Rightarrow> (nat \<Rightarrow> string) \<Rightarrow> DB \<times> Active
     \<Rightarrow> store_error option \<times> (Schedule \<times> Run) list \<times> DB \<times> Active" where
  "Dispatcher_Tick dialect maxBytes workerID ttl now recoverClock ids clock claimClock newToken st =
     (case recoverExpiredLeases maxBytes workerID now recoverClock ids st of
        (Some e, st1) \<Rightarrow> (Some e, [], st1)
      | (None, st1) \<Rightarrow>
          (None, dispatch_candidates dialect workerID ttl clock claimClock newToken 0
             (ListCandidateRuns (fst st1) now 64) st1))"

section \<open>An execution\<close>

definition is_external :: "Schedule \<Rightarrow> Run \<Rightarrow> bool" where
  "is_external schedule run \<longleftrightarrow> r_ExternalJob run \<noteq> None \<or> t_HTTPJob (s_Target schedule) \<noteq> None"

text \<open>The start of \<open>executeRun\<close>: the run as handed to the executor, with its deadline and kind.\<close>

definition execute_begin ::
    "string \<Rightarrow> DB \<Rightarrow> Schedule \<Rightarrow> Run \<Rightarrow> time \<Rightarrow> ((Run \<times> time \<times> TargetKind) \<times> DB) store_result" where
  "execute_begin workerID db schedule run0 startedAt =
     (let run1 = run0\<lparr>r_ExternalJob := GetExternalJob db (r_OccurrenceKey run0),
                      r_Event := GetRunEvent db (r_OccurrenceKey run0)\<rparr>;
          external = is_external schedule run1
      in bind_result
           (if external \<and> r_ExecutionLeaseToken run1 = '''' then ExecutionLeaseToken db (r_ID run1) workerID
            else Inr (r_ExecutionLeaseToken run1))
           (\<lambda>token.
              let run2 = run1\<lparr>r_ExecutionLeaseToken := token\<rparr> in
              bind_result
                (if token \<noteq> '''' then MarkRunRunningWithLease db (r_ID run2) workerID token startedAt
                 else Inr (MarkRunRunning db (r_ID run2) startedAt))
                (\<lambda>db1.
                   let run = run2\<lparr>r_StartedAt := timePtrOr (r_StartedAt run2) startedAt\<rparr>;
                       timeout = seconds (p_TimeoutSeconds (s_Policy schedule));
                       deadline = (if external then
                           (case r_ExternalJob run of
                              Some job \<Rightarrow> j_DeadlineAt job
                            | None \<Rightarrow> (case r_StartedAt run of Some t \<Rightarrow> t + timeout | None \<Rightarrow> startedAt + timeout))
                         else startedAt + timeout);
                       kind = (if r_ExternalJob run \<noteq> None then TargetKindHTTP else t_Kind (s_Target schedule))
                   in Inr ((run, deadline, kind), db1))))"

definition succeeded_run :: "Run \<Rightarrow> Result \<Rightarrow> time \<Rightarrow> Run" where
  "succeeded_run run result finishedAt = run
     \<lparr>r_Status := RunSucceeded, r_ClaimExpiresAt := None, r_FinishedAt := Some finishedAt,
      r_HTTPStatusCode := x_HTTPStatusCode result, r_ExitCode := x_ExitCode result,
      r_ResultJSON := x_ResultJSON result, r_UpdatedAt := finishedAt\<rparr>"

text \<open>The end of \<open>executeRun\<close>; \<open>now\<close> is the later clock reading of the store call.\<close>

definition execute_end ::
    "int \<Rightarrow> string \<Rightarrow> DB \<Rightarrow> Schedule \<Rightarrow> Run \<Rightarrow> group_outcome \<Rightarrow> time \<Rightarrow> time \<Rightarrow> NewIDs \<Rightarrow> DB" where
  "execute_end maxBytes workerID db schedule run outcome finishedAt now ids =
     (case outcome of
        HeartbeatFailed err \<Rightarrow>
          if is_external schedule run then db
          else completeFailure maxBytes workerID db schedule run err False finishedAt ids
      | Executed result \<Rightarrow>
          if x_Deferred result \<and> is_external schedule run
          then (case RequeueExternalRun db (r_ID run) workerID (r_ExecutionLeaseToken run) now False
                  (id_receipts ids 0) of Inl e \<Rightarrow> db | Inr db1 \<Rightarrow> db1)
          else if x_ErrorText result \<noteq> ''''
          then snd (completeFailureWithResult maxBytes workerID db schedule run result finishedAt ids)
          else (case finishRun workerID db (succeeded_run run result finishedAt) now of
              Inl e \<Rightarrow> db
            | Inr db1 \<Rightarrow> RecordScheduleCompletion
                (insert_receipts maxBytes (r_ID run) finishedAt (id_receipts ids) 0 (x_Receipts result) db1)
                (s_ID schedule) finishedAt))"

end
