(* ===== verification/Planner.thy ===== *)
theory Planner
  imports Ownership
begin

text \<open>
  The planner, \<open>internal/planner/planner.go\<close>: turning due slots of a schedule into runs. The catch-up
  loop is a partial function, so that not returning would be the value \<open>None\<close>; over a source of
  strictly later slots it returns, with the due slots in order. Each insertion commits on its own, so
  an error leaves the insertions before it in place: the result is an optional error and a database.
  The clock readings and the fresh identifiers of the insertions are functions of the position.
\<close>

section \<open>The catch-up loop\<close>

partial_function (option) due_loop ::
    "(time \<Rightarrow> (string, time option) result) \<Rightarrow> time \<Rightarrow> time option \<Rightarrow> time list
     \<Rightarrow> (string, time list \<times> time option) result option" where
  "due_loop next_slot now nxt due =
     (case nxt of
        None \<Rightarrow> Some (Inr (due, None))
      | Some t \<Rightarrow>
          if now < t then Some (Inr (due, Some t))
          else (case next_slot t of
              Inl e \<Rightarrow> Some (Inl e)
            | Inr computed \<Rightarrow> due_loop next_slot now computed (due @ [t])))"

declare due_loop.simps [code]

text \<open>The specification: \<open>due\<close> lists the slots from \<open>nxt\<close> on, one after the other, up to \<open>now\<close>.\<close>

fun due_from ::
    "(time \<Rightarrow> (string, time option) result) \<Rightarrow> time \<Rightarrow> time option \<Rightarrow> time list \<Rightarrow> time option \<Rightarrow> bool" where
  "due_from next_slot now nxt [] final \<longleftrightarrow> final = nxt \<and> (case nxt of None \<Rightarrow> True | Some t \<Rightarrow> now < t)"
| "due_from next_slot now nxt (t # ts) final \<longleftrightarrow>
     nxt = Some t \<and> t \<le> now \<and> (\<exists>computed. next_slot t = Inr computed \<and> due_from next_slot now computed ts final)"

lemma due_loop_sound:
  assumes "due_loop next_slot now nxt acc = Some (Inr (due, final))"
  shows "\<exists>ts. due = acc @ ts \<and> due_from next_slot now nxt ts final"
proof -
  have "\<forall>due final. r = Inr (due, final) \<longrightarrow> (\<exists>ts. due = acc @ ts \<and> due_from next_slot now nxt ts final)"
    if "due_loop next_slot now nxt acc = Some r" for r
  proof (rule due_loop.raw_induct [OF _ that])
    fix loop :: "(time \<Rightarrow> (string, time option) result) \<Rightarrow> time \<Rightarrow> time option \<Rightarrow> time list
        \<Rightarrow> (string, time list \<times> time option) result option"
      and next_slot now nxt acc r
    assume IH: "\<And>next_slot now nxt acc r. loop next_slot now nxt acc = Some r
        \<Longrightarrow> \<forall>due final. r = Inr (due, final) \<longrightarrow> (\<exists>ts. due = acc @ ts \<and> due_from next_slot now nxt ts final)"
      and step: "(case nxt of None \<Rightarrow> Some (Inr (acc, None))
        | Some t \<Rightarrow> if now < t then Some (Inr (acc, Some t))
            else (case next_slot t of Inl e \<Rightarrow> Some (Inl e)
              | Inr computed \<Rightarrow> loop next_slot now computed (acc @ [t]))) = Some r"
    show "\<forall>due final. r = Inr (due, final) \<longrightarrow> (\<exists>ts. due = acc @ ts \<and> due_from next_slot now nxt ts final)"
    proof (intro allI impI)
      fix due final assume r: "r = Inr (due, final)"
      show "\<exists>ts. due = acc @ ts \<and> due_from next_slot now nxt ts final"
      proof (cases "\<exists>t c. nxt = Some t \<and> \<not> now < t \<and> next_slot t = Inr c")
        case False
        with step r have "due = acc \<and> final = nxt \<and> (case nxt of None \<Rightarrow> True | Some t \<Rightarrow> now < t)"
          by (auto split: option.splits if_splits sum.splits)
        then show ?thesis by (intro exI [of _ "[]"]) simp
      next
        case True
        then obtain t c where t: "nxt = Some t" "\<not> now < t" "next_slot t = Inr c" by blast
        with step have "loop next_slot now c (acc @ [t]) = Some r" by simp
        with IH r obtain ts where "due = (acc @ [t]) @ ts" "due_from next_slot now c ts final" by blast
        with t show ?thesis by (intro exI [of _ "t # ts"]) simp
      qed
    qed
  qed
  with assms show ?thesis by blast
qed

context slot_source begin

lemma due_loop_returns:
  assumes "\<And>t. nxt = Some t \<Longrightarrow> ok t"
  shows "\<exists>r. due_loop next_slot now nxt acc = Some r"
  using assms
proof (induction "nat (case nxt of None \<Rightarrow> 0 | Some t \<Rightarrow> now - t + 1)" arbitrary: nxt acc rule: less_induct)
  case less
  show ?case
  proof (cases nxt)
    case None
    then show ?thesis by (simp add: due_loop.simps)
  next
    case (Some t)
    show ?thesis
    proof (cases "now < t \<or> (\<exists>e. next_slot t = Inl e)")
      case True
      with Some show ?thesis by (auto simp: due_loop.simps)
    next
      case False
      then obtain c where c: "next_slot t = Inr c" by (cases "next_slot t") auto
      have t: "ok t" using less.prems Some by simp
      have "\<exists>r. due_loop next_slot now c (acc @ [t]) = Some r"
      proof (rule less.hyps)
        show "nat (case c of None \<Rightarrow> 0 | Some t \<Rightarrow> now - t + 1) < nat (case nxt of None \<Rightarrow> 0 | Some t \<Rightarrow> now - t + 1)"
          using Some False c next_later [OF t] by (auto split: option.splits)
      qed (use c next_ok [OF t] in auto)
      with Some False c show ?thesis by (auto simp: due_loop.simps [of _ _ "Some t"])
    qed
  qed
qed

lemma due_from_sorted:
  assumes "due_from next_slot now nxt ts final" and "\<And>t. nxt = Some t \<Longrightarrow> ok t"
  shows "sorted_wrt (<) ts \<and> (\<forall>u \<in> set ts. ok u \<and> u \<le> now \<and> (\<forall>t. nxt = Some t \<longrightarrow> t \<le> u))
    \<and> (\<forall>f. final = Some f \<longrightarrow> ok f \<and> now < f)"
  using assms
proof (induction ts arbitrary: nxt)
  case Nil
  then show ?case by (auto split: option.splits)
next
  case (Cons t ts)
  from Cons.prems(1) obtain c
    where c: "nxt = Some t" "t \<le> now" "next_slot t = Inr c" "due_from next_slot now c ts final" by auto
  have t: "ok t" using Cons.prems(2) c(1) by simp
  have c_ok: "ok v" if "c = Some v" for v using that c(3) next_ok [OF t] by simp
  note IH = Cons.IH [OF c(4) c_ok]
  have "\<forall>u \<in> set ts. t < u"
  proof (cases c)
    case None
    with c(4) show ?thesis by (cases ts) auto
  next
    case (Some v)
    then have "t < v" using c(3) next_later [OF t] by simp
    then show ?thesis using IH Some by fastforce
  qed
  then show ?case using IH c(1,2) t by (auto intro: less_imp_le)
qed

end

context exact_slot_source begin

lemma due_from_complete:
  assumes "due_from next_slot now nxt ts final"
    and "\<And>t. nxt = Some t \<Longrightarrow> ok t \<and> t \<in> slots \<and> low < t"
    and "\<And>u. u \<in> slots \<Longrightarrow> low < u \<Longrightarrow> u \<le> now \<Longrightarrow> \<exists>t. nxt = Some t \<and> t \<le> u"
  shows "set ts = {u \<in> slots. low < u \<and> u \<le> now}"
  using assms
proof (induction ts arbitrary: nxt low)
  case Nil
  then show ?case by (cases nxt) fastforce+
next
  case (Cons t ts)
  from Cons.prems(1) obtain c
    where c: "nxt = Some t" "t \<le> now" "next_slot t = Inr c" "due_from next_slot now c ts final" by auto
  have t: "ok t" "t \<in> slots" "low < t" using Cons.prems(2) [OF c(1)] by auto
  have "ok v \<and> v \<in> slots \<and> t < v" if "c = Some v" for v
    using that c(3) next_ok [OF t(1)] next_later [OF t(1)] next_slot_in [OF t(1)] by simp
  moreover have "\<exists>v. c = Some v \<and> v \<le> u" if "u \<in> slots" "t < u" for u
    using next_slot_least [OF t(1) c(3) that] by blast
  ultimately have "set ts = {u \<in> slots. t < u \<and> u \<le> now}" by (rule Cons.IH [OF c(4)]) auto
  moreover have "t \<le> u" if "u \<in> slots" "low < u" "u \<le> now" for u
    using Cons.prems(3) [OF that] c(1) by auto
  ultimately show ?case using c(2) t(2,3) by (auto simp: le_less)
qed

end

section \<open>Materialization\<close>

definition occurrence_row ::
    "Schedule \<Rightarrow> time \<Rightarrow> RunStatus \<Rightarrow> string option \<Rightarrow> time \<Rightarrow> string \<Rightarrow> RunRow" where
  "occurrence_row s nominal status errText now runID =
     \<lparr>r_ID = runID, r_ScheduleID = s_ID s, r_OccurrenceKey = OccurrenceKey (s_ID s) nominal,
      r_NominalTime = nominal, r_DueTime = nominal, r_Status = status, r_Attempt = 1,
      r_ClaimedByWorkerID = None, r_ClaimExpiresAt = None, r_StartedAt = None,
      r_FinishedAt = (if status = RunSkipped then Some now else None), r_HTTPStatusCode = None,
      r_ExitCode = None, r_ResultJSON = '''', r_ErrorText = errText, r_RetryAvailableAt = None,
      r_CreatedAt = now, r_UpdatedAt = now\<rparr>"

definition insertOccurrence ::
    "DB \<Rightarrow> Schedule \<Rightarrow> time \<Rightarrow> RunStatus \<Rightarrow> string option \<Rightarrow> time \<Rightarrow> string \<Rightarrow> DB store_result" where
  "insertOccurrence db s nominal status errText now runID =
     InsertRun db (occurrence_row s nominal status errText now runID)"

text \<open>What the misfire policy makes of the \<open>i\<close>-th of \<open>n\<close> due slots.\<close>

definition misfire_decision ::
    "MisfirePolicy \<Rightarrow> duration \<Rightarrow> time \<Rightarrow> nat \<Rightarrow> nat \<Rightarrow> time \<Rightarrow> (RunStatus \<times> string option) option" where
  "misfire_decision policy grace now n i nominal =
     (case policy of
        MisfireSkip \<Rightarrow>
          if time_sub now nominal > grace then Some (RunSkipped, Some ''skipped due to misfire policy'')
          else Some (RunPending, None)
      | MisfireRunOnceIfLate \<Rightarrow>
          if i + 1 < n then Some (RunSkipped, Some ''skipped due to run_once_if_late policy'')
          else Some (RunPending, None)
      | MisfireCatchUp \<Rightarrow> Some (RunPending, None)
      | OtherMisfire k \<Rightarrow> None)"

datatype planner_error = PlanTime string | PlanStore store_error

text \<open>The insertions from the \<open>i\<close>-th due slot on; an occurrence that already exists is passed over.\<close>

fun insert_due ::
    "(nat \<Rightarrow> time) \<Rightarrow> (nat \<Rightarrow> string) \<Rightarrow> duration \<Rightarrow> Schedule \<Rightarrow> time \<Rightarrow> nat \<Rightarrow> nat \<Rightarrow> time list \<Rightarrow> DB
     \<Rightarrow> store_error option \<times> DB" where
  "insert_due clock newID grace s now n i [] db = (None, db)"
| "insert_due clock newID grace s now n i (nominal # rest) db =
     (case misfire_decision (p_Misfire (s_Policy s)) grace now n i nominal of
        None \<Rightarrow> insert_due clock newID grace s now n (i + 1) rest db
      | Some (status, errText) \<Rightarrow>
          (case insertOccurrence db s nominal status errText (clock i) (newID i) of
             Inr db1 \<Rightarrow> insert_due clock newID grace s now n (i + 1) rest db1
           | Inl ErrAlreadyExists \<Rightarrow> insert_due clock newID grace s now n (i + 1) rest db
           | Inl e \<Rightarrow> (Some e, db)))"

definition updated :: "DB \<Rightarrow> Schedule \<Rightarrow> planner_error option \<times> DB" where
  "updated db s = (case UpdateSchedule db s of Inl e \<Rightarrow> (Some (PlanStore e), db) | Inr db1 \<Rightarrow> (None, db1))"

definition materializeSchedule ::
    "Env \<Rightarrow> duration \<Rightarrow> (nat \<Rightarrow> time) \<Rightarrow> (nat \<Rightarrow> string) \<Rightarrow> DB \<Rightarrow> Schedule \<Rightarrow> time
     \<Rightarrow> (planner_error option \<times> DB) option" where
  "materializeSchedule env grace clock newID db s now =
     (if \<not> s_Enabled s \<or> s_PausedAt s \<noteq> None then Some (None, db)
      else case s_NextRunAt s of
        None \<Rightarrow>
          (case NextAfter env s (now - 1) of
             Inl e \<Rightarrow> Some (Some (PlanTime e), db)
           | Inr nxt \<Rightarrow> Some (updated db (s\<lparr>s_NextRunAt := nxt\<rparr>)))
      | Some t \<Rightarrow>
          if now < t then Some (None, db)
          else (case due_loop (NextAfter env s) now (Some t) [] of
              None \<Rightarrow> None
            | Some (Inl e) \<Rightarrow> Some (Some (PlanTime e), db)
            | Some (Inr (due, nxt)) \<Rightarrow>
                (case insert_due clock newID grace s now (length due) 0 due db of
                   (Some e, db1) \<Rightarrow> Some (Some (PlanStore e), db1)
                 | (None, db1) \<Rightarrow> Some (updated db1 (s\<lparr>s_NextRunAt := nxt, s_UpdatedAt := now\<rparr>)))))"

text \<open>\<open>Tick\<close> plans every schedule it has listed, whatever becomes of the others.\<close>

fun tick_schedules ::
    "Env \<Rightarrow> duration \<Rightarrow> (nat \<Rightarrow> nat \<Rightarrow> time) \<Rightarrow> (nat \<Rightarrow> nat \<Rightarrow> string) \<Rightarrow> time \<Rightarrow> nat \<Rightarrow> Schedule list \<Rightarrow> DB
     \<Rightarrow> DB option" where
  "tick_schedules env grace clock newID now k [] db = Some db"
| "tick_schedules env grace clock newID now k (s # rest) db =
     (case materializeSchedule env grace (clock k) (newID k) db s now of
        None \<Rightarrow> None
      | Some (_, db1) \<Rightarrow> tick_schedules env grace clock newID now (k + 1) rest db1)"

definition Planner_Tick ::
    "Env \<Rightarrow> duration \<Rightarrow> (nat \<Rightarrow> nat \<Rightarrow> time) \<Rightarrow> (nat \<Rightarrow> nat \<Rightarrow> string) \<Rightarrow> time \<Rightarrow> DB \<Rightarrow> DB option" where
  "Planner_Tick env grace clock newID now db =
     tick_schedules env grace clock newID now 0 (ListAllSchedules db) db"

text \<open>\<open>New\<close>: the grace of the skip policy is one polling interval, by default five seconds.\<close>

definition misfire_grace :: "duration list \<Rightarrow> duration" where
  "misfire_grace pollingInterval =
     (case pollingInterval of [] \<Rightarrow> 5 * second | d # _ \<Rightarrow> if d > 0 then d else 5 * second)"

section \<open>What materialization adds\<close>

lemma run_ok_occurrence:
  "misfire_decision p grace now n i t = Some (status, e)
   \<Longrightarrow> run_ok (occurrence_row s t status e c j) \<and> \<not> IsActiveStatus status"
  by (auto simp: misfire_decision_def run_ok_def occurrence_row_def split: MisfirePolicy.splits if_splits)

lemma sys_ok_insert_due: "sys_ok db \<Longrightarrow> sys_ok (snd (insert_due clock newID grace s now n i due db))"
proof (induction due arbitrary: i db)
  case (Cons t due)
  have "sys_ok db1" if "misfire_decision (p_Misfire (s_Policy s)) grace now n i t = Some (status, e)"
    "insertOccurrence db s t status e (clock i) (newID i) = Inr db1" for status e db1
    using that Cons.prems run_ok_occurrence [OF that(1)]
    by (auto simp: insertOccurrence_def occurrence_row_def intro: sys_ok_InsertRun)
  with Cons show ?case by (auto split: option.splits sum.splits store_error.splits)
qed simp

lemma sys_ok_updated: "sys_ok db \<Longrightarrow> sys_ok (snd (updated db s))"
  by (auto simp: updated_def split: sum.splits intro: sys_ok_UpdateSchedule)

lemma materializeSchedule_cases:
  assumes "materializeSchedule env grace clock newID db s now = Some (e, db')"
  shows "db' = db \<or> (\<exists>s'. db' = snd (updated db s'))
    \<or> (\<exists>due. db' = snd (insert_due clock newID grace s now (length due) 0 due db))
    \<or> (\<exists>due s'. db' = snd (updated (snd (insert_due clock newID grace s now (length due) 0 due db)) s'))"
proof -
  have snd: "y = snd x" if "x = (a, y)" for x :: "'x \<times> 'y" and a y using that by simp
  show ?thesis
    using assms unfolding materializeSchedule_def
    by (auto split: if_splits option.splits sum.splits prod.splits intro: snd [OF sym])
       (metis snd_conv)+
qed

lemma sys_ok_materializeSchedule:
  assumes "sys_ok db" and "materializeSchedule env grace clock newID db s now = Some (e, db')"
  shows "sys_ok db'"
  using materializeSchedule_cases [OF assms(2)] assms(1)
  by (elim disjE exE) (simp_all add: sys_ok_insert_due sys_ok_updated)

section \<open>The rows of the insertion loop\<close>

text \<open>The rows that the policy asks for, by position.\<close>

definition planned_row ::
    "(nat \<Rightarrow> time) \<Rightarrow> (nat \<Rightarrow> string) \<Rightarrow> duration \<Rightarrow> Schedule \<Rightarrow> time \<Rightarrow> nat \<Rightarrow> nat \<Rightarrow> time \<Rightarrow> RunRow \<Rightarrow> bool" where
  "planned_row clock newID grace s now n i t r \<longleftrightarrow>
     (\<exists>status e. misfire_decision (p_Misfire (s_Policy s)) grace now n i t = Some (status, e)
        \<and> r = occurrence_row s t status e (clock i) (newID i))"

definition recorded :: "Schedule \<Rightarrow> DB \<Rightarrow> time \<Rightarrow> bool" where
  "recorded s db t \<longleftrightarrow> (\<exists>r \<in> set (schedule_runs db). r_OccurrenceKey r = OccurrenceKey (s_ID s) t \<and> r_Attempt r = 1)"

lemma insert_due_step:
  assumes "insert_due clock newID grace s now n i (t # due) db = (None, db')"
    and "policy_ok (s_Policy s)" and "newID i \<notin> run_ids db"
  obtains db1 where "insert_due clock newID grace s now n (i + 1) due db1 = (None, db')"
    and "recorded s db1 t"
    and "schedule_runs db1 = schedule_runs db \<and> recorded s db t
         \<or> (\<exists>r. schedule_runs db1 = schedule_runs db @ [r] \<and> planned_row clock newID grace s now n i t r)"
    and "schedules db1 = schedules db"
proof -
  have "misfire_decision (p_Misfire (s_Policy s)) grace now n i t \<noteq> None"
    using assms(2) by (auto simp: misfire_decision_def policy_ok_def)
  then obtain status e where d: "misfire_decision (p_Misfire (s_Policy s)) grace now n i t = Some (status, e)"
    by auto
  define row where "row = occurrence_row s t status e (clock i) (newID i)"
  show ?thesis
  proof (cases "InsertRun db row")
    case (Inl x)
    with assms(1) d have x: "x = ErrAlreadyExists" and rest: "insert_due clock newID grace s now n (i + 1) due db = (None, db')"
      by (auto simp: insertOccurrence_def row_def split: store_error.splits)
    have "recorded s db t"
      using Inl assms(3) unfolding x by (auto simp: InsertRun_def row_def occurrence_row_def recorded_def in_ids split: if_splits)
    with rest show ?thesis by (intro that) simp_all
  next
    case (Inr db1)
    then have db1: "db1 = db\<lparr>schedule_runs := schedule_runs db @ [row]\<rparr>"
      by (auto simp: InsertRun_def split: if_splits)
    moreover have "insert_due clock newID grace s now n (i + 1) due db1 = (None, db')"
      using assms(1) d Inr by (simp add: insertOccurrence_def row_def)
    moreover have "planned_row clock newID grace s now n i t row" using d by (auto simp: planned_row_def row_def)
    ultimately show ?thesis
      by (intro that [of db1]) (auto simp: recorded_def row_def occurrence_row_def)
  qed
qed

lemma recorded_mono:
  "set (schedule_runs db) \<subseteq> set (schedule_runs db') \<Longrightarrow> recorded s db t \<Longrightarrow> recorded s db' t"
  by (auto simp: recorded_def)

lemma insert_due_rows:
  assumes "insert_due clock newID grace s now n i due db = (None, db')"
    and "policy_ok (s_Policy s)" and "inj newID" and "\<forall>j \<ge> i. newID j \<notin> run_ids db"
  shows "schedules db' = schedules db \<and> set (schedule_runs db) \<subseteq> set (schedule_runs db')
    \<and> (\<forall>t \<in> set due. recorded s db' t)
    \<and> (\<forall>r \<in> set (schedule_runs db') - set (schedule_runs db).
         \<exists>j < length due. planned_row clock newID grace s now n (i + j) (due ! j) r)"
  using assms(1,4)
proof (induction due arbitrary: i db)
  case Nil
  then show ?case by simp
next
  case (Cons t due)
  from Cons.prems(2) have "newID i \<notin> run_ids db" by simp
  from insert_due_step [OF Cons.prems(1) assms(2) this]
  obtain db1 where rest: "insert_due clock newID grace s now n (i + 1) due db1 = (None, db')"
    and rec: "recorded s db1 t"
    and rows: "schedule_runs db1 = schedule_runs db \<and> recorded s db t
      \<or> (\<exists>r. schedule_runs db1 = schedule_runs db @ [r] \<and> planned_row clock newID grace s now n i t r)"
    and sch: "schedules db1 = schedules db" by blast
  have "\<forall>j \<ge> i + 1. newID j \<notin> run_ids db1"
  proof (intro allI impI)
    fix j assume j: "i + 1 \<le> j"
    then have "newID j \<noteq> newID i" using assms(3) by (auto dest: injD)
    moreover have "run_ids db1 \<subseteq> insert (newID i) (run_ids db)"
      using rows by (auto simp: run_ids_def planned_row_def occurrence_row_def)
    moreover have "newID j \<notin> run_ids db" using Cons.prems(2) j by simp
    ultimately show "newID j \<notin> run_ids db1" by blast
  qed
  note IH = Cons.IH [OF rest this]
  have sub: "set (schedule_runs db) \<subseteq> set (schedule_runs db1)" using rows by auto
  have new: "\<exists>j < length (t # due). planned_row clock newID grace s now n (i + j) ((t # due) ! j) r"
    if r: "r \<in> set (schedule_runs db') - set (schedule_runs db)" for r
  proof (cases "r \<in> set (schedule_runs db1)")
    case True
    with rows r have "planned_row clock newID grace s now n i t r" by auto
    then show ?thesis by (intro exI [of _ 0]) simp
  next
    case False
    with r IH obtain j where "j < length due" "planned_row clock newID grace s now n (i + 1 + j) (due ! j) r"
      by blast
    then show ?thesis by (intro exI [of _ "Suc j"]) simp
  qed
  show ?case using IH sch sub rec new recorded_mono [of db1 db' s] by fastforce
qed

text \<open>Once every due slot is recorded, the loop changes nothing, whatever identifiers it draws.\<close>

lemma insert_due_again:
  assumes "\<forall>t \<in> set due. recorded s db t"
  shows "insert_due clock newID grace s now n i due db = (None, db)"
  using assms
proof (induction due arbitrary: i)
  case (Cons t due)
  then have "insertOccurrence db s t status e c j = Inl ErrAlreadyExists" for status e c j
    by (auto simp: insertOccurrence_def InsertRun_def occurrence_row_def recorded_def)
  with Cons show ?case by (simp split: option.splits)
qed simp

section \<open>Properties\<close>

text \<open>
  C34: the catch-up loop of the planner always ends. From the recorded next slot of a schedule whose
  times are in range, given that the cron library's \<open>Next\<close> is later than its argument, the loop
  returns; when no slot computation failed, the due slots are strictly increasing, start at the
  recorded slot, are not after \<open>now\<close>, and the next slot is after \<open>now\<close>.
\<close>

theorem catch_up_loop_ends:
  assumes "cron_later env" and "schedule_times_ok s" and "time_ok t"
  shows "\<exists>r. due_loop (NextAfter env s) now (Some t) [] = Some r
    \<and> (\<forall>due nxt. r = Inr (due, nxt) \<longrightarrow>
         sorted_wrt (<) due \<and> (\<forall>u \<in> set due. t \<le> u \<and> u \<le> now) \<and> (t \<le> now \<longrightarrow> t \<in> set due)
         \<and> (\<forall>u. nxt = Some u \<longrightarrow> now < u))"
proof -
  have ok: "slot_ok env s v" if "Some t = Some v" for v using assms that by (simp add: slot_ok_def)
  obtain r where r: "due_loop (NextAfter env s) now (Some t) [] = Some r"
    using timecalc.due_loop_returns [of "Some t" env s now "[]"] ok by blast
  have "sorted_wrt (<) due \<and> (\<forall>u \<in> set due. t \<le> u \<and> u \<le> now) \<and> (t \<le> now \<longrightarrow> t \<in> set due)
      \<and> (\<forall>u. nxt = Some u \<longrightarrow> now < u)" if "r = Inr (due, nxt)" for due nxt
  proof -
    from due_loop_sound [of "NextAfter env s" now "Some t" "[]" due nxt] r that
    have d: "due_from (NextAfter env s) now (Some t) due nxt" by simp
    then have "t \<le> now \<longrightarrow> t \<in> set due" by (cases due) auto
    then show ?thesis using timecalc.due_from_sorted [OF d ok] by auto
  qed
  with r show ?thesis by blast
qed

theorem catch_up_loop_ends_witness:
  "\<exists>r. due_loop (NextAfter sample_env sample_schedule) (7200 * second) (Some (1800 * second)) [] = Some r
    \<and> (\<forall>due nxt. r = Inr (due, nxt) \<longrightarrow>
         sorted_wrt (<) due \<and> (\<forall>u \<in> set due. 1800 * second \<le> u \<and> u \<le> 7200 * second)
         \<and> (1800 * second \<le> 7200 * second \<longrightarrow> 1800 * second \<in> set due)
         \<and> (\<forall>u. nxt = Some u \<longrightarrow> 7200 * second < u))"
  by (rule catch_up_loop_ends [OF cron_later_sample sample_schedule_interval(2)])
     (simp add: time_ok_def unix_def second_def)

text \<open>
  C27: no due slot of an interval schedule is missed or invented. The list the catch-up loop returns is
  exactly the set of slots of the schedule, inside its window, from the recorded slot up to \<open>now\<close>.
\<close>

theorem interval_catch_up_complete:
  assumes "interval_ok env s t" and "t \<in> interval_slots s"
    and "due_loop (NextAfter env s) now (Some t) [] = Some (Inr (due, nxt))"
  shows "set due = {u. is_slot s u \<and> window_ok s u \<and> year_of u \<le> 9999 \<and> t \<le> u \<and> u \<le> now}"
proof -
  from due_loop_sound [OF assms(3)]
  have d: "due_from (NextAfter env s) now (Some t) due nxt" by simp
  have "set due = {u \<in> interval_slots s. t - 1 < u \<and> u \<le> now}"
    by (rule interval.due_from_complete [OF d]) (simp_all add: assms(1,2))
  moreover have "t - 1 < u \<longleftrightarrow> t \<le> u" for u :: int by linarith
  ultimately show ?thesis by (simp add: interval_slots_def conj_assoc)
qed

lemma sample_due:
  "due_loop (NextAfter sample_env sample_schedule) (7200 * second) (Some (1800 * second)) []
   = Some (Inr ([1800 * second, 5400 * second], Some (9000 * second)))"
proof -
  have n: "NextAfter sample_env sample_schedule (1800 * second) = Inr (Some (5400 * second))"
    "NextAfter sample_env sample_schedule (5400 * second) = Inr (Some (9000 * second))"
    using sample_next_at [of 0] sample_next_at [of 1] by simp_all
  have lt: "\<not> 7200 * second < 1800 * second" "\<not> 7200 * second < 5400 * second" "7200 * second < 9000 * second"
    by (simp_all add: second_def)
  show ?thesis by (subst due_loop.simps, simp add: lt n)
      (subst due_loop.simps, simp add: lt n, subst due_loop.simps, simp add: lt)
qed

lemma sample_interval_ok: "time_ok t \<Longrightarrow> interval_ok sample_env sample_schedule t"
  by (simp add: interval_ok_def slot_ok_def cron_later_sample sample_schedule_interval sample_years)
     (simp add: sample_env_def sample_schedule_def)

theorem interval_catch_up_complete_witness:
  "set [1800 * second, 5400 * second] = {u. is_slot sample_schedule u \<and> window_ok sample_schedule u
     \<and> year_of u \<le> 9999 \<and> 1800 * second \<le> u \<and> u \<le> 7200 * second}"
proof (rule interval_catch_up_complete [OF sample_interval_ok _ sample_due])
  show "time_ok (1800 * second)" by (simp add: time_ok_def unix_def second_def)
  have "is_slot sample_schedule (1800 * second)" unfolding sample_slot_iff by (intro exI [of _ 0]) simp
  then show "1800 * second \<in> interval_slots sample_schedule"
    by (simp add: interval_slots_def sample_window sample_years)
qed

text \<open>
  C28: materialization records every due slot and advances the schedule. When planning an enabled
  schedule whose recorded slot \<open>t\<close> has come ends without an error, there is a list of due slots,
  obtained from \<open>t\<close> by repeated \<open>NextAfter\<close> up to \<open>now\<close>, such that each has a first-attempt run in the
  database, every earlier run is kept, every added run is the one the misfire policy asks for at
  its position, and the schedule's stored \<open>next_run_at\<close> is the first slot after \<open>now\<close>.
\<close>

theorem materialize_records_due:
  assumes "materializeSchedule env grace clock newID db s now = Some (None, db')"
    and "s_Enabled s" and "s_PausedAt s = None" and "s_NextRunAt s = Some t" and "t \<le> now"
    and "policy_ok (s_Policy s)" and "inj newID" and "\<forall>j. newID j \<notin> run_ids db"
  shows "\<exists>due nxt. due_from (NextAfter env s) now (Some t) due nxt
    \<and> (\<forall>u \<in> set due. recorded s db' u)
    \<and> set (schedule_runs db) \<subseteq> set (schedule_runs db')
    \<and> (\<forall>r \<in> set (schedule_runs db') - set (schedule_runs db).
         \<exists>j < length due. planned_row clock newID grace s now (length due) j (due ! j) r)
    \<and> (\<forall>x \<in> set (schedules db'). s_ID x = s_ID s \<longrightarrow> s_NextRunAt x = nxt)"
proof -
  obtain due nxt db1 where loop: "due_loop (NextAfter env s) now (Some t) [] = Some (Inr (due, nxt))"
    and ins: "insert_due clock newID grace s now (length due) 0 due db = (None, db1)"
    and upd: "updated db1 (s\<lparr>s_NextRunAt := nxt, s_UpdatedAt := now\<rparr>) = (None, db')"
    using assms(1-5) by (auto simp: materializeSchedule_def split: option.splits sum.splits prod.splits)
  have "due_from (NextAfter env s) now (Some t) due nxt" using due_loop_sound [OF loop] by simp
  moreover note insert_due_rows [OF ins assms(6,7)]
  moreover have "schedule_runs db' = schedule_runs db1"
    and "\<forall>x \<in> set (schedules db'). s_ID x = s_ID s \<longrightarrow> s_NextRunAt x = nxt"
    using upd by (auto simp: updated_def UpdateSchedule_def table_simps split: sum.splits if_splits)
  then have "recorded s db' = recorded s db1" by (simp add: recorded_def [abs_def])
  ultimately show ?thesis
    using assms(8) \<open>schedule_runs db' = schedule_runs db1\<close>
      \<open>\<forall>x \<in> set (schedules db'). s_ID x = s_ID s \<longrightarrow> s_NextRunAt x = nxt\<close>
    by (intro exI [of _ due] exI [of _ nxt]) simp
qed

definition sample_db :: DB where
  "sample_db = empty_db\<lparr>schedules := [sample_schedule]\<rparr>"

lemma sample_db_ok: "sys_ok sample_db"
  by (rule sys_ok_same [OF sys_ok_empty])
     (simp_all add: sample_db_def wf_defs empty_db_def schedule_ids_def run_ids_def)

definition sample_id :: "nat \<Rightarrow> string" where
  "sample_id i = replicate i (CHR ''x'')"

lemma sample_id: "inj sample_id" "\<forall>j. sample_id j \<notin> run_ids sample_db"
  "policy_ok (s_Policy sample_schedule)"
proof -
  show "inj sample_id" unfolding sample_id_def by (rule injI) (metis length_replicate)
qed (simp_all add: sample_db_def empty_db_def run_ids_def policy_ok_def sample_schedule_def
        max_duration_seconds_value)

lemma sample_keys:
  "OccurrenceKey i (1800 * second) \<noteq> OccurrenceKey i (5400 * second)"
proof -
  have "printable (1800 * second)" "printable (5400 * second)"
    by (simp_all add: printable_def year_of_def day_of_def unix_def second_def unix_to_internal_days_def
        year_day_def Let_def)
  then show ?thesis by (simp add: OccurrenceKey_eq_iff) (simp add: unix_def second_def)
qed

lemma sample_insert_row:
  assumes "s_ID x = s_ID sample_schedule"
  shows "\<exists>db'. insert_due (\<lambda>i. 7200 * second) sample_id (5 * second) sample_schedule (7200 * second) 2 0
     [1800 * second, 5400 * second] (empty_db\<lparr>schedules := [x]\<rparr>) = (None, db') \<and> schedules db' = [x]"
proof -
  have "p_Misfire (s_Policy sample_schedule) = MisfireCatchUp" by (simp add: sample_schedule_def)
  then show ?thesis
    using assms sample_keys [of "s_ID sample_schedule"]
    by (simp add: misfire_decision_def insertOccurrence_def InsertRun_def occurrence_row_def
        empty_db_def sample_id_def)
qed

lemma sample_materialize_row:
  assumes "s_ID x = s_ID sample_schedule"
  shows "\<exists>db'. materializeSchedule sample_env (5 * second) (\<lambda>i. 7200 * second) sample_id
     (empty_db\<lparr>schedules := [x]\<rparr>) sample_schedule (7200 * second) = Some (None, db')"
proof -
  obtain db1 where db1: "insert_due (\<lambda>i. 7200 * second) sample_id (5 * second) sample_schedule (7200 * second) 2 0
     [1800 * second, 5400 * second] (empty_db\<lparr>schedules := [x]\<rparr>) = (None, db1)" "schedules db1 = [x]"
    using sample_insert_row [OF assms] by blast
  have "schedule_check (sample_schedule\<lparr>s_NextRunAt := x, s_UpdatedAt := y\<rparr>)" for x y
    by (simp add: schedule_check_def sample_schedule_def zero_TargetSpec_def)
  moreover have "s_Enabled sample_schedule" "s_PausedAt sample_schedule = None"
    "s_NextRunAt sample_schedule = Some (1800 * second)" by (simp_all add: sample_schedule_def)
  moreover have "\<not> 7200 * second < 1800 * second" by (simp add: second_def)
  ultimately show ?thesis
    using db1(1) assms by (simp add: materializeSchedule_def sample_due db1(2) updated_def UpdateSchedule_def
        numeral_2_eq_2 del: insert_due.simps)
qed

lemmas sample_insert = sample_insert_row [of sample_schedule, OF refl, folded sample_db_def]
lemmas sample_materialize = sample_materialize_row [of sample_schedule, OF refl, folded sample_db_def]

theorem materialize_records_due_witness:
  "\<exists>db' due nxt. due_from (NextAfter sample_env sample_schedule) (7200 * second) (Some (1800 * second)) due nxt
    \<and> (\<forall>u \<in> set due. recorded sample_schedule db' u)
    \<and> set (schedule_runs sample_db) \<subseteq> set (schedule_runs db')
    \<and> (\<forall>r \<in> set (schedule_runs db') - set (schedule_runs sample_db).
         \<exists>j < length due. planned_row (\<lambda>i. 7200 * second) sample_id (5 * second) sample_schedule
           (7200 * second) (length due) j (due ! j) r)
    \<and> (\<forall>x \<in> set (schedules db'). s_ID x = s_ID sample_schedule \<longrightarrow> s_NextRunAt x = nxt)"
proof -
  obtain db' where "materializeSchedule sample_env (5 * second) (\<lambda>i. 7200 * second) sample_id sample_db
      sample_schedule (7200 * second) = Some (None, db')" using sample_materialize by blast
  from materialize_records_due [OF this _ _ _ _ sample_id(3,1,2), of "1800 * second"]
  show ?thesis by (auto simp: sample_schedule_def second_def)
qed

text \<open>
  Planning is idempotent after a crash. If the insertions for a list of due slots were completed
  but the schedule row was not advanced, running them again, with any identifiers, clock readings
  and later \<open>now\<close>, leaves the database as it is.
\<close>

theorem replanning_adds_nothing:
  assumes "insert_due clock newID grace s now n i due db = (None, db')"
    and "policy_ok (s_Policy s)" and "inj newID" and "\<forall>j \<ge> i. newID j \<notin> run_ids db"
  shows "insert_due clock' newID' grace' s now' n' i' due db' = (None, db')"
  using insert_due_again insert_due_rows [OF assms] by blast

theorem replanning_adds_nothing_witness:
  "\<exists>db'. insert_due (\<lambda>i. 0) (\<lambda>i. ''y'') 0 sample_schedule 0 5 3 [1800 * second, 5400 * second] db' = (None, db')"
proof -
  obtain db' where "insert_due (\<lambda>i. 7200 * second) sample_id (5 * second) sample_schedule (7200 * second) 2 0
     [1800 * second, 5400 * second] sample_db = (None, db')" using sample_insert by blast
  from replanning_adds_nothing [OF this sample_id(3,1)] sample_id(2) show ?thesis by blast
qed

text \<open>
  C33: the misfire policies. Every run that planning adds is for one of the due slots, and it is
  queued or recorded as skipped: \<open>catch_up\<close> queues every slot, \<open>run_once_if_late\<close> exactly the last
  one, and \<open>skip\<close> exactly those no later than the grace; a skipped one is finished and has a reason.
\<close>

theorem misfire_policies:
  assumes "insert_due clock newID grace s now (length due) 0 due db = (None, db')"
    and "policy_ok (s_Policy s)" and "inj newID" and "\<forall>j. newID j \<notin> run_ids db"
    and "\<forall>t \<in> set due. is_int64 (now - t)"
    and "r \<in> set (schedule_runs db') - set (schedule_runs db)"
  shows "\<exists>j < length due. r_NominalTime r = due ! j \<and> r_Status r \<in> {RunPending, RunSkipped}
    \<and> (r_Status r = RunPending \<longleftrightarrow> (case p_Misfire (s_Policy s) of
          MisfireCatchUp \<Rightarrow> True | MisfireRunOnceIfLate \<Rightarrow> j = length due - 1
        | MisfireSkip \<Rightarrow> now - due ! j \<le> grace | OtherMisfire k \<Rightarrow> False))
    \<and> (r_Status r = RunSkipped \<longleftrightarrow> r_FinishedAt r \<noteq> None) \<and> (r_Status r = RunSkipped \<longleftrightarrow> r_ErrorText r \<noteq> None)"
proof -
  obtain j where j: "j < length due" "planned_row clock newID grace s now (length due) j (due ! j) r"
    using insert_due_rows [OF assms(1-3)] assms(4,6) by (metis add_0)
  then have "is_int64 (now - due ! j)" using assms(5) by simp
  with j show ?thesis
    by (intro exI [of _ j]) (auto simp: planned_row_def misfire_decision_def occurrence_row_def time_sub_def
        is_int64_def split: MisfirePolicy.splits if_splits)
qed

theorem misfire_policies_witness:
  "\<exists>db' r. r \<in> set (schedule_runs db') \<and> r_Status r \<in> {RunPending, RunSkipped}
     \<and> r_NominalTime r \<in> {1800 * second, 5400 * second}
     \<and> insert_due (\<lambda>i. 7200 * second) sample_id (5 * second) sample_schedule (7200 * second) 2 0
         [1800 * second, 5400 * second] sample_db = (None, db')"
proof -
  define due where "due = [1800 * second, 5400 * second]"
  obtain db' where ins: "insert_due (\<lambda>i. 7200 * second) sample_id (5 * second) sample_schedule (7200 * second)
      (length due) 0 due sample_db = (None, db')" using sample_insert by (auto simp: due_def numeral_2_eq_2)
  have "\<forall>u \<in> set due. recorded sample_schedule db' u"
    using insert_due_rows [OF ins sample_id(3,1)] sample_id(2) by blast
  then obtain r where r: "r \<in> set (schedule_runs db')" by (auto simp: due_def recorded_def)
  then have new: "r \<in> set (schedule_runs db') - set (schedule_runs sample_db)"
    by (simp add: sample_db_def empty_db_def)
  have int: "\<forall>t \<in> set due. is_int64 (7200 * second - t)" by (simp add: due_def is_int64_def second_def)
  from misfire_policies [OF ins sample_id(3,1,2) int new]
  obtain j where "j < length due" "r_NominalTime r = due ! j" "r_Status r \<in> {RunPending, RunSkipped}" by blast
  moreover from this(1) have "due ! j \<in> set due" by simp
  then have "due ! j \<in> {1800 * second, 5400 * second}" by (simp add: due_def)
  ultimately show ?thesis using r ins unfolding due_def by (auto simp: numeral_2_eq_2)
qed

text \<open>
  The planner writes its listed snapshot back. When planning a schedule with due slots ends
  without an error, the stored row is enabled, not paused, and has the snapshot's policy and target,
  whatever the row held before: an edit or a pause made between listing and planning is lost.
\<close>

theorem planner_overwrites_row:
  assumes "materializeSchedule env grace clock newID db s now = Some (None, db')"
    and "s_Enabled s" and "s_PausedAt s = None" and "s_NextRunAt s = Some t" and "t \<le> now"
    and "x \<in> set (schedules db')" and "s_ID x = s_ID s"
  shows "s_Enabled x \<and> s_PausedAt x = None \<and> s_Policy x = s_Policy s \<and> s_Target x = s_Target s
    \<and> s_Schedule x = s_Schedule s \<and> s_UpdatedAt x = now"
proof -
  obtain nxt db1 where "updated db1 (s\<lparr>s_NextRunAt := nxt, s_UpdatedAt := now\<rparr>) = (None, db')"
    using assms(1-5) by (auto simp: materializeSchedule_def split: option.splits sum.splits prod.splits)
  with assms(2,3,6,7) show ?thesis
    by (auto simp: updated_def UpdateSchedule_def table_simps split: sum.splits if_splits)
qed

text \<open>The witness starts from a row that an operator has paused.\<close>

theorem planner_overwrites_row_witness:
  "\<exists>db'. materializeSchedule sample_env (5 * second) (\<lambda>i. 7200 * second) sample_id
       (empty_db\<lparr>schedules := [sample_schedule\<lparr>s_Enabled := False, s_PausedAt := Some (7000 * second)\<rparr>]\<rparr>)
       sample_schedule (7200 * second) = Some (None, db')
     \<and> (\<forall>x \<in> set (schedules db'). s_ID x = s_ID sample_schedule \<longrightarrow> s_Enabled x \<and> s_PausedAt x = None)"
proof -
  obtain db' where db': "materializeSchedule sample_env (5 * second) (\<lambda>i. 7200 * second) sample_id
       (empty_db\<lparr>schedules := [sample_schedule\<lparr>s_Enabled := False, s_PausedAt := Some (7000 * second)\<rparr>]\<rparr>)
       sample_schedule (7200 * second) = Some (None, db')"
    using sample_materialize_row [of "sample_schedule\<lparr>s_Enabled := False, s_PausedAt := Some (7000 * second)\<rparr>"]
    by auto
  have "s_Enabled sample_schedule" "s_PausedAt sample_schedule = None"
    "s_NextRunAt sample_schedule = Some (1800 * second)" "1800 * second \<le> 7200 * second"
    by (simp_all add: sample_schedule_def second_def)
  from planner_overwrites_row [OF db' this] db' show ?thesis by blast
qed

end
