(* ===== verification/Execution.thy ===== *)
theory Execution
  imports Dispatcher Planner
begin

text \<open>
  How an execution ends: the retry delays, and what \<open>completeFailureWithResult\<close> and the successful end
  of \<open>executeRun\<close> leave in the store.
\<close>

section \<open>Backoff\<close>

lemma backoff_delay_eq:
  assumes "0 < delay" and "delay \<le> rp_MaxDelaySeconds retry" and "rp_MaxDelaySeconds retry \<le> max_duration_seconds"
  shows "backoff_delay retry attempt i delay
    = min (rp_MaxDelaySeconds retry) (delay * 2 ^ nat (attempt - i))"
  using assms
proof (induction retry attempt i delay rule: backoff_delay.induct)
  case (1 retry attempt i delay)
  let ?m = "rp_MaxDelaySeconds retry"
  have half: "?m sdiv 2 = ?m div 2" using 1(2,3) by (simp add: signed_divide_int_def)
  show ?case
  proof (cases "i < attempt")
    case False
    with 1(3) show ?thesis by (simp add: backoff_delay.simps)
  next
    case True
    define n where "n = nat (attempt - (i + 1))"
    have n: "nat (attempt - i) = Suc n" using True by (simp add: n_def nat_diff_distrib')
    have "delay * 1 \<le> delay * 2 ^ n" using 1(2) by (intro mult_left_mono) simp_all
    then have ge: "2 * delay \<le> delay * 2 ^ Suc n" by simp
    show ?thesis
    proof (cases "delay > ?m div 2")
      case big: True
      then have "?m \<le> delay * 2 ^ Suc n" using ge by linarith
      with True big show ?thesis by (simp add: backoff_delay.simps half n min_absorb1)
    next
      case small: False
      then have wrap: "int64_wrap (delay * 2) = delay * 2"
        using 1(2,4) by (intro int64_wrap_id) (simp add: is_int64_def max_duration_seconds_value)
      show ?thesis
      proof (cases "delay * 2 \<ge> ?m")
        case full: True
        then have "?m \<le> delay * 2 ^ Suc n" using ge by linarith
        with True small full show ?thesis by (simp add: backoff_delay.simps half wrap n min_absorb1)
      next
        case more: False
        have "backoff_delay retry attempt (i + 1) (delay * 2) = min ?m (delay * 2 * 2 ^ n)"
          using 1(1) [of "delay * 2"] True small more 1(2,4) by (simp add: half wrap n_def)
        with True small more show ?thesis
          by (subst backoff_delay.simps) (simp add: half wrap n)
      qed
    qed
  qed
qed

text \<open>
  C38: the retry delay is exact. For an accepted exponential policy the next attempt is due
  \<open>initial * 2 ^ (attempt - 1)\<close> seconds after the failure, capped at the policy's maximum, with no
  overflow for any attempt number.
\<close>

theorem backoff_exact:
  assumes "retry_ok retry" and "rp_Strategy retry = RetryExponential" and "1 \<le> attempt"
  shows "backoffFor retry attempt now =
    now + min (rp_MaxDelaySeconds retry) (rp_InitialDelaySeconds retry * 2 ^ nat (attempt - 1)) * second"
proof -
  have ok: "0 < rp_InitialDelaySeconds retry" "rp_InitialDelaySeconds retry \<le> rp_MaxDelaySeconds retry"
    "rp_MaxDelaySeconds retry \<le> max_duration_seconds" using assms(1,2) by (simp_all add: retry_ok_def)
  let ?d = "min (rp_MaxDelaySeconds retry) (rp_InitialDelaySeconds retry * 2 ^ nat (attempt - 1))"
  have "seconds ?d = ?d * second" using ok by (intro seconds_no_overflow) (auto simp: min_le_iff_disj)
  then show ?thesis by (simp add: backoffFor_def backoff_delay_eq [OF ok])
qed

theorem backoff_exact_witness:
  "backoffFor (s_Retry sample_schedule) 70 0 = 900 * second"
proof -
  have "retry_ok (s_Retry sample_schedule)" "rp_Strategy (s_Retry sample_schedule) = RetryExponential"
    by (simp_all add: sample_schedule_def retry_ok_def max_duration_seconds_value)
  from backoff_exact [OF this, of 70 0] show ?thesis by (simp add: sample_schedule_def)
qed

section \<open>Finishing, exactly\<close>

definition finished_row :: "'a RunRow_scheme \<Rightarrow> string \<Rightarrow> time \<Rightarrow> RunRow \<Rightarrow> RunRow" where
  "finished_row run w now r = (outcome_into run r)
     \<lparr>r_ClaimedByWorkerID := Some w, r_ClaimExpiresAt := None, r_UpdatedAt := now\<rparr>"

definition new_retries :: "DB \<Rightarrow> 'b RunRow_scheme option \<Rightarrow> RunRow list" where
  "new_retries db retry =
     (case retry of None \<Rightarrow> []
      | Some rt \<Rightarrow> if \<exists>x \<in> set (schedule_runs db). r_OccurrenceKey x = r_OccurrenceKey rt \<and> r_Attempt x = r_Attempt rt
                   then [] else [retry_row rt])"

lemma finished_row_simps [simp]:
  "r_ID (finished_row run w now r) = r_ID r" "r_Status (finished_row run w now r) = r_Status run"
  "r_OccurrenceKey (finished_row run w now r) = r_OccurrenceKey r"
  "r_ScheduleID (finished_row run w now r) = r_ScheduleID r"
  "r_Attempt (finished_row run w now r) = r_Attempt r" "r_FinishedAt (finished_row run w now r) = r_FinishedAt run"
  "r_ErrorText (finished_row run w now r) = r_ErrorText run"
  "r_ClaimExpiresAt (finished_row run w now r) = None"
  "r_ResultJSON (finished_row run w now r) = r_ResultJSON run"
  by (simp_all add: finished_row_def outcome_into_def)

lemma finishExternalRun_effect:
  assumes ok: "sys_ok db" and fin: "finishExternalRun db run w0 token0 retry dead now expired = Inr db'"
    and r: "r \<in> set (schedule_runs db)" "r_ID r = r_ID run"
  obtains w where "IsActiveStatus (r_Status r)" and "r_ClaimedByWorkerID r = Some w"
    and "expired \<Longrightarrow> r_Status r = RunRunning" and "\<not> expired \<Longrightarrow> w = w0"
    and "schedule_runs db' = sql_update (\<lambda>x. r_ID x = r_ID run) (finished_row run w now) (schedule_runs db)
      @ new_retries db retry"
    and "set (worker_leases db') = {l \<in> set (worker_leases db). wl_run_id l \<noteq> r_ID run}"
    and "dead_letters db' = dead_letters db @ (case dead of None \<Rightarrow> [] | Some d \<Rightarrow> [d])"
    and "external_jobs db' = external_jobs db" and "schedules db' = schedules db"
    and "execution_receipts db' = execution_receipts db" and "trigger_events db' = trigger_events db"
  using fin
proof (rule finishExternalRun_cases)
  fix r1 l w token db1
  assume r1: "r1 \<in> set (schedule_runs db)" "r_ID r1 = r_ID run" "IsActiveStatus (r_Status r1)"
      "r_ClaimedByWorkerID r1 = Some w"
    and l: "l \<in> set (worker_leases db)" "wl_id l = token" "wl_run_id l = r_ID run" "wl_worker_id l = w"
    and ex: "if expired then r_Status r1 = RunRunning \<and> wl_expires_at l \<le> now else w = w0 \<and> token = token0"
    and ret: "(case retry of None \<Rightarrow> Inr (finish_row db run w token now)
          | Some rt \<Rightarrow> insert_retry (finish_row db run w token now) rt) = Inr db1"
    and dl: "(case dead of None \<Rightarrow> Inr db1 | Some d \<Rightarrow> InsertDeadLetter db1 d) = Inr db'"
  note wf = sys_okD(1) [OF ok]
  have "r1 = r" using run_unique [OF wf r1(1) r(1)] r1(2) r(2) by simp
  have leases: "wl_id x = token \<longleftrightarrow> wl_run_id x = r_ID run" if "x \<in> set (worker_leases db)" for x
    using lease_unique_id [OF wf that l(1)] lease_unique [OF wf that l(1)] l(2,3) by metis
  have keep: "(\<exists>x \<in> set (schedule_runs (finish_row db run w token now)). r_OccurrenceKey x = k \<and> r_Attempt x = a)
    \<longleftrightarrow> (\<exists>x \<in> set (schedule_runs db). r_OccurrenceKey x = k \<and> r_Attempt x = a)" for k a
    unfolding finish_row_def by (simp add: bex_sql_update)
  have runs1: "schedule_runs (finish_row db run w token now)
      = sql_update (\<lambda>x. r_ID x = r_ID run) (finished_row run w now) (schedule_runs db)"
    by (simp add: finish_row_def finished_row_def [abs_def])
  have rest1: "set (worker_leases (finish_row db run w token now)) = {l \<in> set (worker_leases db). wl_run_id l \<noteq> r_ID run}"
    "dead_letters (finish_row db run w token now) = dead_letters db"
    "external_jobs (finish_row db run w token now) = external_jobs db"
    "schedules (finish_row db run w token now) = schedules db"
    "execution_receipts (finish_row db run w token now) = execution_receipts db"
    "trigger_events (finish_row db run w token now) = trigger_events db"
    using leases by (auto simp: finish_row_def table_simps)
  have two: "schedule_runs db1 = schedule_runs (finish_row db run w token now) @ new_retries db retry"
    "worker_leases db1 = worker_leases (finish_row db run w token now)"
    "dead_letters db1 = dead_letters (finish_row db run w token now)"
    "external_jobs db1 = external_jobs (finish_row db run w token now)"
    "schedules db1 = schedules (finish_row db run w token now)"
    "execution_receipts db1 = execution_receipts (finish_row db run w token now)"
    "trigger_events db1 = trigger_events (finish_row db run w token now)"
    using ret by (auto simp: insert_retry_def new_retries_def keep split: option.splits if_splits)
  have three: "schedule_runs db' = schedule_runs db1" "worker_leases db' = worker_leases db1"
    "dead_letters db' = dead_letters db1 @ (case dead of None \<Rightarrow> [] | Some d \<Rightarrow> [d])"
    "external_jobs db' = external_jobs db1" "schedules db' = schedules db1"
    "execution_receipts db' = execution_receipts db1" "trigger_events db' = trigger_events db1"
    using dl by (auto simp: InsertDeadLetter_def split: option.splits if_splits)
  show thesis
    by (rule that [of w])
       (use r1(3,4) \<open>r1 = r\<close> ex in \<open>simp_all add: three two runs1 rest1\<close>)
qed

section \<open>Failing\<close>

text \<open>The executing goroutine works on a copy of the row it claimed; these columns never change.\<close>

definition snapshot_of :: "RunRow \<Rightarrow> 'a RunRow_scheme \<Rightarrow> bool" where
  "snapshot_of r run \<longleftrightarrow> r_ID run = r_ID r \<and> r_ScheduleID run = r_ScheduleID r
     \<and> r_OccurrenceKey run = r_OccurrenceKey r \<and> r_NominalTime run = r_NominalTime r
     \<and> r_Attempt run = r_Attempt r"

lemma insert_receipts_frame [frame_simps]:
  "schedules (insert_receipts n i now ids k xs db) = schedules db"
  "schedule_runs (insert_receipts n i now ids k xs db) = schedule_runs db"
  "worker_leases (insert_receipts n i now ids k xs db) = worker_leases db"
  "dead_letters (insert_receipts n i now ids k xs db) = dead_letters db"
  "external_jobs (insert_receipts n i now ids k xs db) = external_jobs db"
  "trigger_events (insert_receipts n i now ids k xs db) = trigger_events db"
  by (induction n i now ids k xs db rule: insert_receipts.induct)
     (auto simp: InsertReceipt_def insert_receipt_def split: sum.splits if_splits)

lemma sys_ok_insert_receipts: "sys_ok db \<Longrightarrow> sys_ok (insert_receipts n i now ids k xs db)"
  by (induction n i now ids k xs db rule: insert_receipts.induct)
     (auto dest: sys_ok_InsertReceipt split: sum.splits)

lemma failed_run_simps [simp]:
  "r_ID (failed_run s run x t) = r_ID run" "r_ScheduleID (failed_run s run x t) = r_ScheduleID run"
  "r_OccurrenceKey (failed_run s run x t) = r_OccurrenceKey run"
  "r_NominalTime (failed_run s run x t) = r_NominalTime run" "r_Attempt (failed_run s run x t) = r_Attempt run"
  "r_Status (failed_run s run x t) = failure_status s (r_Attempt run) x"
  "r_FinishedAt (failed_run s run x t) = Some t"
  "r_ExecutionLeaseToken (failed_run s run x t) = r_ExecutionLeaseToken run"
  by (simp_all add: failed_run_def)

lemma failure_status_terminal: "terminal (failure_status s a x)"
  by (simp add: failure_status_def)

lemma outcome_ok_failed: "outcome_ok (failed_run s run x t)"
  by (simp add: outcome_ok_def failure_status_terminal)

lemma retry_of_simps [simp]:
  "r_OccurrenceKey (retry_of s run t i) = r_OccurrenceKey run" "r_Attempt (retry_of s run t i) = r_Attempt run + 1"
  "r_ID (retry_of s run t i) = i" "r_ScheduleID (retry_of s run t i) = r_ScheduleID run"
  "r_Status (retry_of s run t i) = RunRetryScheduled"
  "r_RetryAvailableAt (retry_of s run t i) = Some (backoffFor (s_Retry s) (r_Attempt run) t)"
  "r_DueTime (retry_of s run t i) = backoffFor (s_Retry s) (r_Attempt run) t"
  by (simp_all add: retry_of_def Let_def)

lemma retry_row_retry_of [simp]: "retry_row (retry_of s run t i) = retry_of s run t i"
  by (simp add: retry_row_def retry_of_def Let_def)

lemma failure_status_cases:
  "failure_status s a x = RunFailed \<longleftrightarrow> \<not> x_Cancelled x \<and> \<not> x_TerminalFailure x \<and> shouldRetry s a"
  "failure_status s a x = RunCancelled \<longleftrightarrow> x_Cancelled x"
  "failure_status s a x = RunDeadLettered \<longleftrightarrow> \<not> x_Cancelled x \<and> (x_TerminalFailure x \<or> \<not> shouldRetry s a)"
  by (auto simp: failure_status_def)

text \<open>The transaction that a failure commits, and the receipts after it.\<close>

lemma completeFailureWithResult_cases:
  assumes "completeFailureWithResult n w db s run x t ids = (None, db')"
  obtains db1 w0 token expired where
    "finishExternalRun db (failed_run s run x t) w0 token
       (if failure_status s (r_Attempt run) x = RunFailed
        then Some (retry_of s (failed_run s run x t) t (id_retry ids)) else None)
       (if failure_status s (r_Attempt run) x = RunDeadLettered
        then Some (dead_letter_of (failed_run s run x t) x t (id_dead ids)) else None) t expired = Inr db1"
    and "db' = insert_receipts n (r_ID run) t (id_receipts ids) 0 (x_Receipts x) db1"
    and "expired \<longleftrightarrow> r_ExecutionLeaseToken run = ''''"
    and "\<not> expired \<Longrightarrow> w0 = w \<and> token = r_ExecutionLeaseToken run"
proof (cases "r_ExecutionLeaseToken run = ''''")
  case True
  with assms show ?thesis
    by (auto simp: completeFailureWithResult_def Let_def FinishExpiredRunFailure_def split: sum.splits
        intro!: that [where expired = True and token = "''''"])
next
  case False
  with assms show ?thesis
    by (auto simp: completeFailureWithResult_def Let_def FinishExternalFailure_def split: sum.splits
        intro!: that [where expired = False])
qed

lemma completeFailureWithResult_error:
  "completeFailureWithResult n w db s run x t ids = (Some e, db') \<Longrightarrow> db' = db"
  by (auto simp: completeFailureWithResult_def Let_def split: sum.splits)

lemma sys_ok_completeFailureWithResult:
  assumes "sys_ok db" and "1 \<le> r_Attempt run"
  shows "sys_ok (snd (completeFailureWithResult n w db s run x t ids))"
proof (cases "fst (completeFailureWithResult n w db s run x t ids)")
  case None
  obtain db' where db': "completeFailureWithResult n w db s run x t ids = (None, db')"
    using None by (metis prod.collapse)
  from db' show ?thesis
  proof (rule completeFailureWithResult_cases)
    fix db1 w0 token expired
    assume fin: "finishExternalRun db (failed_run s run x t) w0 token
       (if failure_status s (r_Attempt run) x = RunFailed
        then Some (retry_of s (failed_run s run x t) t (id_retry ids)) else None)
       (if failure_status s (r_Attempt run) x = RunDeadLettered
        then Some (dead_letter_of (failed_run s run x t) x t (id_dead ids)) else None) t expired = Inr db1"
      and "db' = insert_receipts n (r_ID run) t (id_receipts ids) 0 (x_Receipts x) db1"
    moreover have "sys_ok db1"
      using fin assms(2) by (rule_tac sys_ok_finishExternalRun [OF assms(1) outcome_ok_failed])
        (auto simp: retry_ok_row_def split: if_splits)
    ultimately show ?thesis using db' by (simp add: sys_ok_insert_receipts)
  qed
next
  case (Some e)
  then show ?thesis using completeFailureWithResult_error assms(1) by (metis prod.collapse)
qed


text \<open>A database with one running execution, for the examples.\<close>

definition busy_run :: RunRow where
  "busy_run = \<lparr>r_ID = ''run_1'', r_ScheduleID = ''sch_1'', r_OccurrenceKey = ''occ_1'', r_NominalTime = 10,
     r_DueTime = 10, r_Status = RunRunning, r_Attempt = 1, r_ClaimedByWorkerID = Some ''w1'',
     r_ClaimExpiresAt = Some 100, r_StartedAt = Some 20, r_FinishedAt = None, r_HTTPStatusCode = None,
     r_ExitCode = None, r_ResultJSON = '''', r_ErrorText = None, r_RetryAvailableAt = None,
     r_CreatedAt = 10, r_UpdatedAt = 20\<rparr>"

definition busy_lease :: WorkerLease where
  "busy_lease = \<lparr>wl_id = ''lease_1'', wl_worker_id = ''w1'', wl_run_id = ''run_1'', wl_lease_key = ''run_1'',
     wl_acquired_at = 15, wl_expires_at = 100, wl_heartbeat_at = 15\<rparr>"

definition busy_db :: DB where
  "busy_db = empty_db\<lparr>schedules := [sample_schedule], schedule_runs := [busy_run], worker_leases := [busy_lease]\<rparr>"

definition sample_ids :: NewIDs where
  "sample_ids = \<lparr>id_retry = ''run_2'', id_dead = ''dlq_1'', id_receipts = (\<lambda>k. replicate k CHR ''r'')\<rparr>"

lemma sample_schedule_ID [simp]: "s_ID sample_schedule = ''sch_1''"
  by (simp add: sample_schedule_def)

lemma busy_db_ok: "sys_ok busy_db"
  by (simp add: sys_ok_def wf_defs busy_db_def empty_db_def busy_run_def busy_lease_def schedule_ids_def run_ids_def
      run_ok_def owned_def run_key_def)

text \<open>The execution of the running run, as its worker holds it.\<close>

definition busy_execution :: Run where
  "busy_execution = (plain_run busy_run)\<lparr>r_ExecutionLeaseToken := ''lease_1''\<rparr>"

lemma busy_execution_snapshot: "snapshot_of busy_run busy_execution" "r_ExecutionLeaseToken busy_execution = ''lease_1''"
  by (simp_all add: snapshot_of_def busy_execution_def plain_run_def RunRow.extend_def Run.fields_def busy_run_def)

lemma busy_lock:
  "lockRunLease busy_db ''run_1'' ''w1'' ''lease_1'' now False = Inr ()"
  by (simp add: lockRunLease_def busy_db_def busy_run_def busy_lease_def)

lemma busy_failure:
  "\<exists>db'. completeFailureWithResult 1000 ''w1'' busy_db sample_schedule busy_execution
     (zero_Result\<lparr>x_ErrorText := ''boom''\<rparr>) 50 sample_ids = (None, db')"
proof -
  have id: "r_ID busy_execution = ''run_1''" "r_OccurrenceKey busy_execution = ''occ_1''"
    "r_ScheduleID busy_execution = ''sch_1''" "r_Attempt busy_execution = 1"
    using busy_execution_snapshot(1) by (simp_all add: snapshot_of_def busy_run_def)
  have st: "failure_status sample_schedule 1 (zero_Result\<lparr>x_ErrorText := ''boom''\<rparr>) = RunFailed"
    by (simp add: failure_status_def shouldRetry_def zero_Result_def sample_schedule_def)
  have "\<exists>db2. insert_retry (finish_row busy_db (failed_run s busy_execution x 50) w token 50)
      (retry_of s (failed_run s busy_execution x 50) 50 ''run_2'') = Inr db2" for s x w token
    using id by (simp add: insert_retry_def finish_row_def busy_db_def busy_run_def sql_update_def)
  then obtain db2 where db2: "insert_retry (finish_row busy_db (failed_run sample_schedule busy_execution
      (zero_Result\<lparr>x_ErrorText := ''boom''\<rparr>) 50) ''w1'' ''lease_1'' 50) (retry_of sample_schedule (failed_run
      sample_schedule busy_execution (zero_Result\<lparr>x_ErrorText := ''boom''\<rparr>) 50) 50 ''run_2'') = Inr db2" by blast
  have ret: "id_retry sample_ids = ''run_2''" by (simp add: sample_ids_def)
  show ?thesis
    unfolding completeFailureWithResult_def Let_def FinishExternalFailure_def finishExternalRun_def
    by (simp add: busy_execution_snapshot(2) id st busy_lock ret db2)
qed


end
