(* ===== verification/History.thy ===== *)
theory History
  imports Execution
begin

text \<open>
  What any store transaction can do to the runs, the leases and the external jobs: the columns that
  identify a run never change, a terminal run stays terminal, a run becomes active only by a claim, a
  lease token appears only by a claim, and a job becomes unresolved only for an active run. One lemma
  per transaction; \<open>System\<close> composes them over interleavings.
\<close>

section \<open>Evolution of a database\<close>

definition row_evolves :: "RunRow \<Rightarrow> RunRow \<Rightarrow> bool" where
  "row_evolves r r' \<longleftrightarrow> snapshot_of r r' \<and> (terminal (r_Status r) \<longrightarrow> terminal (r_Status r'))"

text \<open>\<open>tokens\<close>, \<open>added\<close> and \<open>claimed\<close> are the lease tokens and the run ids a transaction introduces, and the
  ids of the runs it claims.\<close>

definition leases_evolve :: "string set \<Rightarrow> DB \<Rightarrow> DB \<Rightarrow> bool" where
  "leases_evolve tokens db db' \<longleftrightarrow>
     wl_id ` set (worker_leases db') \<subseteq> wl_id ` set (worker_leases db) \<union> tokens"

definition runs_evolve :: "string set \<Rightarrow> string set \<Rightarrow> DB \<Rightarrow> DB \<Rightarrow> bool" where
  "runs_evolve added claimed db db' \<longleftrightarrow>
     (\<forall>r' \<in> set (schedule_runs db'). r_ID r' \<in> added \<and> \<not> IsActiveStatus (r_Status r')
        \<or> (\<exists>r \<in> set (schedule_runs db). row_evolves r r'
             \<and> (IsActiveStatus (r_Status r') \<longrightarrow> IsActiveStatus (r_Status r) \<or> r_ID r \<in> claimed)))"

definition jobs_evolve :: "DB \<Rightarrow> DB \<Rightarrow> bool" where
  "jobs_evolve db db' \<longleftrightarrow>
     (\<forall>e' \<in> set (external_jobs db'). unresolved (ej_job_status e') \<longrightarrow>
        (\<exists>e \<in> set (external_jobs db). ej_occurrence_key e = ej_occurrence_key e'
           \<and> ej_schedule_id e = ej_schedule_id e' \<and> unresolved (ej_job_status e))
        \<or> (\<exists>r \<in> set (schedule_runs db). r_OccurrenceKey r = ej_occurrence_key e'
           \<and> r_ScheduleID r = ej_schedule_id e' \<and> IsActiveStatus (r_Status r)))"

definition evolves :: "string set \<Rightarrow> string set \<Rightarrow> string set \<Rightarrow> DB \<Rightarrow> DB \<Rightarrow> bool" where
  "evolves tokens added claimed db db' \<longleftrightarrow>
     leases_evolve tokens db db' \<and> runs_evolve added claimed db db' \<and> jobs_evolve db db'"

abbreviation quiet :: "DB \<Rightarrow> DB \<Rightarrow> bool" where
  "quiet db db' \<equiv> evolves {} {} {} db db'"

lemma row_evolves_refl [simp]: "row_evolves r r"
  by (simp add: row_evolves_def snapshot_of_def)

lemma row_evolves_trans: "row_evolves a b \<Longrightarrow> row_evolves b c \<Longrightarrow> row_evolves a c"
  by (auto simp: row_evolves_def snapshot_of_def)

lemma row_evolvesI:
  "r_ID r' = r_ID r \<Longrightarrow> r_ScheduleID r' = r_ScheduleID r \<Longrightarrow> r_OccurrenceKey r' = r_OccurrenceKey r
   \<Longrightarrow> r_NominalTime r' = r_NominalTime r \<Longrightarrow> r_Attempt r' = r_Attempt r
   \<Longrightarrow> (terminal (r_Status r) \<Longrightarrow> terminal (r_Status r')) \<Longrightarrow> row_evolves r r'"
  by (simp add: row_evolves_def snapshot_of_def)

lemma runs_evolve_same [intro]: "schedule_runs db' = schedule_runs db \<Longrightarrow> runs_evolve A C db db'"
  by (auto simp: runs_evolve_def intro: row_evolves_refl)

lemma runs_evolve_subset: "set (schedule_runs db') \<subseteq> set (schedule_runs db) \<Longrightarrow> runs_evolve A C db db'"
  by (auto simp: runs_evolve_def intro: row_evolves_refl)

lemma leases_evolve_subset [intro]:
  "set (worker_leases db') \<subseteq> set (worker_leases db) \<Longrightarrow> leases_evolve T db db'"
  by (auto simp: leases_evolve_def)

lemma jobs_evolve_subset [intro]: "set (external_jobs db') \<subseteq> set (external_jobs db) \<Longrightarrow> jobs_evolve db db'"
  by (auto simp: jobs_evolve_def)

lemma evolves_same:
  "schedule_runs db' = schedule_runs db \<Longrightarrow> worker_leases db' = worker_leases db
   \<Longrightarrow> external_jobs db' = external_jobs db \<Longrightarrow> evolves T A C db db'"
  by (auto simp: evolves_def)

lemma evolves_mono:
  "evolves T A C db db' \<Longrightarrow> T \<subseteq> T' \<Longrightarrow> A \<subseteq> A' \<Longrightarrow> C \<subseteq> C' \<Longrightarrow> evolves T' A' C' db db'"
  unfolding evolves_def leases_evolve_def runs_evolve_def by blast

text \<open>An update of some rows, none of which becomes active.\<close>

lemma runs_evolve_update:
  assumes "schedule_runs db' = sql_update P f (schedule_runs db)"
    and "\<And>r. r \<in> set (schedule_runs db) \<Longrightarrow> P r \<Longrightarrow> row_evolves r (f r)"
    and "\<And>r. r \<in> set (schedule_runs db) \<Longrightarrow> P r \<Longrightarrow> IsActiveStatus (r_Status (f r))
           \<Longrightarrow> IsActiveStatus (r_Status r) \<or> r_ID r \<in> C"
  shows "runs_evolve A C db db'"
  unfolding runs_evolve_def
proof (intro ballI)
  fix r' assume "r' \<in> set (schedule_runs db')"
  then obtain r where "r \<in> set (schedule_runs db)" "r' = (if P r then f r else r)"
    by (auto simp: assms(1) table_simps)
  with assms(2,3) have "row_evolves r r' \<and> (IsActiveStatus (r_Status r') \<longrightarrow> IsActiveStatus (r_Status r) \<or> r_ID r \<in> C)"
    by (cases "P r") auto
  with \<open>r \<in> set (schedule_runs db)\<close> show "r_ID r' \<in> A \<and> \<not> IsActiveStatus (r_Status r')
      \<or> (\<exists>r \<in> set (schedule_runs db). row_evolves r r'
           \<and> (IsActiveStatus (r_Status r') \<longrightarrow> IsActiveStatus (r_Status r) \<or> r_ID r \<in> C))" by blast
qed

lemma runs_evolve_append:
  assumes "runs_evolve A C db db1" and "schedule_runs db' = schedule_runs db1 @ [r]"
    and "r_ID r \<in> A" and "\<not> IsActiveStatus (r_Status r)"
  shows "runs_evolve A C db db'"
  using assms by (auto simp: runs_evolve_def)

section \<open>The transactions\<close>

named_theorems evolve

lemma evolves_insert_receipt: "insert_receipt db c = Inr db' \<Longrightarrow> evolves T A C db db'"
  by (intro evolves_same) (auto simp: insert_receipt_def split: if_splits)

lemma evolves_then_receipt:
  assumes "evolves T A C db db1" and "insert_receipt db1 c = Inr db'"
  shows "evolves T A C db db'"
proof -
  have "schedule_runs db' = schedule_runs db1" "worker_leases db' = worker_leases db1"
    "external_jobs db' = external_jobs db1" using assms(2) by (auto simp: insert_receipt_def split: if_splits)
  with assms(1) show ?thesis
    by (simp add: evolves_def leases_evolve_def runs_evolve_def jobs_evolve_def)
qed

lemma quiet_CreateSchedule [evolve]: "CreateSchedule db s = Inr db' \<Longrightarrow> quiet db db'"
  by (intro evolves_same) (auto simp: CreateSchedule_def split: if_splits)

lemma quiet_UpdateSchedule [evolve]: "UpdateSchedule db s = Inr db' \<Longrightarrow> quiet db db'"
  by (intro evolves_same) (auto simp: UpdateSchedule_def split: if_splits)

lemma quiet_RecordScheduleCompletion [evolve]: "quiet db (RecordScheduleCompletion db i now)"
  by (intro evolves_same) (simp_all add: RecordScheduleCompletion_def)

lemma quiet_InsertRequestAudit [evolve]: "InsertRequestAudit db a = Inr db' \<Longrightarrow> quiet db db'"
  by (intro evolves_same) (auto simp: InsertRequestAudit_def split: if_splits)

lemma quiet_InsertReceipt [evolve]: "InsertReceipt n db c = Inr db' \<Longrightarrow> quiet db db'"
  unfolding InsertReceipt_def by (rule evolves_insert_receipt)

lemma quiet_shrink:
  "set (schedule_runs db') \<subseteq> set (schedule_runs db) \<Longrightarrow> set (worker_leases db') \<subseteq> set (worker_leases db)
   \<Longrightarrow> set (external_jobs db') \<subseteq> set (external_jobs db) \<Longrightarrow> quiet db db'"
  by (simp add: evolves_def leases_evolve_subset runs_evolve_subset jobs_evolve_subset)

lemma quiet_DeleteSchedule [evolve]: "DeleteSchedule db i = Inr db' \<Longrightarrow> quiet db db'"
  by (rule quiet_shrink) (auto simp: DeleteSchedule_def delete_runs_def Let_def table_simps split: if_splits)

lemma quiet_Prune [evolve]: "quiet db (snd (PruneTerminalRunsBefore db t))"
proof -
  let ?db = "delete_runs (prunable db t) db"
  have "jobs_evolve db (compactPrunedExternalJobs ?db)"
    by (auto simp: jobs_evolve_def compactPrunedExternalJobs_def table_simps delete_runs_def Let_def
        compactable_def unresolved_def)
  then show ?thesis
    by (auto simp: evolves_def PruneTerminalRunsBefore_def compactPrunedExternalJobs_def delete_runs_def
        table_simps Let_def intro!: leases_evolve_subset runs_evolve_subset)
qed

lemma evolves_InsertRun [evolve]:
  "InsertRun db run = Inr db' \<Longrightarrow> \<not> IsActiveStatus (r_Status run) \<Longrightarrow> evolves {} {r_ID run} {} db db'"
  by (auto simp: evolves_def InsertRun_def split: if_splits intro!: runs_evolve_append [OF runs_evolve_same])

lemma evolves_TriggerEvent [evolve]:
  assumes "TriggerEvent_tx h db sid ev now runID = Inr ((run, created), db')"
  shows "evolves {} {runID} {} db db'"
proof (cases created)
  case True
  with assms have "TriggerEvent_tx h db sid ev now runID = Inr ((run, True), db')" by simp
  note c = TriggerEvent_created [OF this]
  then show ?thesis
    by (auto simp: evolves_def intro!: runs_evolve_append [OF runs_evolve_same [OF refl] c(1)])
       (simp_all add: event_run_def)
next
  case False
  with assms TriggerEvent_replayed show ?thesis by (metis evolves_same)
qed

text \<open>The one transaction that activates a run and issues a token.\<close>

lemma evolves_ClaimRunWithToken [evolve]:
  assumes ok: "sys_ok db" and claim: "ClaimRunWithToken d db s runID w now ttl token = Inr ((True, tok), db')"
    and fresh: "token \<notin> wl_id ` set (worker_leases db)"
  shows "evolves {token} {} {runID} db db'"
proof -
  define db1 where "db1 = db\<lparr>schedule_runs := sql_update (\<lambda>x. r_ID x = runID \<and> queued (r_Status x))
      (\<lambda>x. x\<lparr>r_Status := RunClaimed, r_ClaimedByWorkerID := Some w, r_ClaimExpiresAt := Some (now + ttl),
             r_UpdatedAt := now\<rparr>) (schedule_runs db)\<rparr>"
  have up: "upsertLease d db1 token w runID now (now + ttl) = Inr db'"
    using ClaimRunWithToken_cases(1) [OF claim] by (auto simp: db1_def)
  obtain L where L: "db' = db1\<lparr>worker_leases := L\<rparr>" using upsertLease_frame [OF up] by blast
  have "runs_evolve {} {runID} db db'"
    by (rule runs_evolve_update [where P = "\<lambda>x. r_ID x = runID \<and> queued (r_Status x)"])
       (auto simp: L db1_def row_evolves_def snapshot_of_def dest: status_disjoint)
  moreover have "leases_evolve {token} db db'"
  proof -
    have "wf_db db1" unfolding db1_def using sys_okD(1) [OF ok] by (rule wf_update_runs) (simp_all add: run_key_def)
    from upsertLease_leases [OF up this] fresh show ?thesis
      by (auto simp: leases_evolve_def db1_def)
  qed
  ultimately show ?thesis by (simp add: evolves_def L db1_def jobs_evolve_subset)
qed

lemma locked_active:
  assumes "sys_ok db" and "lockRunLease db i w token now strict = Inr u"
    and "r \<in> set (schedule_runs db)" and "r_ID r = i"
  shows "IsActiveStatus (r_Status r)"
  using assms(2) by (rule lockRunLease_owned) (use run_unique [OF sys_okD(1) [OF assms(1)]] assms(3,4) in blast)

lemma evolves_row_update:
  assumes "schedule_runs db' = sql_update (\<lambda>r. r_ID r = i) f (schedule_runs db)"
    and "set (worker_leases db') \<subseteq> set (worker_leases db) \<or> wl_id ` set (worker_leases db') = wl_id ` set (worker_leases db)"
    and "external_jobs db' = external_jobs db"
    and "\<And>r. r \<in> set (schedule_runs db) \<Longrightarrow> r_ID r = i \<Longrightarrow> row_evolves r (f r)
           \<and> (IsActiveStatus (r_Status (f r)) \<longrightarrow> IsActiveStatus (r_Status r))"
  shows "evolves T A C db db'"
  unfolding evolves_def
proof (intro conjI)
  show "leases_evolve T db db'" using assms(2) by (auto simp: leases_evolve_def)
  show "runs_evolve A C db db'" using assms(4) by (intro runs_evolve_update [OF assms(1)]) blast+
  show "jobs_evolve db db'" using assms(3) by auto
qed


lemma quiet_MarkRunRunningWithLease [evolve]:
  assumes "sys_ok db" and "MarkRunRunningWithLease db i w token now = Inr db'"
  shows "quiet db db'"
proof -
  obtain u where "lockRunLease db i w token now True = Inr u" and db': "db' = MarkRunRunning db i now"
    using assms(2) by (auto simp: MarkRunRunningWithLease_def lockOwnedRun_def)
  note active = locked_active [OF assms(1) this(1)]
  show ?thesis
    using active by (intro evolves_row_update [where f = "started now" and i = i])
      (auto simp: db' MarkRunRunning_def started_def row_evolves_def snapshot_of_def dest: status_disjoint)
qed

lemma quiet_RenewLeaseWithToken [evolve]:
  assumes "RenewLeaseWithToken db i w token now ttl = Inr db'"
  shows "quiet db db'"
proof -
  have db': "db' = db\<lparr>worker_leases := sql_update (\<lambda>l. wl_id l = token)
      (\<lambda>l. l\<lparr>wl_expires_at := now + ttl, wl_heartbeat_at := now\<rparr>) (worker_leases db),
    schedule_runs := sql_update (\<lambda>r. r_ID r = i)
      (\<lambda>r. r\<lparr>r_ClaimExpiresAt := Some (now + ttl), r_UpdatedAt := now\<rparr>) (schedule_runs db)\<rparr>"
    using assms by (auto simp: RenewLeaseWithToken_def Let_def)
  have "wl_id ` set (worker_leases db') = wl_id ` set (worker_leases db)"
    by (simp add: db' image_sql_update)
  then show ?thesis
    by (intro evolves_row_update [where i = i
          and f = "\<lambda>r. r\<lparr>r_ClaimExpiresAt := Some (now + ttl), r_UpdatedAt := now\<rparr>"] disjI2)
       (simp_all add: db' row_evolves_def snapshot_of_def)
qed

lemma quiet_FinishRun_row [evolve]:
  assumes "outcome_ok run" shows "quiet db (FinishRun_row db run)"
  using outcome_idle [OF assms] assms
  by (intro evolves_row_update [where i = "r_ID run"])
     (auto simp: FinishRun_row_def row_evolves_def snapshot_of_def outcome_into_def outcome_ok_def)

lemma quiet_ClearLease [evolve]: "quiet db (ClearLease db i)"
  by (rule quiet_shrink) (auto simp: ClearLease_def table_simps)

lemma quiet_ResetClaimedRun [evolve]:
  assumes "ResetClaimedRun db i now = Inr db'"
  shows "quiet db db'"
proof (cases "db' = db")
  case True
  then show ?thesis by (auto intro: evolves_same)
next
  case False
  with assms obtain L where db': "db' = db\<lparr>schedule_runs := sql_update (\<lambda>x. r_ID x = i \<and> r_Status x = RunClaimed)
      (released now) (schedule_runs db), worker_leases := L\<rparr>" "set L \<subseteq> set (worker_leases db)"
    by (auto simp: ResetClaimedRun_def table_simps split: option.splits if_splits)
  have "runs_evolve {} {} db db'"
    by (rule runs_evolve_update [where P = "\<lambda>x. r_ID x = i \<and> r_Status x = RunClaimed" and f = "released now"])
       (auto simp: db'(1) released_def row_evolves_def snapshot_of_def)
  then show ?thesis using db' by (simp add: evolves_def leases_evolve_subset jobs_evolve_subset)
qed

lemma quiet_RequeueExternalRun [evolve]:
  assumes ok: "sys_ok db" and req: "RequeueExternalRun db i w token0 now expired c = Inr db'"
  shows "quiet db db'"
proof -
  obtain token cc where rec: "insert_receipt (db\<lparr>schedule_runs := sql_update (\<lambda>r. r_ID r = i) (released now) (schedule_runs db),
      worker_leases := sql_delete (\<lambda>l. wl_id l = token) (worker_leases db)\<rparr>) cc = Inr db'"
    and active: "\<exists>r \<in> set (schedule_runs db). r_ID r = i \<and> IsActiveStatus (r_Status r)"
  proof (cases expired)
    case True
    with req that show ?thesis unfolding RequeueExternalRun_def
      by (fastforce split: if_splits option.splits dest!: sql_find_both)
  next
    case False
    with req that show ?thesis unfolding RequeueExternalRun_def lockOwnedRun_def
      by (fastforce elim!: lockRunLease_owned)
  qed
  have "IsActiveStatus (r_Status r)" if "r \<in> set (schedule_runs db)" "r_ID r = i" for r
    using active that run_unique [OF sys_okD(1) [OF ok]] by blast
  then have "quiet db (db\<lparr>schedule_runs := sql_update (\<lambda>r. r_ID r = i) (released now) (schedule_runs db),
      worker_leases := sql_delete (\<lambda>l. wl_id l = token) (worker_leases db)\<rparr>)"
    by (intro evolves_row_update [where i = i and f = "released now"])
       (auto simp: table_simps released_def row_evolves_def snapshot_of_def dest: status_disjoint)
  from evolves_then_receipt [OF this rec] show ?thesis .
qed

lemma evolves_finishExternalRun [evolve]:
  assumes "outcome_ok run" and "\<And>rt. retry = Some rt \<Longrightarrow> retry_ok_row rt"
    and "finishExternalRun db run w0 token0 retry dead now expired = Inr db'"
  shows "evolves {} (case retry of None \<Rightarrow> {} | Some rt \<Rightarrow> {r_ID rt}) {} db db'"
  using assms(3)
proof (rule finishExternalRun_cases)
  fix r l w token db1
  assume ret: "(case retry of None \<Rightarrow> Inr (finish_row db run w token now)
          | Some rt \<Rightarrow> insert_retry (finish_row db run w token now) rt) = Inr db1"
    and dl: "(case dead of None \<Rightarrow> Inr db1 | Some d \<Rightarrow> InsertDeadLetter db1 d) = Inr db'"
  have "quiet db (finish_row db run w token now)"
    using outcome_idle [OF assms(1)] assms(1)
    by (intro evolves_row_update [where i = "r_ID run"])
       (auto simp: finish_row_def row_evolves_def snapshot_of_def outcome_into_def outcome_ok_def table_simps)
  then have "evolves {} (case retry of None \<Rightarrow> {} | Some rt \<Rightarrow> {r_ID rt}) {} db db1"
  proof (cases retry)
    case None
    with ret \<open>quiet _ _\<close> show ?thesis by simp
  next
    case (Some rt)
    show ?thesis
    proof (cases "db1 = finish_row db run w token now")
      case True
      with Some \<open>quiet _ _\<close> show ?thesis by (auto intro: evolves_mono)
    next
      case False
      then have "db1 = (finish_row db run w token now)\<lparr>schedule_runs :=
          schedule_runs (finish_row db run w token now) @ [retry_row rt]\<rparr>"
        using ret Some by (auto simp: insert_retry_def split: if_splits)
      moreover have "r_ID (retry_row rt) = r_ID rt" "\<not> IsActiveStatus (r_Status (retry_row rt))"
        using assms(2) [OF Some] by (auto simp: retry_row_def retry_ok_row_def)
      moreover have "runs_evolve {r_ID rt} {} db (finish_row db run w token now)"
        using \<open>quiet _ _\<close> evolves_mono [of "{}" "{}" "{}" db _ "{}" "{r_ID rt}" "{}"] by (simp add: evolves_def)
      ultimately show ?thesis
        using \<open>quiet _ _\<close> Some
        by (auto simp: evolves_def leases_evolve_def jobs_evolve_def intro: runs_evolve_append)
    qed
  qed
  moreover have "schedule_runs db' = schedule_runs db1" "worker_leases db' = worker_leases db1"
    "external_jobs db' = external_jobs db1"
    using dl by (auto simp: InsertDeadLetter_def split: option.splits if_splits)
  ultimately show ?thesis by (simp add: evolves_def leases_evolve_def runs_evolve_def jobs_evolve_def)
qed

text \<open>A checkpoint is written for an active run, and a terminal job stays terminal.\<close>

lemma check_prior_unresolved:
  assumes "check_prior row job = Inr u" and "job_row_ok row" and "unresolved (j_Status job)"
  shows "unresolved (ej_job_status row)"
proof (rule ccontr)
  let ?prior = "(decodeExternalJob (ej_checkpoint row) (ej_target_snapshot row))\<lparr>j_UpdatedAt := j_UpdatedAt job\<rparr>"
  assume "\<not> unresolved (ej_job_status row)"
  then have "Terminal ?prior" using assms(2) by (auto simp: Terminal_iff job_row_ok_def)
  then have "public_job ?prior = public_job job"
    using assms(1) by (auto simp: check_prior_def Let_def split: if_splits)
  then have "j_Status (public_job ?prior) = j_Status (public_job job)" by simp
  then have "j_Status (ej_checkpoint row) = j_Status job" by simp
  with \<open>\<not> unresolved (ej_job_status row)\<close> assms(2,3) show False by (simp add: job_row_ok_def)
qed

lemma quiet_SaveExternalJob [evolve]:
  assumes ok: "sys_ok db" "jobs_ok db" and save: "SaveExternalJob job_json n db run w token job0 now c = Inr db'"
    and copy: "\<forall>r \<in> set (schedule_runs db). r_ID r = r_ID run \<longrightarrow> snapshot_of r run"
  shows "quiet db db'"
  using save
proof (rule SaveExternalJob_cases)
  fix db1
  let ?job = "job0\<lparr>j_CanReconcile := ReconciliationAvailable job0, j_UpdatedAt := now\<rparr>"
  assume lock: "lockRunLease db (r_ID run) w token now True = Inr ()"
    and prior: "\<And>row. find_job db (r_OccurrenceKey run) = Some row \<Longrightarrow>
          check_prior row (job0\<lparr>j_CanReconcile := ReconciliationAvailable job0\<rparr>) = Inr ()"
    and up: "upsert_job db (r_OccurrenceKey run) (r_ScheduleID run) ?job now = Inr db1"
    and db': "db' = db1 \<or> (\<exists>c. insert_receipt db1 c = Inr db')"
  obtain r where r: "r \<in> set (schedule_runs db)" "r_ID r = r_ID run" "IsActiveStatus (r_Status r)"
    using lock by (rule lockRunLease_owned)
  with copy have same: "r_OccurrenceKey run = r_OccurrenceKey r" "r_ScheduleID run = r_ScheduleID r"
    by (auto simp: snapshot_of_def)
  have "jobs_evolve db db1"
  proof (cases "find_job db (r_OccurrenceKey run)")
    case None
    with up r(1,3) same show ?thesis by (fastforce simp: upsert_job_def jobs_evolve_def split: if_splits)
  next
    case (Some row)
    note row = find_jobD [OF Some]
    have old: "unresolved (ej_job_status row)" if "unresolved (j_Status job0)"
      using check_prior_unresolved [OF prior [OF Some]] ok(2) row that by (auto simp: jobs_ok_def)
    have only: "e = row" if "e \<in> set (external_jobs db)" "ej_occurrence_key e = r_OccurrenceKey run" for e
      using find_job_unique [OF sys_okD(1) [OF ok(1)] that(1)] that(2) Some by simp
    show ?thesis using up Some only old
      by (fastforce simp: upsert_job_def jobs_evolve_def table_simps split: if_splits)
  qed
  then have "quiet db db1"
    using upsert_job_frame [OF up] by (simp add: evolves_def runs_evolve_same leases_evolve_subset)
  with db' show "quiet db db'" using evolves_then_receipt by blast
qed

lemma quiet_ReconcileExternalJob [evolve]:
  assumes ok: "sys_ok db" "jobs_ok db"
    and rec: "ReconcileExternalJob d rj n db run expected observed now c = Inr db'"
  shows "quiet db db'"
  using rec
proof (rule ReconcileExternalJob_cases)
  fix row receipt
  let ?f = "\<lambda>e. e\<lparr>ej_checkpoint := public_job (observed\<lparr>j_UpdatedAt := now,
                    j_CanReconcile := ReconciliationAvailable (observed\<lparr>j_UpdatedAt := now\<rparr>)\<rparr>),
                 ej_job_status := j_Status observed, ej_updated_at := now\<rparr>"
  assume row: "find_job db (r_OccurrenceKey run) = Some row" and live: "\<not> Terminal (ej_checkpoint row)"
    and ins: "insert_receipt (db\<lparr>external_jobs := sql_update (\<lambda>e. ej_occurrence_key e = r_OccurrenceKey run)
          ?f (external_jobs db)\<rparr>) receipt = Inr db'"
  have "unresolved (ej_job_status row)"
    using live ok(2) find_jobD [OF row] by (auto simp: Terminal_iff jobs_ok_def job_row_ok_def)
  moreover have "e = row" if "e \<in> set (external_jobs db)" "ej_occurrence_key e = r_OccurrenceKey run" for e
    using find_job_unique [OF sys_okD(1) [OF ok(1)] that(1)] that(2) row by simp
  ultimately have "jobs_evolve db (db\<lparr>external_jobs := sql_update (\<lambda>e. ej_occurrence_key e = r_OccurrenceKey run)
      ?f (external_jobs db)\<rparr>)"
    by (fastforce simp: jobs_evolve_def table_simps)
  then have "quiet db (db\<lparr>external_jobs := sql_update (\<lambda>e. ej_occurrence_key e = r_OccurrenceKey run)
      ?f (external_jobs db)\<rparr>)"
    by (simp add: evolves_def runs_evolve_same leases_evolve_subset)
  from evolves_then_receipt [OF this ins] show ?thesis .
qed

lemma ReconcileExternalJob_ok:
  assumes ok: "sys_ok db" "jobs_ok db"
    and rec: "ReconcileExternalJob d rj n db run expected observed now c = Inr db'"
  shows "sys_ok db' \<and> jobs_ok db'"
  using rec
proof (rule ReconcileExternalJob_cases)
  fix row receipt
  let ?f = "\<lambda>e. e\<lparr>ej_checkpoint := public_job (observed\<lparr>j_UpdatedAt := now,
                    j_CanReconcile := ReconciliationAvailable (observed\<lparr>j_UpdatedAt := now\<rparr>)\<rparr>),
                 ej_job_status := j_Status observed, ej_updated_at := now\<rparr>"
  let ?db = "db\<lparr>external_jobs := sql_update (\<lambda>e. ej_occurrence_key e = r_OccurrenceKey run) ?f (external_jobs db)\<rparr>"
  assume row: "find_job db (r_OccurrenceKey run) = Some row" and st: "job_status_check (j_Status observed)"
    and tgt: "ej_target_snapshot row = Some (j_RequestTarget observed)"
    and ins: "insert_receipt ?db receipt = Inr db'"
  have "e = row" if "e \<in> set (external_jobs db)" "ej_occurrence_key e = r_OccurrenceKey run" for e
    using find_job_unique [OF sys_okD(1) [OF ok(1)] that(1)] that(2) row by simp
  then have "jobs_ok ?db"
    using ok(2) st tgt by (fastforce simp: jobs_ok_def table_simps job_row_ok_def)
  moreover have "sys_ok ?db"
    using sys_okD(1) [OF ok(1)] by (intro sys_ok_same [OF ok(1)] wf_update_external_jobs) simp_all
  ultimately show ?thesis using ins by (auto intro: sys_ok_insert_receipt jobs_ok_insert_receipt)
qed

end
