(* ===== verification/System.thy ===== *)
theory System
  imports History
begin

text \<open>
  Wakeplane as a transition system: planner, dispatcher loops, executions, HTTP handlers and the
  pruner of any number of processes take turns, one committed transaction (or statement outside a
  transaction) at a time. The state is the database with two ghost sets, the lease tokens and run ids
  ever issued, because \<open>domain.NewID\<close> never returns an identifier twice. \<open>allowed\<close> restricts the
  schedule snapshots under which runs are claimed, for the concurrency cap.
\<close>

record Sys =
  sys_db :: DB
  sys_tokens :: "string set"
  sys_runs :: "string set"

definition initial_sys :: "Sys \<Rightarrow> bool" where
  "initial_sys \<sigma> \<longleftrightarrow> sys_db \<sigma> = empty_db"

definition retry_ids :: "RunRow option \<Rightarrow> string set" where
  "retry_ids retry = (case retry of None \<Rightarrow> {} | Some rt \<Rightarrow> {r_ID rt})"

section \<open>Steps\<close>

inductive sys_step :: "(Schedule \<Rightarrow> bool) \<Rightarrow> Sys \<Rightarrow> Sys \<Rightarrow> bool" for allowed :: "Schedule \<Rightarrow> bool" where
  create: "CreateSchedule (sys_db \<sigma>) s = Inr db' \<Longrightarrow> sys_step allowed \<sigma> (\<sigma>\<lparr>sys_db := db'\<rparr>)"
| update: "UpdateSchedule (sys_db \<sigma>) s = Inr db' \<Longrightarrow> sys_step allowed \<sigma> (\<sigma>\<lparr>sys_db := db'\<rparr>)"
| delete: "DeleteSchedule (sys_db \<sigma>) i = Inr db' \<Longrightarrow> sys_step allowed \<sigma> (\<sigma>\<lparr>sys_db := db'\<rparr>)"
| completion: "sys_step allowed \<sigma> (\<sigma>\<lparr>sys_db := RecordScheduleCompletion (sys_db \<sigma>) i now\<rparr>)"
| audit: "InsertRequestAudit (sys_db \<sigma>) a = Inr db' \<Longrightarrow> sys_step allowed \<sigma> (\<sigma>\<lparr>sys_db := db'\<rparr>)"
| receipt: "InsertReceipt n (sys_db \<sigma>) c = Inr db' \<Longrightarrow> sys_step allowed \<sigma> (\<sigma>\<lparr>sys_db := db'\<rparr>)"
| insert: "InsertRun (sys_db \<sigma>) run = Inr db' \<Longrightarrow> r_ID run \<notin> sys_runs \<sigma> \<Longrightarrow> run_ok run
    \<Longrightarrow> \<not> IsActiveStatus (r_Status run)
    \<Longrightarrow> sys_step allowed \<sigma> (\<sigma>\<lparr>sys_db := db', sys_runs := Set.insert (r_ID run) (sys_runs \<sigma>)\<rparr>)"
| event: "TriggerEvent_tx sha (sys_db \<sigma>) i ev now runID = Inr (answer, db') \<Longrightarrow> runID \<notin> sys_runs \<sigma>
    \<Longrightarrow> sys_step allowed \<sigma> (\<sigma>\<lparr>sys_db := db', sys_runs := Set.insert runID (sys_runs \<sigma>)\<rparr>)"
| claim: "ClaimRunWithToken d (sys_db \<sigma>) s i w now ttl token = Inr ((True, token'), db') \<Longrightarrow> allowed s
    \<Longrightarrow> token \<notin> sys_tokens \<sigma>
    \<Longrightarrow> sys_step allowed \<sigma> (\<sigma>\<lparr>sys_db := db', sys_tokens := Set.insert token (sys_tokens \<sigma>)\<rparr>)"
| start: "MarkRunRunningWithLease (sys_db \<sigma>) i w token now = Inr db' \<Longrightarrow> sys_step allowed \<sigma> (\<sigma>\<lparr>sys_db := db'\<rparr>)"
| renew: "RenewLeaseWithToken (sys_db \<sigma>) i w token now ttl = Inr db' \<Longrightarrow> sys_step allowed \<sigma> (\<sigma>\<lparr>sys_db := db'\<rparr>)"
| checkpoint: "SaveExternalJob json n (sys_db \<sigma>) run w token job now c = Inr db'
    \<Longrightarrow> \<forall>r \<in> set (schedule_runs (sys_db \<sigma>)). r_ID r = r_ID run \<longrightarrow> snapshot_of r (run :: Run)
    \<Longrightarrow> sys_step allowed \<sigma> (\<sigma>\<lparr>sys_db := db'\<rparr>)"
| finish: "finishExternalRun (sys_db \<sigma>) (run :: Run) w token retry dead now expired = Inr db' \<Longrightarrow> outcome_ok run
    \<Longrightarrow> (\<And>rt. retry = Some rt \<Longrightarrow> retry_ok_row rt \<and> r_ID rt \<notin> sys_runs \<sigma>)
    \<Longrightarrow> sys_step allowed \<sigma> (\<sigma>\<lparr>sys_db := db', sys_runs := retry_ids retry \<union> sys_runs \<sigma>\<rparr>)"
| requeue: "RequeueExternalRun (sys_db \<sigma>) i w token now expired c = Inr db' \<Longrightarrow> sys_step allowed \<sigma> (\<sigma>\<lparr>sys_db := db'\<rparr>)"
| reset: "ResetClaimedRun (sys_db \<sigma>) i now = Inr db' \<Longrightarrow> sys_step allowed \<sigma> (\<sigma>\<lparr>sys_db := db'\<rparr>)"
| coalesce: "outcome_ok (run :: RunRow) \<Longrightarrow> sys_step allowed \<sigma> (\<sigma>\<lparr>sys_db := FinishRun_row (sys_db \<sigma>) run\<rparr>)"
| clear: "\<forall>r \<in> set (schedule_runs (sys_db \<sigma>)). r_ID r = i \<longrightarrow> \<not> IsActiveStatus (r_Status r)
    \<Longrightarrow> sys_step allowed \<sigma> (\<sigma>\<lparr>sys_db := ClearLease (sys_db \<sigma>) i\<rparr>)"
| prune: "sys_step allowed \<sigma> (\<sigma>\<lparr>sys_db := snd (PruneTerminalRunsBefore (sys_db \<sigma>) cutoff)\<rparr>)"
| reconcile: "ReconcileExternalJob d json n (sys_db \<sigma>) (run :: Run) expected observed now c = Inr db'
    \<Longrightarrow> sys_step allowed \<sigma> (\<sigma>\<lparr>sys_db := db'\<rparr>)"

text \<open>The invariant: integrity, exclusive ownership, job rows, and the ghosts cover what is stored.\<close>

definition sys_inv :: "Sys \<Rightarrow> bool" where
  "sys_inv \<sigma> \<longleftrightarrow> sys_ok (sys_db \<sigma>) \<and> jobs_ok (sys_db \<sigma>)
     \<and> wl_id ` set (worker_leases (sys_db \<sigma>)) \<subseteq> sys_tokens \<sigma> \<and> run_ids (sys_db \<sigma>) \<subseteq> sys_runs \<sigma>"

text \<open>A step in one line: what evolves, what is issued, and what is claimed.\<close>

definition claim_step :: "(Schedule \<Rightarrow> bool) \<Rightarrow> DB \<Rightarrow> DB \<Rightarrow> string set \<Rightarrow> bool" where
  "claim_step allowed db db' C \<longleftrightarrow> (\<exists>d s i w now ttl token token'. C = {i} \<and> allowed s
     \<and> ClaimRunWithToken d db s i w now ttl token = Inr ((True, token'), db'))"

lemma jobs_ok_subset: "jobs_ok db \<Longrightarrow> set (external_jobs db') \<subseteq> set (external_jobs db) \<Longrightarrow> jobs_ok db'"
  by (auto simp: jobs_ok_def)

text \<open>The transactions that leave the external jobs alone.\<close>

lemma jobs_frame_schedules:
  "CreateSchedule db s = Inr db' \<Longrightarrow> external_jobs db' = external_jobs db"
  "UpdateSchedule db s = Inr db' \<Longrightarrow> external_jobs db' = external_jobs db"
  "InsertRequestAudit db a = Inr db' \<Longrightarrow> external_jobs db' = external_jobs db"
  "InsertReceipt n db c = Inr db' \<Longrightarrow> external_jobs db' = external_jobs db"
  "InsertRun db run = Inr db' \<Longrightarrow> external_jobs db' = external_jobs db"
  by (auto simp: CreateSchedule_def UpdateSchedule_def InsertRequestAudit_def InsertReceipt_def insert_receipt_def
      InsertRun_def split: if_splits)

lemma jobs_frame_runs:
  "MarkRunRunningWithLease db i w token now = Inr db' \<Longrightarrow> external_jobs db' = external_jobs db"
  "RenewLeaseWithToken db i w token now ttl = Inr db' \<Longrightarrow> external_jobs db' = external_jobs db"
  "ResetClaimedRun db i now = Inr db' \<Longrightarrow> external_jobs db' = external_jobs db"
  "RequeueExternalRun db i w token now expired c = Inr db' \<Longrightarrow> external_jobs db' = external_jobs db"
  by (auto simp: MarkRunRunningWithLease_def MarkRunRunning_def RenewLeaseWithToken_def Let_def ResetClaimedRun_def
      RequeueExternalRun_def insert_receipt_def split: option.splits if_splits)

lemma jobs_frame_finish:
  "finishExternalRun db run w token retry dead now expired = Inr db' \<Longrightarrow> external_jobs db' = external_jobs db"
  by (erule finishExternalRun_cases)
     (auto simp: finish_row_def insert_retry_def InsertDeadLetter_def split: option.splits if_splits)

lemma jobs_frame_claim:
  "ClaimRunWithToken d db s i w now ttl token = Inr ((True, token'), db') \<Longrightarrow> external_jobs db' = external_jobs db"
  by (drule ClaimRunWithToken_cases(1)) (auto dest: upsertLease_frame)

lemma jobs_frame_total [simp]:
  "external_jobs (RecordScheduleCompletion db i now) = external_jobs db"
  "external_jobs (FinishRun_row db run) = external_jobs db" "external_jobs (ClearLease db i) = external_jobs db"
  by (simp_all add: RecordScheduleCompletion_def FinishRun_row_def ClearLease_def)

lemma jobs_ok_same: "jobs_ok db \<Longrightarrow> external_jobs db' = external_jobs db \<Longrightarrow> jobs_ok db'"
  by (simp add: jobs_ok_def)

lemma step_evolves:
  assumes "sys_step allowed \<sigma> \<tau>" and "sys_inv \<sigma>"
  shows "sys_tokens \<sigma> \<subseteq> sys_tokens \<tau> \<and> sys_runs \<sigma> \<subseteq> sys_runs \<tau>
    \<and> (\<exists>C. evolves (sys_tokens \<tau> - sys_tokens \<sigma>) (sys_runs \<tau> - sys_runs \<sigma>) C (sys_db \<sigma>) (sys_db \<tau>)
         \<and> (C = {} \<or> claim_step allowed (sys_db \<sigma>) (sys_db \<tau>) C))"
proof -
  have ok: "sys_ok (sys_db \<sigma>)" "jobs_ok (sys_db \<sigma>)" and tok: "wl_id ` set (worker_leases (sys_db \<sigma>)) \<subseteq> sys_tokens \<sigma>"
    using assms(2) by (simp_all add: sys_inv_def)
  show ?thesis
    using assms(1)
  proof cases
    case (claim d s i w now ttl token token' db')
    then have "evolves {token} {} {i} (sys_db \<sigma>) db'" using ok(1) tok by (auto intro: evolve)
    moreover have "claim_step allowed (sys_db \<sigma>) db' {i}" unfolding claim_step_def using claim(2,3) by blast
    moreover have "{token} = sys_tokens \<tau> - sys_tokens \<sigma>" using claim by auto
    ultimately show ?thesis using claim(1) by auto
  next
    case (insert run db')
    then have "evolves {} {r_ID run} {} (sys_db \<sigma>) db'" by (auto intro: evolve)
    moreover have "{r_ID run} = sys_runs \<tau> - sys_runs \<sigma>" using insert by auto
    ultimately show ?thesis using insert(1) by auto
  next
    case (event sha i ev now runID answer db')
    then have "evolves {} {runID} {} (sys_db \<sigma>) db'"
      using event(2) evolves_TriggerEvent by (metis prod.collapse)
    moreover have "{runID} = sys_runs \<tau> - sys_runs \<sigma>" using event by auto
    ultimately show ?thesis using event(1) by auto
  next
    case (finish run w token retry dead now expired db')
    have "evolves {} (retry_ids retry) {} (sys_db \<sigma>) db'"
      unfolding retry_ids_def using finish(2-4) by (intro evolves_finishExternalRun) auto
    moreover have "sys_runs \<tau> - sys_runs \<sigma> = retry_ids retry"
      using finish(1,4) by (auto simp: retry_ids_def split: option.splits)
    ultimately have "evolves (sys_tokens \<tau> - sys_tokens \<sigma>) (sys_runs \<tau> - sys_runs \<sigma>) {} (sys_db \<sigma>) (sys_db \<tau>)"
      using finish(1) by simp
    then show ?thesis using finish(1) by (intro conjI exI [of _ "{}"]) auto
  next
    case (checkpoint json n run w token job now c db')
    with quiet_SaveExternalJob [OF ok checkpoint(2,3)] show ?thesis by auto
  next
    case (reconcile d json n run expected observed now c db')
    with quiet_ReconcileExternalJob [OF ok reconcile(2)] show ?thesis by auto
  qed (use ok(1) in \<open>auto intro!: exI [of _ "{}"] intro: evolve\<close>)
qed

section \<open>The invariant\<close>

lemma empty_inv: "initial_sys \<sigma> \<Longrightarrow> sys_inv \<sigma>"
  by (simp add: initial_sys_def sys_inv_def sys_ok_empty) (simp add: jobs_ok_def empty_db_def run_ids_def)

lemma run_ids_evolve: "runs_evolve A C db db' \<Longrightarrow> run_ids db' \<subseteq> run_ids db \<union> A"
  by (fastforce simp: runs_evolve_def run_ids_def row_evolves_def snapshot_of_def)

lemma step_ok:
  assumes "sys_step allowed \<sigma> \<tau>" and "sys_inv \<sigma>"
  shows "sys_ok (sys_db \<tau>) \<and> jobs_ok (sys_db \<tau>)"
proof -
  have ok: "sys_ok (sys_db \<sigma>)" "jobs_ok (sys_db \<sigma>)" and tok: "wl_id ` set (worker_leases (sys_db \<sigma>)) \<subseteq> sys_tokens \<sigma>"
    using assms(2) by (simp_all add: sys_inv_def)
  note jobs = jobs_ok_same [OF ok(2)]
  show ?thesis
    using assms(1)
  proof cases
    case (delete i db')
    have "set (external_jobs db') \<subseteq> set (external_jobs (sys_db \<sigma>))"
      using delete(2) by (auto simp: DeleteSchedule_def Let_def delete_runs_def table_simps split: if_splits)
    with delete show ?thesis using jobs_ok_subset [OF ok(2)] sys_ok_DeleteSchedule [OF ok(1)] by simp
  next
    case (receipt n c db')
    with sys_ok_InsertReceipt [OF ok(1) receipt(2)] jobs [OF jobs_frame_schedules(4) [OF receipt(2)]] show ?thesis by simp
  next
    case (event sha i ev now runID answer db')
    then have "TriggerEvent_tx sha (sys_db \<sigma>) i ev now runID = Inr ((fst answer, snd answer), db')" by simp
    from TriggerEvent_ok [OF ok this] event(1) show ?thesis by simp
  next
    case (claim d s i w now ttl token token' db')
    have "token \<notin> wl_id ` set (worker_leases (sys_db \<sigma>))" using claim(4) tok by blast
    from sys_ok_ClaimRunWithToken [OF ok(1) claim(2) this] claim(1) show ?thesis
      using jobs [OF jobs_frame_claim [OF claim(2)]] by simp
  next
    case (checkpoint json n run w token job now c db')
    with SaveExternalJob_ok [OF ok checkpoint(2)] show ?thesis by simp
  next
    case (finish run w token retry dead now expired db')
    have "sys_ok db'" using finish(3,4) by (intro sys_ok_finishExternalRun [OF ok(1) _ _ finish(2)]) auto
    with finish(1) jobs [OF jobs_frame_finish [OF finish(2)]] show ?thesis by simp
  next
    case (prune cutoff)
    with ok show ?thesis by (simp add: PruneTerminalRunsBefore_ok)
  next
    case (reconcile d json n run expected observed now c db')
    with ReconcileExternalJob_ok [OF ok reconcile(2)] show ?thesis by simp
  next
    case (coalesce run)
    with ok jobs [of "FinishRun_row (sys_db \<sigma>) run"] show ?thesis by (simp add: sys_ok_FinishRun_row)
  next
    case (clear i)
    with ok jobs [of "ClearLease (sys_db \<sigma>) i"] show ?thesis by (simp add: sys_ok_ClearLease)
  next
    case (completion i now)
    with ok jobs [of "RecordScheduleCompletion (sys_db \<sigma>) i now"] show ?thesis
      by (simp add: sys_ok_RecordScheduleCompletion)
  next
    case (create s db')
    with sys_ok_CreateSchedule [OF ok(1) create(2)] jobs [OF jobs_frame_schedules(1) [OF create(2)]] show ?thesis by simp
  next
    case (update s db')
    with sys_ok_UpdateSchedule [OF ok(1) update(2)] jobs [OF jobs_frame_schedules(2) [OF update(2)]] show ?thesis by simp
  next
    case (audit a db')
    with sys_ok_InsertRequestAudit [OF ok(1) audit(2)] jobs [OF jobs_frame_schedules(3) [OF audit(2)]] show ?thesis by simp
  next
    case (insert run db')
    with sys_ok_InsertRun [OF ok(1) insert(2,4,5)] jobs [OF jobs_frame_schedules(5) [OF insert(2)]] show ?thesis by simp
  next
    case (start i w token now db')
    with sys_ok_MarkRunRunningWithLease [OF ok(1) start(2)] jobs [OF jobs_frame_runs(1) [OF start(2)]] show ?thesis by simp
  next
    case (renew i w token now ttl db')
    with sys_ok_RenewLeaseWithToken [OF ok(1) renew(2)] jobs [OF jobs_frame_runs(2) [OF renew(2)]] show ?thesis by simp
  next
    case (reset i now db')
    with sys_ok_ResetClaimedRun [OF ok(1) reset(2)] jobs [OF jobs_frame_runs(3) [OF reset(2)]] show ?thesis by simp
  next
    case (requeue i w token now expired c db')
    with sys_ok_RequeueExternalRun [OF ok(1) requeue(2)] jobs [OF jobs_frame_runs(4) [OF requeue(2)]] show ?thesis by simp
  qed
qed

lemma step_inv:
  assumes "sys_inv \<sigma>" and "sys_step allowed \<sigma> \<tau>"
  shows "sys_inv \<tau>"
proof -
  obtain C where *: "sys_tokens \<sigma> \<subseteq> sys_tokens \<tau>" "sys_runs \<sigma> \<subseteq> sys_runs \<tau>"
    "evolves (sys_tokens \<tau> - sys_tokens \<sigma>) (sys_runs \<tau> - sys_runs \<sigma>) C (sys_db \<sigma>) (sys_db \<tau>)"
    using step_evolves [OF assms(2,1)] by blast
  then have "wl_id ` set (worker_leases (sys_db \<tau>)) \<subseteq> sys_tokens \<tau>"
    using assms(1) unfolding evolves_def leases_evolve_def sys_inv_def by blast
  moreover have "run_ids (sys_db \<tau>) \<subseteq> sys_runs \<tau>"
  proof -
    have "run_ids (sys_db \<tau>) \<subseteq> run_ids (sys_db \<sigma>) \<union> (sys_runs \<tau> - sys_runs \<sigma>)"
      using *(3) by (intro run_ids_evolve [of _ C]) (simp add: evolves_def)
    moreover have "run_ids (sys_db \<sigma>) \<subseteq> sys_runs \<sigma>" using assms(1) by (simp add: sys_inv_def)
    ultimately show ?thesis using *(2) by blast
  qed
  ultimately show ?thesis using step_ok [OF assms(2,1)] by (simp add: sys_inv_def)
qed

section \<open>History\<close>

text \<open>What any run of the system satisfies between an earlier and a later state: a token that has been
  revoked never comes back, a deleted run never comes back, and a run that is still there has kept
  the columns that identify it and, once terminal, stays terminal.\<close>

definition later :: "Sys \<Rightarrow> Sys \<Rightarrow> bool" where
  "later \<sigma> \<tau> \<longleftrightarrow> sys_tokens \<sigma> \<subseteq> sys_tokens \<tau> \<and> sys_runs \<sigma> \<subseteq> sys_runs \<tau>
     \<and> (\<forall>l \<in> set (worker_leases (sys_db \<tau>)). wl_id l \<in> sys_tokens \<sigma> \<longrightarrow>
          wl_id l \<in> wl_id ` set (worker_leases (sys_db \<sigma>)))
     \<and> (\<forall>r' \<in> set (schedule_runs (sys_db \<tau>)). r_ID r' \<in> sys_runs \<sigma> \<longrightarrow>
          (\<exists>r \<in> set (schedule_runs (sys_db \<sigma>)). row_evolves r r'))"

lemma row_evolves_ID: "row_evolves r r' \<Longrightarrow> r_ID r' = r_ID r"
  by (simp add: row_evolves_def snapshot_of_def)

interpretation history: monotone_system initial_sys "sys_step allowed" sys_inv later
  for allowed
proof
  fix \<sigma> \<tau> \<upsilon> :: Sys
  show "sys_inv \<sigma>" if "initial_sys \<sigma>" using that by (rule empty_inv)
  show "sys_inv \<tau>" if "sys_inv \<sigma>" "sys_step allowed \<sigma> \<tau>" using that by (rule step_inv)
  show "later \<sigma> \<sigma>" by (auto simp: later_def intro: row_evolves_refl)
  show "later \<sigma> \<upsilon>" if "later \<sigma> \<tau>" "later \<tau> \<upsilon>"
  proof -
    have "\<exists>r \<in> set (schedule_runs (sys_db \<sigma>)). row_evolves r r''"
      if run: "r'' \<in> set (schedule_runs (sys_db \<upsilon>))" "r_ID r'' \<in> sys_runs \<sigma>" for r''
    proof -
      have "r_ID r'' \<in> sys_runs \<tau>" using \<open>later \<sigma> \<tau>\<close> run(2) by (auto simp: later_def)
      then obtain r' where r': "r' \<in> set (schedule_runs (sys_db \<tau>))" "row_evolves r' r''"
        using \<open>later \<tau> \<upsilon>\<close> run(1) by (auto simp: later_def)
      then have "r_ID r' \<in> sys_runs \<sigma>" using run(2) row_evolves_ID by simp
      then obtain r where "r \<in> set (schedule_runs (sys_db \<sigma>))" "row_evolves r r'"
        using \<open>later \<sigma> \<tau>\<close> r'(1) by (auto simp: later_def)
      with r'(2) show ?thesis by (blast intro: row_evolves_trans)
    qed
    moreover have "wl_id l \<in> wl_id ` set (worker_leases (sys_db \<sigma>))"
      if l: "l \<in> set (worker_leases (sys_db \<upsilon>))" "wl_id l \<in> sys_tokens \<sigma>" for l
    proof -
      have "wl_id l \<in> sys_tokens \<tau>" using \<open>later \<sigma> \<tau>\<close> l(2) by (auto simp: later_def)
      then obtain l' where "l' \<in> set (worker_leases (sys_db \<tau>))" "wl_id l' = wl_id l"
        using \<open>later \<tau> \<upsilon>\<close> l(1) by (fastforce simp: later_def)
      moreover have "wl_id x \<in> wl_id ` set (worker_leases (sys_db \<sigma>))"
        if "x \<in> set (worker_leases (sys_db \<tau>))" "wl_id x \<in> sys_tokens \<sigma>" for x
        using \<open>later \<sigma> \<tau>\<close> that by (simp add: later_def)
      ultimately show ?thesis using l(2) by metis
    qed
    ultimately show ?thesis using \<open>later \<sigma> \<tau>\<close> \<open>later \<tau> \<upsilon>\<close> unfolding later_def by blast
  qed
  show "later \<sigma> \<tau>" if inv: "sys_inv \<sigma>" and step: "sys_step allowed \<sigma> \<tau>"
  proof -
    obtain C where grow: "sys_tokens \<sigma> \<subseteq> sys_tokens \<tau>" "sys_runs \<sigma> \<subseteq> sys_runs \<tau>"
      and leases: "leases_evolve (sys_tokens \<tau> - sys_tokens \<sigma>) (sys_db \<sigma>) (sys_db \<tau>)"
      and runs: "runs_evolve (sys_runs \<tau> - sys_runs \<sigma>) C (sys_db \<sigma>) (sys_db \<tau>)"
      using step_evolves [OF step inv] unfolding evolves_def by blast
    have "\<forall>l \<in> set (worker_leases (sys_db \<tau>)). wl_id l \<in> sys_tokens \<sigma> \<longrightarrow>
        wl_id l \<in> wl_id ` set (worker_leases (sys_db \<sigma>))"
      using leases unfolding leases_evolve_def by blast
    moreover have "\<forall>r' \<in> set (schedule_runs (sys_db \<tau>)). r_ID r' \<in> sys_runs \<sigma> \<longrightarrow>
        (\<exists>r \<in> set (schedule_runs (sys_db \<sigma>)). row_evolves r r')"
      using runs unfolding runs_evolve_def by blast
    ultimately show ?thesis using grow unfolding later_def by blast
  qed
qed

section \<open>The concurrency cap\<close>

text \<open>The occurrences of a schedule that are in progress: claimed or running, or with an external job
  whose outcome is not known.\<close>

definition active_keys :: "DB \<Rightarrow> string \<Rightarrow> string set" where
  "active_keys db i =
     {r_OccurrenceKey r |r. r \<in> set (schedule_runs db) \<and> r_ScheduleID r = i \<and> IsActiveStatus (r_Status r)}
     \<union> {ej_occurrence_key e |e. e \<in> set (external_jobs db) \<and> ej_schedule_id e = i \<and> unresolved (ej_job_status e)}"

lemma finite_active_keys [simp]: "finite (active_keys db i)"
  unfolding active_keys_def by simp

lemma ActiveOtherOccurrenceCount_card: "ActiveOtherOccurrenceCount db i k = card (active_keys db i - {k})"
proof -
  have "set (other_active_keys db i k) = active_keys db i - {k}"
    by (auto simp: other_active_keys_def active_keys_def)
  moreover have "distinct (other_active_keys db i k)" by (simp add: other_active_keys_def)
  ultimately show ?thesis by (metis ActiveOtherOccurrenceCount_def distinct_card)
qed

lemma active_keys_evolve:
  assumes "evolves T A C db db'"
  shows "active_keys db' i \<subseteq> active_keys db i
    \<union> {r_OccurrenceKey r |r. r \<in> set (schedule_runs db) \<and> r_ID r \<in> C \<and> r_ScheduleID r = i}"
proof
  fix k assume "k \<in> active_keys db' i"
  then consider (run) r' where "r' \<in> set (schedule_runs db')" "r_ScheduleID r' = i" "IsActiveStatus (r_Status r')"
      "k = r_OccurrenceKey r'"
    | (job) e' where "e' \<in> set (external_jobs db')" "ej_schedule_id e' = i" "unresolved (ej_job_status e')"
      "k = ej_occurrence_key e'"
    by (auto simp: active_keys_def)
  then show "k \<in> active_keys db i
      \<union> {r_OccurrenceKey r |r. r \<in> set (schedule_runs db) \<and> r_ID r \<in> C \<and> r_ScheduleID r = i}"
  proof cases
    case run
    then obtain r where "r \<in> set (schedule_runs db)" "row_evolves r r'" "IsActiveStatus (r_Status r) \<or> r_ID r \<in> C"
      using assms unfolding evolves_def runs_evolve_def by blast
    then show ?thesis using run(2,4) unfolding row_evolves_def snapshot_of_def active_keys_def by auto
  next
    case job
    then show ?thesis using assms unfolding evolves_def jobs_evolve_def active_keys_def by fastforce
  qed
qed

text \<open>How many occurrences may be in progress when a run is claimed under a schedule's policy.\<close>

definition claim_limit :: "Schedule \<Rightarrow> int" where
  "claim_limit s = (if p_Overlap (s_Policy s) = OverlapAllow then p_MaxConcurrency (s_Policy s)
                    else min 1 (p_MaxConcurrency (s_Policy s)))"

definition within_limit :: "string \<Rightarrow> nat \<Rightarrow> Schedule \<Rightarrow> bool" where
  "within_limit i n s \<longleftrightarrow> (s_ID s = i \<longrightarrow> claim_limit s \<le> int n)"

definition cap_inv :: "string \<Rightarrow> nat \<Rightarrow> Sys \<Rightarrow> bool" where
  "cap_inv i n \<sigma> \<longleftrightarrow> sys_inv \<sigma> \<and> card (active_keys (sys_db \<sigma>) i) \<le> n"

lemma claim_within_limit:
  assumes "sys_ok db" and "ClaimRunWithToken d db s runID w now ttl token = Inr ((True, token'), db')"
    and "within_limit i n s" and "card (active_keys db i) \<le> n" and "evolves T A {runID} db db'"
  shows "card (active_keys db' i) \<le> n"
proof -
  from ClaimRunWithToken_cases(1) [OF assms(2)] obtain r where r: "r \<in> set (schedule_runs db)" "r_ID r = runID"
      "r_ScheduleID r = s_ID s"
    and count: "int (ActiveOtherOccurrenceCount db (s_ID s) (r_OccurrenceKey r)) < p_MaxConcurrency (s_Policy s)"
      "ActiveOtherOccurrenceCount db (s_ID s) (r_OccurrenceKey r) = 0 \<or> p_Overlap (s_Policy s) = OverlapAllow"
    by blast
  have only: "x = r" if "x \<in> set (schedule_runs db)" "r_ID x = runID" for x
    using run_unique [OF sys_okD(1) [OF assms(1)] that(1) r(1)] that(2) r(2) by simp
  have new: "{r_OccurrenceKey x |x. x \<in> set (schedule_runs db) \<and> r_ID x \<in> {runID} \<and> r_ScheduleID x = i}
      \<subseteq> {k. k = r_OccurrenceKey r \<and> r_ScheduleID r = i}"
    using only by auto
  note evolve = order_trans [OF active_keys_evolve [OF assms(5), of i] Un_mono [OF subset_refl new]]
  show ?thesis
  proof (cases "s_ID s = i")
    case False
    then have "active_keys db' i \<subseteq> active_keys db i" using evolve r(3) by simp
    then show ?thesis using assms(4) by (meson card_mono finite_active_keys order_trans)
  next
    case True
    let ?k = "r_OccurrenceKey r"
    have "active_keys db' i \<subseteq> insert ?k (active_keys db i - {?k})" using evolve r(3) True by auto
    then have "card (active_keys db' i) \<le> card (insert ?k (active_keys db i - {?k}))"
      by (intro card_mono) simp_all
    also have "\<dots> = Suc (card (active_keys db i - {?k}))" by (simp add: card.insert_remove)
    finally have "card (active_keys db' i) \<le> Suc (ActiveOtherOccurrenceCount db (s_ID s) ?k)"
      by (simp add: ActiveOtherOccurrenceCount_card True)
    moreover have "int (ActiveOtherOccurrenceCount db (s_ID s) ?k) < claim_limit s"
      using count by (auto simp: claim_limit_def)
    moreover have "claim_limit s \<le> int n" using assms(3) True by (simp add: within_limit_def)
    ultimately show ?thesis by linarith
  qed
qed

interpretation cap: transition_system initial_sys "sys_step (within_limit i n)" "cap_inv i n" for i n
proof
  fix \<sigma> \<tau> :: Sys
  show "cap_inv i n \<sigma>" if "initial_sys \<sigma>"
    using empty_inv [OF that] that by (simp add: cap_inv_def initial_sys_def empty_db_def active_keys_def)
  show "cap_inv i n \<tau>" if inv: "cap_inv i n \<sigma>" and step: "sys_step (within_limit i n) \<sigma> \<tau>"
  proof -
    have s: "sys_inv \<sigma>" "sys_ok (sys_db \<sigma>)" "card (active_keys (sys_db \<sigma>) i) \<le> n"
      using inv by (simp_all add: cap_inv_def sys_inv_def)
    obtain C T A where ev: "evolves T A C (sys_db \<sigma>) (sys_db \<tau>)"
      and C: "C = {} \<or> claim_step (within_limit i n) (sys_db \<sigma>) (sys_db \<tau>) C"
      using step_evolves [OF step s(1)] by blast
    have "card (active_keys (sys_db \<tau>) i) \<le> n"
    proof (cases "C = {}")
      case True
      then have "active_keys (sys_db \<tau>) i \<subseteq> active_keys (sys_db \<sigma>) i" using active_keys_evolve [OF ev] by simp
      then show ?thesis using s(3) by (meson card_mono finite_active_keys order_trans)
    next
      case False
      then obtain d s' j w now ttl token token' where *: "C = {j}" "within_limit i n s'"
        "ClaimRunWithToken d (sys_db \<sigma>) s' j w now ttl token = Inr ((True, token'), sys_db \<tau>)"
        using C unfolding claim_step_def by blast
      from claim_within_limit [OF s(2) *(3) *(2) s(3) ev [unfolded *(1)]] show ?thesis .
    qed
    then show ?thesis using step_inv [OF s(1) step] by (simp add: cap_inv_def)
  qed
qed

section \<open>A sample run\<close>

text \<open>A schedule is created, a run is recorded, claimed, and recovered after its lease has expired.\<close>

definition idle_run :: RunRow where
  "idle_run = \<lparr>r_ID = ''run_1'', r_ScheduleID = ''sch_1'', r_OccurrenceKey = ''occ_1'', r_NominalTime = 10,
     r_DueTime = 10, r_Status = RunPending, r_Attempt = 1, r_ClaimedByWorkerID = None, r_ClaimExpiresAt = None,
     r_StartedAt = None, r_FinishedAt = None, r_HTTPStatusCode = None, r_ExitCode = None, r_ResultJSON = '''',
     r_ErrorText = None, r_RetryAvailableAt = None, r_CreatedAt = 10, r_UpdatedAt = 10\<rparr>"

definition claimed_row :: RunRow where
  "claimed_row = idle_run\<lparr>r_Status := RunClaimed, r_ClaimedByWorkerID := Some ''w1'',
     r_ClaimExpiresAt := Some 100, r_UpdatedAt := 15\<rparr>"

definition sample_lease :: WorkerLease where
  "sample_lease = \<lparr>wl_id = ''lease_1'', wl_worker_id = ''w1'', wl_run_id = ''run_1'', wl_lease_key = ''run_1'',
     wl_acquired_at = 15, wl_expires_at = 100, wl_heartbeat_at = 15\<rparr>"

definition sys0 :: Sys where
  "sys0 = \<lparr>sys_db = empty_db, sys_tokens = {}, sys_runs = {}\<rparr>"

definition sys_idle :: Sys where
  "sys_idle = \<lparr>sys_db = sample_db\<lparr>schedule_runs := [idle_run]\<rparr>, sys_tokens = {}, sys_runs = {''run_1''}\<rparr>"

definition sys_claimed :: Sys where
  "sys_claimed = \<lparr>sys_db = sample_db\<lparr>schedule_runs := [claimed_row], worker_leases := [sample_lease]\<rparr>,
     sys_tokens = {''lease_1''}, sys_runs = {''run_1''}\<rparr>"

definition sys_reset :: Sys where
  "sys_reset = \<lparr>sys_db = sample_db\<lparr>schedule_runs := [released 120 claimed_row]\<rparr>,
     sys_tokens = {''lease_1''}, sys_runs = {''run_1''}\<rparr>"

lemma initial_sys0: "initial_sys sys0"
  by (simp add: initial_sys_def sys0_def)

lemma step_to_idle: "(sys_step allowed)\<^sup>*\<^sup>* sys0 sys_idle"
proof -
  have "CreateSchedule (sys_db sys0) sample_schedule = Inr sample_db"
    by (simp add: CreateSchedule_def sys0_def sample_db_def empty_db_def)
       (simp add: schedule_check_def sample_schedule_def zero_TargetSpec_def)
  from sys_step.create [OF this] have "sys_step allowed sys0 (sys0\<lparr>sys_db := sample_db\<rparr>)" .
  moreover have "InsertRun sample_db idle_run = Inr (sample_db\<lparr>schedule_runs := [idle_run]\<rparr>)"
    by (simp add: InsertRun_def sample_db_def empty_db_def idle_run_def)
  then have "sys_step allowed (sys0\<lparr>sys_db := sample_db\<rparr>)
      (sys0\<lparr>sys_db := sample_db\<lparr>schedule_runs := [idle_run]\<rparr>, sys_runs := {r_ID idle_run}\<rparr>)"
    using sys_step.insert [of "sys0\<lparr>sys_db := sample_db\<rparr>" idle_run]
    by (simp add: sys0_def run_ok_def idle_run_def)
  moreover have "sys0\<lparr>sys_db := sample_db\<lparr>schedule_runs := [idle_run]\<rparr>, sys_runs := {r_ID idle_run}\<rparr> = sys_idle"
    by (simp add: sys0_def sys_idle_def idle_run_def)
  ultimately show ?thesis by (simp add: rtranclp.rtrancl_into_rtrancl)
qed

lemma idle_claim:
  "ClaimRunWithToken SQLite (sys_db sys_idle) sample_schedule ''run_1'' ''w1'' 15 85 ''lease_1''
   = Inr ((True, ''lease_1''), sys_db sys_claimed)"
proof -
  have "p_MaxConcurrency (s_Policy sample_schedule) = 1" by (simp add: sample_schedule_def)
  then show ?thesis
    by (simp add: ClaimRunWithToken_def ActiveOtherOccurrenceCount_def other_active_keys_def sys_idle_def sys_claimed_def
        sample_db_def empty_db_def idle_run_def claimed_row_def sample_lease_def upsertLease_def Let_def sql_update_def
        sql_delete_def sql_count_def)
qed

lemma step_to_claimed: "allowed sample_schedule \<Longrightarrow> sys_step allowed sys_idle sys_claimed"
  using sys_step.claim [OF idle_claim, of allowed] by (simp add: sys_idle_def sys_claimed_def)

lemma step_to_reset: "sys_step allowed sys_claimed sys_reset"
proof -
  have "ResetClaimedRun (sys_db sys_claimed) ''run_1'' 120 = Inr (sys_db sys_reset)"
    by (simp add: ResetClaimedRun_def sys_claimed_def sys_reset_def sample_db_def empty_db_def claimed_row_def
        sample_lease_def idle_run_def sql_update_def sql_delete_def)
  from sys_step.reset [OF this, of allowed] show ?thesis by (simp add: sys_claimed_def sys_reset_def)
qed

lemma claimed_reachable: "allowed sample_schedule \<Longrightarrow> (sys_step allowed)\<^sup>*\<^sup>* sys0 sys_claimed"
  using step_to_idle step_to_claimed by (rule rtranclp.rtrancl_into_rtrancl)

section \<open>Properties of every interleaving\<close>

text \<open>
  C1: ownership is exclusive in every reachable state. Whatever the interleaving of transactions of
  any number of processes, a claimed or running run has exactly one lease, held by the worker it names
  and expiring when the row says, no two attempts of an occurrence are active at once, and no queued
  run has a lease.
\<close>

theorem exclusive_ownership:
  assumes "initial_sys \<sigma>0" and "(sys_step allowed)\<^sup>*\<^sup>* \<sigma>0 \<sigma>"
    and "r \<in> set (schedule_runs (sys_db \<sigma>))" and "IsActiveStatus (r_Status r)"
  shows "(\<exists>!l. l \<in> set (worker_leases (sys_db \<sigma>)) \<and> wl_run_id l = r_ID r)
    \<and> (\<forall>l \<in> set (worker_leases (sys_db \<sigma>)). wl_run_id l = r_ID r \<longrightarrow>
         r_ClaimedByWorkerID r = Some (wl_worker_id l) \<and> r_ClaimExpiresAt r = Some (wl_expires_at l))
    \<and> (\<forall>r' \<in> set (schedule_runs (sys_db \<sigma>)). IsActiveStatus (r_Status r') \<and> r_OccurrenceKey r' = r_OccurrenceKey r
         \<longrightarrow> r' = r)
    \<and> (\<forall>l \<in> set (worker_leases (sys_db \<sigma>)). \<forall>r' \<in> set (schedule_runs (sys_db \<sigma>)).
         wl_run_id l = r_ID r' \<longrightarrow> \<not> queued (r_Status r'))"
proof -
  have ok: "sys_ok (sys_db \<sigma>)" using history.reachable_inv [OF assms(1,2)] by (simp add: sys_inv_def)
  obtain l where l: "l \<in> set (worker_leases (sys_db \<sigma>))" "wl_run_id l = r_ID r"
    "r_ClaimedByWorkerID r = Some (wl_worker_id l)" "r_ClaimExpiresAt r = Some (wl_expires_at l)"
    using sys_okD(3) [OF ok assms(3,4)] by (auto simp: owned_def)
  have one: "x = l" if "x \<in> set (worker_leases (sys_db \<sigma>))" "wl_run_id x = r_ID r" for x
    using lease_unique [OF sys_okD(1) [OF ok] that(1) l(1)] that(2) l(2) by simp
  have "\<exists>!l. l \<in> set (worker_leases (sys_db \<sigma>)) \<and> wl_run_id l = r_ID r" using l(1,2) one by blast
  moreover have "\<forall>l \<in> set (worker_leases (sys_db \<sigma>)). wl_run_id l = r_ID r \<longrightarrow>
         r_ClaimedByWorkerID r = Some (wl_worker_id l) \<and> r_ClaimExpiresAt r = Some (wl_expires_at l)"
    using one l(3,4) by blast
  moreover have "\<forall>r' \<in> set (schedule_runs (sys_db \<sigma>)). IsActiveStatus (r_Status r') \<and> r_OccurrenceKey r' = r_OccurrenceKey r
         \<longrightarrow> r' = r"
    using sys_okD(5) [OF ok _ assms(3) _ assms(4)] by blast
  moreover have "\<forall>l \<in> set (worker_leases (sys_db \<sigma>)). \<forall>r' \<in> set (schedule_runs (sys_db \<sigma>)).
         wl_run_id l = r_ID r' \<longrightarrow> \<not> queued (r_Status r')"
    using sys_okD(4) [OF ok] by simp
  ultimately show ?thesis by blast
qed

theorem exclusive_ownership_witness:
  "\<exists>!l. l \<in> set (worker_leases (sys_db sys_claimed)) \<and> wl_run_id l = r_ID claimed_row"
proof -
  have "claimed_row \<in> set (schedule_runs (sys_db sys_claimed))" "IsActiveStatus (r_Status claimed_row)"
    by (simp_all add: sys_claimed_def claimed_row_def)
  from exclusive_ownership [OF initial_sys0 claimed_reachable [of "\<lambda>_. True", OF TrueI] this] show ?thesis by blast
qed

text \<open>
  C2: a lost lease stays lost. Once the lease of an execution token has been revoked, every later
  attempt of that execution to mark the run running, renew, checkpoint its job, release it or record
  an outcome fails, in every state any interleaving leads to: no stale worker can overwrite a run.
\<close>

theorem lost_lease_is_fenced:
  assumes "initial_sys \<sigma>0" and "(sys_step allowed)\<^sup>*\<^sup>* \<sigma>0 \<sigma>" and "(sys_step allowed)\<^sup>*\<^sup>* \<sigma> \<tau>"
    and "token \<in> sys_tokens \<sigma>" and "token \<notin> wl_id ` set (worker_leases (sys_db \<sigma>))"
  shows "(\<exists>e. MarkRunRunningWithLease (sys_db \<tau>) i w token now = Inl e)
    \<and> (\<exists>e. RenewLeaseWithToken (sys_db \<tau>) i w token now ttl = Inl e)
    \<and> (\<exists>e. SaveExternalJob json n (sys_db \<tau>) run w token job now c = Inl e)
    \<and> (\<exists>e. RequeueExternalRun (sys_db \<tau>) i w token now False c = Inl e)
    \<and> (\<exists>e. FinishRunWithLease (sys_db \<tau>) run w token now = Inl e)
    \<and> (\<exists>e. FinishExternalFailure (sys_db \<tau>) run w token retry dead now = Inl e)"
proof -
  have "sys_inv \<sigma>" using history.reachable_inv [OF assms(1,2)] .
  then have "later \<sigma> \<tau>" using history.steps_rel [OF assms(3)] by blast
  then have gone: "token \<notin> wl_id ` set (worker_leases (sys_db \<tau>))" using assms(4,5) by (auto simp: later_def)
  have no_lock: "\<exists>e. lockRunLease (sys_db \<tau>) i w token now strict = Inl e" for i strict
  proof (cases "lockRunLease (sys_db \<tau>) i w token now strict")
    case (Inr u)
    then show ?thesis by (rule lockRunLease_owned) (use gone in blast)
  qed simp
  obtain e1 where "lockRunLease (sys_db \<tau>) i w token now True = Inl e1" using no_lock by blast
  moreover obtain e2 where "lockRunLease (sys_db \<tau>) (r_ID run) w token now True = Inl e2" using no_lock by blast
  moreover obtain e3 where "lockRunLease (sys_db \<tau>) (r_ID run) w token now False = Inl e3" using no_lock by blast
  ultimately show ?thesis
    by (simp add: MarkRunRunningWithLease_def RenewLeaseWithToken_def SaveExternalJob_def RequeueExternalRun_def
        FinishRunWithLease_def FinishExternalFailure_def finishExternalRun_def lockOwnedRun_def Let_def)
qed

theorem lost_lease_is_fenced_witness:
  "\<exists>e. FinishRunWithLease (sys_db sys_reset) busy_run ''w1'' ''lease_1'' 130 = Inl e"
proof -
  let ?R = "\<lambda>s :: Schedule. True"
  have "(sys_step ?R)\<^sup>*\<^sup>* sys0 sys_reset"
    using claimed_reachable [of ?R, OF TrueI] step_to_reset by (rule rtranclp.rtrancl_into_rtrancl)
  moreover have "''lease_1'' \<in> sys_tokens sys_reset" "''lease_1'' \<notin> wl_id ` set (worker_leases (sys_db sys_reset))"
    by (simp_all add: sys_reset_def sample_db_def empty_db_def)
  ultimately show ?thesis using lost_lease_is_fenced [OF initial_sys0 _ rtranclp.rtrancl_refl] by blast
qed

text \<open>
  C3: the concurrency limit holds in every reachable state. If every claim for a schedule is made under
  a policy that admits at most \<open>n\<close> occurrences (\<open>max_concurrency\<close>, or one unless overlap is allowed),
  then at no time are more than \<open>n\<close> of its occurrences in progress, counting external jobs whose outcome
  is unknown.
\<close>

theorem concurrency_limit:
  assumes "initial_sys \<sigma>0" and "(sys_step (within_limit i n))\<^sup>*\<^sup>* \<sigma>0 \<sigma>"
  shows "card (active_keys (sys_db \<sigma>) i) \<le> n"
  using cap.reachable_inv [OF assms] by (simp add: cap_inv_def)

theorem concurrency_limit_witness:
  "card (active_keys (sys_db sys_claimed) ''sch_1'') \<le> 1 \<and> active_keys (sys_db sys_claimed) ''sch_1'' \<noteq> {}"
proof -
  have "within_limit ''sch_1'' 1 sample_schedule" by (simp add: within_limit_def claim_limit_def sample_schedule_def)
  from concurrency_limit [OF initial_sys0 claimed_reachable [of "within_limit ''sch_1'' 1", OF this]]
  show ?thesis by (simp add: active_keys_def sys_claimed_def claimed_row_def idle_run_def)
qed

text \<open>
  C4: a finished attempt is never revived. A run that is terminal in some reachable state is terminal,
  with the same schedule, occurrence, nominal time and attempt, in every later state that still holds it;
  and one that has been deleted never comes back.
\<close>

theorem terminal_forever:
  assumes "initial_sys \<sigma>0" and "(sys_step allowed)\<^sup>*\<^sup>* \<sigma>0 \<sigma>" and "(sys_step allowed)\<^sup>*\<^sup>* \<sigma> \<tau>"
    and "r' \<in> set (schedule_runs (sys_db \<tau>))" and "r_ID r' \<in> sys_runs \<sigma>"
  shows "\<exists>r \<in> set (schedule_runs (sys_db \<sigma>)). r_ID r = r_ID r' \<and> r_ScheduleID r = r_ScheduleID r'
    \<and> r_OccurrenceKey r = r_OccurrenceKey r' \<and> r_NominalTime r = r_NominalTime r' \<and> r_Attempt r = r_Attempt r'
    \<and> (terminal (r_Status r) \<longrightarrow> terminal (r_Status r'))"
proof -
  have "sys_inv \<sigma>" using history.reachable_inv [OF assms(1,2)] .
  then have "later \<sigma> \<tau>" using history.steps_rel [OF assms(3)] by blast
  then obtain r where "r \<in> set (schedule_runs (sys_db \<sigma>))" "row_evolves r r'" using assms(4,5) by (auto simp: later_def)
  then show ?thesis by (intro bexI [of _ r]) (simp_all add: row_evolves_def snapshot_of_def)
qed

theorem terminal_forever_witness:
  "\<exists>r \<in> set (schedule_runs (sys_db sys_claimed)). r_ID r = r_ID (released 120 claimed_row)
     \<and> (terminal (r_Status r) \<longrightarrow> terminal (r_Status (released 120 claimed_row)))"
proof -
  have "released 120 claimed_row \<in> set (schedule_runs (sys_db sys_reset))"
    "r_ID (released 120 claimed_row) \<in> sys_runs sys_claimed"
    by (simp_all add: sys_reset_def sys_claimed_def claimed_row_def idle_run_def)
  from terminal_forever [OF initial_sys0 claimed_reachable [of "\<lambda>_. True", OF TrueI] r_into_rtranclp [of "sys_step (\<lambda>_. True)",
      OF step_to_reset] this] show ?thesis by blast
qed

end
