(* ===== verification/Admission.thy ===== *)
theory Admission
  imports System
begin

text \<open>
  Admission of candidates by the dispatcher: the queue policy, who is cancelled, and that the check
  before a claim agrees with the claim.
\<close>

section \<open>Coalescing the queue\<close>

definition unsubmitted :: "DB \<Rightarrow> string \<Rightarrow> RunRow list" where
  "unsubmitted db i = filter (\<lambda>r. GetExternalJob db (r_OccurrenceKey r) = None) (ListPendingRunsBySchedule db i)"

lemma set_unsubmitted:
  "r \<in> set (unsubmitted db i) \<longleftrightarrow> r \<in> set (schedule_runs db) \<and> r_ScheduleID r = i \<and> queued (r_Status r)
     \<and> GetExternalJob db (r_OccurrenceKey r) = None"
  by (auto simp: unsubmitted_def ListPendingRunsBySchedule_def)

lemma distinct_unsubmitted: "wf_db db \<Longrightarrow> distinct (map r_ID (unsubmitted db i))"
  unfolding unsubmitted_def ListPendingRunsBySchedule_def
  by (intro distinct_map_filter) (auto simp: distinct_map distinct_sort inj_on_def dest: wf_dbD(2) run_unique
      intro: distinct_filter)

text \<open>Skipping rows of the table, one after the other.\<close>

lemma FinishRun_superseded:
  assumes "wf_db db" and "r \<in> set (schedule_runs db)" and "\<forall>l \<in> set (worker_leases db). wl_run_id l \<noteq> r_ID r"
  shows "FinishRun db (superseded s now r) = db\<lparr>schedule_runs :=
    sql_update (\<lambda>x. x = r) (superseded s now) (schedule_runs db)\<rparr>"
proof -
  have "schedule_runs (FinishRun_row db (superseded s now r)) = sql_update (\<lambda>x. x = r) (superseded s now) (schedule_runs db)"
    unfolding FinishRun_row_def sql_update_def
    using run_unique [OF assms(1) _ assms(2)]
    by (auto simp: superseded_def outcome_into_def)
  moreover have "worker_leases (ClearLease (FinishRun_row db (superseded s now r)) (r_ID r)) = worker_leases db"
    using assms(3) by (simp add: ClearLease_def FinishRun_row_def table_simps)
  ultimately show ?thesis
    by (simp add: FinishRun_def Let_def ClearLease_def FinishRun_row_def) (simp add: superseded_def)
qed

lemma superseded_simps [simp]:
  "r_ID (superseded s now r) = r_ID r" "run_key (superseded s now r) = run_key r"
  "r_ScheduleID (superseded s now r) = r_ScheduleID r" "r_Status (superseded s now r) = RunSkipped"
  "r_OccurrenceKey (superseded s now r) = r_OccurrenceKey r" "r_FinishedAt (superseded s now r) = Some now"
  by (simp_all add: superseded_def run_key_def)

lemma fold_superseded:
  assumes "wf_db db" and "set rs \<subseteq> set (schedule_runs db)" and "distinct (map r_ID rs)"
    and "\<forall>r \<in> set rs. \<forall>l \<in> set (worker_leases db). wl_run_id l \<noteq> r_ID r"
  shows "fold (\<lambda>r d. FinishRun d (superseded s now r)) rs db =
    db\<lparr>schedule_runs := sql_update (\<lambda>x. x \<in> set rs) (superseded s now) (schedule_runs db)\<rparr>"
  using assms
proof (induction rs arbitrary: db)
  case Nil
  then show ?case by (simp add: sql_update_def)
next
  case (Cons r rs)
  define db1 where "db1 = db\<lparr>schedule_runs := sql_update (\<lambda>x. x = r) (superseded s now) (schedule_runs db)\<rparr>"
  have step: "FinishRun db (superseded s now r) = db1"
    unfolding db1_def using Cons.prems by (intro FinishRun_superseded) auto
  have new: "r_ID x \<noteq> r_ID r" if "x \<in> set rs" for x
  proof -
    have "r_ID r \<notin> r_ID ` set rs" using Cons.prems(3) by simp
    with imageI [OF that, of r_ID] show ?thesis by metis
  qed
  then have notin: "r \<notin> set rs" "superseded s now r \<notin> set rs" by fastforce+
  have "fold (\<lambda>r d. FinishRun d (superseded s now r)) rs db1 =
      db1\<lparr>schedule_runs := sql_update (\<lambda>x. x \<in> set rs) (superseded s now) (schedule_runs db1)\<rparr>"
  proof (rule Cons.IH)
    show "wf_db db1" unfolding db1_def using Cons.prems(1) by (rule wf_update_runs) simp_all
    show "set rs \<subseteq> set (schedule_runs db1)" using Cons.prems(2) notin(1) by (fastforce simp: db1_def table_simps)
  qed (use Cons.prems in \<open>auto simp: db1_def\<close>)
  moreover have "sql_update (\<lambda>x. x \<in> set rs) (superseded s now) (schedule_runs db1)
      = sql_update (\<lambda>x. x \<in> set (r # rs)) (superseded s now) (schedule_runs db)"
    using notin by (auto simp: db1_def sql_update_def)
  ultimately show ?case by (simp add: step db1_def)
qed

text \<open>What the queue policy does: the last unsubmitted run stays, the others are skipped.\<close>

lemma enforceQueuePolicy_effect:
  assumes "sys_ok db"
  shows "enforceQueuePolicy db s now = db\<lparr>schedule_runs :=
    sql_update (\<lambda>x. x \<in> set (butlast (unsubmitted db (s_ID s)))) (superseded s now) (schedule_runs db)\<rparr>"
proof -
  let ?p = "unsubmitted db (s_ID s)"
  note wf = sys_okD(1) [OF assms]
  have dist: "distinct (map r_ID ?p)" using distinct_unsubmitted [OF wf] .
  show ?thesis
  proof (cases "length ?p \<le> 1")
    case True
    then have "butlast ?p = []" by (cases ?p) auto
    with True show ?thesis
      by (simp add: enforceQueuePolicy_def Let_def unsubmitted_def [symmetric] sql_update_def)
  next
    case False
    then have ne: "?p \<noteq> []" by auto
    have "r_ID r \<noteq> r_ID (last ?p)" if "r \<in> set (butlast ?p)" for r
    proof -
      have "distinct (map r_ID (butlast ?p @ [last ?p]))" using dist ne by simp
      then have "r_ID (last ?p) \<notin> r_ID ` set (butlast ?p)" by (simp only: map_append distinct_append) simp
      then show ?thesis using that by (metis imageI)
    qed
    then have keep: "filter (\<lambda>r. r_ID r \<noteq> r_ID (last ?p)) (butlast ?p) = butlast ?p" by simp
    have "set (butlast ?p) \<subseteq> set (schedule_runs db)"
      using in_set_butlastD set_unsubmitted by (metis subsetI)
    moreover have "distinct (map r_ID (butlast ?p))" using dist by (simp add: map_butlast distinct_butlast)
    moreover have "\<forall>r \<in> set (butlast ?p). \<forall>l \<in> set (worker_leases db). wl_run_id l \<noteq> r_ID r"
      using sys_okD(4) [OF assms] in_set_butlastD set_unsubmitted by metis
    ultimately have "fold (\<lambda>r d. FinishRun d (superseded s now r)) (butlast ?p) db =
      db\<lparr>schedule_runs := sql_update (\<lambda>x. x \<in> set (butlast ?p)) (superseded s now) (schedule_runs db)\<rparr>"
      by (intro fold_superseded [OF wf])
    then show ?thesis using False
      by (simp add: enforceQueuePolicy_def Let_def unsubmitted_def [symmetric] keep)
  qed
qed

text \<open>
  C31: the queue policy keeps exactly the newest waiting occurrence. Of the queued runs of the schedule
  without an external job, the last in the order of due and creation time stays as it is; every other
  one becomes skipped and finished with a reason; and nothing else in the database changes.
\<close>

theorem queue_policy_keeps_latest:
  assumes "sys_ok db" and "r \<in> set (schedule_runs db)"
    and waiting_def: "waiting = unsubmitted db (s_ID s)"
  shows "(r \<in> set waiting \<and> r \<noteq> last waiting \<longrightarrow>
        (\<exists>r' \<in> set (schedule_runs (enforceQueuePolicy db s now)). r_ID r' = r_ID r \<and> r_Status r' = RunSkipped
           \<and> r_FinishedAt r' = Some now \<and> r_ErrorText r' \<noteq> None))
    \<and> (r \<notin> set waiting \<or> r = last waiting \<longrightarrow> r \<in> set (schedule_runs (enforceQueuePolicy db s now)))
    \<and> set (unsubmitted (enforceQueuePolicy db s now) (s_ID s)) = (if waiting = [] then {} else {last waiting})
    \<and> (\<exists>rows. length rows = length (schedule_runs db) \<and> enforceQueuePolicy db s now = db\<lparr>schedule_runs := rows\<rparr>)"
proof -
  let ?f = "\<lambda>x. if x \<in> set (butlast waiting) then superseded s now x else x"
  have db': "enforceQueuePolicy db s now = db\<lparr>schedule_runs := map ?f (schedule_runs db)\<rparr>"
    using enforceQueuePolicy_effect [OF assms(1), of s now] by (simp add: waiting_def sql_update_def)
  have dist: "distinct waiting"
    using distinct_unsubmitted [OF sys_okD(1) [OF assms(1)]] by (auto simp: waiting_def distinct_map)
  have front: "x \<in> set (butlast waiting) \<longleftrightarrow> x \<in> set waiting \<and> x \<noteq> last waiting" for x
  proof (cases "waiting = []")
    case False
    then have w: "waiting = butlast waiting @ [last waiting]" by simp
    have "distinct (butlast waiting @ [last waiting])" using dist w by simp
    then have "last waiting \<notin> set (butlast waiting)" by simp
    moreover have "set waiting = insert (last waiting) (set (butlast waiting))"
      by (subst w) simp
    ultimately show ?thesis by blast
  qed simp
  have "\<exists>r' \<in> set (schedule_runs (enforceQueuePolicy db s now)). r_ID r' = r_ID r \<and> r_Status r' = RunSkipped
      \<and> r_FinishedAt r' = Some now \<and> r_ErrorText r' \<noteq> None" if "r \<in> set waiting" "r \<noteq> last waiting"
    using assms(2) that front by (intro bexI [of _ "superseded s now r"]) (auto simp: db' superseded_def)
  moreover have "r \<in> set (schedule_runs (enforceQueuePolicy db s now))" if "r \<notin> set waiting \<or> r = last waiting"
    using assms(2) that front by (force simp: db')
  moreover have "set (unsubmitted (enforceQueuePolicy db s now) (s_ID s)) = (if waiting = [] then {} else {last waiting})"
  proof -
    have "x \<in> set (unsubmitted (enforceQueuePolicy db s now) (s_ID s)) \<longleftrightarrow> x \<in> set waiting \<and> x \<notin> set (butlast waiting)" for x
      unfolding set_unsubmitted waiting_def [symmetric] db'
      by (auto simp: GetExternalJob_def set_unsubmitted waiting_def)
    then have "set (unsubmitted (enforceQueuePolicy db s now) (s_ID s)) = {x \<in> set waiting. x \<notin> set (butlast waiting)}"
      by blast
    also have "\<dots> = (if waiting = [] then {} else {last waiting})"
    proof (cases "waiting = []")
      case False
      then have "{x \<in> set waiting. x \<notin> set (butlast waiting)} = {last waiting}"
        using last_in_set [OF False] front by blast
      with False show ?thesis by simp
    qed simp
    finally show ?thesis .
  qed
  moreover have "\<exists>rows. length rows = length (schedule_runs db) \<and> enforceQueuePolicy db s now = db\<lparr>schedule_runs := rows\<rparr>"
    by (intro exI [of _ "map ?f (schedule_runs db)"]) (simp add: db')
  ultimately show ?thesis by blast
qed

text \<open>The sample: two waiting occurrences, and one in progress.\<close>

definition waiting_run :: "string \<Rightarrow> time \<Rightarrow> RunRow" where
  "waiting_run i due = idle_run\<lparr>r_ID := i, r_OccurrenceKey := i, r_DueTime := due, r_NominalTime := due\<rparr>"

definition crowded_db :: DB where
  "crowded_db = sample_db\<lparr>schedule_runs := [claimed_row, waiting_run ''run_2'' 20, waiting_run ''run_3'' 30],
     worker_leases := [sample_lease]\<rparr>"

lemma crowded_ok: "sys_ok crowded_db"
  by (simp add: sys_ok_def wf_defs crowded_db_def sample_db_def empty_db_def claimed_row_def idle_run_def
      waiting_run_def sample_lease_def schedule_ids_def run_ids_def run_ok_def owned_def run_key_def)

lemma crowded_waiting: "unsubmitted crowded_db ''sch_1'' = [waiting_run ''run_2'' 20, waiting_run ''run_3'' 30]"
  by (simp add: unsubmitted_def ListPendingRunsBySchedule_def crowded_db_def sample_db_def empty_db_def claimed_row_def
      idle_run_def waiting_run_def GetExternalJob_def)

lemma crowded_in: "waiting_run ''run_2'' 20 \<in> set (schedule_runs crowded_db)"
  by (simp add: crowded_db_def)

lemma waiting_run_differ: "waiting_run ''run_2'' 20 \<noteq> waiting_run ''run_3'' 30"
  by (simp add: waiting_run_def idle_run_def)

theorem queue_policy_keeps_latest_witness:
  "\<exists>r' \<in> set (schedule_runs (enforceQueuePolicy crowded_db sample_schedule 50)).
     r_ID r' = r_ID (waiting_run ''run_2'' 20) \<and> r_Status r' = RunSkipped"
proof -
  have w: "[waiting_run ''run_2'' 20, waiting_run ''run_3'' 30] = unsubmitted crowded_db (s_ID sample_schedule)"
    by (simp add: crowded_waiting)
  have "waiting_run ''run_2'' 20 \<in> set [waiting_run ''run_2'' 20, waiting_run ''run_3'' 30]
      \<and> waiting_run ''run_2'' 20 \<noteq> last [waiting_run ''run_2'' 20, waiting_run ''run_3'' 30]"
    by (simp add: waiting_run_differ)
  with queue_policy_keeps_latest [OF crowded_ok crowded_in w, of 50] show ?thesis by blast
qed

section \<open>Admission\<close>

text \<open>
  A full schedule drops queued work whatever its overlap policy. When as many other occurrences are
  in progress as \<open>max_concurrency\<close> allows, the candidate is not admitted and every waiting occurrence
  but the newest is skipped, even under \<open>forbid\<close>, whose documentation says that nothing is skipped.
\<close>

theorem full_schedule_skips_queue:
  assumes "sys_ok db" and "p_Overlap (s_Policy s) = OverlapForbid"
    and "p_MaxConcurrency (s_Policy s) \<le> int (ActiveOtherOccurrenceCount db (s_ID s) (r_OccurrenceKey run))"
    and "q \<in> set (butlast (unsubmitted db (s_ID s)))"
    and "prepareScheduleForClaim (db, act) s (run :: RunRow) now = (admitted, db', act')"
  shows "\<not> admitted \<and> act' = act
    \<and> (\<exists>q' \<in> set (schedule_runs db'). r_ID q' = r_ID q \<and> r_OccurrenceKey q' = r_OccurrenceKey q \<and> r_Status q' = RunSkipped)"
proof -
  have "\<not> admitted" "act' = act" and db': "db' = enforceQueuePolicy db s now"
    using assms(3,5) by (simp_all add: prepareScheduleForClaim_def Let_def)
  moreover have "q \<in> set (schedule_runs db)" using assms(4) in_set_butlastD set_unsubmitted by metis
  then have "superseded s now q \<in> set (schedule_runs db')"
    using assms(4) unfolding db' enforceQueuePolicy_effect [OF assms(1)] by (auto simp: table_simps)
  ultimately show ?thesis by (intro conjI bexI [of _ "superseded s now q"]) simp_all
qed

theorem full_schedule_skips_queue_witness:
  "\<exists>db' act'. prepareScheduleForClaim (crowded_db, \<lparr>active_executions = Map.empty, cancelled_executions = {}\<rparr>)
      sample_schedule (waiting_run ''run_2'' 20) 50 = (False, db', act')
    \<and> (\<exists>q' \<in> set (schedule_runs db'). r_ID q' = r_ID (waiting_run ''run_2'' 20) \<and> r_Status q' = RunSkipped)"
proof -
  let ?st = "prepareScheduleForClaim (crowded_db, \<lparr>active_executions = Map.empty, cancelled_executions = {}\<rparr>)
      sample_schedule (waiting_run ''run_2'' 20) 50"
  obtain a db' act' where st: "?st = (a, db', act')" by (cases ?st) auto
  have pol: "p_Overlap (s_Policy sample_schedule) = OverlapForbid" "p_MaxConcurrency (s_Policy sample_schedule) = 1"
    by (simp_all add: sample_schedule_def)
  have n: "ActiveOtherOccurrenceCount crowded_db ''sch_1'' (r_OccurrenceKey (waiting_run ''run_2'' 20)) = 1"
    by (simp add: ActiveOtherOccurrenceCount_def other_active_keys_def crowded_db_def sample_db_def empty_db_def
        claimed_row_def idle_run_def waiting_run_def)
  have q: "waiting_run ''run_2'' 20 \<in> set (butlast (unsubmitted crowded_db (s_ID sample_schedule)))"
    by (simp add: crowded_waiting)
  have "p_MaxConcurrency (s_Policy sample_schedule)
      \<le> int (ActiveOtherOccurrenceCount crowded_db (s_ID sample_schedule) (r_OccurrenceKey (waiting_run ''run_2'' 20)))"
    by (simp add: n pol)
  note fact = full_schedule_skips_queue [OF crowded_ok pol(1) this q st]
  then have "a = False" by simp
  with st have "?st = (False, db', act')" by simp
  with fact show ?thesis by blast
qed

text \<open>
  C30: an admitted candidate is claimed. For a queued run of the schedule whose occurrence has no other
  active attempt, if the dispatcher's check admits it and the database has not changed since, then the
  claim succeeds on either database: the run becomes claimed by this worker until the lease expires,
  under the fresh token.
\<close>

theorem admitted_is_claimed:
  assumes "sys_ok db" and "r \<in> set (schedule_runs db)" and "queued (r_Status r)" and "r_ScheduleID r = s_ID s"
    and "\<forall>x \<in> set (schedule_runs db). r_OccurrenceKey x = r_OccurrenceKey r \<longrightarrow> \<not> IsActiveStatus (r_Status x)"
    and "prepareScheduleForClaim (db, act) s r now = (True, db1, act1)"
    and "s_ID s \<in> schedule_ids db" and "token \<notin> wl_id ` set (worker_leases db)"
  shows "db1 = db \<and> act1 = act
    \<and> (\<exists>db'. ClaimRunWithToken d db s (r_ID r) w claimedAt ttl token = Inr ((True, token), db')
        \<and> (\<exists>r' \<in> set (schedule_runs db'). snapshot_of r r' \<and> r_Status r' = RunClaimed
             \<and> r_ClaimedByWorkerID r' = Some w \<and> r_ClaimExpiresAt r' = Some (claimedAt + ttl)))"
proof -
  let ?n = "int (ActiveOtherOccurrenceCount db (s_ID s) (r_OccurrenceKey r))"
  have adm: "db1 = db" "act1 = act" "?n < p_MaxConcurrency (s_Policy s)"
    "?n = 0 \<or> p_Overlap (s_Policy s) = OverlapAllow"
    using assms(6) by (auto simp: prepareScheduleForClaim_def Let_def split: if_splits OverlapPolicy.splits)
  note wf = sys_okD(1) [OF assms(1)]
  have find: "sql_find (\<lambda>x. r_ID x = r_ID r) (schedule_runs db) = Some r" using run_by_id [OF wf assms(2)] .
  obtain sch where "sql_find (\<lambda>x. s_ID x = s_ID s) (schedules db) = Some sch"
    using assms(7) by (cases "sql_find (\<lambda>x. s_ID x = s_ID s) (schedules db)") (auto simp: table_simps in_ids)
  have alone: "sql_count (\<lambda>x. r_OccurrenceKey x = r_OccurrenceKey r \<and> r_ID x \<noteq> r_ID r \<and> IsActiveStatus (r_Status x))
      (schedule_runs db) = 0" using assms(5) by (auto simp: table_simps)
  define db2 where "db2 = db\<lparr>schedule_runs := sql_update (\<lambda>x. r_ID x = r_ID r \<and> queued (r_Status x))
      (\<lambda>x. x\<lparr>r_Status := RunClaimed, r_ClaimedByWorkerID := Some w, r_ClaimExpiresAt := Some (claimedAt + ttl),
             r_UpdatedAt := claimedAt\<rparr>) (schedule_runs db)\<rparr>"
  have "\<exists>db'. upsertLease d db2 token w (r_ID r) claimedAt (claimedAt + ttl) = Inr db'"
    using assms(8) by (auto simp: upsertLease_def db2_def Let_def image_iff split: dialect.split)
  then obtain db' where up: "upsertLease d db2 token w (r_ID r) claimedAt (claimedAt + ttl) = Inr db'" by blast
  have "r_Status r = RunPending \<or> r_Status r = RunRetryScheduled" using assms(3) by (simp add: queued_def)
  then have claim: "ClaimRunWithToken d db s (r_ID r) w claimedAt ttl token = Inr ((True, token), db')"
    using find alone adm(3,4) assms(4) \<open>sql_find _ (schedules db) = Some sch\<close> up
    by (auto simp: ClaimRunWithToken_def Let_def db2_def)
  obtain L where "db' = db2\<lparr>worker_leases := L\<rparr>" using upsertLease_frame [OF up] by blast
  then have "r\<lparr>r_Status := RunClaimed, r_ClaimedByWorkerID := Some w, r_ClaimExpiresAt := Some (claimedAt + ttl),
      r_UpdatedAt := claimedAt\<rparr> \<in> set (schedule_runs db')"
    using assms(2,3) by (auto simp: db2_def table_simps image_iff)
  moreover have "snapshot_of r (r\<lparr>r_Status := RunClaimed, r_ClaimedByWorkerID := Some w,
      r_ClaimExpiresAt := Some (claimedAt + ttl), r_UpdatedAt := claimedAt\<rparr>)" by (simp add: snapshot_of_def)
  ultimately show ?thesis using adm(1,2) claim
    by (intro conjI exI [of _ db'] bexI [of _ "r\<lparr>r_Status := RunClaimed, r_ClaimedByWorkerID := Some w,
      r_ClaimExpiresAt := Some (claimedAt + ttl), r_UpdatedAt := claimedAt\<rparr>"]) simp_all
qed

lemma idle_ok: "sys_ok (sys_db sys_idle)"
  using history.reachable_inv [OF initial_sys0 step_to_idle [of "\<lambda>_. True"]] by (simp add: sys_inv_def)

theorem admitted_is_claimed_witness:
  "\<exists>db'. ClaimRunWithToken Postgres (sys_db sys_idle) sample_schedule (r_ID idle_run) ''w2'' 40 60 ''tok''
     = Inr ((True, ''tok''), db')"
proof -
  have r: "idle_run \<in> set (schedule_runs (sys_db sys_idle))" "queued (r_Status idle_run)"
    "r_ScheduleID idle_run = s_ID sample_schedule"
    "\<forall>x \<in> set (schedule_runs (sys_db sys_idle)). r_OccurrenceKey x = r_OccurrenceKey idle_run \<longrightarrow> \<not> IsActiveStatus (r_Status x)"
    by (simp_all add: sys_idle_def idle_run_def)
  have "p_MaxConcurrency (s_Policy sample_schedule) = 1" by (simp add: sample_schedule_def)
  then have p: "prepareScheduleForClaim (sys_db sys_idle, act) sample_schedule idle_run 30 = (True, sys_db sys_idle, act)"
    for act
    by (simp add: prepareScheduleForClaim_def ActiveOtherOccurrenceCount_def other_active_keys_def sys_idle_def
        sample_db_def empty_db_def idle_run_def)
  have "s_ID sample_schedule \<in> schedule_ids (sys_db sys_idle)" "''tok'' \<notin> wl_id ` set (worker_leases (sys_db sys_idle))"
    by (simp_all add: sys_idle_def sample_db_def empty_db_def schedule_ids_def)
  from admitted_is_claimed [OF idle_ok r p this] show ?thesis by blast
qed

text \<open>
  Only replace cancels, and never remote work. The admission check cancels at most the local
  executions of active runs of this very schedule, and it cancels any only if the policy is
  \<open>replace\<close> and no external job of the schedule has an unknown outcome.
\<close>

theorem cancellation_is_local:
  assumes "prepareScheduleForClaim (db, act) s (run :: RunRow) now = (admitted, db', act')"
  shows "active_executions act' = active_executions act
    \<and> cancelled_executions act \<subseteq> cancelled_executions act'
    \<and> (\<forall>token \<in> cancelled_executions act' - cancelled_executions act.
         p_Overlap (s_Policy s) = OverlapReplace \<and> UnresolvedExternalJobCount db (s_ID s) = 0
         \<and> (\<exists>r \<in> set (schedule_runs db). r_ScheduleID r = s_ID s \<and> IsActiveStatus (r_Status r)
              \<and> active_executions act (r_ID r) = Some token))"
proof -
  have cancel: "active_executions (fold (\<lambda>r. cancelRun (r_ID r)) rs a) = active_executions a
      \<and> cancelled_executions a \<subseteq> cancelled_executions (fold (\<lambda>r. cancelRun (r_ID r)) rs a)
      \<and> (\<forall>t \<in> cancelled_executions (fold (\<lambda>r. cancelRun (r_ID r)) rs a) - cancelled_executions a.
           \<exists>r \<in> set rs. active_executions a (r_ID r) = Some t)" for rs :: "RunRow list" and a
  proof (induction rs arbitrary: a)
    case (Cons r rs)
    have "active_executions (cancelRun (r_ID r) a) = active_executions a"
      and "cancelled_executions (cancelRun (r_ID r) a) =
        cancelled_executions a \<union> {t. active_executions a (r_ID r) = Some t}"
      by (auto simp: cancelRun_def split: option.split)
    with Cons.IH [of "cancelRun (r_ID r) a"] show ?case by auto
  qed simp
  have "act' = act \<or> p_Overlap (s_Policy s) = OverlapReplace \<and> UnresolvedExternalJobCount db (s_ID s) = 0
      \<and> act' = fold (\<lambda>r. cancelRun (r_ID r)) (ListActiveRuns db (s_ID s)) act"
    using assms by (auto simp: prepareScheduleForClaim_def Let_def split: if_splits OverlapPolicy.splits)
  then show ?thesis
  proof
    assume "act' = act"
    then show ?thesis by simp
  next
    assume *: "p_Overlap (s_Policy s) = OverlapReplace \<and> UnresolvedExternalJobCount db (s_ID s) = 0
      \<and> act' = fold (\<lambda>r. cancelRun (r_ID r)) (ListActiveRuns db (s_ID s)) act"
    have rows: "set (ListActiveRuns db (s_ID s)) = {r \<in> set (schedule_runs db). r_ScheduleID r = s_ID s \<and> IsActiveStatus (r_Status r)}"
      by (simp add: ListActiveRuns_def)
    from * cancel [of "ListActiveRuns db (s_ID s)" act] show ?thesis unfolding rows by blast
  qed
qed

theorem cancellation_is_local_witness:
  "\<exists>admitted db' act'. prepareScheduleForClaim (crowded_db, \<lparr>active_executions = [''run_1'' \<mapsto> ''execution_1''],
       cancelled_executions = {}\<rparr>) sample_schedule (waiting_run ''run_2'' 20) 50 = (admitted, db', act')
     \<and> active_executions act' = [''run_1'' \<mapsto> ''execution_1'']"
proof -
  let ?st = "prepareScheduleForClaim (crowded_db, \<lparr>active_executions = [''run_1'' \<mapsto> ''execution_1''],
      cancelled_executions = {}\<rparr>) sample_schedule (waiting_run ''run_2'' 20) 50"
  obtain a db' act' where st: "?st = (a, db', act')" by (cases ?st) auto
  from cancellation_is_local [OF this] have "active_executions act' = [''run_1'' \<mapsto> ''execution_1'']" by simp
  with st show ?thesis by blast
qed

end
