(* ===== verification/Recovery.thy ===== *)
theory Recovery
  imports Admission
begin

text \<open>
  Recovery of expired leases by the dispatcher: one step per listed lease, and the whole pass.
\<close>

section \<open>One expired lease\<close>

text \<open>An active run whose lease has expired, as \<open>ListExpiredLeases\<close> returns it.\<close>

definition expired_row :: "DB \<Rightarrow> time \<Rightarrow> RunRow \<Rightarrow> bool" where
  "expired_row db now r \<longleftrightarrow> r \<in> set (schedule_runs db)
     \<and> (\<exists>l \<in> set (worker_leases db). wl_run_id l = r_ID r \<and> wl_expires_at l \<le> now)"

text \<open>No attempt and no dead letter is lost.\<close>

definition keeps_work :: "DB \<Rightarrow> DB \<Rightarrow> bool" where
  "keeps_work db db' \<longleftrightarrow> set (dead_letters db) \<subseteq> set (dead_letters db')
     \<and> (\<forall>q \<in> set (schedule_runs db). \<exists>q' \<in> set (schedule_runs db').
          r_ID q' = r_ID q \<and> r_OccurrenceKey q' = r_OccurrenceKey q \<and> r_Attempt q' = r_Attempt q)"

lemma keeps_work_trans: "keeps_work db db1 \<Longrightarrow> keeps_work db1 db2 \<Longrightarrow> keeps_work db db2"
  unfolding keeps_work_def by (metis subset_trans)

lemma keeps_work_update:
  assumes "set (dead_letters db) \<subseteq> set (dead_letters db')" and "schedule_runs db' = sql_update p f (schedule_runs db) @ added"
    and "\<And>q. r_ID (f q) = r_ID q \<and> r_OccurrenceKey (f q) = r_OccurrenceKey q \<and> r_Attempt (f q) = r_Attempt q"
  shows "keeps_work db db'"
proof -
  have "(if p q then f q else q) \<in> set (schedule_runs db')" if "q \<in> set (schedule_runs db)" for q
    using that by (auto simp: assms(2) sql_update_def)
  then show ?thesis using assms(1,3) unfolding keeps_work_def by (metis (full_types))
qed

text \<open>What recovering the run \<open>i\<close> does to the rest: its lease goes, the other rows stay, and any row it adds
  is a scheduled retry.\<close>

definition recovers :: "string \<Rightarrow> DB \<Rightarrow> DB \<Rightarrow> bool" where
  "recovers i db db' \<longleftrightarrow> set (worker_leases db') = {l \<in> set (worker_leases db). wl_run_id l \<noteq> i}
     \<and> (\<forall>q \<in> set (schedule_runs db). r_ID q \<noteq> i \<longrightarrow> q \<in> set (schedule_runs db'))
     \<and> (\<forall>q \<in> set (schedule_runs db'). r_ID q \<noteq> i \<longrightarrow> q \<in> set (schedule_runs db) \<or> r_Status q = RunRetryScheduled)
     \<and> keeps_work db db' \<and> external_jobs db' = external_jobs db \<and> schedules db' = schedules db"

text \<open>What becomes of a running attempt whose worker is gone and which no runner knows of: it has failed, and is
  followed by the next attempt, or by a dead letter when the policy allows no further attempt.\<close>

definition lease_expired_text :: string where
  "lease_expired_text = ''worker lease expired during execution''"

definition attempt_lost :: "DB \<Rightarrow> RunRow \<Rightarrow> Schedule \<Rightarrow> RunRow \<Rightarrow> bool" where
  "attempt_lost db' r s r' \<longleftrightarrow> r_ID r' = r_ID r \<and> r_Attempt r' = r_Attempt r \<and> r_ErrorText r' = Some lease_expired_text
     \<and> (if rp_Strategy (s_Retry s) \<noteq> RetryNone \<and> r_Attempt r < rp_MaxAttempts (s_Retry s)
        then r_Status r' = RunFailed
          \<and> (\<exists>q \<in> set (schedule_runs db'). r_OccurrenceKey q = r_OccurrenceKey r \<and> r_Attempt q = r_Attempt r + 1)
        else r_Status r' = RunDeadLettered
          \<and> (\<exists>d \<in> set (dead_letters db'). dl_RunID d = r_ID r \<and> dl_Reason d = lease_expired_text))"

lemma attempt_lost_kept: "attempt_lost db1 r s r' \<Longrightarrow> keeps_work db1 db2 \<Longrightarrow> attempt_lost db2 r s r'"
  unfolding attempt_lost_def keeps_work_def by (auto split: if_splits) metis+

lemma recovers_released:
  assumes "schedule_runs db' = sql_update p (released now) (schedule_runs db)"
    and "set (worker_leases db') = {l \<in> set (worker_leases db). wl_run_id l \<noteq> i}"
    and "external_jobs db' = external_jobs db" "schedules db' = schedules db" "dead_letters db' = dead_letters db"
    and "r \<in> set (schedule_runs db)" "p r" "\<And>q. p q \<Longrightarrow> r_ID q = i"
  shows "recovers i db db' \<and> released now r \<in> set (schedule_runs db')"
proof -
  have "keeps_work db db'" by (rule keeps_work_update [of _ _ p "released now" "[]"]) (simp_all add: assms(1,5) released_def)
  moreover have runs: "set (schedule_runs db') = (\<lambda>q. if p q then released now q else q) ` set (schedule_runs db)"
    by (simp add: assms(1) table_simps)
  moreover have "r_ID (released now q) = r_ID q" for q by (simp add: released_def)
  moreover have "released now r \<in> set (schedule_runs db')" using assms(6,7) unfolding runs by force
  ultimately show ?thesis using assms(2-4,8) unfolding recovers_def by auto
qed

lemma expired_lookup:
  assumes "sys_ok db" and "expired_row db now r"
  obtains l where "l \<in> set (worker_leases db)" and "wl_run_id l = r_ID r" and "wl_expires_at l \<le> now"
    and "sql_find (\<lambda>x. r_ID x = r_ID r) (schedule_runs db) = Some r"
    and "sql_find (\<lambda>x. wl_run_id x = r_ID r) (worker_leases db) = Some l"
    and "IsActiveStatus (r_Status r) \<longrightarrow> r_ClaimedByWorkerID r = Some (wl_worker_id l)"
proof -
  note wf = sys_okD(1) [OF assms(1)]
  obtain l where l: "l \<in> set (worker_leases db)" "wl_run_id l = r_ID r" "wl_expires_at l \<le> now"
    and r: "r \<in> set (schedule_runs db)" using assms(2) by (auto simp: expired_row_def)
  have "sql_find (\<lambda>x. wl_run_id x = wl_run_id l) (worker_leases db) = Some l"
    using wf_dbD(5) [OF wf] l(1) by (rule sql_find_key)
  moreover have "r_ClaimedByWorkerID r = Some (wl_worker_id l)" if active: "IsActiveStatus (r_Status r)"
  proof -
    obtain l' where l': "l' \<in> set (worker_leases db)" "wl_run_id l' = r_ID r"
      "r_ClaimedByWorkerID r = Some (wl_worker_id l')"
      using sys_okD(3) [OF assms(1) r active] by (auto simp: owned_def)
    moreover have "l' = l" using lease_unique [OF wf l'(1) l(1)] l'(2) l(2) by simp
    ultimately show ?thesis by simp
  qed
  ultimately show ?thesis using l run_by_id [OF wf r] by (intro that [of l]) simp_all
qed

lemma lease_by_token:
  assumes "wf_db db" and "l \<in> set (worker_leases db)" and "wl_run_id l = i"
  shows "{x \<in> set (worker_leases db). wl_id x \<noteq> wl_id l} = {x \<in> set (worker_leases db). wl_run_id x \<noteq> i}"
proof -
  have "wl_id x \<noteq> wl_id l \<longleftrightarrow> wl_run_id x \<noteq> i" if "x \<in> set (worker_leases db)" for x
    using lease_unique_id [OF assms(1) that assms(2)] lease_unique [OF assms(1) that assms(2)] assms(3) by metis
  then show ?thesis by blast
qed

lemma recover_claimed:
  assumes ok: "sys_ok db" and r: "expired_row db now r" "r_Status r = RunClaimed"
  shows "\<exists>db'. ResetClaimedRun db (r_ID r) now = Inr db' \<and> recovers (r_ID r) db db' \<and> released now r \<in> set (schedule_runs db')"
  using ok r(1)
proof (rule expired_lookup)
  fix l assume l: "l \<in> set (worker_leases db)" "wl_run_id l = r_ID r" "wl_expires_at l \<le> now"
    and find: "sql_find (\<lambda>x. r_ID x = r_ID r) (schedule_runs db) = Some r"
      "sql_find (\<lambda>x. wl_run_id x = r_ID r) (worker_leases db) = Some l"
  have "r \<in> set (schedule_runs db)" using r(1) by (simp add: expired_row_def)
  let ?db = "db\<lparr>schedule_runs := sql_update (\<lambda>x. r_ID x = r_ID r \<and> r_Status x = RunClaimed) (released now) (schedule_runs db),
    worker_leases := sql_delete (\<lambda>x. wl_id x = wl_id l) (worker_leases db)\<rparr>"
  have "ResetClaimedRun db (r_ID r) now = Inr ?db" using find l r(2) by (simp add: ResetClaimedRun_def)
  moreover have "set (worker_leases ?db) = {l \<in> set (worker_leases db). wl_run_id l \<noteq> r_ID r}"
    using lease_by_token [OF sys_okD(1) [OF ok] l(1,2)] by (simp add: table_simps)
  then have "recovers (r_ID r) db ?db \<and> released now r \<in> set (schedule_runs ?db)"
    by (intro recovers_released [where p = "\<lambda>x. r_ID x = r_ID r \<and> r_Status x = RunClaimed"]) (simp_all add: \<open>r \<in> set (schedule_runs db)\<close> r(2))
  ultimately show ?thesis by blast
qed

lemma insert_receipt_frame:
  "insert_receipt db c = Inr db' \<Longrightarrow> schedule_runs db' = schedule_runs db \<and> worker_leases db' = worker_leases db
     \<and> external_jobs db' = external_jobs db \<and> schedules db' = schedules db \<and> dead_letters db' = dead_letters db"
  by (auto simp: insert_receipt_def split: if_splits)

lemma insert_receipt_errors: "insert_receipt db c = Inl e \<Longrightarrow> e \<noteq> ErrLeaseLost"
  by (auto simp: insert_receipt_def split: if_splits)

lemma recover_external:
  assumes ok: "sys_ok db" and r: "expired_row db now r" "r_Status r = RunRunning"
  shows "RequeueExternalRun db (r_ID r) '''' '''' now True c \<noteq> Inl ErrLeaseLost"
    and "RequeueExternalRun db (r_ID r) '''' '''' now True c = Inr db' \<Longrightarrow>
      recovers (r_ID r) db db' \<and> released now r \<in> set (schedule_runs db')"
proof -
  obtain l where l: "l \<in> set (worker_leases db)" "wl_run_id l = r_ID r" "wl_expires_at l \<le> now"
    and find: "sql_find (\<lambda>x. r_ID x = r_ID r) (schedule_runs db) = Some r"
      "sql_find (\<lambda>x. wl_run_id x = r_ID r) (worker_leases db) = Some l"
    using ok r(1) by (rule expired_lookup)
  let ?db = "db\<lparr>schedule_runs := sql_update (\<lambda>x. r_ID x = r_ID r) (released now) (schedule_runs db),
    worker_leases := sql_delete (\<lambda>x. wl_id x = wl_id l) (worker_leases db)\<rparr>"
  obtain rc where eq: "RequeueExternalRun db (r_ID r) '''' '''' now True c = insert_receipt ?db rc"
    using find l(3) r(2) by (simp add: RequeueExternalRun_def)
  then show "RequeueExternalRun db (r_ID r) '''' '''' now True c \<noteq> Inl ErrLeaseLost"
    using insert_receipt_errors by metis
  show "recovers (r_ID r) db db' \<and> released now r \<in> set (schedule_runs db')"
    if "RequeueExternalRun db (r_ID r) '''' '''' now True c = Inr db'"
  proof -
    have frame: "schedule_runs db' = schedule_runs ?db" "worker_leases db' = worker_leases ?db"
      "external_jobs db' = external_jobs db" "schedules db' = schedules db" "dead_letters db' = dead_letters db"
      using insert_receipt_frame [of ?db rc db'] that eq by simp_all
    moreover have "r \<in> set (schedule_runs db)" using r(1) by (simp add: expired_row_def)
    moreover have "set (worker_leases db') = {l \<in> set (worker_leases db). wl_run_id l \<noteq> r_ID r}"
      using lease_by_token [OF sys_okD(1) [OF ok] l(1,2)] by (simp add: frame(2) table_simps)
    ultimately show ?thesis by (intro recovers_released) simp_all
  qed
qed

lemma insert_retry_errors: "insert_retry db rt = Inl e \<Longrightarrow> e \<noteq> ErrLeaseLost"
  by (auto simp: insert_retry_def split: if_splits)

lemma InsertDeadLetter_errors: "InsertDeadLetter db d = Inl e \<Longrightarrow> e \<noteq> ErrLeaseLost"
  by (auto simp: InsertDeadLetter_def split: if_splits)

lemma plain_run_simps [simp]:
  "r_ID (plain_run r) = r_ID r" "r_ScheduleID (plain_run r) = r_ScheduleID r"
  "r_OccurrenceKey (plain_run r) = r_OccurrenceKey r" "r_NominalTime (plain_run r) = r_NominalTime r"
  "r_Attempt (plain_run r) = r_Attempt r" "r_ExecutionLeaseToken (plain_run r) = ''''"
  by (simp_all add: plain_run_def RunRow.extend_def Run.fields_def)

lemma snapshot_plain_run: "snapshot_of r (plain_run r)"
  by (simp add: snapshot_of_def)

text \<open>The next attempt is queued unless it already is.\<close>

lemma successor_queued:
  assumes "\<And>q. r_OccurrenceKey (f q) = r_OccurrenceKey q \<and> r_Attempt (f q) = r_Attempt q"
  shows "\<exists>q \<in> set (sql_update p f (schedule_runs db) @ new_retries db (Some rt)).
    r_OccurrenceKey q = r_OccurrenceKey rt \<and> r_Attempt q = r_Attempt rt"
proof (cases "\<exists>q \<in> set (schedule_runs db). r_OccurrenceKey q = r_OccurrenceKey rt \<and> r_Attempt q = r_Attempt rt")
  case True
  then have "\<exists>q \<in> set (sql_update p f (schedule_runs db)). r_OccurrenceKey q = r_OccurrenceKey rt \<and> r_Attempt q = r_Attempt rt"
    by (simp add: bex_sql_update assms)
  then show ?thesis by auto
qed (auto simp: new_retries_def retry_row_def)

lemma recover_local:
  assumes ok: "sys_ok db" and r: "expired_row db now r" "r_Status r = RunRunning" and late: "now \<le> t"
    and x: "x = zero_Result\<lparr>x_ErrorText := lease_expired_text\<rparr>"
  shows "completeFailureWithResult n w db s (plain_run r) x t ids \<noteq> (Some ErrLeaseLost, db'')"
    and "completeFailureWithResult n w db s (plain_run r) x t ids = (None, db') \<Longrightarrow>
      recovers (r_ID r) db db' \<and> (\<exists>r' \<in> set (schedule_runs db'). attempt_lost db' r s r')"
proof -
  obtain l where l: "l \<in> set (worker_leases db)" "wl_run_id l = r_ID r" "wl_expires_at l \<le> now"
    and find: "sql_find (\<lambda>x. r_ID x = r_ID r) (schedule_runs db) = Some r"
      "sql_find (\<lambda>x. wl_run_id x = r_ID r) (worker_leases db) = Some l"
    and owner: "IsActiveStatus (r_Status r) \<longrightarrow> r_ClaimedByWorkerID r = Some (wl_worker_id l)"
    using ok r(1) by (rule expired_lookup)
  have "lockExpiredRunningRun db (r_ID r) t = Inr (wl_worker_id l, wl_id l)"
    using find owner r(2) l(3) late by (simp add: lockExpiredRunningRun_def)
  then show "completeFailureWithResult n w db s (plain_run r) x t ids \<noteq> (Some ErrLeaseLost, db'')"
    by (auto simp: completeFailureWithResult_def Let_def FinishExpiredRunFailure_def finishExternalRun_def
        bind_result_def dest: insert_retry_errors InsertDeadLetter_errors split: sum.splits option.splits)
  show "recovers (r_ID r) db db' \<and> (\<exists>r' \<in> set (schedule_runs db'). attempt_lost db' r s r')"
    if fail: "completeFailureWithResult n w db s (plain_run r) x t ids = (None, db')"
  proof -
    have row: "r \<in> set (schedule_runs db)" using r(1) by (simp add: expired_row_def)
    from fail show ?thesis
    proof (rule completeFailureWithResult_cases)
      fix db1 w0 token expired
      let ?run = "failed_run s (plain_run r) x t"
      assume fin: "finishExternalRun db ?run w0 token
           (if failure_status s (r_Attempt (plain_run r)) x = RunFailed
            then Some (retry_of s ?run t (id_retry ids)) else None)
           (if failure_status s (r_Attempt (plain_run r)) x = RunDeadLettered
            then Some (dead_letter_of ?run x t (id_dead ids)) else None) t expired = Inr db1"
        and db': "db' = insert_receipts n (r_ID (plain_run r)) t (id_receipts ids) 0 (x_Receipts x) db1"
      have "r_ID r = r_ID ?run" by simp
      from ok fin row this show ?thesis
      proof (rule finishExternalRun_effect)
        fix w1 :: string and rts
        let ?st = "failure_status s (r_Attempt (plain_run r)) x"
        let ?retry = "if ?st = RunFailed then Some (retry_of s ?run t (id_retry ids)) else None"
        let ?dead = "if ?st = RunDeadLettered then Some (dead_letter_of ?run x t (id_dead ids)) else None"
        assume eff: "schedule_runs db1 = sql_update (\<lambda>x. r_ID x = r_ID ?run) (finished_row ?run w1 t) (schedule_runs db)
            @ new_retries db ?retry"
          "set (worker_leases db1) = {l \<in> set (worker_leases db). wl_run_id l \<noteq> r_ID ?run}"
          "dead_letters db1 = dead_letters db @ (case ?dead of None \<Rightarrow> [] | Some d \<Rightarrow> [d])"
          "external_jobs db1 = external_jobs db" "schedules db1 = schedules db"
        let ?row = "finished_row ?run w1 t r"
        have st: "?st = (if rp_Strategy (s_Retry s) \<noteq> RetryNone \<and> r_Attempt r < rp_MaxAttempts (s_Retry s) then RunFailed else RunDeadLettered)"
          by (simp add: failure_status_def shouldRetry_def x zero_Result_def)
        have "?row \<in> set (schedule_runs db')" using row by (auto simp: db' frame_simps eff(1) table_simps)
        moreover have "r_ErrorText ?row = Some lease_expired_text"
          by (simp add: failed_run_def x zero_Result_def lease_expired_text_def)
        moreover have "\<exists>q \<in> set (schedule_runs db'). r_OccurrenceKey q = r_OccurrenceKey r \<and> r_Attempt q = r_Attempt r + 1"
          if "?st = RunFailed"
          using successor_queued [of "finished_row ?run w1 t" "\<lambda>x. r_ID x = r_ID ?run" db "retry_of s ?run t (id_retry ids)"] that
          by (simp add: db' frame_simps eff(1))
        moreover have "\<exists>d \<in> set (dead_letters db'). dl_RunID d = r_ID r \<and> dl_Reason d = lease_expired_text"
          if "?st = RunDeadLettered"
          using that by (simp add: db' frame_simps eff(3) dead_letter_of_def x zero_Result_def)
        ultimately have "\<exists>r' \<in> set (schedule_runs db'). attempt_lost db' r s r'"
          using st by (intro bexI [of _ ?row]) (auto simp: attempt_lost_def split: if_splits)
        moreover have "recovers (r_ID r) db db'"
        proof -
          have "keeps_work db db'"
            by (rule keeps_work_update [of _ _ "\<lambda>x. r_ID x = r_ID ?run" "finished_row ?run w1 t" "new_retries db ?retry"])
               (auto simp: db' frame_simps eff)
          moreover have "\<forall>q \<in> set (new_retries db ?retry). r_Status q = RunRetryScheduled"
            by (simp add: new_retries_def split: if_splits)
          ultimately show ?thesis by (auto simp: recovers_def db' frame_simps eff table_simps)
        qed
        ultimately show ?thesis by blast
      qed
    qed
  qed
qed

definition recovered_row :: "DB \<Rightarrow> DB \<Rightarrow> time \<Rightarrow> RunRow \<Rightarrow> Schedule \<Rightarrow> RunRow \<Rightarrow> bool" where
  "recovered_row db db' now r s r' \<longleftrightarrow>
     (if r_Status r = RunClaimed
         \<or> r_Status r = RunRunning \<and> (GetExternalJob db (r_OccurrenceKey r) \<noteq> None \<or> t_HTTPJob (s_Target s) \<noteq> None)
      then r' = released now r
      else if r_Status r = RunRunning then attempt_lost db' r s r'
      else r' = r)"

lemma recovered_row_kept: "recovered_row db db1 now r s r' \<Longrightarrow> keeps_work db1 db2 \<Longrightarrow> recovered_row db db2 now r s r'"
  by (auto simp: recovered_row_def attempt_lost_kept split: if_splits)

lemma recover_item_effect:
  assumes ok: "sys_ok db" and r: "expired_row db now r" and late: "now \<le> t"
    and item: "recover_item n w now t ids (r, s) (db, act) = (None, db', act')"
  shows "sys_ok db' \<and> recovers (r_ID r) db db' \<and> (\<exists>r' \<in> set (schedule_runs db'). recovered_row db db' now r s r')"
proof -
  have row: "r \<in> set (schedule_runs db)" using r by (simp add: expired_row_def)
  consider (claimed) "r_Status r = RunClaimed"
    | (external) "r_Status r = RunRunning" "GetExternalJob db (r_OccurrenceKey r) \<noteq> None \<or> t_HTTPJob (s_Target s) \<noteq> None"
    | (local) "r_Status r = RunRunning" "\<not> (GetExternalJob db (r_OccurrenceKey r) \<noteq> None \<or> t_HTTPJob (s_Target s) \<noteq> None)"
    | (idle) "\<not> IsActiveStatus (r_Status r)"
    using active_iff by blast
  then show ?thesis
  proof cases
    case claimed
    obtain db1 where db1: "ResetClaimedRun db (r_ID r) now = Inr db1" "recovers (r_ID r) db db1"
      "released now r \<in> set (schedule_runs db1)" using recover_claimed [OF ok r claimed] by blast
    then have "db' = db1" using item claimed by (simp add: recover_item_def Let_def)
    then show ?thesis using db1 sys_ok_ResetClaimedRun [OF ok db1(1)] claimed by (auto simp: recovered_row_def)
  next
    case external
    obtain db1 where db1: "RequeueExternalRun db (r_ID r) '''' '''' now True (id_receipts ids 0) = Inr db1" "db' = db1"
      using item external recover_external(1) [OF ok r external(1), of "id_receipts ids 0"]
      by (simp add: recover_item_def Let_def split: sum.splits if_splits)
    then show ?thesis
      using recover_external(2) [OF ok r external(1) db1(1)] sys_ok_RequeueExternalRun [OF ok db1(1)] external
      by (auto simp: recovered_row_def)
  next
    case local
    let ?x = "zero_Result\<lparr>x_ErrorText := lease_expired_text\<rparr>"
    have fail: "completeFailureWithResult n w db s (plain_run r) ?x t ids = (None, db')"
      using item local recover_local(1) [OF ok r local(1) late refl, of n w s ids]
      by (simp add: recover_item_def Let_def lease_expired_text_def split: prod.splits option.splits if_splits)
    have "1 \<le> r_Attempt (plain_run r)" using sys_okD(2) [OF ok row] by (simp add: run_ok_def)
    then have "sys_ok db'" using sys_ok_completeFailureWithResult [OF ok, of "plain_run r" n w s ?x t ids] fail by simp
    then show ?thesis using recover_local(2) [OF ok r local(1) late refl fail] local by (auto simp: recovered_row_def)
  next
    case idle
    then have st: "r_Status r \<noteq> RunClaimed" "r_Status r \<noteq> RunRunning" by (auto simp: active_iff)
    then have db': "db' = ClearLease db (r_ID r)" using item by (simp add: recover_item_def Let_def)
    have "\<forall>x \<in> set (schedule_runs db). r_ID x = r_ID r \<longrightarrow> \<not> IsActiveStatus (r_Status x)"
      using run_unique [OF sys_okD(1) [OF ok] _ row] idle by blast
    then have "sys_ok db'" unfolding db' by (intro sys_ok_ClearLease [OF ok])
    then show ?thesis
      using row st by (auto simp: recovers_def keeps_work_def db' ClearLease_def table_simps recovered_row_def)
  qed
qed

section \<open>The pass\<close>

text \<open>A join on a unique key finds at most one row.\<close>

lemma concat_unique:
  assumes "distinct (map key rows)"
  shows "concat (map (\<lambda>r. if key r = k then f r else []) rows)
    = (case sql_find (\<lambda>r. key r = k) rows of None \<Rightarrow> [] | Some r \<Rightarrow> f r)"
  using assms
proof (induction rows)
  case (Cons r rows)
  show ?case
  proof (cases "key r = k")
    case True
    then have "\<forall>x \<in> set rows. key x \<noteq> k" using Cons.prems by (auto simp: image_iff)
    then have "concat (map (\<lambda>r. if key r = k then f r else []) rows) = []" by simp
    with True show ?thesis by simp
  next
    case False
    with Cons show ?thesis by simp
  qed
qed simp

lemma ListExpiredLeases_rows:
  assumes "wf_db db"
  shows "map (r_ID \<circ> fst) (ListExpiredLeases db now)
      = map wl_run_id (filter (\<lambda>l. wl_expires_at l \<le> now) (worker_leases db))"
    and "(r, s) \<in> set (ListExpiredLeases db now) \<longleftrightarrow>
      expired_row db now r \<and> s \<in> set (schedules db) \<and> s_ID s = r_ScheduleID r"
proof -
  have runs: "\<exists>r. sql_find (\<lambda>r. r_ID r = wl_run_id l) (schedule_runs db) = Some r \<and> r_ID r = wl_run_id l
      \<and> (\<exists>s. sql_find (\<lambda>s. s_ID s = r_ScheduleID r) (schedules db) = Some s)" if "l \<in> set (worker_leases db)" for l
  proof -
    obtain r where r: "r \<in> set (schedule_runs db)" "r_ID r = wl_run_id l"
      using assms \<open>l \<in> set (worker_leases db)\<close> by (auto simp: wf_defs in_ids)
    moreover obtain s where "s \<in> set (schedules db)" "s_ID s = r_ScheduleID r"
      using assms r(1) by (auto simp: wf_defs in_ids)
    then have "\<exists>s. sql_find (\<lambda>s. s_ID s = r_ScheduleID r) (schedules db) = Some s"
      by (cases "sql_find (\<lambda>s. s_ID s = r_ScheduleID r) (schedules db)") (auto simp: table_simps)
    ultimately show ?thesis using run_by_id [OF assms r(1)] by auto
  qed
  have "map (r_ID \<circ> fst) (concat (map (\<lambda>l. if wl_expires_at l \<le> now
        then case sql_find (\<lambda>r. r_ID r = wl_run_id l) (schedule_runs db) of None \<Rightarrow> []
          | Some r \<Rightarrow> (case sql_find (\<lambda>s. s_ID s = r_ScheduleID r) (schedules db) of None \<Rightarrow> [] | Some s \<Rightarrow> [(r, s)])
        else []) ls)) = map wl_run_id (filter (\<lambda>l. wl_expires_at l \<le> now) ls)"
    if "set ls \<subseteq> set (worker_leases db)" for ls
    using that
  proof (induction ls)
    case (Cons l ls)
    obtain r s where "sql_find (\<lambda>r. r_ID r = wl_run_id l) (schedule_runs db) = Some r" "r_ID r = wl_run_id l"
      "sql_find (\<lambda>s. s_ID s = r_ScheduleID r) (schedules db) = Some s" using runs [of l] Cons.prems by auto
    with Cons show ?case by simp
  qed simp
  from this [OF subset_refl] show "map (r_ID \<circ> fst) (ListExpiredLeases db now)
      = map wl_run_id (filter (\<lambda>l. wl_expires_at l \<le> now) (worker_leases db))"
    unfolding ListExpiredLeases_def
    by (simp add: concat_unique [OF wf_dbD(2) [OF assms]] concat_unique [OF wf_dbD(1) [OF assms]] cong: if_cong)
  show "(r, s) \<in> set (ListExpiredLeases db now) \<longleftrightarrow>
      expired_row db now r \<and> s \<in> set (schedules db) \<and> s_ID s = r_ScheduleID r"
    unfolding ListExpiredLeases_def expired_row_def by (simp add: Bex_def) (metis (no_types, lifting))
qed

lemma recovered_row_ID: "recovered_row db db' now r s r' \<Longrightarrow> r_ID r' = r_ID r"
  by (auto simp: recovered_row_def attempt_lost_def split: if_splits)

lemma recover_items_effect:
  assumes "sys_ok db" and "\<forall>k. now \<le> clock k" and "distinct (map (r_ID \<circ> fst) items)"
    and "\<forall>(r, s) \<in> set items. expired_row db now r"
    and "recover_items n w now clock ids k items (db, act) = (None, db', act')"
  shows "sys_ok db' \<and> external_jobs db' = external_jobs db
    \<and> set (worker_leases db') = {l \<in> set (worker_leases db). wl_run_id l \<notin> (r_ID \<circ> fst) ` set items}
    \<and> (\<forall>q \<in> set (schedule_runs db). r_ID q \<notin> (r_ID \<circ> fst) ` set items \<longrightarrow> q \<in> set (schedule_runs db'))
    \<and> (\<forall>q \<in> set (schedule_runs db'). r_ID q \<notin> (r_ID \<circ> fst) ` set items \<longrightarrow> q \<in> set (schedule_runs db) \<or> r_Status q = RunRetryScheduled)
    \<and> keeps_work db db'
    \<and> (\<forall>(r, s) \<in> set items. \<exists>r' \<in> set (schedule_runs db'). recovered_row db db' now r s r')"
  using assms(1,3,4,5)
proof (induction items arbitrary: db act k)
  case Nil
  then show ?case by (auto simp: keeps_work_def)
next
  case (Cons item items)
  obtain r s where item: "item = (r, s)" by (cases item)
  obtain db1 act1 where first: "recover_item n w now (clock k) (ids k) (r, s) (db, act) = (None, db1, act1)"
    and rest: "recover_items n w now clock ids (k + 1) items (db1, act1) = (None, db', act')"
    using Cons.prems(4) by (auto simp: item split: prod.splits option.splits)
  have exp: "expired_row db now r" using Cons.prems(3) by (simp add: item)
  note eff = recover_item_effect [OF Cons.prems(1) exp _ first]
  then have ok1: "sys_ok db1" and rec: "recovers (r_ID r) db db1"
    and out: "\<exists>r' \<in> set (schedule_runs db1). recovered_row db db1 now r s r'" using assms(2) by auto
  have other: "r_ID q \<noteq> r_ID r" if "(q, t) \<in> set items" for q t
  proof -
    have "r_ID r \<notin> (r_ID \<circ> fst) ` set items" using Cons.prems(2) by (simp add: item)
    moreover have "r_ID q \<in> (r_ID \<circ> fst) ` set items" using imageI [OF that, of "r_ID \<circ> fst"] by simp
    ultimately show ?thesis by metis
  qed
  have "expired_row db1 now q" if q: "(q, t) \<in> set items" for q t
  proof -
    have "expired_row db now q" using Cons.prems(3) q by auto
    then show ?thesis using other [OF q] rec unfolding expired_row_def recovers_def by auto
  qed
  then have IH: "sys_ok db' \<and> external_jobs db' = external_jobs db1
    \<and> set (worker_leases db') = {l \<in> set (worker_leases db1). wl_run_id l \<notin> (r_ID \<circ> fst) ` set items}
    \<and> (\<forall>q \<in> set (schedule_runs db1). r_ID q \<notin> (r_ID \<circ> fst) ` set items \<longrightarrow> q \<in> set (schedule_runs db'))
    \<and> (\<forall>q \<in> set (schedule_runs db'). r_ID q \<notin> (r_ID \<circ> fst) ` set items \<longrightarrow> q \<in> set (schedule_runs db1) \<or> r_Status q = RunRetryScheduled)
    \<and> keeps_work db1 db'
    \<and> (\<forall>(r, s) \<in> set items. \<exists>r' \<in> set (schedule_runs db'). recovered_row db1 db' now r s r')"
    using Cons.prems(2) by (intro Cons.IH [OF ok1 _ _ rest]) auto
  have jobs: "recovered_row db1 db' now = recovered_row db db' now"
    using rec by (intro ext) (simp add: recovered_row_def GetExternalJob_def recovers_def)
  have "r_ID r \<notin> (r_ID \<circ> fst) ` set items" using Cons.prems(2) by (simp add: item)
  then have "\<exists>r' \<in> set (schedule_runs db'). recovered_row db db' now r s r'"
    using out IH recovered_row_ID recovered_row_kept by metis
  moreover have "\<forall>q \<in> set (schedule_runs db). r_ID q \<notin> (r_ID \<circ> fst) ` set (item # items) \<longrightarrow> q \<in> set (schedule_runs db')"
    using rec IH by (auto simp: item recovers_def)
  moreover have "set (worker_leases db') = {l \<in> set (worker_leases db). wl_run_id l \<notin> (r_ID \<circ> fst) ` set (item # items)}"
    using rec IH by (auto simp: item recovers_def)
  moreover have "external_jobs db' = external_jobs db" using rec IH by (simp add: recovers_def)
  moreover have "\<forall>(r, s) \<in> set items. \<exists>r' \<in> set (schedule_runs db'). recovered_row db db' now r s r'"
    using IH jobs by simp
  moreover have "\<forall>q \<in> set (schedule_runs db'). r_ID q \<notin> (r_ID \<circ> fst) ` set (item # items)
      \<longrightarrow> q \<in> set (schedule_runs db) \<or> r_Status q = RunRetryScheduled"
  proof (intro ballI impI)
    fix q assume q: "q \<in> set (schedule_runs db')" "r_ID q \<notin> (r_ID \<circ> fst) ` set (item # items)"
    then have "q \<in> set (schedule_runs db1) \<or> r_Status q = RunRetryScheduled" using IH by simp
    moreover have "r_ID q \<noteq> r_ID r" using q(2) by (simp add: item)
    ultimately show "q \<in> set (schedule_runs db) \<or> r_Status q = RunRetryScheduled" using rec by (auto simp: recovers_def)
  qed
  moreover have "keeps_work db db'" using rec IH keeps_work_trans by (auto simp: recovers_def)
  ultimately show ?case using IH by (simp add: item)
qed

text \<open>
  C12: recovery leaves no expired lease behind and loses no work. When a recovery pass ends without an
  error, every lease it found expired is gone and every other lease is as it was. A claimed run with
  an expired lease is pending again, and so is a running one with an external job or a job target, with its attempt
  and job untouched. Any other running one has failed with the expiry as its error: if the retry policy allows
  another attempt its status is failed and its next attempt exists, otherwise it is dead-lettered and its dead
  letter exists. Every other run is unchanged, and the rows the pass adds are scheduled retries.
\<close>

theorem recovery_is_complete:
  assumes "sys_ok db" and "\<forall>k. now \<le> clock k"
    and "recoverExpiredLeases n w now clock ids (db, act) = (None, db', act')"
    and "r \<in> set (schedule_runs db)" and "s \<in> set (schedules db)" and "s_ID s = r_ScheduleID r"
  shows "sys_ok db' \<and> external_jobs db' = external_jobs db
    \<and> set (worker_leases db') = {l \<in> set (worker_leases db). now < wl_expires_at l}
    \<and> (if \<exists>l \<in> set (worker_leases db). wl_run_id l = r_ID r \<and> wl_expires_at l \<le> now
       then \<exists>r' \<in> set (schedule_runs db'). r_ID r' = r_ID r \<and>
         (if r_Status r = RunClaimed \<or> r_Status r = RunRunning
              \<and> (GetExternalJob db (r_OccurrenceKey r) \<noteq> None \<or> t_HTTPJob (s_Target s) \<noteq> None)
          then r' = released now r
          else if r_Status r = RunRunning
          then r_ErrorText r' = Some ''worker lease expired during execution'' \<and>
            (if rp_Strategy (s_Retry s) \<noteq> RetryNone \<and> r_Attempt r < rp_MaxAttempts (s_Retry s)
             then r_Status r' = RunFailed
               \<and> (\<exists>q \<in> set (schedule_runs db'). r_OccurrenceKey q = r_OccurrenceKey r \<and> r_Attempt q = r_Attempt r + 1)
             else r_Status r' = RunDeadLettered
               \<and> (\<exists>d \<in> set (dead_letters db'). dl_RunID d = r_ID r \<and> dl_Reason d = ''worker lease expired during execution''))
          else r' = r)
       else r \<in> set (schedule_runs db'))
    \<and> (\<forall>q \<in> set (schedule_runs db') - set (schedule_runs db).
         (\<exists>l \<in> set (worker_leases db). wl_run_id l = r_ID q \<and> wl_expires_at l \<le> now) \<or> r_Status q = RunRetryScheduled)"
proof -
  note wf = sys_okD(1) [OF assms(1)]
  note rows = ListExpiredLeases_rows [OF wf, where now = now]
  have dist: "distinct (map (r_ID \<circ> fst) (ListExpiredLeases db now))"
    unfolding rows(1) using wf_dbD(5) [OF wf] by (rule distinct_map_filter)
  have "recover_items n w now clock ids 0 (ListExpiredLeases db now) (db, act) = (None, db', act')"
    using assms(3) by (simp add: recoverExpiredLeases_def)
  note pass = recover_items_effect [OF assms(1,2) dist _ this]
  have "\<forall>(r, s) \<in> set (ListExpiredLeases db now). expired_row db now r" using rows(2) by auto
  note effect = pass [OF this]
  then have eff: "sys_ok db'" "external_jobs db' = external_jobs db"
    "set (worker_leases db') = {l \<in> set (worker_leases db). wl_run_id l \<notin> (r_ID \<circ> fst) ` set (ListExpiredLeases db now)}"
    "\<forall>q \<in> set (schedule_runs db). r_ID q \<notin> (r_ID \<circ> fst) ` set (ListExpiredLeases db now) \<longrightarrow> q \<in> set (schedule_runs db')"
    "\<forall>(r, s) \<in> set (ListExpiredLeases db now). \<exists>r' \<in> set (schedule_runs db'). recovered_row db db' now r s r'"
    "\<forall>q \<in> set (schedule_runs db'). r_ID q \<notin> (r_ID \<circ> fst) ` set (ListExpiredLeases db now)
      \<longrightarrow> q \<in> set (schedule_runs db) \<or> r_Status q = RunRetryScheduled"
    by blast+
  have ids: "(r_ID \<circ> fst) ` set (ListExpiredLeases db now)
      = {wl_run_id l |l. l \<in> set (worker_leases db) \<and> wl_expires_at l \<le> now}"
    using arg_cong [OF rows(1), of set] by auto
  have "set (worker_leases db') = {l \<in> set (worker_leases db). now < wl_expires_at l}"
  proof -
    have "wl_run_id l \<notin> {wl_run_id l |l. l \<in> set (worker_leases db) \<and> wl_expires_at l \<le> now} \<longleftrightarrow> now < wl_expires_at l"
      if "l \<in> set (worker_leases db)" for l
      using lease_unique [OF wf that] that by (auto simp: not_le [symmetric])
    then show ?thesis unfolding eff(3) ids by blast
  qed
  moreover have "\<exists>r' \<in> set (schedule_runs db'). r_ID r' = r_ID r \<and>
         (if r_Status r = RunClaimed \<or> r_Status r = RunRunning
              \<and> (GetExternalJob db (r_OccurrenceKey r) \<noteq> None \<or> t_HTTPJob (s_Target s) \<noteq> None)
          then r' = released now r
          else if r_Status r = RunRunning
          then r_ErrorText r' = Some ''worker lease expired during execution'' \<and>
            (if rp_Strategy (s_Retry s) \<noteq> RetryNone \<and> r_Attempt r < rp_MaxAttempts (s_Retry s)
             then r_Status r' = RunFailed
               \<and> (\<exists>q \<in> set (schedule_runs db'). r_OccurrenceKey q = r_OccurrenceKey r \<and> r_Attempt q = r_Attempt r + 1)
             else r_Status r' = RunDeadLettered
               \<and> (\<exists>d \<in> set (dead_letters db'). dl_RunID d = r_ID r \<and> dl_Reason d = ''worker lease expired during execution''))
          else r' = r)"
    if "\<exists>l \<in> set (worker_leases db). wl_run_id l = r_ID r \<and> wl_expires_at l \<le> now"
  proof -
    from that have "expired_row db now r" using assms(4) by (simp add: expired_row_def)
    then have "(r, s) \<in> set (ListExpiredLeases db now)" using rows(2) assms(5,6) by simp
    then obtain r' where "r' \<in> set (schedule_runs db')" and r': "recovered_row db db' now r s r'" using eff(5) by auto
    moreover note recovered_row_ID [OF r'] r' [unfolded recovered_row_def attempt_lost_def lease_expired_text_def]
    ultimately show ?thesis by (intro bexI [of _ r'] conjI) (simp_all only: simp_thms if_True if_False split: if_split_asm)
  qed
  moreover have "r \<in> set (schedule_runs db')"
    if "\<not> (\<exists>l \<in> set (worker_leases db). wl_run_id l = r_ID r \<and> wl_expires_at l \<le> now)"
  proof -
    from that have "r_ID r \<notin> (r_ID \<circ> fst) ` set (ListExpiredLeases db now)" unfolding ids by auto
    then show ?thesis using eff(4) assms(4) by auto
  qed
  moreover have "\<forall>q \<in> set (schedule_runs db') - set (schedule_runs db).
      (\<exists>l \<in> set (worker_leases db). wl_run_id l = r_ID q \<and> wl_expires_at l \<le> now) \<or> r_Status q = RunRetryScheduled"
    using eff(6) unfolding ids by auto
  ultimately show ?thesis using eff(1,2) by (simp only: simp_thms if_bool_eq_conj) blast
qed

theorem recovery_is_complete_witness:
  "\<exists>db' act'. recoverExpiredLeases 1000 ''w2'' 150 (\<lambda>k. 160) (\<lambda>k. sample_ids)
       (sys_db sys_claimed, \<lparr>active_executions = Map.empty, cancelled_executions = {}\<rparr>) = (None, db', act')
     \<and> worker_leases db' = []"
proof -
  let ?act = "\<lparr>active_executions = Map.empty, cancelled_executions = {}\<rparr>"
  have ok: "sys_ok (sys_db sys_claimed)"
    using history.reachable_inv [OF initial_sys0 claimed_reachable [of "\<lambda>_. True", OF TrueI]] by (simp add: sys_inv_def)
  have list: "ListExpiredLeases (sys_db sys_claimed) 150 = [(claimed_row, sample_schedule)]"
    by (simp add: ListExpiredLeases_def sys_claimed_def sample_db_def empty_db_def sample_lease_def claimed_row_def
        idle_run_def)
  have r: "claimed_row \<in> set (schedule_runs (sys_db sys_claimed))" "sample_schedule \<in> set (schedules (sys_db sys_claimed))"
    "s_ID sample_schedule = r_ScheduleID claimed_row" "r_Status claimed_row = RunClaimed"
    by (simp_all add: sys_claimed_def sample_db_def claimed_row_def idle_run_def)
  have "expired_row (sys_db sys_claimed) 150 claimed_row"
    by (simp add: expired_row_def sys_claimed_def sample_lease_def claimed_row_def idle_run_def)
  then obtain db' where "ResetClaimedRun (sys_db sys_claimed) (r_ID claimed_row) 150 = Inr db'"
    using recover_claimed [OF ok _ r(4)] by blast
  then have run: "recoverExpiredLeases 1000 ''w2'' 150 (\<lambda>k. 160) (\<lambda>k. sample_ids) (sys_db sys_claimed, ?act) = (None, db', ?act)"
    by (simp add: recoverExpiredLeases_def list recover_item_def r(4))
  have "\<forall>k. 150 \<le> (\<lambda>k :: nat. 160 :: time) k" by simp
  from recovery_is_complete [OF ok this run r(1-3)]
  have "set (worker_leases db') = {l \<in> set (worker_leases (sys_db sys_claimed)). 150 < wl_expires_at l}" by blast
  then have "set (worker_leases db') = {}" by (auto simp: sys_claimed_def sample_lease_def)
  then have "worker_leases db' = []" by simp
  with run show ?thesis by blast
qed

end
