(* ===== verification/HttpJob.thy ===== *)
theory HttpJob
  imports Execution Admission
begin

text \<open>
  The executor of durable external jobs, \<open>internal/executors/http/job.go\<close>. What the code does to the
  outside is a trace of effects: the requests it sends and the checkpoints it writes, in order. What the
  outside answers is a \<open>World\<close>: the answer to the k-th request, the error of the k-th checkpoint, how long
  each takes, and when the caller's context ends. The clock is carried along, and a context is the time and
  the error of its end, so the job's deadline is what ends the waits and refuses requests. The polling loop
  is a partial function: that it returns is a theorem.
\<close>

section \<open>Requests\<close>

definition decimal :: "int \<Rightarrow> string" where
  "decimal n = (if n < 0 then CHR ''-'' # dec (nat (- n)) else dec (nat n))"

text \<open>\<open>http.Header.Set\<close>: keys are canonicalized when they are tokens, and a later value replaces an earlier.\<close>

definition token_char :: "char \<Rightarrow> bool" where
  "token_char c \<longleftrightarrow> (let n = of_char c :: nat in
     (48 \<le> n \<and> n \<le> 57) \<or> (65 \<le> n \<and> n \<le> 90) \<or> (97 \<le> n \<and> n \<le> 122) \<or> c \<in> set ''!#$%&*+-.^_`|~'' \<or> n = 39)"

definition ascii_lower :: "char \<Rightarrow> char" where
  "ascii_lower c = (if 65 \<le> (of_char c :: nat) \<and> (of_char c :: nat) \<le> 90 then char_of ((of_char c :: nat) + 32) else c)"

fun capitalize_words :: "bool \<Rightarrow> string \<Rightarrow> string" where
  "capitalize_words up [] = []"
| "capitalize_words up (c # cs) =
     (if up then ascii_upper c else ascii_lower c) # capitalize_words (c = CHR ''-'') cs"

definition canonical_key :: "string \<Rightarrow> string" where
  "canonical_key k = (if list_all token_char k then capitalize_words True k else k)"

type_synonym headers = "string \<rightharpoonup> string"

definition header_set :: "string \<Rightarrow> string \<Rightarrow> headers \<Rightarrow> headers" where
  "header_set k v h = h(canonical_key k \<mapsto> v)"

record HttpRequest =
  q_Method :: string
  q_URL :: string
  q_Headers :: headers
  q_Body :: string

definition setEventHeaders :: "Run \<Rightarrow> headers \<Rightarrow> headers" where
  "setEventHeaders run h =
     (case r_Event run of
        None \<Rightarrow> h
      | Some ev \<Rightarrow> header_set ''X-Wakeplane-Event-Key'' (r_OccurrenceKey run)
          (header_set ''X-Wakeplane-Event-Source'' (ev_Source ev)
            (header_set ''X-Wakeplane-Event-ID'' (ev_ID ev) h)))"

section \<open>Origins\<close>

definition safeHTTPURL :: "Env \<Rightarrow> string \<Rightarrow> bool" where
  "safeHTTPURL env raw =
     (case url_parse env raw of
        None \<Rightarrow> False
      | Some u \<Rightarrow> u_Host u \<noteq> '''' \<and> u_Hostname u \<noteq> '''' \<and> (u_Scheme u = ''http'' \<or> u_Scheme u = ''https'')
          \<and> \<not> u_HasUser u \<and> u_Fragment u = '''')"

definition sameOrigin :: "Env \<Rightarrow> string \<Rightarrow> string \<Rightarrow> bool" where
  "sameOrigin env a b =
     (if \<not> safeHTTPURL env a \<or> \<not> safeHTTPURL env b then False
      else case (url_parse env a, url_parse env b) of
        (Some left, Some right) \<Rightarrow> u_Scheme left = u_Scheme right \<and> equal_fold (u_Hostname left) (u_Hostname right)
          \<and> origin_port left = origin_port right
      | _ \<Rightarrow> False)"

section \<open>Responses\<close>

record jobResponse =
  jr_JobID :: string
  jr_StatusURL :: string
  jr_Status :: ExternalJobStatus
  jr_Progress :: "JobProgress option"
  jr_Result :: string
  jr_Artifacts :: "JobArtifact list"
  jr_Error :: string

definition bad_percent :: "float64 \<Rightarrow> bool" where
  "bad_percent p = (case p of NaN \<Rightarrow> True | PosInf \<Rightarrow> True | NegInf \<Rightarrow> True | Finite q \<Rightarrow> q < 0 \<or> q > 100)"

definition check_identity :: "Env \<Rightarrow> ExternalJob \<Rightarrow> jobResponse \<Rightarrow> bool \<Rightarrow> string option" where
  "check_identity env job response submitting =
     (if submitting then
        if trim_space (jr_JobID response) = '''' \<or> length (jr_JobID response) > 256 \<or> has_control (jr_JobID response)
        then Some ''external job submission requires a non-empty job_id of at most 256 characters without control characters''
        else if \<not> sameOrigin env (t_URL (j_RequestTarget job)) (jr_StatusURL response)
        then Some ''external job submission requires an absolute same-origin status_url'' else None
      else if jr_JobID response \<noteq> '''' \<and> jr_JobID response \<noteq> j_JobID job
      then Some ''external job response changed job_id''
      else if jr_StatusURL response \<noteq> '''' \<and> jr_StatusURL response \<noteq> j_StatusURL job
      then Some ''external job response changed status_url'' else None)"

definition applyJobResponse :: "Env \<Rightarrow> ExternalJob \<Rightarrow> jobResponse \<Rightarrow> bool \<Rightarrow> time \<Rightarrow> (string, ExternalJob) result" where
  "applyJobResponse env job response submitting now =
     (if jr_Status response \<notin> {ExternalJobQueued, ExternalJobRunning, ExternalJobSucceeded, ExternalJobFailed,
          ExternalJobCancelled} then Inl ''external job response requires a valid status''
      else case check_identity env job response submitting of
        Some e \<Rightarrow> Inl e
      | None \<Rightarrow>
          if (case jr_Progress response of None \<Rightarrow> False
              | Some p \<Rightarrow> (case jp_Percent p of None \<Rightarrow> False | Some x \<Rightarrow> bad_percent x))
          then Inl ''external job progress percent must be between 0 and 100''
          else if list_ex (\<lambda>a. trim_space (ja_Name a) = '''' \<or> \<not> safeHTTPURL env (ja_URL a)) (jr_Artifacts response)
          then Inl ''external job artifacts require a name and an absolute HTTP(S) URL without credentials or a fragment''
          else
            let job1 = (if submitting
                  then job\<lparr>j_JobID := jr_JobID response, j_StatusURL := jr_StatusURL response\<rparr> else job);
                job2 = job1\<lparr>j_Status := jr_Status response, j_Progress := jr_Progress response,
                  j_Result := jr_Result response, j_Artifacts := jr_Artifacts response, j_Error := jr_Error response,
                  j_UpdatedAt := now\<rparr>
            in Inr (job2\<lparr>j_CanReconcile := ReconciliationAvailable job2\<rparr>))"

section \<open>Effects and the outside\<close>

datatype effect = Sent HttpRequest | Saved ExternalJob

datatype reply_body = ReadError string | Data string

datatype http_outcome = TransportError string | Response int reply_body

datatype ctx_err = Canceled | DeadlineExceeded

definition ctx_text :: "ctx_err \<Rightarrow> string" where
  "ctx_text e = (case e of Canceled \<Rightarrow> ''context canceled'' | DeadlineExceeded \<Rightarrow> ''context deadline exceeded'')"

text \<open>A context: when it ends, if ever, and with which error. \<open>context.WithDeadline\<close> keeps the earlier end.\<close>

type_synonym go_context = "(time \<times> ctx_err) option"

definition ctx_ended :: "go_context \<Rightarrow> time \<Rightarrow> ctx_err option" where
  "ctx_ended ctx t = (case ctx of None \<Rightarrow> None | Some (c, e) \<Rightarrow> if c \<le> t then Some e else None)"

definition with_deadline :: "go_context \<Rightarrow> time \<Rightarrow> go_context" where
  "with_deadline ctx d =
     (case ctx of None \<Rightarrow> Some (d, DeadlineExceeded) | Some (c, e) \<Rightarrow> if c \<le> d then Some (c, e) else Some (d, DeadlineExceeded))"

text \<open>Answers, and the time each effect takes, are indexed by the number of effects before them. \<open>w_outer\<close> is the
  context the executor was called with and \<open>w_start\<close> the time of the call; \<open>w_late\<close> is how much later than its
  first event a wait is left, and \<open>w_pick\<close> the choice between a timer and an ended context when both
  are ready; \<open>w_op\<close> is how the HTTP client names the request it refuses.\<close>

record World =
  w_reply :: "nat \<Rightarrow> http_outcome"
  w_saved :: "nat \<Rightarrow> string option"
  w_outer :: go_context
  w_start :: time
  w_took :: "nat \<Rightarrow> nat"
  w_late :: "nat \<Rightarrow> nat"
  w_pick :: "nat \<Rightarrow> bool"
  w_op :: "nat \<Rightarrow> string"
  w_decode :: "string \<Rightarrow> (string, jobResponse) result"

text \<open>The select between polls, entered at time \<open>t\<close> after \<open>k\<close> effects: the error of the context or \<open>None\<close> when the
  timer is taken, and the time it is left.\<close>

definition poll_wait :: "World \<Rightarrow> go_context \<Rightarrow> duration \<Rightarrow> time \<Rightarrow> nat \<Rightarrow> ctx_err option \<times> time" where
  "poll_wait w ctx interval t k =
     (let timer = t + interval;
          first = (case ctx of None \<Rightarrow> timer | Some (c, e) \<Rightarrow> min timer (max t c));
          woken = first + int (w_late w k)
      in (if timer \<le> woken \<and> (ctx_ended ctx woken = None \<or> w_pick w k) then None else ctx_ended ctx woken, woken))"

definition maxJobResponseBytes :: int where
  "maxJobResponseBytes = 262144"

definition job_headers :: "Run \<Rightarrow> TargetSpec \<Rightarrow> string \<Rightarrow> string \<Rightarrow> headers" where
  "job_headers run target meth url =
     (let h0 = fold (\<lambda>(k, v). header_set k v) (t_Headers target) Map.empty;
          h1 = header_set ''Accept'' ''application/json'' h0;
          h2 = (if meth = ''POST'' then header_set ''Content-Type'' ''application/json'' h1 else h1);
          h3 = (if meth = ''POST'' \<or> (case t_HTTPJob target of None \<Rightarrow> False
                  | Some h \<Rightarrow> hj_LookupURL h \<noteq> '''' \<and> url = hj_LookupURL h)
                then header_set ''Idempotency-Key'' (r_OccurrenceKey run) h2 else h2)
      in setEventHeaders run (header_set ''X-Wakeplane-Occurrence-Key'' (r_OccurrenceKey run) h3))"

text \<open>At time \<open>t\<close>; the client does not send a request whose context has ended.\<close>

definition observeJob ::
    "Env \<Rightarrow> World \<Rightarrow> go_context \<Rightarrow> time \<Rightarrow> effect list \<Rightarrow> Run \<Rightarrow> TargetSpec \<Rightarrow> string \<Rightarrow> string \<Rightarrow> string
     \<Rightarrow> (string \<times> int option, jobResponse \<times> int) result \<times> time \<times> effect list" where
  "observeJob env w ctx t tr run target meth url body =
     (if \<not> sameOrigin env (t_URL target) url
      then (Inl (''external job URL must share the submission origin'', None), t, tr)
      else case ctx_ended ctx t of
        Some ce \<Rightarrow> (Inl (w_op w (length tr) @ '': '' @ ctx_text ce, None), t, tr)
      | None \<Rightarrow>
        let tr1 = tr @ [Sent \<lparr>q_Method = meth, q_URL = url, q_Headers = job_headers run target meth url, q_Body = body\<rparr>]
        in (case w_reply w (length tr) of
              TransportError e \<Rightarrow> Inl (e, None)
            | Response status rest \<Rightarrow>
                if status < 200 \<or> status \<ge> 300
                then Inl (''external job endpoint returned HTTP '' @ decimal status, Some status)
                else (case rest of
                    ReadError e \<Rightarrow> Inl (e, Some status)
                  | Data text \<Rightarrow>
                      if int (length text) > maxJobResponseBytes
                      then Inl (''external job response exceeds 262144 bytes'', Some status)
                      else (case w_decode w text of
                          Inl e \<Rightarrow> Inl (''invalid external job JSON: '' @ e, Some status)
                        | Inr response \<Rightarrow> Inr (response, status))), t + int (w_took w (length tr)), tr1))"

section \<open>Outcomes\<close>

definition jobFailure :: "ctx_err option \<Rightarrow> string \<Rightarrow> Result" where
  "jobFailure ctx e =
     (if ctx = Some Canceled then zero_Result\<lparr>x_ErrorText := e, x_Deferred := True\<rparr>
      else zero_Result\<lparr>x_ErrorText := e, x_TerminalFailure := (ctx = Some DeadlineExceeded)\<rparr>)"

definition jobResult :: "(ExternalJob \<Rightarrow> string) \<Rightarrow> ExternalJob \<Rightarrow> int option \<Rightarrow> Result" where
  "jobResult job_json job status =
     (let result = zero_Result\<lparr>x_HTTPStatusCode := status, x_ResultJSON := job_json job\<rparr> in
      case j_Status job of
        ExternalJobFailed \<Rightarrow> result
          \<lparr>x_ErrorText := (if j_Error job = '''' then ''external job failed'' else j_Error job), x_TerminalFailure := True\<rparr>
      | ExternalJobCancelled \<Rightarrow> result
          \<lparr>x_ErrorText := ''external job was cancelled by the runner'', x_Cancelled := True\<rparr>
      | _ \<Rightarrow> result)"

definition terminal_error :: "string \<Rightarrow> int option \<Rightarrow> Result" where
  "terminal_error e status = zero_Result\<lparr>x_ErrorText := e, x_HTTPStatusCode := status, x_TerminalFailure := True\<rparr>"

section \<open>Execution\<close>

text \<open>One turn of the loop: the result it returns, or the job and the effects it goes on with.\<close>

definition poll_turn ::
    "Env \<Rightarrow> World \<Rightarrow> go_context \<Rightarrow> duration \<Rightarrow> (ExternalJob \<Rightarrow> string) \<Rightarrow> Run \<Rightarrow> TargetSpec \<Rightarrow> ExternalJob
     \<Rightarrow> time \<Rightarrow> effect list \<Rightarrow> (Result \<times> effect list) + (ExternalJob \<times> time \<times> effect list)" where
  "poll_turn env w ctx interval job_json run target job t tr =
     (case observeJob env w ctx t tr run target ''GET'' (j_StatusURL job) '''' of
        (Inl (e, status), t1, tr1) \<Rightarrow> Inl ((jobFailure (ctx_ended ctx t1) e)\<lparr>x_HTTPStatusCode := status\<rparr>, tr1)
      | (Inr (response, status), t1, tr1) \<Rightarrow>
          (case applyJobResponse env job response False t1 of
             Inl e \<Rightarrow> Inl (terminal_error e (Some status), tr1)
           | Inr job1 \<Rightarrow>
               let tr2 = tr1 @ [Saved job1]; t2 = t1 + int (w_took w (length tr1)) in
               (case w_saved w (length tr1) of
                  Some e \<Rightarrow> Inl (jobFailure (ctx_ended ctx t2) (''persist job observation: '' @ e), tr2)
                | None \<Rightarrow>
                    if Terminal job1 then Inl (jobResult job_json job1 (Some status), tr2)
                    else (case poll_wait w ctx interval t2 (length tr2) of
                        (Some ce, t3) \<Rightarrow> Inl (jobFailure (Some ce) (ctx_text ce), tr2)
                      | (None, t3) \<Rightarrow> Inr (job1, t3, tr2)))))"

partial_function (option) poll_job ::
    "Env \<Rightarrow> World \<Rightarrow> go_context \<Rightarrow> duration \<Rightarrow> (ExternalJob \<Rightarrow> string) \<Rightarrow> Run \<Rightarrow> TargetSpec \<Rightarrow> ExternalJob
     \<Rightarrow> time \<Rightarrow> effect list \<Rightarrow> (Result \<times> effect list) option" where
  "poll_job env w ctx interval job_json run target job t tr =
     (case poll_turn env w ctx interval job_json run target job t tr of
        Inl r \<Rightarrow> Some r
      | Inr (job1, t1, tr1) \<Rightarrow> poll_job env w ctx interval job_json run target job1 t1 tr1)"

declare poll_job.simps [code]

definition reserved_event_key :: string where
  "reserved_event_key = ''_wakeplane_event''"

definition event_text :: "TriggerEvent \<Rightarrow> string" where
  "event_text ev =
     ''{'' @ comma_separated ([json_string ''id'' @ '':'' @ json_string (ev_ID ev), json_string ''source'' @ '':'' @ json_string (ev_Source ev)]
       @ (case ev_Data ev of None \<Rightarrow> [] | Some [] \<Rightarrow> [] | Some d \<Rightarrow> [json_string ''data'' @ '':'' @ json_text (JObject d)])) @ ''}''"

text \<open>The encoding of the payload: the target's body, with the event envelope if the run has an event;
  \<open>None\<close> if the body already uses the reserved key.\<close>

definition payload_text :: "TargetSpec \<Rightarrow> Run \<Rightarrow> string option" where
  "payload_text target run =
     (case r_Event run of
        None \<Rightarrow> Some (case t_Body target of None \<Rightarrow> ''null'' | Some b \<Rightarrow> json_text (JObject b))
      | Some ev \<Rightarrow>
          let body = (case t_Body target of None \<Rightarrow> [] | Some b \<Rightarrow> b) in
          if reserved_event_key \<in> fst ` set body then None
          else Some (CHR ''{'' # comma_separated (map snd (sort_key fst
            ((reserved_event_key, json_string reserved_event_key @ '':'' @ event_text ev)
             # map (\<lambda>(k, v). (k, json_string k @ CHR '':'' # json_text v)) body))) @ ''}''))"

definition new_job :: "TargetSpec \<Rightarrow> int \<Rightarrow> time \<Rightarrow> ExternalJob" where
  "new_job target timeout since =
     (let job = \<lparr>j_JobID = '''', j_StatusURL = '''', j_Status = ExternalJobSubmitting, j_Progress = None,
            j_Result = '''', j_Artifacts = [], j_Error = '''', j_SubmittedAt = since, j_UpdatedAt = since,
            j_DeadlineAt = since + seconds timeout, j_Compacted = False, j_CanReconcile = False,
            j_RequestTarget = target\<rparr>
      in job\<lparr>j_CanReconcile := ReconciliationAvailable job\<rparr>)"

definition poll_interval :: "HTTPJobSpec \<Rightarrow> duration" where
  "poll_interval h = (if seconds (hj_PollIntervalSeconds h) = 0 then 5 * second else seconds (hj_PollIntervalSeconds h))"

text \<open>From line 109: following an accepted job.\<close>

definition follow_job ::
    "Env \<Rightarrow> World \<Rightarrow> go_context \<Rightarrow> duration \<Rightarrow> (ExternalJob \<Rightarrow> string) \<Rightarrow> Run \<Rightarrow> TargetSpec \<Rightarrow> ExternalJob
     \<Rightarrow> time \<Rightarrow> effect list \<Rightarrow> (Result \<times> effect list) option" where
  "follow_job env w ctx interval job_json run target job t tr =
     (if \<not> sameOrigin env (t_URL target) (j_StatusURL job)
      then Some (terminal_error ''external job status URL must share the submission origin'' None, tr)
      else poll_job env w ctx interval job_json run target job t tr)"

text \<open>Lines 77 to 108: the submission, unless the job already has an identity.\<close>

definition submit_job ::
    "Env \<Rightarrow> World \<Rightarrow> go_context \<Rightarrow> duration \<Rightarrow> (ExternalJob \<Rightarrow> string) \<Rightarrow> Run \<Rightarrow> TargetSpec \<Rightarrow> ExternalJob
     \<Rightarrow> time \<Rightarrow> effect list \<Rightarrow> (Result \<times> effect list) option" where
  "submit_job env w ctx interval job_json run target job t tr =
     (if j_JobID job \<noteq> '''' then follow_job env w ctx interval job_json run target job t tr
      else case payload_text target run of
        None \<Rightarrow> Some (terminal_error ''_wakeplane_event is reserved for the event envelope'' None, tr)
      | Some body \<Rightarrow>
          (case observeJob env w ctx t tr run target ''POST'' (t_URL target) body of
             (Inl (e, status), t1, tr1) \<Rightarrow> Some ((jobFailure (ctx_ended ctx t1) e)\<lparr>x_HTTPStatusCode := status\<rparr>, tr1)
           | (Inr (response, status), t1, tr1) \<Rightarrow>
               (case applyJobResponse env job response True t1 of
                  Inl e \<Rightarrow> Some (terminal_error e (Some status), tr1)
                | Inr job1 \<Rightarrow>
                    let tr2 = tr1 @ [Saved job1]; t2 = t1 + int (w_took w (length tr1)) in
                    (case w_saved w (length tr1) of
                       Some e \<Rightarrow> Some (jobFailure (ctx_ended ctx t2) (''persist accepted job: '' @ e), tr2)
                     | None \<Rightarrow>
                         if Terminal job1 then Some (jobResult job_json job1 (Some status), tr2)
                         else follow_job env w ctx interval job_json run target job1 t2 tr2))))"

text \<open>Lines 55 to 76: what must hold of the persisted job before anything is sent.\<close>

definition resume_job ::
    "Env \<Rightarrow> World \<Rightarrow> (ExternalJob \<Rightarrow> string) \<Rightarrow> Run \<Rightarrow> ExternalJob \<Rightarrow> time \<Rightarrow> effect list \<Rightarrow> (Result \<times> effect list) option" where
  "resume_job env w job_json run job t tr =
     (let ctx = with_deadline (w_outer w) (j_DeadlineAt job) in
      if Terminal job then Some (jobResult job_json job None, tr)
      else if j_Compacted job
      then Some (terminal_error ''external job checkpoint was pruned; occurrence cannot be resubmitted'' None, tr)
      else case ctx_ended ctx t of
        Some ce \<Rightarrow> Some (jobFailure (Some ce) (ctx_text ce), tr)
      | None \<Rightarrow>
          let target = j_RequestTarget job in
          (case t_HTTPJob target of
             None \<Rightarrow> Some (terminal_error ''invalid persisted external job target'' None, tr)
           | Some h \<Rightarrow>
               if t_Kind target \<noteq> TargetKindHTTP \<or> to_upper (t_Method target) \<noteq> ''POST'' \<or> \<not> safeHTTPURL env (t_URL target)
               then Some (terminal_error ''invalid persisted external job target'' None, tr)
               else if poll_interval h < second \<or> poll_interval h > 300 * second
               then Some (terminal_error ''invalid external job polling interval'' None, tr)
               else submit_job env w ctx (poll_interval h) job_json run target job t tr))"

definition executeJob ::
    "Env \<Rightarrow> World \<Rightarrow> (ExternalJob \<Rightarrow> string) \<Rightarrow> bool \<Rightarrow> Schedule \<Rightarrow> Run \<Rightarrow> int \<Rightarrow> (Result \<times> effect list) option" where
  "executeJob env w job_json has_checkpoint schedule run timeout =
     (if \<not> has_checkpoint then Some (terminal_error ''external jobs require durable checkpoint storage'' None, [])
      else case r_ExternalJob run of
        Some job \<Rightarrow> resume_job env w job_json run job (w_start w) []
      | None \<Rightarrow>
          let since = (case r_StartedAt run of None \<Rightarrow> w_start w | Some t \<Rightarrow> t);
              job = new_job (s_Target schedule) timeout since; tr = [Saved job]; t = w_start w + int (w_took w 0)
          in (case w_saved w 0 of
                Some e \<Rightarrow> Some (jobFailure (ctx_ended (w_outer w) t) (''persist submission intent: '' @ e), tr)
              | None \<Rightarrow> resume_job env w job_json run job t tr))"

text \<open>\<open>Reconcile\<close>: one observation on behalf of an operator.\<close>

definition Reconcile ::
    "Env \<Rightarrow> World \<Rightarrow> Run \<Rightarrow> ExternalJob \<Rightarrow> (string, ExternalJob) result \<times> effect list" where
  "Reconcile env w run job =
     (if j_Compacted job \<or> Terminal job
      then (Inl ''external job has no unresolved, safe remote identity to reconcile'', [])
      else
        let lookup = (j_JobID job = '''');
            lookup_url = (case t_HTTPJob (j_RequestTarget job) of None \<Rightarrow> '''' | Some h \<Rightarrow> hj_LookupURL h)
        in if lookup \<and> (j_Status job \<noteq> ExternalJobSubmitting \<or> lookup_url = '''')
           then (Inl ''submission acceptance is unknown; configure a runner lookup URL before submitting jobs to enable recovery'', [])
           else
             let url = (if lookup then lookup_url else j_StatusURL job) in
             if \<not> sameOrigin env (t_URL (j_RequestTarget job)) url
             then (Inl ''external job reconciliation URL must share the submission origin'', [])
             else (case observeJob env w (w_outer w) (w_start w) [] run (j_RequestTarget job) ''GET'' url '''' of
                 (Inl (e, status), t, tr) \<Rightarrow> (Inl e, tr)
               | (Inr (response, status), t, tr) \<Rightarrow> (applyJobResponse env job response lookup t, tr)))"

section \<open>Observations\<close>

lemma applyJobResponse_ok:
  assumes "applyJobResponse env job response submitting now = Inr job1"
  shows "j_SubmittedAt job1 = j_SubmittedAt job \<and> j_DeadlineAt job1 = j_DeadlineAt job
    \<and> j_RequestTarget job1 = j_RequestTarget job \<and> j_Compacted job1 = j_Compacted job \<and> j_UpdatedAt job1 = now
    \<and> j_CanReconcile job1 = ReconciliationAvailable job1 \<and> job_status_check (j_Status job1)
    \<and> (if submitting then j_JobID job1 \<noteq> '''' \<and> sameOrigin env (t_URL (j_RequestTarget job)) (j_StatusURL job1)
       else j_JobID job1 = j_JobID job \<and> j_StatusURL job1 = j_StatusURL job)"
proof -
  have chk: "check_identity env job response submitting = None"
    and st: "jr_Status response \<in> {ExternalJobQueued, ExternalJobRunning, ExternalJobSucceeded, ExternalJobFailed,
      ExternalJobCancelled}"
    using assms by (auto simp: applyJobResponse_def split: if_splits option.splits)
  define job0 where "job0 = (if submitting
    then job\<lparr>j_JobID := jr_JobID response, j_StatusURL := jr_StatusURL response\<rparr> else job)
    \<lparr>j_Status := jr_Status response, j_Progress := jr_Progress response,
     j_Result := jr_Result response, j_Artifacts := jr_Artifacts response, j_Error := jr_Error response, j_UpdatedAt := now\<rparr>"
  have job1: "job1 = job0\<lparr>j_CanReconcile := ReconciliationAvailable job0\<rparr>"
    using assms chk st by (auto simp: applyJobResponse_def Let_def job0_def split: if_splits)
  have "ReconciliationAvailable job1 = ReconciliationAvailable job0"
    by (simp add: job1 ReconciliationAvailable_def Terminal_def)
  moreover have "job_status_check (jr_Status response)" using st by (auto simp: job_status_check_def unresolved_def)
  moreover have "jr_JobID response \<noteq> '''' \<and> sameOrigin env (t_URL (j_RequestTarget job)) (jr_StatusURL response)" if submitting
    using chk that by (auto simp: check_identity_def split: if_splits)
  ultimately show ?thesis by (simp add: job1 job0_def)
qed

lemma observeJob_effects:
  assumes "observeJob env w ctx t tr run target meth url body = (r, t1, tr1)"
  shows "tr1 = (if sameOrigin env (t_URL target) url \<and> ctx_ended ctx t = None
    then tr @ [Sent \<lparr>q_Method = meth, q_URL = url, q_Headers = job_headers run target meth url, q_Body = body\<rparr>] else tr)"
    and "\<not> (sameOrigin env (t_URL target) url \<and> ctx_ended ctx t = None) \<Longrightarrow> \<exists>e. r = Inl e"
    and "t \<le> t1"
  using assms by (auto simp: observeJob_def Let_def split: option.splits if_splits)

section \<open>The polling loop\<close>

text \<open>What a polling request may look like.\<close>

definition polls :: "Env \<Rightarrow> Run \<Rightarrow> TargetSpec \<Rightarrow> string \<Rightarrow> effect \<Rightarrow> bool" where
  "polls env run target url x \<longleftrightarrow> (case x of
     Sent q \<Rightarrow> q_Method q = ''GET'' \<and> q_URL q = url \<and> sameOrigin env (t_URL target) url
       \<and> q_Headers q = job_headers run target ''GET'' url
   | Saved job \<Rightarrow> j_StatusURL job = url)"

definition gets :: "effect \<Rightarrow> bool" where
  "gets x = (case x of Sent q \<Rightarrow> q_Method q = ''GET'' | Saved _ \<Rightarrow> False)"

text \<open>How an execution that ends with a result ends: a success rests on a job the runner reported done.\<close>

definition reports :: "World \<Rightarrow> (ExternalJob \<Rightarrow> string) \<Rightarrow> Result \<Rightarrow> effect list \<Rightarrow> bool" where
  "reports w jj res tr \<longleftrightarrow> (x_ErrorText res = '''' \<longrightarrow>
     (\<exists>pre job. tr = pre @ [Saved job] \<and> w_saved w (length pre) = None \<and> j_Status job = ExternalJobSucceeded
       \<and> x_ResultJSON res = jj job))"

definition errors_named :: "World \<Rightarrow> bool" where
  "errors_named w \<longleftrightarrow> (\<forall>k s. w_reply w k \<noteq> TransportError '''' \<and> w_reply w k \<noteq> Response s (ReadError ''''))"

lemma ctx_text_nonempty: "ctx_text e \<noteq> ''''"
  by (cases e) (simp_all add: ctx_text_def)

lemma jobFailure_text [simp]: "x_ErrorText (jobFailure c e) = e"
  by (simp add: jobFailure_def zero_Result_def)

lemma terminal_error_text [simp]: "x_ErrorText (terminal_error e s) = e"
  by (simp add: terminal_error_def zero_Result_def)

lemma jobResult_text: "Terminal job \<Longrightarrow> x_ErrorText (jobResult jj job s) = '''' \<Longrightarrow>
  j_Status job = ExternalJobSucceeded \<and> x_ResultJSON (jobResult jj job s) = jj job"
  by (auto simp: jobResult_def Terminal_def zero_Result_def Let_def split: if_splits)

lemma observeJob_error_named:
  "errors_named w \<Longrightarrow> observeJob env w ctx t tr run target meth url body = (Inl (e, st), t1, tr1) \<Longrightarrow> e \<noteq> ''''"
  by (auto simp: observeJob_def errors_named_def Let_def split: option.splits if_splits http_outcome.splits reply_body.splits sum.splits)

lemma applyJobResponse_error_named: "applyJobResponse env job response submitting now = Inl e \<Longrightarrow> e \<noteq> ''''"
  by (auto simp: applyJobResponse_def check_identity_def Let_def split: if_splits option.splits)

lemma poll_wait_timer: "poll_wait w ctx interval t k = (None, t') \<Longrightarrow> 0 < interval \<Longrightarrow> t + interval \<le> t'"
  by (auto simp: poll_wait_def ctx_ended_def Let_def split: option.splits if_splits)

lemma poll_turn_effects:
  assumes "poll_turn env w ctx iv jj run target job t tr = out"
  shows "\<exists>ext. list_all (polls env run target (j_StatusURL job)) ext
    \<and> (case out of Inl (res, tr') \<Rightarrow> tr' = tr @ ext \<and> (errors_named w \<longrightarrow> reports w jj res tr')
       | Inr (job1, t', tr') \<Rightarrow> tr' = tr @ ext \<and> j_StatusURL job1 = j_StatusURL job)
    \<and> (0 < iv \<longrightarrow> (case out of Inl (res, tr') \<Rightarrow> length (filter gets ext) \<le> (if ctx_ended ctx t = None then 1 else 0)
       | Inr (job1, t', tr') \<Rightarrow> t + iv \<le> t' \<and> ctx_ended ctx t = None \<and> length (filter gets ext) = 1))"
proof -
  obtain r t1 tr1 where obs: "observeJob env w ctx t tr run target ''GET'' (j_StatusURL job) '''' = (r, t1, tr1)" by (metis prod_cases3)
  note eff = observeJob_effects [OF obs]
  define sent where "sent \<longleftrightarrow> sameOrigin env (t_URL target) (j_StatusURL job) \<and> ctx_ended ctx t = None"
  define e1 where "e1 = (if sent then [Sent \<lparr>q_Method = ''GET'', q_URL = j_StatusURL job,
    q_Headers = job_headers run target ''GET'' (j_StatusURL job), q_Body = ''''\<rparr>] else [])"
  have tr1: "tr1 = tr @ e1" "list_all (polls env run target (j_StatusURL job)) e1" "length (filter gets e1) = (if sent then 1 else 0)"
    using eff(1) by (auto simp: e1_def sent_def polls_def gets_def)
  have few: "length (filter gets e1) \<le> (if ctx_ended ctx t = None then 1 else 0)" using tr1(3) by (simp add: sent_def)
  note turn = assms [unfolded poll_turn_def obs]
  show ?thesis
  proof (cases r)
    case (Inl err)
    then obtain e st where "r = Inl (e, st)" by (cases err) auto
    with turn obs tr1 few show ?thesis by (intro exI [of _ e1]) (auto simp: reports_def dest: observeJob_error_named)
  next
    case (Inr ans)
    then obtain response status where r: "r = Inr (response, status)" by (cases ans) auto
    have sent: sent
    proof (rule ccontr)
      assume "\<not> sent"
      with eff(2) show False by (simp only: sent_def r) simp
    qed
    show ?thesis
    proof (cases "applyJobResponse env job response False t1")
      case (Inl e)
      with turn r tr1 few show ?thesis by (intro exI [of _ e1]) (auto simp: reports_def dest: applyJobResponse_error_named)
    next
      case (Inr job1)
      note ok = applyJobResponse_ok [OF this]
      let ?tr2 = "tr1 @ [Saved job1]" and ?e2 = "e1 @ [Saved job1]"
      have e2: "list_all (polls env run target (j_StatusURL job)) ?e2" "?tr2 = tr @ ?e2" "length (filter gets ?e2) = 1"
        using tr1 ok sent by (auto simp: polls_def gets_def)
      define t2 where "t2 = t1 + int (w_took w (length tr1))"
      have t2: "t \<le> t2" using eff(3) by (simp add: t2_def)
      have "case out of Inl (res, tr') \<Rightarrow> tr' = ?tr2 \<and> (errors_named w \<longrightarrow> reports w jj res ?tr2)
          | Inr (job', t', tr') \<Rightarrow> tr' = ?tr2 \<and> job' = job1 \<and> poll_wait w ctx iv t2 (length ?tr2) = (None, t')"
        using turn r Inr jobResult_text [of job1 jj "Some status"] ctx_text_nonempty
        by (auto simp: reports_def Let_def t2_def split: option.splits if_splits prod.splits)
      with ok e2 t2 sent show ?thesis
        by (intro exI [of _ ?e2]) (fastforce simp: sent_def dest: poll_wait_timer split: sum.splits)
    qed
  qed
qed

lemma poll_job_effects:
  "poll_job env w ctx iv jj run target job t tr = Some (res, tr') \<Longrightarrow>
    \<exists>ext. tr' = tr @ ext \<and> list_all (polls env run target (j_StatusURL job)) ext \<and> (errors_named w \<longrightarrow> reports w jj res tr')"
proof -
  have "\<forall>res tr'. out = (res, tr') \<longrightarrow>
      (\<exists>ext. tr' = tr @ ext \<and> list_all (polls env run target (j_StatusURL job)) ext \<and> (errors_named w \<longrightarrow> reports w jj res tr'))"
    if "poll_job env w ctx iv jj run target job t tr = Some out" for out
  proof (rule poll_job.raw_induct [OF _ that])
    fix loop :: "Env \<Rightarrow> World \<Rightarrow> go_context \<Rightarrow> duration \<Rightarrow> (ExternalJob \<Rightarrow> string) \<Rightarrow> Run \<Rightarrow> TargetSpec \<Rightarrow> ExternalJob \<Rightarrow> time \<Rightarrow> effect list
        \<Rightarrow> (Result \<times> effect list) option"
      and env w ctx iv jj run target job t tr out
    assume IH: "\<And>env w ctx iv jj run target job t tr out. loop env w ctx iv jj run target job t tr = Some out \<Longrightarrow>
        \<forall>res tr'. out = (res, tr') \<longrightarrow>
          (\<exists>ext. tr' = tr @ ext \<and> list_all (polls env run target (j_StatusURL job)) ext \<and> (errors_named w \<longrightarrow> reports w jj res tr'))"
      and step: "(case poll_turn env w ctx iv jj run target job t tr of Inl r \<Rightarrow> Some r
          | Inr (job1, t1, tr1) \<Rightarrow> loop env w ctx iv jj run target job1 t1 tr1) = Some out"
    show "\<forall>res tr'. out = (res, tr') \<longrightarrow>
        (\<exists>ext. tr' = tr @ ext \<and> list_all (polls env run target (j_StatusURL job)) ext \<and> (errors_named w \<longrightarrow> reports w jj res tr'))"
    proof (intro allI impI)
      fix res tr' assume out: "out = (res, tr')"
      show "\<exists>ext. tr' = tr @ ext \<and> list_all (polls env run target (j_StatusURL job)) ext \<and> (errors_named w \<longrightarrow> reports w jj res tr')"
      proof (cases "poll_turn env w ctx iv jj run target job t tr")
        case (Inl r)
        have "r = (res, tr')" using step [unfolded Inl out] by (simp only: sum.case option.inject)
        then have turn: "poll_turn env w ctx iv jj run target job t tr = Inl (res, tr')" using Inl by (simp only:)
        from poll_turn_effects [OF turn] show ?thesis unfolding sum.case prod.case by blast
      next
        case (Inr cont)
        obtain job1 t1 tr1 where cont: "cont = (job1, t1, tr1)" by (cases cont)
        with poll_turn_effects [OF Inr] obtain ext where ext: "tr1 = tr @ ext"
          "list_all (polls env run target (j_StatusURL job)) ext" "j_StatusURL job1 = j_StatusURL job" by auto
        have "loop env w ctx iv jj run target job1 t1 tr1 = Some (res, tr')"
          using step [unfolded Inr cont out] by (simp only: sum.case prod.case)
        from IH [OF this] ext(3) obtain ext2 where "tr' = tr1 @ ext2"
          "list_all (polls env run target (j_StatusURL job)) ext2" "errors_named w \<longrightarrow> reports w jj res tr'" by auto
        with ext show ?thesis by (intro exI [of _ "ext @ ext2"]) simp
      qed
    qed
  qed
  then show "poll_job env w ctx iv jj run target job t tr = Some (res, tr') \<Longrightarrow>
    \<exists>ext. tr' = tr @ ext \<and> list_all (polls env run target (j_StatusURL job)) ext \<and> (errors_named w \<longrightarrow> reports w jj res tr')" by blast
qed

text \<open>
  The loop ends: every turn that goes on has waited for the interval, and no request is sent once the context
  has ended. \<open>paced\<close> bounds the polls sent from a time on, with the given pause between them, up to the end.
\<close>

definition paced :: "time \<Rightarrow> duration \<Rightarrow> time \<Rightarrow> nat \<Rightarrow> bool" where
  "paced t iv c n \<longleftrightarrow> n = 0 \<or> t + (int n - 1) * iv < c"

lemma paced_later: "paced t' iv c n \<Longrightarrow> t \<le> t' \<Longrightarrow> paced t iv c n"
  by (auto simp: paced_def)

lemma paced_Suc: "paced t' iv c n \<Longrightarrow> t + iv \<le> t' \<Longrightarrow> t < c \<Longrightarrow> paced t iv c (Suc n)"
  by (cases n) (auto simp: paced_def algebra_simps)

lemma poll_job_returns:
  assumes "0 < iv" and ctx: "ctx = Some (c, e)"
  shows "\<exists>res ext. poll_job env w ctx iv jj run target job t tr = Some (res, tr @ ext) \<and> paced t iv c (length (filter gets ext))"
proof (induction "nat (c - t)" arbitrary: job t tr rule: less_induct)
  case less
  note turn = poll_turn_effects [of env w ctx iv jj run target job t tr, OF refl]
  have over: "ctx_ended ctx t = None \<longleftrightarrow> t < c" by (simp add: ctx_ended_def ctx not_le)
  show ?case
  proof (cases "poll_turn env w ctx iv jj run target job t tr")
    case (Inl r)
    obtain res tr' where r: "r = (res, tr')" by (cases r)
    from turn obtain ext where "tr' = tr @ ext" "length (filter gets ext) \<le> (if t < c then 1 else 0)"
      using assms(1) by (auto simp: Inl r over)
    moreover from this(2) have "paced t iv c (length (filter gets ext))" by (auto simp: paced_def le_Suc_eq split: if_splits)
    ultimately show ?thesis by (subst poll_job.simps) (auto simp: Inl r)
  next
    case (Inr cont)
    obtain job1 t1 tr1 where cont: "cont = (job1, t1, tr1)" by (cases cont)
    from turn obtain ext where ext: "tr1 = tr @ ext" "t + iv \<le> t1" "t < c" "length (filter gets ext) = 1"
      using assms(1) by (auto simp: Inr cont over)
    then have "nat (c - t1) < nat (c - t)" using assms(1) by simp
    from less.hyps [OF this, of job1 tr1] obtain res ext2 where
      rest: "poll_job env w ctx iv jj run target job1 t1 tr1 = Some (res, tr1 @ ext2)" "paced t1 iv c (length (filter gets ext2))" by blast
    have "paced t iv c (length (filter gets (ext @ ext2)))" using paced_Suc [OF rest(2) ext(2,3)] ext(4) by simp
    then show ?thesis using rest(1) ext(1)
      by (subst poll_job.simps) (auto simp: Inr cont intro!: exI [of _ "ext @ ext2"])
  qed
qed

section \<open>Submission\<close>

text \<open>What the submitting request looks like.\<close>

definition submits :: "Env \<Rightarrow> Run \<Rightarrow> TargetSpec \<Rightarrow> HttpRequest \<Rightarrow> bool" where
  "submits env run target q \<longleftrightarrow> q_Method q = ''POST'' \<and> q_URL q = t_URL target \<and> sameOrigin env (t_URL target) (t_URL target)
     \<and> q_Headers q = job_headers run target ''POST'' (t_URL target)"

text \<open>The effects of an execution from the persisted job on: at most one submission, then polls.\<close>

definition job_effects :: "Env \<Rightarrow> Run \<Rightarrow> TargetSpec \<Rightarrow> bool \<Rightarrow> effect list \<Rightarrow> bool" where
  "job_effects env run target fresh tr \<longleftrightarrow> (\<exists>pre ext url. tr = pre @ ext \<and> list_all (polls env run target url) ext
     \<and> (pre = [] \<or> fresh \<and> (\<exists>q. submits env run target q \<and> (pre = [Sent q] \<or> (\<exists>job. pre = [Sent q, Saved job])))))"

lemma job_effects_Nil: "job_effects env run target fresh []"
  by (simp add: job_effects_def)

lemma job_effects_polls: "list_all (polls env run target url) tr \<Longrightarrow> job_effects env run target fresh tr"
  unfolding job_effects_def by (rule exI [of _ "[]"]) auto

lemma job_effects_sent: "submits env run target q \<Longrightarrow> job_effects env run target True [Sent q]"
  unfolding job_effects_def by (rule exI [of _ "[Sent q]"], rule exI [of _ "[]"]) simp

lemma job_effects_saved:
  "submits env run target q \<Longrightarrow> list_all (polls env run target url) ext \<Longrightarrow>
   job_effects env run target True (Sent q # Saved job # ext)"
  unfolding job_effects_def
  by (rule exI [of _ "[Sent q, Saved job]"], rule exI [of _ ext], rule exI [of _ url]) auto

lemma follow_job_effects:
  assumes "follow_job env w ctx iv jj run target job t tr = Some (res, tr')"
  shows "\<exists>ext. tr' = tr @ ext \<and> list_all (polls env run target (j_StatusURL job)) ext \<and> (errors_named w \<longrightarrow> reports w jj res tr')"
proof (cases "sameOrigin env (t_URL target) (j_StatusURL job)")
  case True
  with assms poll_job_effects show ?thesis by (simp add: follow_job_def)
next
  case False
  with assms show ?thesis by (auto simp: follow_job_def reports_def intro!: exI [of _ "[]"])
qed

lemma submit_job_effects:
  assumes run: "submit_job env w ctx iv jj run target job t tr = Some (res, tr')"
  shows "\<exists>ext. tr' = tr @ ext \<and> job_effects env run target (j_JobID job = '''') ext \<and> (errors_named w \<longrightarrow> reports w jj res tr')"
proof (cases "j_JobID job = ''''")
  case False
  with run have "follow_job env w ctx iv jj run target job t tr = Some (res, tr')" by (simp add: submit_job_def)
  from follow_job_effects [OF this] show ?thesis using job_effects_polls by blast
next
  case fresh: True
  show ?thesis
  proof (cases "payload_text target run")
    case None
    with run fresh show ?thesis by (auto simp: submit_job_def reports_def job_effects_Nil)
  next
    case (Some body)
    obtain r t1 tr1 where obs: "observeJob env w ctx t tr run target ''POST'' (t_URL target) body = (r, t1, tr1)" by (metis prod_cases3)
    note eff = observeJob_effects [OF obs]
    define q where "q = \<lparr>q_Method = ''POST'', q_URL = t_URL target,
      q_Headers = job_headers run target ''POST'' (t_URL target), q_Body = body\<rparr>"
    note step = run [unfolded submit_job_def Some option.case obs]
    have sent: "tr1 = tr \<or> tr1 = tr @ [Sent q] \<and> submits env run target q"
      using eff(1) by (auto simp: q_def submits_def split: if_splits)

    show ?thesis
    proof (cases r)
      case (Inl err)
      obtain e st where e: "err = (e, st)" by (cases err)
      have "errors_named w \<Longrightarrow> e \<noteq> ''''" using obs Inl e observeJob_error_named by blast
      then have "errors_named w \<longrightarrow> reports w jj res tr'" and "tr' = tr1"
        using step fresh Inl e by (auto simp: reports_def)
      with sent job_effects_sent fresh job_effects_Nil show ?thesis by auto
    next
      case (Inr ans)
      obtain response status where r: "r = Inr (response, status)" using Inr by (cases ans) auto
      have s: "tr1 = tr @ [Sent q]" "submits env run target q" using eff(2) sent r eff(1) by (auto split: if_splits)
      show ?thesis
      proof (cases "applyJobResponse env job response True t1")
        case (Inl e)
        have "reports w jj res tr'" and "tr' = tr1"
          using step fresh r Inl applyJobResponse_error_named [OF Inl] by (auto simp: reports_def)
        with s job_effects_sent fresh show ?thesis by auto
      next
        case (Inr job1)
        let ?tr2 = "tr1 @ [Saved job1]"
        consider (stop) "tr' = ?tr2" "reports w jj res ?tr2" | (go) "follow_job env w ctx iv jj run target job1 (t1 + int (w_took w (length tr1))) ?tr2 = Some (res, tr')"
          using step fresh r Inr jobResult_text [of job1 jj "Some status"]
          by (auto simp: Let_def reports_def split: option.splits if_splits)
        then show ?thesis
        proof cases
          case stop
          with s job_effects_saved [OF s(2), of _ "[]" job1] fresh show ?thesis by auto
        next
          case go
          from follow_job_effects [OF go] obtain ext where ext: "tr' = ?tr2 @ ext"
            "list_all (polls env run target (j_StatusURL job1)) ext" "errors_named w \<longrightarrow> reports w jj res tr'" by blast
          have "job_effects env run target True (Sent q # Saved job1 # ext)" by (rule job_effects_saved [OF s(2) ext(2)])
          with ext(1,3) s(1) fresh show ?thesis by (intro exI [of _ "Sent q # Saved job1 # ext"]) simp
        qed
      qed
    qed
  qed
qed

lemma resume_job_effects:
  assumes run: "resume_job env w jj run job t tr = Some (res, tr')"
  shows "\<exists>ext. tr' = tr @ ext \<and> job_effects env run (j_RequestTarget job) (j_JobID job = '''') ext
    \<and> (errors_named w \<longrightarrow> reports w jj res tr' \<or> j_Status job = ExternalJobSucceeded \<and> x_ResultJSON res = jj job)"
proof -
  consider (stop) "tr' = tr" "x_ErrorText res \<noteq> '''' \<or> (Terminal job \<and> res = jobResult jj job None)"
    | (go) "\<exists>ctx iv. submit_job env w ctx iv jj run (j_RequestTarget job) job t tr = Some (res, tr')"
    using run ctx_text_nonempty by (auto simp: resume_job_def Let_def split: if_splits option.splits)
  then show ?thesis
  proof cases
    case stop
    with jobResult_text [of job jj None] have "reports w jj res tr' \<or> j_Status job = ExternalJobSucceeded \<and> x_ResultJSON res = jj job"
      by (auto simp: reports_def)
    with stop(1) job_effects_Nil show ?thesis by auto
  next
    case go
    then obtain ctx iv where "submit_job env w ctx iv jj run (j_RequestTarget job) job t tr = Some (res, tr')" by blast
    from submit_job_effects [OF this] show ?thesis by auto
  qed
qed

text \<open>The job an execution is about: the checkpointed one, or the new one.\<close>

definition job_of :: "World \<Rightarrow> Schedule \<Rightarrow> Run \<Rightarrow> int \<Rightarrow> ExternalJob" where
  "job_of w schedule run timeout = (case r_ExternalJob run of Some job \<Rightarrow> job
     | None \<Rightarrow> new_job (s_Target schedule) timeout (case r_StartedAt run of None \<Rightarrow> w_start w | Some t \<Rightarrow> t))"

lemma executeJob_cases:
  assumes "executeJob env w jj has_checkpoint schedule run timeout = Some (res, tr)"
  obtains (refused) "tr = []" "x_ErrorText res \<noteq> ''''"
  | (unsaved) "r_ExternalJob run = None" "tr = [Saved (job_of w schedule run timeout)]" "x_ErrorText res \<noteq> ''''"
  | (fresh) "r_ExternalJob run = None" "w_saved w 0 = None"
      "resume_job env w jj run (job_of w schedule run timeout) (w_start w + int (w_took w 0)) [Saved (job_of w schedule run timeout)] = Some (res, tr)"
  | (resumed) "r_ExternalJob run = Some (job_of w schedule run timeout)"
      "resume_job env w jj run (job_of w schedule run timeout) (w_start w) [] = Some (res, tr)"
proof (cases "r_ExternalJob run")
  case None
  then have job: "job_of w schedule run timeout = new_job (s_Target schedule) timeout (case r_StartedAt run of None \<Rightarrow> w_start w | Some t \<Rightarrow> t)"
    by (simp add: job_of_def)
  show ?thesis
  proof (cases "has_checkpoint \<and> w_saved w 0 = None")
    case True
    with assms None job have "resume_job env w jj run (job_of w schedule run timeout) (w_start w + int (w_took w 0)) [Saved (job_of w schedule run timeout)] = Some (res, tr)"
      by (simp add: executeJob_def Let_def)
    with None True fresh show ?thesis by blast
  next
    case False
    with assms None job have "tr = [] \<and> x_ErrorText res \<noteq> '''' \<or>
        tr = [Saved (job_of w schedule run timeout)] \<and> x_ErrorText res \<noteq> ''''"
      by (auto simp: executeJob_def Let_def split: if_splits)
    with None refused unsaved show ?thesis by blast
  qed
next
  case (Some job)
  then have "job_of w schedule run timeout = job" by (simp add: job_of_def)
  with assms Some refused resumed show ?thesis by (auto simp: executeJob_def split: if_splits)
qed

lemma job_of_new: "r_ExternalJob run = None \<Longrightarrow> j_JobID (job_of w schedule run timeout) = ''''
  \<and> j_Status (job_of w schedule run timeout) = ExternalJobSubmitting"
  by (simp add: job_of_def new_job_def Let_def)

text \<open>The key under which the runner can recognise a resubmission.\<close>

lemma post_is_idempotent: "job_headers run target ''POST'' url ''Idempotency-Key'' = Some (r_OccurrenceKey run)"
proof -
  have "canonical_key ''Idempotency-Key'' = ''Idempotency-Key''"
    and "canonical_key ''X-Wakeplane-Occurrence-Key'' = ''X-Wakeplane-Occurrence-Key''"
    and "canonical_key ''X-Wakeplane-Event-Key'' = ''X-Wakeplane-Event-Key''"
    and "canonical_key ''X-Wakeplane-Event-Source'' = ''X-Wakeplane-Event-Source''"
    and "canonical_key ''X-Wakeplane-Event-ID'' = ''X-Wakeplane-Event-Id''" by code_simp+
  then show ?thesis by (simp add: job_headers_def setEventHeaders_def header_set_def Let_def split: option.split)
qed

section \<open>Properties of an execution\<close>

definition posts :: "effect \<Rightarrow> bool" where
  "posts x = (case x of Sent q \<Rightarrow> q_Method q = ''POST'' | Saved _ \<Rightarrow> False)"

definition confined :: "Env \<Rightarrow> Run \<Rightarrow> TargetSpec \<Rightarrow> HttpRequest \<Rightarrow> bool" where
  "confined env run target q \<longleftrightarrow> sameOrigin env (t_URL target) (q_URL q)
     \<and> (q_Method q = ''POST'' \<longrightarrow> q_URL q = t_URL target \<and> q_Headers q ''Idempotency-Key'' = Some (r_OccurrenceKey run))"

lemma polls_confined:
  "list_all (polls env run target url) ext \<Longrightarrow> (\<forall>q. Sent q \<in> set ext \<longrightarrow> confined env run target q) \<and> filter posts ext = []"
  by (induction ext) (auto simp: polls_def confined_def posts_def split: effect.splits)

lemma job_effects_confined:
  assumes "job_effects env run target fresh tr"
  shows "(\<forall>q. Sent q \<in> set tr \<longrightarrow> confined env run target q) \<and> length (filter posts tr) \<le> of_bool fresh"
proof -
  obtain pre ext url where tr: "tr = pre @ ext" "list_all (polls env run target url) ext"
    and pre: "pre = [] \<or> fresh \<and> (\<exists>q. submits env run target q \<and> (pre = [Sent q] \<or> (\<exists>job. pre = [Sent q, Saved job])))"
    using assms unfolding job_effects_def by blast
  have sub: "confined env run target q" if "submits env run target q" for q
    using that by (simp add: submits_def confined_def post_is_idempotent)
  have "(\<forall>q. Sent q \<in> set pre \<longrightarrow> confined env run target q) \<and> length (filter posts pre) \<le> of_bool fresh"
    using pre by (elim disjE conjE exE) (auto simp: posts_def sub)
  with polls_confined [OF tr(2)] show ?thesis by (auto simp: tr(1))
qed

text \<open>A sample: the runner accepts the job and reports that it is done.\<close>

definition job_target :: TargetSpec where
  "job_target = zero_TargetSpec\<lparr>t_Kind := TargetKindHTTP, t_URL := ''http://h/x'', t_Method := ''POST'',
     t_HTTPJob := Some \<lparr>hj_PollIntervalSeconds = 2, hj_LookupURL = ''''\<rparr>\<rparr>"

definition job_schedule :: Schedule where
  "job_schedule = sample_schedule\<lparr>s_Target := job_target\<rparr>"

definition sample_answer :: jobResponse where
  "sample_answer = \<lparr>jr_JobID = ''j1'', jr_StatusURL = ''http://h/x'', jr_Status = ExternalJobSucceeded,
     jr_Progress = None, jr_Result = ''ok'', jr_Artifacts = [], jr_Error = ''''\<rparr>"

definition sample_world :: World where
  "sample_world = \<lparr>w_reply = (\<lambda>k. Response 202 (Data ''finished'')), w_saved = (\<lambda>k. None), w_outer = None,
     w_start = 20, w_took = (\<lambda>k. 1), w_late = (\<lambda>k. 0), w_pick = (\<lambda>k. True), w_op = (\<lambda>k. ''POST''),
     w_decode = (\<lambda>text. Inr sample_answer)\<rparr>"

lemma sample_run: "r_ExternalJob busy_execution = None" "r_OccurrenceKey busy_execution = ''occ_1''"
  by (simp_all add: busy_execution_def plain_run_def RunRow.extend_def Run.fields_def busy_run_def)



lemma sample_accepted: "sameOrigin sample_env ''http://h/x'' ''http://h/x''" "safeHTTPURL sample_env ''http://h/x''"
  "has_control ''j1'' = False" "payload_text job_target busy_execution = Some ''null''"
  by code_simp+

lemma sample_trim: "trim_space ''j1'' = ''j1''"
  by (rule trim_space_visible) (simp_all add: visible_def)

lemma observeJob_answer:
  assumes "sameOrigin env (t_URL target) url" and "ctx_ended ctx t = None" and "w_reply w (length tr) = Response st (Data text)" and "w_decode w text = Inr a"
    and "200 \<le> st" "st < 300" "int (length text) \<le> maxJobResponseBytes"
  shows "observeJob env w ctx t tr run target meth url body = (Inr (a, st), t + int (w_took w (length tr)),
    tr @ [Sent \<lparr>q_Method = meth, q_URL = url, q_Headers = job_headers run target meth url, q_Body = body\<rparr>])"
  using assms by (simp add: observeJob_def Let_def)

lemma sample_execution:
  "\<exists>res tr. executeJob sample_env sample_world (\<lambda>j. ''json'') True job_schedule busy_execution 60 = Some (res, tr)
    \<and> x_ErrorText res = '''' \<and> length (filter posts tr) = 1"
proof -
  let ?w = sample_world and ?json = "\<lambda>j. ''json'' :: string"
  have world: "w_saved ?w k = None" "w_took ?w k = 1" "w_start ?w = 20" "w_outer ?w = None" for k by (simp_all add: sample_world_def)
  define job where "job = new_job job_target 60 20"
  have start: "(case r_StartedAt busy_execution of None \<Rightarrow> w_start ?w | Some t \<Rightarrow> t) = 20"
    by (simp add: busy_execution_def plain_run_def RunRow.extend_def busy_run_def)
  have tgt: "t_URL job_target = ''http://h/x''" "t_Method job_target = ''POST''" "t_Kind job_target = TargetKindHTTP"
    "t_HTTPJob job_target = Some \<lparr>hj_PollIntervalSeconds = 2, hj_LookupURL = ''''\<rparr>"
    by (simp_all add: job_target_def)
  have up: "to_upper ''POST'' = ''POST''" by code_simp
  have j: "j_RequestTarget job = job_target" "j_JobID job = ''''" "j_Compacted job = False" "\<not> Terminal job"
    by (simp_all add: job_def new_job_def Let_def Terminal_def)
  define q where "q = \<lparr>q_Method = ''POST'', q_URL = ''http://h/x'',
    q_Headers = job_headers busy_execution job_target ''POST'' ''http://h/x'', q_Body = ''null''\<rparr>"
  define ctx where "ctx = with_deadline None (j_DeadlineAt job)"
  have alive: "ctx_ended ctx 21 = None" by (simp add: ctx_def ctx_ended_def with_deadline_def job_def new_job_def Let_def) code_simp
  have obs: "observeJob sample_env ?w ctx 21 [Saved job] busy_execution job_target ''POST'' ''http://h/x'' ''null''
      = (Inr (sample_answer, 202), 22, [Saved job, Sent q])"
    by (subst observeJob_answer [of _ _ _ _ _ _ _ 202 "''finished''" sample_answer])
       (simp_all add: tgt alive sample_accepted sample_world_def maxJobResponseBytes_def q_def)
  obtain job1 where app: "applyJobResponse sample_env job sample_answer True 22 = Inr job1"
    and job1: "Terminal job1" "j_Status job1 = ExternalJobSucceeded"
    by (simp add: applyJobResponse_def check_identity_def sample_answer_def sample_accepted sample_trim j tgt Let_def Terminal_def)
  have "submit_job sample_env ?w ctx (2 * second) ?json busy_execution job_target job 21 [Saved job]
      = Some (jobResult ?json job1 (Some 202), [Saved job, Sent q, Saved job1])"
    using j(2) job1(1) app by (simp add: submit_job_def tgt sample_accepted obs Let_def world)
  moreover have "poll_interval \<lparr>hj_PollIntervalSeconds = 2, hj_LookupURL = ''''\<rparr> = 2 * second" by code_simp
  ultimately have "resume_job sample_env ?w ?json busy_execution job 21 [Saved job]
      = Some (jobResult ?json job1 (Some 202), [Saved job, Sent q, Saved job1])"
    using j alive by (simp add: resume_job_def Let_def ctx_def tgt up sample_accepted world second_def del: to_upper.simps)
  then have "executeJob sample_env ?w ?json True job_schedule busy_execution 60
      = Some (jobResult ?json job1 (Some 202), [Saved job, Sent q, Saved job1])"
    using start sample_run(1) by (simp add: executeJob_def Let_def job_def job_schedule_def world)
  moreover have "x_ErrorText (jobResult ?json job1 (Some 202)) = ''''"
    using job1(2) by (simp add: jobResult_def zero_Result_def)
  ultimately show ?thesis by (simp add: posts_def q_def)
qed

text \<open>
  C13: Whatever the runner answers, an execution of a durable external job sends nothing outside the origin of the
  job's frozen target. It submits at most once, never when the job already has an identity from an earlier
  attempt, and a submission carries the occurrence key as its \<open>Idempotency-Key\<close>. A job that was not yet
  checkpointed is checkpointed first: unless that write succeeds, nothing is sent.
\<close>

theorem job_requests_confined:
  assumes run: "executeJob env w jj has_checkpoint schedule run timeout = Some (res, tr)"
  shows "(\<forall>q. Sent q \<in> set tr \<longrightarrow> confined env run (j_RequestTarget (job_of w schedule run timeout)) q)
    \<and> length (filter posts tr) \<le> (if j_JobID (job_of w schedule run timeout) = '''' then 1 else 0)
    \<and> (r_ExternalJob run = None \<and> (\<exists>q. Sent q \<in> set tr) \<longrightarrow>
        hd tr = Saved (job_of w schedule run timeout) \<and> w_saved w 0 = None)"
  using run
proof (cases rule: executeJob_cases)
  case fresh
  from resume_job_effects [OF fresh(3)] obtain ext where "tr = [Saved (job_of w schedule run timeout)] @ ext"
    "job_effects env run (j_RequestTarget (job_of w schedule run timeout)) (j_JobID (job_of w schedule run timeout) = '''') ext" by blast
  with job_effects_confined [OF this(2)] fresh job_of_new show ?thesis by (auto simp: posts_def)
next
  case resumed
  from resume_job_effects [OF resumed(2)] obtain ext where "tr = ext"
    "job_effects env run (j_RequestTarget (job_of w schedule run timeout)) (j_JobID (job_of w schedule run timeout) = '''') ext" by auto
  with job_effects_confined [OF this(2)] resumed show ?thesis by (auto split: if_splits)
qed (auto simp: posts_def)

theorem job_requests_confined_witness:
  "\<exists>tr :: effect list. length (filter posts tr) = 1
     \<and> (\<forall>q. Sent q \<in> set tr \<longrightarrow> confined sample_env busy_execution (j_RequestTarget (job_of sample_world job_schedule busy_execution 60)) q)
     \<and> hd tr = Saved (job_of sample_world job_schedule busy_execution 60)"
proof -
  obtain res tr where run: "executeJob sample_env sample_world (\<lambda>j. ''json'') True job_schedule busy_execution 60 = Some (res, tr)"
    and one: "length (filter posts tr) = 1"
    using sample_execution by blast
  have "\<exists>q. Sent q \<in> set tr"
  proof (rule ccontr)
    assume "\<nexists>q. Sent q \<in> set tr"
    then have "filter posts tr = []" by (auto simp: filter_empty_conv posts_def split: effect.splits)
    with one show False by simp
  qed
  with job_requests_confined [OF run] one sample_run(1) show ?thesis by blast
qed

text \<open>
  C14: An execution of a durable external job counts as a success only if the runner said so. When the result has
  no error text, the job's status is \<open>succeeded\<close>, the result is that job's JSON, and that status is durable:
  either it was already checkpointed when the execution began, or its checkpoint is the last effect of the
  execution and was written. An accepted HTTP answer alone is never a success.
\<close>

theorem job_success_is_reported:
  assumes run: "executeJob env w jj has_checkpoint schedule run timeout = Some (res, tr)"
    and named: "errors_named w" and ok: "x_ErrorText res = ''''"
  shows "\<exists>job. j_Status job = ExternalJobSucceeded \<and> x_ResultJSON res = jj job
    \<and> (r_ExternalJob run = Some job
       \<or> (\<exists>pre. tr = pre @ [Saved job] \<and> w_saved w (length pre) = None))"
  using run
proof (cases rule: executeJob_cases)
  case fresh
  from resume_job_effects [OF fresh(3)] named job_of_new [OF fresh(1)] have "reports w jj res tr" by auto
  with ok show ?thesis by (auto simp: reports_def)
next
  case resumed
  from resume_job_effects [OF resumed(2)] named
  consider "reports w jj res tr" | "j_Status (job_of w schedule run timeout) = ExternalJobSucceeded"
    "x_ResultJSON res = jj (job_of w schedule run timeout)" by blast
  then show ?thesis
  proof cases
    case 1
    with ok show ?thesis by (auto simp: reports_def)
  next
    case 2
    with resumed(1) show ?thesis by blast
  qed
qed (use ok in simp_all)

theorem job_success_is_reported_witness:
  "\<exists>job tr pre. j_Status job = ExternalJobSucceeded \<and> tr = pre @ [Saved job] \<and> w_saved sample_world (length pre) = None"
proof -
  obtain res tr where run: "executeJob sample_env sample_world (\<lambda>j. ''json'') True job_schedule busy_execution 60 = Some (res, tr)"
    and ok: "x_ErrorText res = ''''"
    using sample_execution by blast
  have "errors_named sample_world" by (simp add: errors_named_def sample_world_def)
  from job_success_is_reported [OF run this ok] sample_run(1) show ?thesis by auto
qed

section \<open>The deadline\<close>

text \<open>The deadline of an execution: that of the checkpointed job, or the timeout after the start of the run.\<close>

definition job_deadline :: "World \<Rightarrow> Run \<Rightarrow> int \<Rightarrow> time" where
  "job_deadline w run timeout = (case r_ExternalJob run of Some job \<Rightarrow> j_DeadlineAt job
     | None \<Rightarrow> (case r_StartedAt run of None \<Rightarrow> w_start w | Some t \<Rightarrow> t) + seconds timeout)"

lemma job_deadline_of: "j_DeadlineAt (job_of w schedule run timeout) = job_deadline w run timeout"
  by (simp add: job_of_def job_deadline_def new_job_def Let_def split: option.split)

lemma paced_until: "paced t iv c n \<Longrightarrow> c \<le> d \<Longrightarrow> paced t iv d n"
  by (auto simp: paced_def)

lemma follow_job_returns:
  assumes "0 < iv" and "ctx = Some (c, e)"
  shows "\<exists>res ext. follow_job env w ctx iv jj run target job t tr = Some (res, tr @ ext) \<and> paced t iv c (length (filter gets ext))"
  using poll_job_returns [OF assms] by (simp add: follow_job_def paced_def)

lemma submit_job_returns:
  assumes "0 < iv" and ctx: "ctx = Some (c, e)"
  shows "\<exists>res ext. submit_job env w ctx iv jj run target job t tr = Some (res, tr @ ext) \<and> paced t iv c (length (filter gets ext))"
proof (cases "j_JobID job = '''' \<and> payload_text target run \<noteq> None")
  case True
  then obtain body where body: "payload_text target run = Some body" and new: "j_JobID job = ''''" by blast
  obtain r t1 tr1 where obs: "observeJob env w ctx t tr run target ''POST'' (t_URL target) body = (r, t1, tr1)" by (metis prod_cases3)
  note eff = observeJob_effects [OF obs]
  obtain e1 where e1: "tr1 = tr @ e1" "filter gets e1 = []" using eff(1) by (auto simp: gets_def split: if_splits)
  have follow: "\<exists>res ext. follow_job env w ctx iv jj run target job1 t2 (tr1 @ [Saved job1]) = Some (res, tr @ ext)
      \<and> paced t iv c (length (filter gets ext))" if "t \<le> t2" for job1 t2
    using follow_job_returns [OF assms, of env w jj run target job1 t2 "tr1 @ [Saved job1]"] that e1
    by (auto simp: gets_def intro!: exI [of _ "e1 @ Saved job1 # _"] elim: paced_later)
  have stop: "\<exists>ext. tr1 = tr @ ext \<and> paced t iv c (length (filter gets ext))"
    "\<exists>ext. tr1 @ [Saved job1] = tr @ ext \<and> paced t iv c (length (filter gets ext))" for job1
    using e1 by (auto simp: paced_def gets_def)
  show ?thesis
  proof (cases r)
    case (Inl err)
    then show ?thesis using stop(1) new by (auto simp: submit_job_def body obs split: prod.split)
  next
    case (Inr ans)
    obtain response status where ans: "ans = (response, status)" by (cases ans)
    show ?thesis
    proof (cases "applyJobResponse env job response True t1")
      case (Inr job1)
      have "t \<le> t1 + int (w_took w (length tr1))" using eff(3) by simp
      note go = follow [OF this, of job1]
      show ?thesis
        using stop(2) [of job1] go new by (auto simp: submit_job_def body obs \<open>r = Inr ans\<close> ans Inr Let_def split: option.split)
    qed (use stop(1) new in \<open>auto simp: submit_job_def body obs Inr ans\<close>)
  qed
next
  case False
  then show ?thesis
    using follow_job_returns [OF assms, of env w jj run target job t tr] by (auto simp: submit_job_def paced_def)
qed

lemma with_deadline_ends:
  obtains c e where "with_deadline ctx d = Some (c, e)" and "c \<le> d"
proof -
  have "\<exists>c e. with_deadline ctx d = Some (c, e) \<and> c \<le> d"
    by (cases ctx) (auto simp: with_deadline_def split: prod.split)
  then show ?thesis using that by blast
qed

lemma resume_job_returns:
  "\<exists>res ext. resume_job env w jj run job t tr = Some (res, tr @ ext)
    \<and> (\<forall>h. t_HTTPJob (j_RequestTarget job) = Some h \<longrightarrow> paced t (poll_interval h) (j_DeadlineAt job) (length (filter gets ext)))
    \<and> (j_DeadlineAt job \<le> t \<longrightarrow> ext = [])"
proof -
  let ?ctx = "with_deadline (w_outer w) (j_DeadlineAt job)"
  obtain c e where ctx: "?ctx = Some (c, e)" "c \<le> j_DeadlineAt job" by (rule with_deadline_ends)
  have submit: "\<exists>res ext. submit_job env w ?ctx (poll_interval h) jj run target job t tr = Some (res, tr @ ext)
      \<and> paced t (poll_interval h) (j_DeadlineAt job) (length (filter gets ext))" if "second \<le> poll_interval h" for h target
  proof -
    have "0 < poll_interval h" using that by (simp add: second_def)
    from submit_job_returns [OF this ctx(1), of env w jj run target job t tr] ctx(2) paced_until show ?thesis by blast
  qed
  have over: "j_DeadlineAt job \<le> t \<Longrightarrow> ctx_ended ?ctx t \<noteq> None" using ctx by (simp add: ctx_ended_def)
  have "(\<exists>res. resume_job env w jj run job t tr = Some (res, tr))
    \<or> (\<exists>h. ctx_ended ?ctx t = None \<and> t_HTTPJob (j_RequestTarget job) = Some h \<and> second \<le> poll_interval h
        \<and> resume_job env w jj run job t tr = submit_job env w ?ctx (poll_interval h) jj run (j_RequestTarget job) job t tr)"
    unfolding resume_job_def Let_def by (auto simp: not_less split: option.split)
  then consider (stop) res where "resume_job env w jj run job t tr = Some (res, tr)"
    | (go) h where "ctx_ended ?ctx t = None" "t_HTTPJob (j_RequestTarget job) = Some h" "second \<le> poll_interval h"
        "resume_job env w jj run job t tr = submit_job env w ?ctx (poll_interval h) jj run (j_RequestTarget job) job t tr"
    by blast
  then show ?thesis
  proof cases
    case stop
    then show ?thesis by (simp add: paced_def)
  next
    case go
    obtain res ext where "submit_job env w ?ctx (poll_interval h) jj run (j_RequestTarget job) job t tr = Some (res, tr @ ext)"
      "paced t (poll_interval h) (j_DeadlineAt job) (length (filter gets ext))" using submit [OF go(3)] by blast
    then show ?thesis using go over by auto
  qed
qed

text \<open>
  C39: The execution of a durable external job returns, and its deadline is what ends it. Whatever the runner
  answers, however long its answers and the checkpoints take, and whichever way ties between the timer and the
  context fall, the execution ends with a result. Its polls are no more than fit between its start and the
  deadline (the checkpointed one, or the timeout after the start of the run) with the polling interval between
  them, and an execution that begins at or after the deadline sends nothing.
\<close>

theorem job_execution_returns:
  "\<exists>res tr. executeJob env w jj has_checkpoint schedule run timeout = Some (res, tr)
    \<and> (\<forall>h. t_HTTPJob (j_RequestTarget (job_of w schedule run timeout)) = Some h \<longrightarrow>
        length (filter gets tr) = 0
        \<or> w_start w + (int (length (filter gets tr)) - 1) * poll_interval h < job_deadline w run timeout)
    \<and> (job_deadline w run timeout \<le> w_start w \<longrightarrow> (\<forall>q. Sent q \<notin> set tr))"
proof -
  let ?job = "job_of w schedule run timeout"
  have resumed: "\<exists>res ext. resume_job env w jj run ?job t tr = Some (res, tr @ ext)
    \<and> (\<forall>h. t_HTTPJob (j_RequestTarget ?job) = Some h \<longrightarrow> paced (w_start w) (poll_interval h) (job_deadline w run timeout) (length (filter gets ext)))
    \<and> (job_deadline w run timeout \<le> w_start w \<longrightarrow> ext = [])" if "w_start w \<le> t" for t tr
  proof -
    obtain res ext where res: "resume_job env w jj run ?job t tr = Some (res, tr @ ext)"
      and pace: "\<forall>h. t_HTTPJob (j_RequestTarget ?job) = Some h \<longrightarrow> paced t (poll_interval h) (job_deadline w run timeout) (length (filter gets ext))"
      and late: "job_deadline w run timeout \<le> t \<longrightarrow> ext = []"
      using resume_job_returns [of env w jj run ?job t tr] unfolding job_deadline_of by blast
    from pace that have "\<forall>h. t_HTTPJob (j_RequestTarget ?job) = Some h \<longrightarrow>
        paced (w_start w) (poll_interval h) (job_deadline w run timeout) (length (filter gets ext))"
      by (auto intro: paced_later)
    moreover have "job_deadline w run timeout \<le> w_start w \<longrightarrow> ext = []" using late that by simp
    ultimately show ?thesis using res by blast
  qed
  show ?thesis
  proof (cases "r_ExternalJob run")
    case None
    let ?t = "w_start w + int (w_took w 0)"
    have job: "?job = new_job (s_Target schedule) timeout (case r_StartedAt run of None \<Rightarrow> w_start w | Some t \<Rightarrow> t)"
      by (simp add: job_of_def None)
    obtain res ext where "resume_job env w jj run ?job ?t [Saved ?job] = Some (res, [Saved ?job] @ ext)"
      "\<forall>h. t_HTTPJob (j_RequestTarget ?job) = Some h \<longrightarrow> paced (w_start w) (poll_interval h) (job_deadline w run timeout) (length (filter gets ext))"
      "job_deadline w run timeout \<le> w_start w \<longrightarrow> ext = []"
      using resumed [of ?t "[Saved ?job]"] by auto
    then show ?thesis
      by (cases "w_saved w 0") (auto simp: executeJob_def None Let_def job [symmetric] paced_def gets_def)
  next
    case (Some job)
    then have "?job = job" by (simp add: job_of_def)
    with resumed [of "w_start w" "[]"] Some show ?thesis by (auto simp: executeJob_def paced_def)
  qed
qed

theorem job_execution_returns_witness:
  "\<exists>res tr. executeJob sample_env sample_world (\<lambda>j. ''json'') True job_schedule busy_execution 60 = Some (res, tr)
    \<and> (length (filter gets tr) = 0 \<or> 20 + (int (length (filter gets tr)) - 1) * (2 * second) < 20 + 60 * second)"
proof -
  have "job_deadline sample_world busy_execution 60 = 20 + 60 * second"
  proof -
    have "seconds 60 = 60 * second" by code_simp
    then show ?thesis
      by (simp add: job_deadline_def sample_run busy_execution_def plain_run_def RunRow.extend_def Run.fields_def busy_run_def)
  qed
  moreover have "poll_interval \<lparr>hj_PollIntervalSeconds = 2, hj_LookupURL = ''''\<rparr> = 2 * second" by code_simp
  moreover have "t_HTTPJob (j_RequestTarget (job_of sample_world job_schedule busy_execution 60))
      = Some \<lparr>hj_PollIntervalSeconds = 2, hj_LookupURL = ''''\<rparr>"
    by (simp add: job_of_def sample_run new_job_def Let_def job_schedule_def job_target_def)
  moreover have "w_start sample_world = 20" by (simp add: sample_world_def)
  ultimately show ?thesis
    using job_execution_returns [of sample_env sample_world "\<lambda>j. ''json''" True job_schedule busy_execution 60] by fastforce
qed

end
