(* ===== verification/JobContract.thy ===== *)
theory JobContract
  imports HttpJob
begin

text \<open>
  How the executor of external jobs meets the components around it: the validation of a definition
  (\<open>domain/validation.go\<close>), the checkpoints of the store (\<open>store/external_jobs.go\<close>) and the
  reconciliation an operator asks for. Each of these repeats checks of another; the properties here say that they fit.
\<close>

section \<open>Validation and execution\<close>

text \<open>Documented behaviour of \<open>net/url\<close>: \<open>Hostname\<close> is \<open>Host\<close> without a port.\<close>

definition host_named :: "Env \<Rightarrow> bool" where
  "host_named env \<longleftrightarrow> (\<forall>s u. url_parse env s = Some u \<longrightarrow> u_Hostname u \<noteq> '''' \<longrightarrow> u_Host u \<noteq> '''')"

lemma host_named_sample: "host_named sample_env"
  by (auto simp: host_named_def sample_env_def split: if_splits)

lemma sameOrigin_refl: "safeHTTPURL env a \<Longrightarrow> sameOrigin env a a"
  by (auto simp: sameOrigin_def safeHTTPURL_def equal_fold_def split: option.splits)

text \<open>
  The two origin checks of the code agree. The check that accepts the lookup URL of a definition and the
  check that guards every request of the executor were written separately; on every pair of URLs they
  answer the same, so a lookup URL that was accepted is never refused later.
\<close>

theorem origin_checks_agree:
  assumes "host_named env"
  shows "sameOrigin env a b = sameHTTPOrigin env a b"
proof (cases "url_parse env a")
  case None
  then show ?thesis by (simp add: sameOrigin_def sameHTTPOrigin_def safeHTTPURL_def)
next
  case (Some u)
  note left = this
  show ?thesis
  proof (cases "url_parse env b")
    case None
    with left show ?thesis by (simp add: sameOrigin_def sameHTTPOrigin_def safeHTTPURL_def)
  next
    case (Some v)
    have "u_Hostname u \<noteq> '''' \<Longrightarrow> u_Host u \<noteq> ''''" "u_Hostname v \<noteq> '''' \<Longrightarrow> u_Host v \<noteq> ''''"
      using assms left Some by (auto simp: host_named_def)
    with left Some show ?thesis unfolding sameOrigin_def sameHTTPOrigin_def safeHTTPURL_def by auto
  qed
qed

theorem origin_checks_agree_witness:
  "sameOrigin sample_env ''http://h/x'' ''http://h/x'' = sameHTTPOrigin sample_env ''http://h/x'' ''http://h/x''"
  by (rule origin_checks_agree [OF host_named_sample])

lemma validated_job:
  assumes "ValidateCreateSchedule env req = []" and "t_HTTPJob (c_Target req) = Some h"
  shows "t_Kind (c_Target req) = TargetKindHTTP" and "to_upper (t_Method (c_Target req)) = ''POST''"
    and "safeHTTPURL env (t_URL (c_Target req))" and "0 \<le> hj_PollIntervalSeconds h \<and> hj_PollIntervalSeconds h \<le> 300"
    and "reserved_event_key \<notin> fst ` set (case t_Body (c_Target req) of None \<Rightarrow> [] | Some b \<Rightarrow> b)"
    and "hj_LookupURL h \<noteq> '''' \<Longrightarrow> sameHTTPOrigin env (t_URL (c_Target req)) (hj_LookupURL h)"
proof -
  have v: "validateTargetSpec env (c_Target req) = []" by (rule ValidateCreateSchedule_parts(3) [OF assms(1)])
  then show kind: "t_Kind (c_Target req) = TargetKindHTTP"
    using assms(2) by (auto simp: validateTargetSpec_def split: if_splits)
  with v assms(2) have j: "validateHTTPJob env (c_Target req) h = []" by (simp add: validateTargetSpec_def)
  then show "to_upper (t_Method (c_Target req)) = ''POST''"
    and "hj_LookupURL h \<noteq> '''' \<Longrightarrow> sameHTTPOrigin env (t_URL (c_Target req)) (hj_LookupURL h)"
    and "0 \<le> hj_PollIntervalSeconds h \<and> hj_PollIntervalSeconds h \<le> 300"
    unfolding validateHTTPJob_def by (auto simp del: to_upper.simps split: if_splits)
  from j show "safeHTTPURL env (t_URL (c_Target req))"
    unfolding validateHTTPJob_def safeHTTPURL_def by (auto split: if_splits option.splits)
  from j show "reserved_event_key \<notin> fst ` set (case t_Body (c_Target req) of None \<Rightarrow> [] | Some b \<Rightarrow> b)"
    unfolding validateHTTPJob_def reserved_event_key_def
    by (auto simp: map_of_eq_None_iff split: if_splits option.splits)
qed

lemma submit_job_sends:
  assumes run: "submit_job env w ctx iv jj run target job t tr = Some (res, tr')" and "j_JobID job = ''''"
    and "safeHTTPURL env (t_URL target)" and alive: "ctx_ended ctx t = None" and body: "payload_text target run = Some body"
  shows "\<exists>rest. tr' = tr @ Sent \<lparr>q_Method = ''POST'', q_URL = t_URL target,
      q_Headers = job_headers run target ''POST'' (t_URL target), q_Body = body\<rparr> # rest"
proof -
  obtain r t1 tr1 where obs: "observeJob env w ctx t tr run target ''POST'' (t_URL target) body = (r, t1, tr1)" by (metis prod_cases3)
  have tr1: "tr1 = tr @ [Sent \<lparr>q_Method = ''POST'', q_URL = t_URL target,
      q_Headers = job_headers run target ''POST'' (t_URL target), q_Body = body\<rparr>]"
    using observeJob_effects(1) [OF obs] sameOrigin_refl [OF assms(3)] alive by simp
  have "tr' = tr1 \<or> (\<exists>job1. tr' = tr1 @ [Saved job1]) \<or> (\<exists>job1 t2. follow_job env w ctx iv jj run target job1 t2 (tr1 @ [Saved job1]) = Some (res, tr'))"
    using run [unfolded submit_job_def body option.case obs] assms(2)
    by (auto simp: Let_def split: sum.splits prod.splits option.splits if_splits)
  then show ?thesis using tr1 by (auto dest: follow_job_effects)
qed

text \<open>
  What the validation of definitions accepts, the executor submits. For the first execution of a run of an
  accepted definition with an external job, once the intent is checkpointed and while the job's deadline has
  not passed, the next effect is the POST to the target's URL: none of the executor's own checks of the frozen
  target, of the polling interval, of the origin or of the reserved payload key refuses it.
\<close>

theorem validated_job_submits:
  assumes valid: "ValidateCreateSchedule env (request_of schedule) = []" and h: "t_HTTPJob (s_Target schedule) = Some h"
    and "r_ExternalJob run = None" and "w_saved w 0 = None"
    and "ctx_ended (with_deadline (w_outer w) (j_DeadlineAt (job_of w schedule run timeout))) (w_start w + int (w_took w 0)) = None"
    and exec: "executeJob env w jj True schedule run timeout = Some (res, tr)"
  shows "\<exists>q rest. tr = Saved (job_of w schedule run timeout) # Sent q # rest \<and> q_Method q = ''POST''
    \<and> q_URL q = t_URL (s_Target schedule)"
proof -
  let ?t = "s_Target schedule" and ?job = "job_of w schedule run timeout"
  have c: "c_Target (request_of schedule) = ?t" by (simp add: request_of_def)
  note ok = validated_job [OF valid, unfolded c, OF h]
  have job: "j_RequestTarget ?job = ?t" "j_JobID ?job = ''''" "\<not> j_Compacted ?job" "\<not> Terminal ?job"
    using assms(3) by (simp_all add: job_of_def new_job_def Let_def Terminal_def)
  have "resume_job env w jj run ?job (w_start w + int (w_took w 0)) [Saved ?job] = Some (res, tr)"
    using exec assms(3,4) by (simp add: executeJob_def Let_def job_of_def)
  moreover have "seconds (hj_PollIntervalSeconds h) = hj_PollIntervalSeconds h * second"
    using ok(4) by (intro seconds_no_overflow) (simp_all add: max_duration_seconds_value)
  then have "second \<le> poll_interval h \<and> poll_interval h \<le> 300 * second"
    using ok(4) by (auto simp: poll_interval_def second_def)
  ultimately have "submit_job env w (with_deadline (w_outer w) (j_DeadlineAt ?job)) (poll_interval h) jj run ?t ?job
      (w_start w + int (w_took w 0)) [Saved ?job] = Some (res, tr)"
    using job h ok(1-3) assms(5) by (simp add: resume_job_def Let_def del: to_upper.simps split: if_splits)
  moreover have "payload_text ?t run \<noteq> None"
    using ok(5) by (cases "r_Event run") (simp_all add: payload_text_def Let_def)
  then obtain body where "payload_text ?t run = Some body" by blast
  ultimately show ?thesis using submit_job_sends job(2) ok(3) assms(5) by fastforce
qed


lemma job_definition_valid: "ValidateCreateSchedule sample_env (request_of job_schedule) = []"
proof -
  have "trim_space ''hourly'' \<noteq> ''''" "trim_space ''UTC'' \<noteq> ''''" "trim_space ''POST'' \<noteq> ''''" "trim_space ''http://h/x'' \<noteq> ''''"
    by (simp_all add: trim_space_visible visible_def)
  moreover have "validateHTTPJob sample_env job_target \<lparr>hj_PollIntervalSeconds = 2, hj_LookupURL = ''''\<rparr> = []" by code_simp
  moreover have "to_upper ''POST'' = ''POST''" by code_simp
  moreover have "url_parse_request_uri sample_env ''http://h/x''" by (simp add: sample_env_def)
  moreover have "t_HTTPJob job_target = Some \<lparr>hj_PollIntervalSeconds = 2, hj_LookupURL = ''''\<rparr>" "t_Method job_target = ''POST''"
    "t_Kind job_target = TargetKindHTTP" "t_URL job_target = ''http://h/x''" by (simp_all add: job_target_def)
  ultimately have "validateTargetSpec sample_env job_target = []"
    by (simp add: validateTargetSpec_def httpMethods_def del: to_upper.simps)
  moreover have "spec_ok sample_env (s_Schedule sample_schedule)" "policy_ok (s_Policy sample_schedule)"
    "retry_ok (s_Retry sample_schedule)"
    by (simp_all add: spec_ok_def policy_ok_def retry_ok_def sample_schedule_def max_duration_seconds_value)
  moreover have "load_location sample_env ''UTC''" by (simp add: sample_env_def)
  ultimately show ?thesis
    using \<open>trim_space ''hourly'' \<noteq> ''''\<close> \<open>trim_space ''UTC'' \<noteq> ''''\<close>
    by (simp add: ValidateCreateSchedule_def request_of_def validatePolicy_iff validateRetry_iff
        validateScheduleSpec_iff job_schedule_def) (simp add: sample_schedule_def zero_TargetSpec_def)
qed

theorem validated_job_submits_witness:
  "\<exists>tr q rest. tr = Saved (job_of sample_world job_schedule busy_execution 60) # Sent q # rest \<and> q_Method q = ''POST''
    \<and> q_URL q = ''http://h/x''"
proof -
  obtain res tr where run: "executeJob sample_env sample_world (\<lambda>j. ''json'') True job_schedule busy_execution 60 = Some (res, tr)"
    using sample_execution by blast
  have t: "s_Target job_schedule = job_target" "t_URL job_target = ''http://h/x''"
    "t_HTTPJob job_target = Some \<lparr>hj_PollIntervalSeconds = 2, hj_LookupURL = ''''\<rparr>"
    by (simp_all add: job_schedule_def job_target_def)
  have start: "r_StartedAt busy_execution = Some 20"
    by (simp add: busy_execution_def plain_run_def RunRow.extend_def Run.fields_def busy_run_def)
  have "j_DeadlineAt (job_of sample_world job_schedule busy_execution 60) = 20 + seconds 60"
    by (simp add: job_of_def sample_run start new_job_def Let_def)
  moreover have "ctx_ended (Some (20 + seconds 60, DeadlineExceeded)) 21 = None" by code_simp
  ultimately have world: "w_saved sample_world 0 = None" "ctx_ended (with_deadline (w_outer sample_world)
      (j_DeadlineAt (job_of sample_world job_schedule busy_execution 60))) (w_start sample_world + int (w_took sample_world 0)) = None"
    by (simp_all add: sample_world_def with_deadline_def)
  from validated_job_submits [OF job_definition_valid _ sample_run(1) world run, unfolded t, OF refl]
  show ?thesis by blast
qed

section \<open>Checkpoints\<close>

text \<open>What a stored checkpoint and the job in the executor's memory share: all but the times of writing and
  the derived flag.\<close>

definition stored_as :: "ExternalJob \<Rightarrow> ExternalJob \<Rightarrow> bool" where
  "stored_as prior job \<longleftrightarrow> (\<exists>u c. prior = job\<lparr>j_UpdatedAt := u, j_CanReconcile := c\<rparr>)"

lemma stored_asD:
  assumes "stored_as prior job"
  shows "j_JobID prior = j_JobID job" "j_StatusURL prior = j_StatusURL job" "j_Status prior = j_Status job"
    "j_DeadlineAt prior = j_DeadlineAt job" "j_SubmittedAt prior = j_SubmittedAt job" "j_RequestTarget prior = j_RequestTarget job"
    "j_Compacted prior = j_Compacted job" "Terminal prior = Terminal job"
  using assms by (auto simp: stored_as_def Terminal_def)

text \<open>An unresolved row still has its target.\<close>

lemma GetExternalJob_live:
  assumes "GetExternalJob db key = Some prior" and "jobs_ok db" and "\<not> Terminal prior"
  shows "\<exists>row. find_job db key = Some row \<and> ej_target_snapshot row = Some (j_RequestTarget prior)
    \<and> prior = decodeExternalJob (ej_checkpoint row) (ej_target_snapshot row)"
proof -
  obtain row where row: "find_job db key = Some row"
    and prior: "prior = decodeExternalJob (ej_checkpoint row) (ej_target_snapshot row)"
    using assms(1) by (auto simp: GetExternalJob_def find_job_def)
  have "job_row_ok row" using assms(2) find_jobD [OF row] by (auto simp: jobs_ok_def)
  moreover have "\<not> Terminal (ej_checkpoint row)" using assms(3) prior by (simp add: Terminal_def)
  ultimately have "ej_target_snapshot row \<noteq> None"
    by (auto simp: job_row_ok_def Terminal_iff)
  then obtain t where "ej_target_snapshot row = Some t" by blast
  with row prior show ?thesis by simp
qed

lemma decode_public: "j_CanReconcile job = ReconciliationAvailable job \<Longrightarrow>
  decodeExternalJob (public_job job) (Some (j_RequestTarget job)) = job"
  by (simp add: decodeExternalJob_def public_job_def Let_def ReconciliationAvailable_def Terminal_def)

lemma ReconciliationAvailable_updated [simp]:
  "ReconciliationAvailable (job\<lparr>j_UpdatedAt := u\<rparr>) = ReconciliationAvailable job"
  "ReconciliationAvailable (job\<lparr>j_CanReconcile := c\<rparr>) = ReconciliationAvailable job"
  by (simp_all add: ReconciliationAvailable_def Terminal_def)

text \<open>A row that replaces its checkpoint is read back.\<close>

lemma GetExternalJob_update:
  assumes "find_job db key = Some row" and "ej_target_snapshot row = Some (j_RequestTarget job)"
    and "j_CanReconcile job = ReconciliationAvailable job" and "\<And>e. ej_occurrence_key (f e) = ej_occurrence_key e"
    and "\<And>e. ej_target_snapshot (f e) = ej_target_snapshot e" and "\<And>e. ej_checkpoint (f e) = public_job job"
  shows "GetExternalJob (db\<lparr>external_jobs := sql_update (\<lambda>e. ej_occurrence_key e = key) f (external_jobs db)\<rparr>) key = Some job"
proof -
  have "sql_find (\<lambda>e. ej_occurrence_key e = key) (sql_update (\<lambda>e. ej_occurrence_key e = key) f rows)
      = map_option f (sql_find (\<lambda>e. ej_occurrence_key e = key) rows)" for rows
    by (induction rows) (simp_all add: sql_update_def sql_find_def assms(4))
  with assms(1,2) show ?thesis using assms(5,6) decode_public [OF assms(3)]
    by (simp add: GetExternalJob_def find_job_def)
qed

lemma GetExternalJob_insert_receipt: "insert_receipt db c = Inr db' \<Longrightarrow> GetExternalJob db' key = GetExternalJob db key"
  by (auto simp: insert_receipt_def GetExternalJob_def split: if_splits)

text \<open>A checkpoint that keeps what is frozen is written, whatever else it says.\<close>

lemma SaveExternalJob_roundtrip:
  assumes lease: "lockOwnedRun db (r_ID run) w tok now = Inr ()" and ok: "jobs_ok db"
    and prior: "GetExternalJob db (r_OccurrenceKey run) = Some prior" and live: "\<not> Terminal prior"
    and frozen: "j_DeadlineAt job = j_DeadlineAt prior" "j_SubmittedAt job = j_SubmittedAt prior"
      "j_RequestTarget job = j_RequestTarget prior"
    and identity: "j_JobID prior \<noteq> '''' \<Longrightarrow> j_JobID job = j_JobID prior \<and> j_StatusURL job = j_StatusURL prior"
    and job: "job_status_check (j_Status job)" and fresh: "\<forall>x \<in> set (execution_receipts db). rc_ID x \<noteq> rid"
  shows "\<exists>db'. SaveExternalJob jj n db run w tok job now rid = Inr db'
    \<and> GetExternalJob db' (r_OccurrenceKey run) = Some (job\<lparr>j_UpdatedAt := now, j_CanReconcile := ReconciliationAvailable job\<rparr>)"
proof -
  obtain row where row: "find_job db (r_OccurrenceKey run) = Some row" and snap: "ej_target_snapshot row = Some (j_RequestTarget prior)"
    and dec: "prior = decodeExternalJob (ej_checkpoint row) (ej_target_snapshot row)"
    using GetExternalJob_live [OF prior ok live] by blast
  let ?job1 = "job\<lparr>j_CanReconcile := ReconciliationAvailable job\<rparr>" and ?job2 = "job\<lparr>j_CanReconcile := ReconciliationAvailable job, j_UpdatedAt := now\<rparr>"
  have chk: "check_prior row ?job1 = Inr ()"
    unfolding check_prior_def Let_def dec [symmetric] using frozen identity live snap by (auto simp: Terminal_def)
  define db1 where "db1 = db\<lparr>external_jobs := sql_update (\<lambda>e. ej_occurrence_key e = r_OccurrenceKey run)
      (\<lambda>e. e\<lparr>ej_checkpoint := public_job ?job2, ej_job_status := j_Status ?job2, ej_updated_at := now\<rparr>) (external_jobs db)\<rparr>"
  define c where "c = \<lparr>rc_ID = rid, rc_RunID = r_ID run, rc_ReceiptKind = ''summary'',
    rc_ContentType = ''application/json'', rc_Body = truncateReceiptBody (jj ?job2) n, rc_CreatedAt = now\<rparr>"
  have save: "SaveExternalJob jj n db run w tok job now rid =
      (if (ej_checkpoint row)\<lparr>j_UpdatedAt := now\<rparr> \<noteq> public_job ?job2 then insert_receipt db1 c else Inr db1)"
    using lease row job chk by (simp add: SaveExternalJob_def Let_def upsert_job_def bind_result_def db1_def c_def)
  have reread: "GetExternalJob db1 (r_OccurrenceKey run) = Some ?job2"
    unfolding db1_def by (rule GetExternalJob_update [OF row]) (simp_all add: snap frozen(3))
  have "\<exists>r \<in> set (schedule_runs db). r_ID r = r_ID run"
    using lease by (auto simp: lockOwnedRun_def lockRunLease_def split: option.splits dest: sql_find_SomeD)
  then have "\<exists>db2. insert_receipt db1 c = Inr db2"
    using fresh by (auto simp: insert_receipt_def db1_def c_def receipt_check_def)
  then obtain db2 where "SaveExternalJob jj n db run w tok job now rid = Inr db2" "db2 = db1 \<or> (\<exists>c. insert_receipt db1 c = Inr db2)"
    unfolding save by (cases "(ej_checkpoint row)\<lparr>j_UpdatedAt := now\<rparr> = public_job ?job2") (simp, metis)
  moreover from this(2) reread have "GetExternalJob db2 (r_OccurrenceKey run) = Some ?job2"
    using GetExternalJob_insert_receipt by metis
  ultimately show ?thesis by auto
qed

text \<open>
  C24: No accepted observation is lost between the executor and the store. While the worker holds the run's
  unexpired lease, let the job in the executor's memory be the unresolved job the store holds (up to the
  times of writing). If the executor accepts the runner's answer to its submission or to a poll, then
  writing that observation is not refused, and reading the job back gives the observation with the time it
  was written: the store's own checks of the frozen snapshot and of the identity let every answer pass that the
  executor lets pass, and the next attempt resumes from it.
\<close>

theorem observation_is_durable:
  assumes lease: "lockOwnedRun db (r_ID run) w tok now = Inr ()" and ok: "jobs_ok db"
    and prior: "GetExternalJob db (r_OccurrenceKey run) = Some prior" and same: "stored_as prior job"
    and live: "\<not> Terminal job"
    and app: "applyJobResponse env job response (j_JobID job = '''') t = Inr job1"
    and fresh: "\<forall>x \<in> set (execution_receipts db). rc_ID x \<noteq> rid"
  shows "\<exists>db'. SaveExternalJob jj n db run w tok job1 now rid = Inr db'
    \<and> GetExternalJob db' (r_OccurrenceKey run) = Some (job1\<lparr>j_UpdatedAt := now\<rparr>)"
proof -
  note p = stored_asD [OF same] and a = applyJobResponse_ok [OF app]
  have eq: "job1\<lparr>j_UpdatedAt := now, j_CanReconcile := ReconciliationAvailable job1\<rparr> = job1\<lparr>j_UpdatedAt := now\<rparr>"
    using a by (cases job1) simp
  have "\<not> Terminal prior" using live p(8) by simp
  moreover have "j_JobID prior \<noteq> '''' \<Longrightarrow> j_JobID job1 = j_JobID prior \<and> j_StatusURL job1 = j_StatusURL prior"
    using a p by simp
  ultimately show ?thesis
    using SaveExternalJob_roundtrip [OF lease ok prior, of job1 rid jj n, unfolded eq] a p fresh by simp
qed

lemma new_job_available: "j_CanReconcile (new_job t n s) = ReconciliationAvailable (new_job t n s)"
  by (simp add: new_job_def Let_def ReconciliationAvailable_def Terminal_def)

definition pending_row :: ExternalJobRow where
  "pending_row = \<lparr>ej_occurrence_key = ''occ_1'', ej_schedule_id = ''sch_1'', ej_checkpoint = public_job (new_job job_target 60 20),
     ej_job_status = ExternalJobSubmitting, ej_compacted = False, ej_target_snapshot = Some job_target,
     ej_created_at = 20, ej_updated_at = 20\<rparr>"

definition pending_db :: DB where
  "pending_db = busy_db\<lparr>external_jobs := [pending_row]\<rparr>"

lemma pending_db_job: "jobs_ok pending_db" "GetExternalJob pending_db ''occ_1'' = Some (new_job job_target 60 20)"
proof -
  show "jobs_ok pending_db"
    by (simp add: jobs_ok_def pending_db_def pending_row_def job_row_ok_def new_job_def Let_def job_status_check_def
        unresolved_def)
  have "decodeExternalJob (public_job (new_job job_target 60 20)) (Some (j_RequestTarget (new_job job_target 60 20)))
      = new_job job_target 60 20" by (rule decode_public) (rule new_job_available)
  then show "GetExternalJob pending_db ''occ_1'' = Some (new_job job_target 60 20)"
    by (simp add: GetExternalJob_def pending_db_def pending_row_def) (simp add: new_job_def Let_def)
qed

lemma sample_applied:
  "\<exists>job1. applyJobResponse sample_env (new_job job_target 60 20) sample_answer (j_JobID (new_job job_target 60 20) = '''') 30
     = Inr job1 \<and> j_JobID job1 = ''j1''"
  by (simp add: applyJobResponse_def check_identity_def sample_answer_def sample_accepted sample_trim Let_def new_job_def)
     (simp add: job_target_def sample_accepted)

theorem observation_is_durable_witness:
  "\<exists>(db' :: DB) job1. j_JobID job1 = ''j1'' \<and> GetExternalJob db' ''occ_1'' = Some job1"
proof -
  have id: "r_ID busy_execution = ''run_1''"
    by (simp add: busy_execution_def plain_run_def RunRow.extend_def Run.fields_def busy_run_def)
  have lease: "lockOwnedRun pending_db (r_ID busy_execution) ''w1'' ''lease_1'' 50 = Inr ()"
    unfolding id by (simp add: lockOwnedRun_def lockRunLease_def pending_db_def busy_db_def busy_run_def busy_lease_def)
  obtain job1 where app: "applyJobResponse sample_env (new_job job_target 60 20) sample_answer
      (j_JobID (new_job job_target 60 20) = '''') 30 = Inr job1" and "j_JobID job1 = ''j1''"
    using sample_applied by blast
  moreover have "stored_as (new_job job_target 60 20) (new_job job_target 60 20)"
    unfolding stored_as_def by (rule exI [of _ 20], rule exI [of _ False])
      (simp add: new_job_def Let_def ReconciliationAvailable_def job_target_def)
  moreover have "\<not> Terminal (new_job job_target 60 20)" by (simp add: new_job_def Let_def Terminal_def)
  moreover have "\<forall>x \<in> set (execution_receipts pending_db). rc_ID x \<noteq> ''rct_1''"
    by (simp add: pending_db_def busy_db_def empty_db_def)
  ultimately obtain db' where "GetExternalJob db' ''occ_1'' = Some (job1\<lparr>j_UpdatedAt := 50\<rparr>)"
    using observation_is_durable [OF lease pending_db_job(1) _ _ _ app, unfolded sample_run(2), OF pending_db_job(2)] by blast
  then show ?thesis using \<open>j_JobID job1 = ''j1''\<close>
    by (intro exI [of _ db'] exI [of _ "job1\<lparr>j_UpdatedAt := 50\<rparr>"]) simp
qed

section \<open>Reconciliation\<close>

text \<open>Documented behaviour of \<open>net/url\<close>: the empty string has no host.\<close>

definition empty_url :: "Env \<Rightarrow> bool" where
  "empty_url env \<longleftrightarrow> \<not> safeHTTPURL env ''''"

lemma sameOrigin_nonempty: "empty_url env \<Longrightarrow> sameOrigin env a b \<Longrightarrow> b \<noteq> ''''"
  by (auto simp: empty_url_def sameOrigin_def split: if_splits)

lemma terminal_idle: "terminal s \<Longrightarrow> \<not> queued s \<and> \<not> IsActiveStatus s"
  by (cases s) (simp_all add: terminal_def terminal_statuses_def queued_def)

lemma Reconcile_observes:
  assumes "Reconcile env w run job = (r, tr)"
  shows "tr = [] \<and> (\<exists>e. r = Inl e)
    \<or> (\<exists>q. tr = [Sent q] \<and> q_Method q = ''GET'' \<and> sameOrigin env (t_URL (j_RequestTarget job)) (q_URL q))"
proof -
  have sent: "\<exists>q. tr1 = [Sent q] \<and> q_Method q = ''GET'' \<and> sameOrigin env (t_URL (j_RequestTarget job)) (q_URL q)"
    if "observeJob env w (w_outer w) (w_start w) [] run (j_RequestTarget job) ''GET'' url '''' = (x, t1, tr1)"
      and "sameOrigin env (t_URL (j_RequestTarget job)) url" and "ctx_ended (w_outer w) (w_start w) = None" for url x t1 tr1
    using observeJob_effects(1) [OF that(1)] that(2,3) by auto
  have unsent: "tr1 = [] \<and> (\<exists>e. x = Inl e)"
    if "observeJob env w (w_outer w) (w_start w) [] run (j_RequestTarget job) ''GET'' url '''' = (x, t1, tr1)"
      and "ctx_ended (w_outer w) (w_start w) \<noteq> None" for url x t1 tr1
    using observeJob_effects(1,2) [OF that(1)] that(2) by auto
  have "tr = [] \<and> (\<exists>e. r = Inl e) \<or> (\<exists>url x t. observeJob env w (w_outer w) (w_start w) [] run (j_RequestTarget job) ''GET'' url '''' = (x, t, tr)
      \<and> sameOrigin env (t_URL (j_RequestTarget job)) url \<and> ((\<exists>e. x = Inl e) \<longrightarrow> (\<exists>e. r = Inl e)))"
    using assms unfolding Reconcile_def Let_def by (auto split: if_splits prod.splits sum.splits)
  with sent unsent show ?thesis by metis
qed

lemma Reconcile_applied:
  assumes "Reconcile env w run job = (Inr job1, tr)"
  obtains response t where "applyJobResponse env job response (j_JobID job = '''') t = Inr job1"
    and "\<not> Terminal job" and "\<not> j_Compacted job"
    and "j_JobID job = '''' \<Longrightarrow> j_Status job = ExternalJobSubmitting
      \<and> (\<exists>h. t_HTTPJob (j_RequestTarget job) = Some h \<and> hj_LookupURL h \<noteq> '''')"
  using assms unfolding Reconcile_def Let_def
  by (auto split: if_splits prod.splits sum.splits option.splits)

text \<open>
  C40: Reconciling on an operator's behalf observes once and commits what it saw. The executor sends one request,
  a GET to the origin of the job's frozen target, and writes no checkpoint. When it accepts the answer, the job in
  the store is still the one it observed, and every attempt of the occurrence has ended, then the store commits
  the observation: it is read back with the time of writing, no run changes, and the deadline, the submission
  time and the frozen target stay what they were.
\<close>

theorem reconciliation_commits:
  assumes seen: "Reconcile env w run job = (Inr job1, tr)" and url: "empty_url env"
    and ok: "jobs_ok db" and prior: "GetExternalJob db (r_OccurrenceKey run) = Some job"
    and ended: "\<forall>r \<in> set (schedule_runs db). r_OccurrenceKey r = r_OccurrenceKey run \<longrightarrow> terminal (r_Status r)"
    and known: "r_ID run \<in> run_ids db" "r_ScheduleID run \<in> schedule_ids db"
    and fresh: "\<forall>x \<in> set (execution_receipts db). rc_ID x \<noteq> rid"
  shows "(\<exists>q. tr = [Sent q] \<and> q_Method q = ''GET'' \<and> sameOrigin env (t_URL (j_RequestTarget job)) (q_URL q))
    \<and> (\<exists>db'. ReconcileExternalJob dialect rj n db run job job1 now rid = Inr db'
        \<and> GetExternalJob db' (r_OccurrenceKey run) = Some (job1\<lparr>j_UpdatedAt := now\<rparr>)
        \<and> schedule_runs db' = schedule_runs db)
    \<and> j_DeadlineAt job1 = j_DeadlineAt job \<and> j_SubmittedAt job1 = j_SubmittedAt job
    \<and> j_RequestTarget job1 = j_RequestTarget job"
proof -
  obtain response t where app: "applyJobResponse env job response (j_JobID job = '''') t = Inr job1"
    and live: "\<not> Terminal job" "\<not> j_Compacted job"
    and lookup: "j_JobID job = '''' \<longrightarrow> j_Status job = ExternalJobSubmitting
      \<and> (\<exists>h. t_HTTPJob (j_RequestTarget job) = Some h \<and> hj_LookupURL h \<noteq> '''')"
    using Reconcile_applied [OF seen] by metis
  note a = applyJobResponse_ok [OF app]
  obtain row where row: "find_job db (r_OccurrenceKey run) = Some row" "ej_target_snapshot row = Some (j_RequestTarget job)"
    and dec: "job = decodeExternalJob (ej_checkpoint row) (ej_target_snapshot row)"
    using GetExternalJob_live [OF prior ok live(1)] by blast
  have idle: "\<not> sql_count (\<lambda>r. r_OccurrenceKey r = r_OccurrenceKey run \<and> (queued (r_Status r) \<or> IsActiveStatus (r_Status r)))
      (schedule_runs db) > 0"
    using ended by (auto simp: table_simps dest!: bspec terminal_idle)
  have sched: "sql_find (\<lambda>s. s_ID s = r_ScheduleID run) (schedules db) \<noteq> None"
    using known(2) by (auto simp: table_simps schedule_ids_def)
  have id: "j_JobID job = '''' \<Longrightarrow> j_JobID job1 \<noteq> '''' \<and> j_StatusURL job1 \<noteq> ''''"
    using a sameOrigin_nonempty [OF url] by auto
  have g1: "\<not> (dialect = Postgres \<and> sql_find (\<lambda>s. s_ID s = r_ScheduleID run) (schedules db) = None)" using sched by simp
  have g2: "\<not> (j_Compacted job \<or> Terminal job \<or> public_job job \<noteq> public_job job
      \<or> Some (j_RequestTarget job) \<noteq> Some (j_RequestTarget job))" using live by simp
  have g3: "\<not> (j_JobID job = '''' \<and> (j_Status job \<noteq> ExternalJobSubmitting
      \<or> (case t_HTTPJob (j_RequestTarget job) of None \<Rightarrow> True | Some h \<Rightarrow> hj_LookupURL h = '''')
      \<or> j_JobID job1 = '''' \<or> j_StatusURL job1 = ''''))" using lookup id by auto
  have g4: "\<not> (j_JobID job \<noteq> '''' \<and> (j_JobID job \<noteq> j_JobID job1 \<or> j_StatusURL job \<noteq> j_StatusURL job1))" using a by (cases "j_JobID job = []") (simp_all only: if_True if_False simp_thms)
  have g5: "\<not> (j_DeadlineAt job \<noteq> j_DeadlineAt job1 \<or> j_SubmittedAt job \<noteq> j_SubmittedAt job1
      \<or> Some (j_RequestTarget job) \<noteq> Some (j_RequestTarget job1))" using a by simp
  have g6: "\<not> \<not> job_status_check (j_Status (job1\<lparr>j_UpdatedAt := now\<rparr>))" using a by simp
  have up: "job1\<lparr>j_UpdatedAt := now, j_CanReconcile := ReconciliationAvailable job1\<rparr> = job1\<lparr>j_UpdatedAt := now\<rparr>"
    using a by (cases job1) simp
  define db1 where "db1 = db\<lparr>external_jobs := sql_update (\<lambda>e. ej_occurrence_key e = r_OccurrenceKey run)
      (\<lambda>e. e\<lparr>ej_checkpoint := public_job (job1\<lparr>j_UpdatedAt := now\<rparr>), ej_job_status := j_Status (job1\<lparr>j_UpdatedAt := now\<rparr>),
           ej_updated_at := now\<rparr>) (external_jobs db)\<rparr>"
  define c where "c = \<lparr>rc_ID = rid, rc_RunID = r_ID run, rc_ReceiptKind = ''summary'', rc_ContentType = ''application/json'',
    rc_Body = truncateReceiptBody (rj (job1\<lparr>j_UpdatedAt := now\<rparr>)) n, rc_CreatedAt = now\<rparr>"
  have "ReconcileExternalJob dialect rj n db run job job1 now rid = insert_receipt db1 c"
    unfolding ReconcileExternalJob_def Let_def row option.case dec [unfolded row, symmetric] ReconciliationAvailable_updated up
    unfolding if_not_P [OF g1] if_not_P [OF idle] if_not_P [OF g2] if_not_P [OF g3] if_not_P [OF g4] if_not_P [OF g5] if_not_P [OF g6]
      db1_def c_def ..
  moreover have "insert_receipt db1 c = Inr (db1\<lparr>execution_receipts := execution_receipts db1 @ [c]\<rparr>)"
    using known(1) fresh by (auto simp: insert_receipt_def db1_def c_def receipt_check_def in_ids)
  moreover have "GetExternalJob db1 (r_OccurrenceKey run) = Some (job1\<lparr>j_UpdatedAt := now\<rparr>)"
    unfolding db1_def by (rule GetExternalJob_update [OF row(1)]) (use a row(2) in simp_all)
  ultimately have "\<exists>db'. ReconcileExternalJob dialect rj n db run job job1 now rid = Inr db'
        \<and> GetExternalJob db' (r_OccurrenceKey run) = Some (job1\<lparr>j_UpdatedAt := now\<rparr>) \<and> schedule_runs db' = schedule_runs db"
    using GetExternalJob_insert_receipt by (auto simp: db1_def)
  with Reconcile_observes [OF seen] a show ?thesis by simp
qed

definition accepted_job :: ExternalJob where
  "accepted_job = (new_job job_target 60 20)\<lparr>j_JobID := ''j1'', j_StatusURL := ''http://h/x'', j_Status := ExternalJobQueued,
     j_CanReconcile := True\<rparr>"

definition accepted_db :: DB where
  "accepted_db = empty_db\<lparr>schedules := [sample_schedule], schedule_runs := [busy_run\<lparr>r_Status := RunFailed\<rparr>],
     external_jobs := [pending_row\<lparr>ej_checkpoint := public_job accepted_job, ej_job_status := ExternalJobQueued\<rparr>]\<rparr>"

lemma accepted_job_parts:
  "j_RequestTarget accepted_job = job_target" "j_JobID accepted_job = ''j1''" "j_StatusURL accepted_job = ''http://h/x''"
  "\<not> Terminal accepted_job" "\<not> j_Compacted accepted_job" "j_CanReconcile accepted_job = ReconciliationAvailable accepted_job"
  by (simp_all add: accepted_job_def new_job_def Let_def Terminal_def ReconciliationAvailable_def)

lemma accepted_db_job: "jobs_ok accepted_db" "GetExternalJob accepted_db ''occ_1'' = Some accepted_job"
proof -
  show "jobs_ok accepted_db"
    by (simp add: jobs_ok_def accepted_db_def pending_row_def job_row_ok_def accepted_job_def new_job_def Let_def
        job_status_check_def unresolved_def)
  have "decodeExternalJob (public_job accepted_job) (Some job_target) = accepted_job"
    using decode_public [OF accepted_job_parts(6)] by (simp add: accepted_job_parts)
  then show "GetExternalJob accepted_db ''occ_1'' = Some accepted_job"
    by (simp add: GetExternalJob_def accepted_db_def pending_row_def)
qed

lemma sample_reconcile:
  "\<exists>job1 tr. Reconcile sample_env sample_world busy_execution accepted_job = (Inr job1, tr) \<and> j_Status job1 = ExternalJobSucceeded"
proof -
  have so: "sameOrigin sample_env (t_URL (j_RequestTarget accepted_job)) ''http://h/x''"
    by (simp add: accepted_job_parts sample_accepted) (simp add: job_target_def sample_accepted)
  have obs: "\<exists>tr t. observeJob sample_env sample_world (w_outer sample_world) (w_start sample_world) [] busy_execution (j_RequestTarget accepted_job) ''GET'' ''http://h/x'' ''''
      = (Inr (sample_answer, 202), t, tr)"
    by (rule exI, rule exI, rule observeJob_answer [OF so, of _ _ _ _ 202 "''finished''" sample_answer])
       (simp_all add: sample_world_def ctx_ended_def maxJobResponseBytes_def)
  have "\<exists>job1. applyJobResponse sample_env accepted_job sample_answer False now = Inr job1 \<and> j_Status job1 = ExternalJobSucceeded" for now
    by (simp add: applyJobResponse_def check_identity_def sample_answer_def accepted_job_parts Let_def)
  then show ?thesis using obs so by (auto simp: Reconcile_def Let_def accepted_job_parts)
qed

theorem reconciliation_commits_witness:
  "\<exists>(db' :: DB) job1. j_Status job1 = ExternalJobSucceeded \<and> GetExternalJob db' ''occ_1'' = Some job1
     \<and> schedule_runs db' = schedule_runs accepted_db"
proof -
  have id: "r_ID busy_execution = ''run_1''" "r_ScheduleID busy_execution = ''sch_1''"
    by (simp_all add: busy_execution_def plain_run_def RunRow.extend_def Run.fields_def busy_run_def)
  obtain job1 tr where seen: "Reconcile sample_env sample_world busy_execution accepted_job = (Inr job1, tr)"
    and st: "j_Status job1 = ExternalJobSucceeded" using sample_reconcile by blast
  have "empty_url sample_env" by (simp add: empty_url_def safeHTTPURL_def sample_env_def)
  moreover have "\<forall>r \<in> set (schedule_runs accepted_db). r_OccurrenceKey r = ''occ_1'' \<longrightarrow> terminal (r_Status r)"
    by (simp add: accepted_db_def terminal_def terminal_statuses_def)
  moreover have "r_ID busy_execution \<in> run_ids accepted_db" "r_ScheduleID busy_execution \<in> schedule_ids accepted_db"
    unfolding id by (simp_all add: accepted_db_def run_ids_def schedule_ids_def busy_run_def sample_schedule_def)
  moreover have "\<forall>x \<in> set (execution_receipts accepted_db). rc_ID x \<noteq> ''rct_1''" by (simp add: accepted_db_def empty_db_def)
  ultimately obtain db' where "GetExternalJob db' ''occ_1'' = Some (job1\<lparr>j_UpdatedAt := 90\<rparr>)" "schedule_runs db' = schedule_runs accepted_db"
    using reconciliation_commits [OF seen _ accepted_db_job(1), unfolded sample_run(2), OF _ accepted_db_job(2),
      of "''rct_1''" SQLite "\<lambda>j. ''json''" 1000 90] by blast
  then show ?thesis using st by (intro exI [of _ db'] exI [of _ "job1\<lparr>j_UpdatedAt := 90\<rparr>"]) simp
qed

end
