(* ===== verification/Executors.thy ===== *)
theory Executors
  imports JobContract
begin

text \<open>
  The executors and their registries (\<open>internal/executors\<close>), and the whole of \<open>executeRun\<close> of the
  dispatcher around them. What the outside does with a request, a command or a workflow is a parameter;
  what the code makes of the outcome is modelled: the result, its receipts, and how they are recorded.
\<close>

section \<open>Registries\<close>

type_synonym object = "(string \<times> json) list option"

type_synonym handler = "object \<Rightarrow> (string, object) result"

type_synonym WorkflowRegistry = "string \<rightharpoonup> handler"

definition Register :: "string \<Rightarrow> handler \<Rightarrow> WorkflowRegistry \<Rightarrow> WorkflowRegistry" where
  "Register i handler handlers = handlers(i \<mapsto> handler)"

definition WorkflowRegistry_Execute :: "WorkflowRegistry \<Rightarrow> string \<Rightarrow> handler" where
  "WorkflowRegistry_Execute handlers workflowID input =
     (case handlers workflowID of
        None \<Rightarrow> Inl (''workflow '' @ quoted workflowID @ '' is not registered'')
      | Some handler \<Rightarrow> handler input)"

text \<open>The registry of executors; a later executor of the same kind replaces an earlier.\<close>

definition NewRegistry :: "(TargetKind \<times> 'x) list \<Rightarrow> (TargetKind \<rightharpoonup> 'x)" where
  "NewRegistry execs = fold (\<lambda>(kind, exec) r. r(kind \<mapsto> exec)) execs Map.empty"

definition Registry_Get :: "(TargetKind \<rightharpoonup> 'x) \<Rightarrow> TargetKind \<Rightarrow> 'x option" where
  "Registry_Get executors kind = executors kind"

section \<open>HTTP requests\<close>

definition httpError :: "int \<Rightarrow> string" where
  "httpError code = (if 200 \<le> code \<and> code < 300 then '''' else ''http executor returned status '' @ decimal code)"

text \<open>What becomes of a request: it cannot be built, it gets no answer, or it is answered with a status code,
  a status line and a content type.\<close>

datatype plain_outcome = BadRequest string | NoReply string | Replied int string string

definition object_text :: "object \<Rightarrow> string" where
  "object_text ob = (case ob of None \<Rightarrow> ''null'' | Some entries \<Rightarrow> json_text (JObject entries))"

definition http_request :: "TargetSpec \<Rightarrow> Run \<Rightarrow> HttpRequest" where
  "http_request target run =
     \<lparr>q_Method = to_upper (t_Method target), q_URL = t_URL target,
      q_Headers = setEventHeaders run (fold (\<lambda>(k, v). header_set k v) (t_Headers target) Map.empty),
      q_Body = (case t_Body target of None \<Rightarrow> '''' | Some b \<Rightarrow> object_text (Some b))\<rparr>"

definition http_plain :: "(HttpRequest \<Rightarrow> plain_outcome) \<Rightarrow> bool \<Rightarrow> Schedule \<Rightarrow> Run \<Rightarrow> Result" where
  "http_plain send ctx_done schedule run =
     (let target = s_Target schedule in
      case send (http_request target run) of
        BadRequest e \<Rightarrow> zero_Result\<lparr>x_ErrorText := e\<rparr>
      | NoReply e \<Rightarrow> zero_Result\<lparr>x_ErrorText := e, x_Cancelled := ctx_done\<rparr>
      | Replied code line content \<Rightarrow> zero_Result
          \<lparr>x_HTTPStatusCode := Some code,
           x_ResultJSON := json_text (JObject [(''status'', JString line), (''url'', JString (t_URL target))]),
           x_Receipts := [\<lparr>er_Kind = ''http_response'', er_ContentType = content, er_Body = line\<rparr>],
           x_ErrorText := httpError code\<rparr>)"

text \<open>\<open>Execute\<close>: a durable job, or one request. \<open>None\<close>: the job's loop does not return.\<close>

definition http_Execute ::
    "(HttpRequest \<Rightarrow> plain_outcome) \<Rightarrow> bool \<Rightarrow> (Schedule \<Rightarrow> Run \<Rightarrow> Result option) \<Rightarrow> Schedule \<Rightarrow> Run \<Rightarrow> Result option" where
  "http_Execute send ctx_done job_execution schedule run =
     (if is_external schedule run then job_execution schedule run
      else Some (http_plain send ctx_done schedule run))"

section \<open>Shell commands\<close>

record shell_outcome =
  sh_stdout :: string
  sh_stderr :: string
  sh_exit :: "int option"
  sh_error :: "string option"

definition shell_Execute ::
    "(string \<Rightarrow> string list \<Rightarrow> shell_outcome) \<Rightarrow> bool \<Rightarrow> Schedule \<Rightarrow> Run \<Rightarrow> Result" where
  "shell_Execute perform ctx_done schedule run =
     (let target = s_Target schedule; out = perform (t_Command target) (t_Args target);
          result = zero_Result
            \<lparr>x_ResultJSON := json_text (JObject [(''command'', JString (t_Command target)),
               (''args'', if t_Args target = [] then JNull else JArray (map JString (t_Args target)))]),
             x_Receipts := [\<lparr>er_Kind = ''stdout'', er_ContentType = ''text/plain'', er_Body = sh_stdout out\<rparr>,
               \<lparr>er_Kind = ''stderr'', er_ContentType = ''text/plain'', er_Body = sh_stderr out\<rparr>],
             x_ExitCode := sh_exit out\<rparr>
      in case sh_error out of
           None \<Rightarrow> result
         | Some e \<Rightarrow> result\<lparr>x_ErrorText := e, x_Cancelled := ctx_done\<rparr>)"

section \<open>Workflows\<close>

definition workflow_Execute :: "WorkflowRegistry \<Rightarrow> bool \<Rightarrow> Schedule \<Rightarrow> Run \<Rightarrow> Result" where
  "workflow_Execute handlers ctx_done schedule run =
     (case WorkflowRegistry_Execute handlers (t_WorkflowID (s_Target schedule)) (t_Input (s_Target schedule)) of
        Inl e \<Rightarrow> zero_Result\<lparr>x_ErrorText := e, x_Cancelled := ctx_done\<rparr>
      | Inr result \<Rightarrow> zero_Result
          \<lparr>x_ResultJSON := object_text result,
           x_Receipts := [\<lparr>er_Kind = ''workflow_result'', er_ContentType = ''application/json'',
             er_Body = object_text result\<rparr>]\<rparr>)"

section \<open>The execution of a run\<close>

text \<open>What happens to the database while the executor works, in order: heartbeats, and checkpoints of an
  external job (a failed checkpoint is reported to the executor and writes nothing). A failed heartbeat ends
  the execution.\<close>

datatype exec_event = Beat time | Checkpoint ExternalJob time string

definition heartbeat :: "DB \<Rightarrow> string \<Rightarrow> Run \<Rightarrow> time \<Rightarrow> duration \<Rightarrow> DB store_result" where
  "heartbeat db workerID run now ttl =
     (if r_ExecutionLeaseToken run \<noteq> ''''
      then RenewLeaseWithToken db (r_ID run) workerID (r_ExecutionLeaseToken run) now ttl
      else Inr (RenewLease db (r_ID run) workerID now ttl))"

fun exec_events ::
    "(ExternalJob \<Rightarrow> string) \<Rightarrow> int \<Rightarrow> string \<Rightarrow> duration \<Rightarrow> Run \<Rightarrow> exec_event list \<Rightarrow> DB \<Rightarrow> store_error option \<times> DB" where
  "exec_events jj maxBytes workerID ttl run [] db = (None, db)"
| "exec_events jj maxBytes workerID ttl run (Beat now # evs) db =
     (case heartbeat db workerID run now ttl of
        Inl e \<Rightarrow> (Some e, db)
      | Inr db1 \<Rightarrow> exec_events jj maxBytes workerID ttl run evs db1)"
| "exec_events jj maxBytes workerID ttl run (Checkpoint job now rid # evs) db =
     exec_events jj maxBytes workerID ttl run evs
       (case SaveExternalJob jj maxBytes db run workerID (r_ExecutionLeaseToken run) job now rid of
          Inl e \<Rightarrow> db | Inr db1 \<Rightarrow> db1)"

definition kind_text :: "TargetKind \<Rightarrow> string" where
  "kind_text kind = (case kind of TargetKindHTTP \<Rightarrow> ''http'' | TargetKindShell \<Rightarrow> ''shell''
     | TargetKindWorkflow \<Rightarrow> ''workflow'' | OtherTargetKind k \<Rightarrow> k)"

text \<open>\<open>executeRun\<close>. The clock readings are \<open>startedAt\<close>, \<open>finishedAt\<close> and \<open>now\<close>; \<open>evs\<close> is what happens
  to the database while the executor \<open>exec schedule run\<close> works; \<open>err_text\<close> renders a store error.\<close>

definition executeRun ::
    "(ExternalJob \<Rightarrow> string) \<Rightarrow> int \<Rightarrow> (store_error \<Rightarrow> string) \<Rightarrow> (TargetKind \<rightharpoonup> (Schedule \<Rightarrow> Run \<Rightarrow> Result)) \<Rightarrow> string
     \<Rightarrow> duration \<Rightarrow> time \<Rightarrow> time \<Rightarrow> time \<Rightarrow> NewIDs \<Rightarrow> string \<Rightarrow> exec_event list \<Rightarrow> Schedule \<Rightarrow> Run \<Rightarrow> DB \<times> Active \<Rightarrow> DB \<times> Active" where
  "executeRun jj maxBytes err_text executors workerID ttl startedAt finishedAt now ids activeToken evs schedule run0 st =
     (case execute_begin workerID (fst st) schedule run0 startedAt of
        Inl e \<Rightarrow> st
      | Inr ((run, deadline, kind), db1) \<Rightarrow>
          let active = unregisterCancel (r_ID run) activeToken (registerCancel (r_ID run) activeToken (snd st)) in
          (case Registry_Get executors kind of
             None \<Rightarrow> (completeFailure maxBytes workerID db1 schedule run
               (''executor '' @ quoted (kind_text (t_Kind (s_Target schedule))) @ '' not registered'') True finishedAt ids, active)
           | Some exec \<Rightarrow>
               (case exec_events jj maxBytes workerID ttl run evs db1 of
                  (Some e, db2) \<Rightarrow> (execute_end maxBytes workerID db2 schedule run (HeartbeatFailed (err_text e)) finishedAt now ids, active)
                | (None, db2) \<Rightarrow> (execute_end maxBytes workerID db2 schedule run (Executed (exec schedule run)) finishedAt now ids, active))))"

section \<open>Shutdown\<close>

text \<open>Every active execution is cancelled; the wait for the goroutines to end is left out.\<close>

definition ActiveWorkers :: "Active \<Rightarrow> nat" where
  "ActiveWorkers a = card (dom (active_executions a))"

definition Shutdown :: "Active \<Rightarrow> Active" where
  "Shutdown a = a\<lparr>cancelled_executions := cancelled_executions a \<union> ran (active_executions a)\<rparr>"

lemma Shutdown_cancels:
  "active_executions a i = Some token \<Longrightarrow> token \<in> cancelled_executions (Shutdown a) \<and> token \<in> cancelled_executions (cancelRun i a)"
  by (auto simp: Shutdown_def cancelRun_def ran_def)

section \<open>Receipts\<close>

text \<open>
  Every receipt an executor produces can be stored. The kinds the HTTP, shell and workflow executors put on
  their receipts, whatever the outcome, are among the kinds the table's CHECK constraint allows.
\<close>

theorem executor_receipts_allowed:
  "list_all (\<lambda>x. receipt_check (er_Kind x)) (x_Receipts (http_plain send ctx_done schedule run))
   \<and> list_all (\<lambda>x. receipt_check (er_Kind x)) (x_Receipts (shell_Execute perform ctx_done schedule run))
   \<and> list_all (\<lambda>x. receipt_check (er_Kind x)) (x_Receipts (workflow_Execute handlers ctx_done schedule run))"
  by (simp add: http_plain_def shell_Execute_def workflow_Execute_def zero_Result_def receipt_check_def Let_def
      split: plain_outcome.split sum.split option.split)

section \<open>Holding a run\<close>

definition holds :: "DB \<Rightarrow> string \<Rightarrow> string \<Rightarrow> string \<Rightarrow> bool" where
  "holds db i w tok \<longleftrightarrow> (\<exists>r \<in> set (schedule_runs db). r_ID r = i \<and> IsActiveStatus (r_Status r) \<and> r_ClaimedByWorkerID r = Some w)
     \<and> (\<exists>l \<in> set (worker_leases db). wl_id l = tok \<and> wl_run_id l = i \<and> wl_worker_id l = w)"

lemma lock_holds: "lockRunLease db i w tok now req = Inr u \<Longrightarrow> holds db i w tok"
  by (auto simp: lockRunLease_def holds_def active_iff split: option.splits if_splits dest!: sql_find_both)

lemma holds_lock:
  assumes "wf_db db" and "holds db i w tok"
  shows "lockRunLease db i w tok now False = Inr ()"
proof -
  obtain r where r: "r \<in> set (schedule_runs db)" "r_ID r = i" "IsActiveStatus (r_Status r)" "r_ClaimedByWorkerID r = Some w"
    using assms(2) by (auto simp: holds_def)
  have "sql_find (\<lambda>x. r_ID x = i) (schedule_runs db) = Some r" using run_by_id [OF assms(1) r(1)] r(2) by simp
  moreover have "sql_find (\<lambda>l. wl_id l = tok \<and> wl_run_id l = i \<and> wl_worker_id l = w) (worker_leases db) \<noteq> None"
    using assms(2) by (auto simp: holds_def table_simps)
  ultimately show ?thesis using r by (auto simp: lockRunLease_def active_iff)
qed

lemma holds_MarkRunRunning:
  assumes "holds db i w tok"
  shows "holds (MarkRunRunning db i' now) i w tok"
proof -
  obtain r where r: "r \<in> set (schedule_runs db)" "r_ID r = i" "IsActiveStatus (r_Status r)" "r_ClaimedByWorkerID r = Some w"
    using assms by (auto simp: holds_def)
  define r' where "r' = (if r_ID r = i' then started now r else r)"
  have "r' \<in> set (schedule_runs (MarkRunRunning db i' now))"
    using r(1) by (auto simp: r'_def MarkRunRunning_def sql_update_def)
  moreover have "r_ID r' = i \<and> IsActiveStatus (r_Status r') \<and> r_ClaimedByWorkerID r' = Some w"
    using r by (simp add: r'_def started_def)
  moreover have "worker_leases (MarkRunRunning db i' now) = worker_leases db" by (simp add: MarkRunRunning_def)
  ultimately show ?thesis using assms unfolding holds_def by auto
qed

lemma RenewLeaseWithToken_holds: "RenewLeaseWithToken db i w tok now ttl = Inr db' \<Longrightarrow> holds db' i w tok"
  using lock_holds [of db i w tok now True]
  by (auto simp: RenewLeaseWithToken_def lockOwnedRun_def holds_def bex_sql_update Let_def)

lemma SaveExternalJob_frame:
  assumes "SaveExternalJob jj n db run w tok job now c = Inr db'"
  shows "schedule_runs db' = schedule_runs db \<and> worker_leases db' = worker_leases db"
  using assms
proof (rule SaveExternalJob_cases)
  fix db1
  assume "upsert_job db (r_OccurrenceKey run) (r_ScheduleID run)
      (job\<lparr>j_CanReconcile := ReconciliationAvailable job, j_UpdatedAt := now\<rparr>) now = Inr db1"
    and "db' = db1 \<or> (\<exists>c. insert_receipt db1 c = Inr db')"
  with upsert_job_frame [OF this(1)] show ?thesis by (auto simp: insert_receipt_def split: if_splits)
qed

section \<open>An execution settles its run\<close>

text \<open>What holds of the database while the worker executes the run under its token.\<close>

definition executing :: "DB \<Rightarrow> string \<Rightarrow> string \<Rightarrow> string \<Rightarrow> bool" where
  "executing db i w tok \<longleftrightarrow> sys_ok db \<and> jobs_ok db \<and> holds db i w tok"

lemma executing_heartbeat:
  assumes "executing db (r_ID run) w (r_ExecutionLeaseToken run)" and "r_ExecutionLeaseToken run \<noteq> ''''"
    and "heartbeat db w run now ttl = Inr db'"
  shows "executing db' (r_ID run) w (r_ExecutionLeaseToken run)"
proof -
  have renew: "RenewLeaseWithToken db (r_ID run) w (r_ExecutionLeaseToken run) now ttl = Inr db'"
    using assms(2,3) by (simp add: heartbeat_def)
  have "external_jobs db' = external_jobs db" using renew by (auto simp: RenewLeaseWithToken_def Let_def)
  then show ?thesis
    using assms(1) sys_ok_RenewLeaseWithToken [OF _ renew] RenewLeaseWithToken_holds [OF renew] jobs_ok_same
    unfolding executing_def by blast
qed

lemma executing_checkpoint:
  assumes "executing db i w tok" and "SaveExternalJob jj n db run w' tok' job now c = Inr db'"
  shows "executing db' i w tok"
  using assms SaveExternalJob_ok [OF _ _ assms(2)] SaveExternalJob_frame [OF assms(2)]
  unfolding executing_def holds_def by simp

lemma executing_events:
  "executing db (r_ID run) w (r_ExecutionLeaseToken run) \<Longrightarrow> r_ExecutionLeaseToken run \<noteq> '''' \<Longrightarrow>
   exec_events jj n w ttl run evs db = (None, db') \<Longrightarrow> executing db' (r_ID run) w (r_ExecutionLeaseToken run)"
proof (induction jj n w ttl run evs db rule: exec_events.induct)
  case (2 jj n w ttl run now evs db)
  then obtain db1 where "heartbeat db w run now ttl = Inr db1" "exec_events jj n w ttl run evs db1 = (None, db')"
    by (auto split: sum.splits)
  with 2 executing_heartbeat show ?case by blast
next
  case (3 jj n w ttl run job now rid evs db)
  let ?db1 = "case SaveExternalJob jj n db run w (r_ExecutionLeaseToken run) job now rid of Inl e \<Rightarrow> db | Inr db1 \<Rightarrow> db1"
  have "executing ?db1 (r_ID run) w (r_ExecutionLeaseToken run)"
    using 3(2) executing_checkpoint by (auto split: sum.splits)
  with 3 show ?case by simp
qed simp

lemma executing_begin:
  assumes ok: "sys_ok db" "jobs_ok db" and tok: "r_ExecutionLeaseToken run0 \<noteq> ''''"
    and start: "execute_begin w db schedule run0 t0 = Inr ((run, dl, kind), db1)"
  shows "executing db1 (r_ID run) w (r_ExecutionLeaseToken run) \<and> r_ExecutionLeaseToken run = r_ExecutionLeaseToken run0
    \<and> r_ID run = r_ID run0 \<and> r_ScheduleID run = r_ScheduleID run0 \<and> r_OccurrenceKey run = r_OccurrenceKey run0
    \<and> r_NominalTime run = r_NominalTime run0 \<and> r_Attempt run = r_Attempt run0"
proof -
  have mark: "MarkRunRunningWithLease db (r_ID run) w (r_ExecutionLeaseToken run) t0 = Inr db1"
    and same: "r_ExecutionLeaseToken run = r_ExecutionLeaseToken run0" "r_ID run = r_ID run0"
      "r_ScheduleID run = r_ScheduleID run0" "r_OccurrenceKey run = r_OccurrenceKey run0"
      "r_NominalTime run = r_NominalTime run0" "r_Attempt run = r_Attempt run0"
    using start tok by (auto simp: execute_begin_def Let_def split: if_splits)
  have "external_jobs db1 = external_jobs db" using mark by (auto simp: MarkRunRunningWithLease_def MarkRunRunning_def)
  moreover have "holds db1 (r_ID run) w (r_ExecutionLeaseToken run)"
    using mark holds_MarkRunRunning lock_holds by (auto simp: MarkRunRunningWithLease_def lockOwnedRun_def)
  ultimately show ?thesis
    using ok sys_ok_MarkRunRunningWithLease [OF ok(1) mark] jobs_ok_same [OF ok(2)] same by (simp add: executing_def)
qed

lemma settle_success:
  assumes ex: "executing db (r_ID run) w (r_ExecutionLeaseToken run)" and tok: "r_ExecutionLeaseToken run \<noteq> ''''"
    and ok: "x_ErrorText result = ''''" "\<not> x_Deferred result"
  shows "\<exists>r' \<in> set (schedule_runs (execute_end n w db schedule run (Executed result) tf now ids)).
      r_ID r' = r_ID run \<and> r_FinishedAt r' = Some tf \<and> r_Status r' = RunSucceeded"
    and "\<forall>l \<in> set (worker_leases (execute_end n w db schedule run (Executed result) tf now ids)). wl_run_id l \<noteq> r_ID run"
proof -
  have sys: "sys_ok db" and wf: "wf_db db" using ex sys_okD(1) by (auto simp: executing_def)
  obtain r where r: "r \<in> set (schedule_runs db)" "r_ID r = r_ID run" using ex by (auto simp: executing_def holds_def)
  let ?run = "succeeded_run run result tf"
  have s: "r_ID ?run = r_ID run" "r_ExecutionLeaseToken ?run = r_ExecutionLeaseToken run" "r_FinishedAt ?run = Some tf"
    "r_Status ?run = RunSucceeded" by (simp_all add: succeeded_run_def)
  have "lockRunLease db (r_ID run) w (r_ExecutionLeaseToken run) now False = Inr ()"
    using ex wf holds_lock by (simp add: executing_def)
  then obtain db3 where fin: "finishExternalRun db ?run w (r_ExecutionLeaseToken run) (None :: RunRow option) None now False = Inr db3"
    by (simp add: finishExternalRun_def s)
  let ?fin = "RecordScheduleCompletion (insert_receipts n (r_ID run) tf (id_receipts ids) 0 (x_Receipts result) db3) (s_ID schedule) tf"
  have out: "execute_end n w db schedule run (Executed result) tf now ids = ?fin"
    using ok tok fin by (simp add: execute_end_def finishRun_def FinishRunWithLease_def s)
  have keep: "schedule_runs ?fin = schedule_runs db3" "worker_leases ?fin = worker_leases db3"
    by (simp_all add: RecordScheduleCompletion_def frame_simps)
  have id: "r_ID r = r_ID ?run" using r(2) s(1) by simp
  obtain w1 where runs: "schedule_runs db3 = sql_update (\<lambda>x. r_ID x = r_ID ?run) (finished_row ?run w1 now) (schedule_runs db)
      @ new_retries db (None :: RunRow option)"
    and leases: "set (worker_leases db3) = {l \<in> set (worker_leases db). wl_run_id l \<noteq> r_ID ?run}"
    by (rule finishExternalRun_effect [OF sys fin r(1) id]) (rule that; assumption)
  have "finished_row ?run w1 now r \<in> set (schedule_runs db3)" using r s(1) by (auto simp: runs table_simps)
  then show "\<exists>r' \<in> set (schedule_runs (execute_end n w db schedule run (Executed result) tf now ids)).
      r_ID r' = r_ID run \<and> r_FinishedAt r' = Some tf \<and> r_Status r' = RunSucceeded"
    unfolding out keep by (rule bexI [rotated]) (simp add: r s)
  show "\<forall>l \<in> set (worker_leases (execute_end n w db schedule run (Executed result) tf now ids)). wl_run_id l \<noteq> r_ID run"
    unfolding out keep leases by (simp add: s)
qed

lemma insert_retry_succeeds:
  assumes "r_ID rt \<notin> run_ids db" "r_ScheduleID rt \<in> schedule_ids db"
  shows "\<exists>db2. insert_retry db rt = Inr db2 \<and> run_ids db \<subseteq> run_ids db2 \<and> schedule_ids db2 = schedule_ids db
      \<and> dead_letters db2 = dead_letters db"
proof -
  have "\<not> (\<exists>x \<in> set (schedule_runs db). r_ID x = r_ID rt)" "\<exists>s \<in> set (schedules db). s_ID s = r_ScheduleID rt"
    using assms unfolding in_ids by simp_all
  then show ?thesis
    by (cases "\<exists>x \<in> set (schedule_runs db). r_OccurrenceKey x = r_OccurrenceKey rt \<and> r_Attempt x = r_Attempt rt")
       (simp_all add: insert_retry_def run_ids_def subset_insertI schedule_ids_def)
qed

lemma InsertDeadLetter_succeeds:
  "dl_RunID d \<in> run_ids db \<Longrightarrow> dl_ScheduleID d \<in> schedule_ids db \<Longrightarrow> \<forall>x \<in> set (dead_letters db). dl_ID x \<noteq> dl_ID d
   \<Longrightarrow> \<exists>db'. InsertDeadLetter db d = Inr db'"
  unfolding in_ids by (simp add: InsertDeadLetter_def)

lemma settle_failure:
  assumes ex: "executing db (r_ID run) w (r_ExecutionLeaseToken run)" and tok: "r_ExecutionLeaseToken run \<noteq> ''''"
    and sched: "r_ScheduleID run \<in> schedule_ids db" and retry: "id_retry ids \<notin> run_ids db"
    and dead: "\<forall>d \<in> set (dead_letters db). dl_ID d \<noteq> id_dead ids"
  shows "\<exists>r' \<in> set (schedule_runs (snd (completeFailureWithResult n w db schedule run result tf ids))).
      r_ID r' = r_ID run \<and> r_FinishedAt r' = Some tf \<and> r_Status r' = failure_status schedule (r_Attempt run) result"
    and "\<forall>l \<in> set (worker_leases (snd (completeFailureWithResult n w db schedule run result tf ids))). wl_run_id l \<noteq> r_ID run"
proof -
  have sys: "sys_ok db" and wf: "wf_db db" using ex sys_okD(1) by (auto simp: executing_def)
  obtain r where r: "r \<in> set (schedule_runs db)" "r_ID r = r_ID run" using ex by (auto simp: executing_def holds_def)
  let ?st = "failure_status schedule (r_Attempt run) result" and ?run = "failed_run schedule run result tf"
  let ?retry = "if ?st = RunFailed then Some (retry_of schedule ?run tf (id_retry ids)) else None"
  let ?dead = "if ?st = RunDeadLettered then Some (dead_letter_of ?run result tf (id_dead ids)) else None"
  let ?db1 = "finish_row db ?run w (r_ExecutionLeaseToken run) tf"
  have lock: "lockRunLease db (r_ID run) w (r_ExecutionLeaseToken run) tf False = Inr ()"
    using ex wf holds_lock by (simp add: executing_def)
  have "map r_ID (schedule_runs ?db1) = map r_ID (schedule_runs db)"
    unfolding finish_row_def by (simp add: map_key_sql_update)
  then have "set (map r_ID (schedule_runs ?db1)) = set (map r_ID (schedule_runs db))" by (simp only:)
  then have ids: "run_ids ?db1 = run_ids db" "schedule_ids ?db1 = schedule_ids db" "dead_letters ?db1 = dead_letters db"
    by (simp_all add: run_ids_def schedule_ids_def) (simp_all add: finish_row_def)

  have "\<exists>db2. (case ?retry of None \<Rightarrow> Inr ?db1 | Some rt \<Rightarrow> insert_retry ?db1 rt) = Inr db2
      \<and> run_ids ?db1 \<subseteq> run_ids db2 \<and> schedule_ids db2 = schedule_ids db \<and> dead_letters db2 = dead_letters db"
    using insert_retry_succeeds [of "retry_of schedule ?run tf (id_retry ids)" ?db1] retry sched by (simp add: ids)
  then obtain db2 where db2: "(case ?retry of None \<Rightarrow> Inr ?db1 | Some rt \<Rightarrow> insert_retry ?db1 rt) = Inr db2"
    "r_ID run \<in> run_ids db2" "schedule_ids db2 = schedule_ids db" "dead_letters db2 = dead_letters db"
    using imageI [OF r(1), of r_ID] r(2) ids(1) unfolding run_ids_def [of db, symmetric] by auto
  have "\<exists>db3. (case ?dead of None \<Rightarrow> Inr db2 | Some d \<Rightarrow> InsertDeadLetter db2 d) = Inr db3"
    using InsertDeadLetter_succeeds [of "dead_letter_of ?run result tf (id_dead ids)" db2] db2 sched dead
    by (simp add: dead_letter_of_def)
  then obtain db3 where fin: "finishExternalRun db ?run w (r_ExecutionLeaseToken run) ?retry ?dead tf False = Inr db3"
    using lock db2(1) by (auto simp: finishExternalRun_def)
  have out: "snd (completeFailureWithResult n w db schedule run result tf ids)
      = insert_receipts n (r_ID run) tf (id_receipts ids) 0 (x_Receipts result) db3"
    using tok fin by (simp add: completeFailureWithResult_def Let_def FinishExternalFailure_def)
  have id: "r_ID r = r_ID ?run" using r(2) by simp
  obtain w1 where runs: "schedule_runs db3 = sql_update (\<lambda>x. r_ID x = r_ID ?run) (finished_row ?run w1 tf) (schedule_runs db)
      @ new_retries db ?retry"
    and leases: "set (worker_leases db3) = {l \<in> set (worker_leases db). wl_run_id l \<noteq> r_ID ?run}"
    by (rule finishExternalRun_effect [OF sys fin r(1) id]) (rule that; assumption)
  have "finished_row ?run w1 tf r \<in> set (schedule_runs db3)" using r by (auto simp: runs table_simps)
  then show "\<exists>r' \<in> set (schedule_runs (snd (completeFailureWithResult n w db schedule run result tf ids))).
      r_ID r' = r_ID run \<and> r_FinishedAt r' = Some tf \<and> r_Status r' = failure_status schedule (r_Attempt run) result"
    unfolding out by (intro bexI [of _ "finished_row ?run w1 tf r"]) (simp_all add: r frame_simps)
  show "\<forall>l \<in> set (worker_leases (snd (completeFailureWithResult n w db schedule run result tf ids))). wl_run_id l \<noteq> r_ID run"
    unfolding out by (simp add: frame_simps leases)
qed

text \<open>
  C25: An execution that keeps its lease settles its run. Take the execution of a run under its worker's lease
  token, with an executor registered for its kind, and no failed heartbeat. Whatever checkpoints and renewals happen
  meanwhile, once the executor returns a result that is not deferred, the run is finished and the lease is gone: the run has
  succeeded exactly when the result has no error text, and otherwise it has the status of its failure. The write
  that records this is never refused, if the new identifiers are unused and the schedule still exists.
\<close>

theorem execution_settles:
  assumes ok: "sys_ok db" "jobs_ok db" and tok: "r_ExecutionLeaseToken run0 \<noteq> ''''"
    and start: "execute_begin w db schedule run0 t0 = Inr ((run, deadline, kind), db1)"
    and reg: "Registry_Get executors kind = Some exec"
    and events: "exec_events jj n w ttl run evs db1 = (None, db2)"
    and result: "\<not> x_Deferred (exec schedule run)"
    and fresh: "id_retry ids \<notin> run_ids db2" "\<forall>d \<in> set (dead_letters db2). dl_ID d \<noteq> id_dead ids"
    and sched: "r_ScheduleID run0 \<in> schedule_ids db2"
  shows "(\<exists>r' \<in> set (schedule_runs (fst (executeRun jj n err_text executors w ttl t0 tf now ids act evs schedule run0 (db, a)))).
      r_ID r' = r_ID run0 \<and> r_FinishedAt r' = Some tf
      \<and> r_Status r' = (if x_ErrorText (exec schedule run) = '''' then RunSucceeded
          else failure_status schedule (r_Attempt run0) (exec schedule run)))
    \<and> (\<forall>l \<in> set (worker_leases (fst (executeRun jj n err_text executors w ttl t0 tf now ids act evs schedule run0 (db, a)))).
        wl_run_id l \<noteq> r_ID run0)"
proof -
  note b = executing_begin [OF ok tok start]
  have tok': "r_ExecutionLeaseToken run \<noteq> ''''" using b tok by simp
  have ex: "executing db2 (r_ID run) w (r_ExecutionLeaseToken run)"
    by (rule executing_events [OF conjunct1 [OF b] tok' events])
  have out: "fst (executeRun jj n err_text executors w ttl t0 tf now ids act evs schedule run0 (db, a))
      = execute_end n w db2 schedule run (Executed (exec schedule run)) tf now ids"
    by (simp add: executeRun_def start reg events Let_def)
  show ?thesis
  proof (cases "x_ErrorText (exec schedule run) = ''''")
    case True
    with settle_success [OF ex tok' True result] b show ?thesis by (simp add: out)
  next
    case False
    then have "execute_end n w db2 schedule run (Executed (exec schedule run)) tf now ids
        = snd (completeFailureWithResult n w db2 schedule run (exec schedule run) tf ids)"
      using result by (simp add: execute_end_def)
    moreover have "r_ScheduleID run \<in> schedule_ids db2" using sched b by simp
    ultimately show ?thesis using settle_failure [OF ex tok' _ fresh] b False by (simp add: out)
  qed
qed

definition sample_executors :: "TargetKind \<rightharpoonup> (Schedule \<Rightarrow> Run \<Rightarrow> Result)" where
  "sample_executors = NewRegistry [(TargetKindShell, shell_Execute
     (\<lambda>cmd args. \<lparr>sh_stdout = ''hi'', sh_stderr = '''', sh_exit = Some 0, sh_error = None\<rparr>) False)]"

lemma sample_begin:
  "case execute_begin ''w1'' busy_db sample_schedule busy_execution 50 of
     Inl _ \<Rightarrow> False
   | Inr ((run, deadline, kind), db1) \<Rightarrow> kind = TargetKindShell \<and> r_ID run = ''run_1''
      \<and> (case exec_events (\<lambda>j. ''json'') 1000 ''w1'' 60 run [Beat 60] db1 of
           (Some _, _) \<Rightarrow> False
         | (None, db2) \<Rightarrow> list_all (\<lambda>r. r_ID r \<noteq> ''run_2'') (schedule_runs db2) \<and> dead_letters db2 = []
             \<and> list_ex (\<lambda>s. s_ID s = ''sch_1'') (schedules db2))"
  by code_simp

theorem execution_settles_witness:
  "\<exists>(db' :: DB) r'. r' \<in> set (schedule_runs db') \<and> r_ID r' = ''run_1'' \<and> r_Status r' = RunSucceeded
     \<and> (\<forall>l \<in> set (worker_leases db'). wl_run_id l \<noteq> ''run_1'')"
proof -
  let ?exec = "shell_Execute (\<lambda>cmd args. \<lparr>sh_stdout = ''hi'', sh_stderr = '''', sh_exit = Some 0, sh_error = None\<rparr>) False"
  obtain run deadline kind db1 where start: "execute_begin ''w1'' busy_db sample_schedule busy_execution 50 = Inr ((run, deadline, kind), db1)"
    and kind: "kind = TargetKindShell"
    and evs: "case exec_events (\<lambda>j. ''json'') 1000 ''w1'' 60 run [Beat 60] db1 of (Some _, _) \<Rightarrow> False
         | (None, db2) \<Rightarrow> list_all (\<lambda>r. r_ID r \<noteq> ''run_2'') (schedule_runs db2) \<and> dead_letters db2 = []
             \<and> list_ex (\<lambda>s. s_ID s = ''sch_1'') (schedules db2)"
    using sample_begin by (auto split: sum.splits)
  from evs obtain db2 where events: "exec_events (\<lambda>j. ''json'') 1000 ''w1'' 60 run [Beat 60] db1 = (None, db2)"
    and new: "list_all (\<lambda>r. r_ID r \<noteq> ''run_2'') (schedule_runs db2)" "dead_letters db2 = []"
      "list_ex (\<lambda>s. s_ID s = ''sch_1'') (schedules db2)"
    by (auto split: option.splits prod.splits)
  have id: "r_ID busy_execution = ''run_1''" "r_ScheduleID busy_execution = ''sch_1''"
    by (simp_all add: busy_execution_def plain_run_def RunRow.extend_def Run.fields_def busy_run_def)
  have reg: "Registry_Get sample_executors kind = Some ?exec"
    by (simp add: kind Registry_Get_def sample_executors_def NewRegistry_def)
  have res: "\<not> x_Deferred (?exec sample_schedule run)" "x_ErrorText (?exec sample_schedule run) = ''''"
    by (simp_all add: shell_Execute_def Let_def zero_Result_def)
  have jobs: "jobs_ok busy_db" by (simp add: jobs_ok_def busy_db_def empty_db_def)
  have tok: "r_ExecutionLeaseToken busy_execution \<noteq> ''''" by (simp add: busy_execution_snapshot(2))
  have fresh: "id_retry sample_ids \<notin> run_ids db2" "\<forall>d \<in> set (dead_letters db2). dl_ID d \<noteq> id_dead sample_ids"
    "r_ScheduleID busy_execution \<in> schedule_ids db2"
    using new by (auto simp: sample_ids_def in_ids id list_all_iff list_ex_iff)
  show ?thesis
    using execution_settles [OF busy_db_ok jobs tok start reg events res(1) fresh, of "\<lambda>e. ''err''" 70 70 "''act''" undefined]
    unfolding res(2) id if_P [OF refl] by blast
qed

end
