(* ===== verification/Config.thy ===== *)
theory Config
  imports Timecalc Store
begin

text \<open>
  The configuration of the daemon (\<open>internal/config/config.go\<close>): the environment as a function from
  names to values (empty when unset), \<open>strconv.Atoi\<close> on 64-bit integers, and the defaults that every
  service applies.
\<close>

record Config =
  cf_HTTPAddress :: string
  cf_StoreDialect :: string
  cf_DatabasePath :: string
  cf_DatabaseURL :: string
  cf_SchedulerInterval :: duration
  cf_DispatcherInterval :: duration
  cf_LeaseTTL :: duration
  cf_WorkerID :: string
  cf_Version :: string
  cf_ReceiptMaxBytes :: int
  cf_RunRetentionDays :: int
  cf_AuthToken :: string
  cf_RequestAudit :: bool

fun digits_value :: "int \<Rightarrow> string \<Rightarrow> int option" where
  "digits_value acc [] = Some acc"
| "digits_value acc (c # cs) =
     (if 48 \<le> (of_char c :: nat) \<and> (of_char c :: nat) \<le> 57
      then digits_value (10 * acc + int ((of_char c :: nat) - 48)) cs else None)"

text \<open>\<open>strconv.Atoi\<close>: an optional sign, at least one digit, and a value of 64 bits.\<close>

definition atoi :: "string \<Rightarrow> int option" where
  "atoi s =
     (let (neg, ds) = (case s of c # cs \<Rightarrow> if c = CHR ''-'' then (True, cs) else if c = CHR ''+'' then (False, cs) else (False, s)
                       | [] \<Rightarrow> (False, []))
      in if ds = [] then None
         else case digits_value 0 ds of
           None \<Rightarrow> None
         | Some n \<Rightarrow> let v = (if neg then - n else n) in if is_int64 v then Some v else None)"

definition envOrDefault :: "(string \<Rightarrow> string) \<Rightarrow> string \<Rightarrow> string \<Rightarrow> string" where
  "envOrDefault env key fallback = (if env key \<noteq> '''' then env key else fallback)"

definition intEnv :: "(string \<Rightarrow> string) \<Rightarrow> string \<Rightarrow> int \<Rightarrow> int" where
  "intEnv env key fallback =
     (if env key \<noteq> '''' then (case atoi (env key) of Some n \<Rightarrow> n | None \<Rightarrow> fallback) else fallback)"

definition durationEnv :: "(string \<Rightarrow> string) \<Rightarrow> string \<Rightarrow> int \<Rightarrow> duration" where
  "durationEnv env key fallback = seconds (intEnv env key fallback)"

definition boolEnv :: "(string \<Rightarrow> string) \<Rightarrow> string \<Rightarrow> bool \<Rightarrow> bool" where
  "boolEnv env key fallback =
     (let raw = env key in
      if raw \<in> set [''1'', ''true'', ''TRUE'', ''yes'', ''YES'', ''on'', ''ON''] then True
      else if raw \<in> set [''0'', ''false'', ''FALSE'', ''no'', ''NO'', ''off'', ''OFF''] then False
      else fallback)"

definition FromEnv :: "(string \<Rightarrow> string) \<Rightarrow> string \<Rightarrow> Config" where
  "FromEnv env version =
     \<lparr>cf_HTTPAddress = envOrDefault env ''WAKEPLANE_HTTP_ADDR'' (CHR '':'' # envOrDefault env ''PORT'' ''8080''),
      cf_StoreDialect = envOrDefault env ''WAKEPLANE_STORE'' ''sqlite'',
      cf_DatabasePath = envOrDefault env ''WAKEPLANE_DB_PATH'' ''./wakeplane.db'',
      cf_DatabaseURL = env ''WAKEPLANE_DATABASE_URL'',
      cf_SchedulerInterval = durationEnv env ''WAKEPLANE_SCHEDULER_INTERVAL_SECONDS'' 5,
      cf_DispatcherInterval = durationEnv env ''WAKEPLANE_DISPATCHER_INTERVAL_SECONDS'' 2,
      cf_LeaseTTL = durationEnv env ''WAKEPLANE_LEASE_TTL_SECONDS'' 30,
      cf_WorkerID = envOrDefault env ''WAKEPLANE_WORKER_ID'' ''wrk_local'',
      cf_Version = version,
      cf_ReceiptMaxBytes = intEnv env ''WAKEPLANE_RECEIPT_MAX_BYTES'' 262144,
      cf_RunRetentionDays = intEnv env ''WAKEPLANE_RUN_RETENTION_DAYS'' 0,
      cf_AuthToken = env ''WAKEPLANE_AUTH_TOKEN'',
      cf_RequestAudit = boolEnv env ''WAKEPLANE_REQUEST_AUDIT'' True\<rparr>"

definition WithDefaults :: "Config \<Rightarrow> Config" where
  "WithDefaults c = c
     \<lparr>cf_HTTPAddress := (if cf_HTTPAddress c = '''' then '':8080'' else cf_HTTPAddress c),
      cf_DatabasePath := (if cf_DatabasePath c = '''' then ''./wakeplane.db'' else cf_DatabasePath c),
      cf_StoreDialect := (if cf_StoreDialect c = '''' then ''sqlite'' else cf_StoreDialect c),
      cf_SchedulerInterval := (if cf_SchedulerInterval c = 0 then 5 * second else cf_SchedulerInterval c),
      cf_DispatcherInterval := (if cf_DispatcherInterval c = 0 then 2 * second else cf_DispatcherInterval c),
      cf_LeaseTTL := (if cf_LeaseTTL c = 0 then 30 * second else cf_LeaseTTL c),
      cf_WorkerID := (if cf_WorkerID c = '''' then ''wrk_local'' else cf_WorkerID c),
      cf_ReceiptMaxBytes := (if cf_ReceiptMaxBytes c = 0 then 262144 else cf_ReceiptMaxBytes c)\<rparr>"

lemma WithDefaults_idem: "WithDefaults (WithDefaults c) = WithDefaults c"
  by (simp add: WithDefaults_def second_def)

lemma WithDefaults_set:
  "cf_WorkerID (WithDefaults c) \<noteq> ''''" "cf_LeaseTTL (WithDefaults c) \<noteq> 0" "cf_SchedulerInterval (WithDefaults c) \<noteq> 0"
  "cf_DispatcherInterval (WithDefaults c) \<noteq> 0" "cf_ReceiptMaxBytes (WithDefaults c) \<noteq> 0"
  by (simp_all add: WithDefaults_def second_def)

end
