(* ===== verification/Service.thy ===== *)
theory Service
  imports Executors Config Planner
begin

text \<open>
  The application service, \<open>internal/app\<close>: what the REST and MCP front ends call. Each operation reads the
  database, decides, and commits at most one store transaction; it answers with a value, a list of
  validation errors (\<open>Inl\<close> inside the answer), or an error. Clock readings, fresh identifiers, the
  runner's answers and the digest of event keys are parameters.
\<close>

section \<open>Errors\<close>

datatype service_error = ApiErr APIError | StoreErr store_error | TimeErr string

type_synonym 'a service_result = "(service_error, 'a) result"

type_synonym 'a checked = "(ValidationError list, 'a) result"

definition found :: "string \<Rightarrow> string \<Rightarrow> 'a store_result \<Rightarrow> 'a service_result" where
  "found kind i r =
     (case r of
        Inl e \<Rightarrow> Inl (if e = ErrNotFound then ApiErr (NewNotFoundError kind i) else StoreErr e)
      | Inr x \<Rightarrow> Inr x)"

definition stored :: "'a store_result \<Rightarrow> 'a service_result" where
  "stored r = (case r of Inl e \<Rightarrow> Inl (StoreErr e) | Inr x \<Rightarrow> Inr x)"

section \<open>Definitions of schedules\<close>

definition withDefaults :: "CreateScheduleRequest \<Rightarrow> CreateScheduleRequest" where
  "withDefaults req =
     (let p = c_Policy req; r = c_Retry req in req
        \<lparr>c_Policy := p
           \<lparr>p_Overlap := (if p_Overlap p = OtherOverlap '''' then p_Overlap DefaultPolicy else p_Overlap p),
            p_Misfire := (if p_Misfire p = OtherMisfire '''' then p_Misfire DefaultPolicy else p_Misfire p),
            p_TimeoutSeconds := (if p_TimeoutSeconds p = 0 then p_TimeoutSeconds DefaultPolicy else p_TimeoutSeconds p),
            p_MaxConcurrency := (if p_MaxConcurrency p = 0 then p_MaxConcurrency DefaultPolicy else p_MaxConcurrency p)\<rparr>,
         c_Retry := r
           \<lparr>rp_Strategy := (if rp_Strategy r = OtherRetryStrategy '''' then rp_Strategy DefaultRetryPolicy else rp_Strategy r),
            rp_InitialDelaySeconds := (if rp_InitialDelaySeconds r = 0
              then rp_InitialDelaySeconds DefaultRetryPolicy else rp_InitialDelaySeconds r),
            rp_MaxDelaySeconds := (if rp_MaxDelaySeconds r = 0
              then rp_MaxDelaySeconds DefaultRetryPolicy else rp_MaxDelaySeconds r)\<rparr>\<rparr>)"

definition anchored :: "ScheduleSpec \<Rightarrow> time \<Rightarrow> ScheduleSpec" where
  "anchored spec now =
     (if sp_Kind spec = ScheduleKindInterval \<and> sp_AnchorAt spec = None then spec\<lparr>sp_AnchorAt := Some now\<rparr> else spec)"

definition schedule_of :: "string \<Rightarrow> CreateScheduleRequest \<Rightarrow> time \<Rightarrow> Schedule" where
  "schedule_of i req now =
     \<lparr>s_ID = i, s_Name = c_Name req, s_Enabled = c_Enabled req, s_Timezone = c_Timezone req,
      s_Schedule = anchored (c_Schedule req) now, s_Target = c_Target req, s_Policy = c_Policy req,
      s_Retry = c_Retry req, s_StartAt = c_StartAt req, s_EndAt = c_EndAt req, s_PausedAt = None,
      s_NextRunAt = None, s_LastRunAt = None, s_CreatedAt = now, s_UpdatedAt = now\<rparr>"

text \<open>The next slot from an instant on: \<open>NextAfter\<close> at one nanosecond before.\<close>

definition next_from :: "Env \<Rightarrow> Schedule \<Rightarrow> time \<Rightarrow> Schedule service_result" where
  "next_from env s now =
     (case NextAfter env s (now - 1) of Inl e \<Rightarrow> Inl (TimeErr e) | Inr nxt \<Rightarrow> Inr (s\<lparr>s_NextRunAt := nxt\<rparr>))"

definition Service_CreateSchedule ::
    "Env \<Rightarrow> string \<Rightarrow> time \<Rightarrow> DB \<Rightarrow> CreateScheduleRequest \<Rightarrow> (Schedule checked \<times> DB) service_result" where
  "Service_CreateSchedule env i now db req0 =
     (let req = withDefaults req0; errs = ValidateCreateSchedule env req in
      if errs \<noteq> [] then Inr (Inl errs, db)
      else
        let s0 = schedule_of i req now in
        bind_result (if s_Enabled s0 then next_from env s0 now else Inr s0) (\<lambda>s.
          case CreateSchedule db s of
            Inl e \<Rightarrow> if e = ErrUnique then Inr (Inl [verr ''name'' ''must be unique''], db) else Inl (StoreErr e)
          | Inr db1 \<Rightarrow> Inr (Inr s, db1)))"

definition Service_GetSchedule :: "DB \<Rightarrow> string \<Rightarrow> Schedule service_result" where
  "Service_GetSchedule db i = found ''schedule'' i (GetSchedule db i)"

text \<open>What replacing and patching share: the next slot of an enabled schedule, the pause of one that was
  enabled; \<open>now1\<close> is the reading that becomes \<open>UpdatedAt\<close>, \<open>now2\<close> the later one of the calculator.\<close>

definition reschedule :: "Env \<Rightarrow> bool \<Rightarrow> Schedule \<Rightarrow> time \<Rightarrow> time \<Rightarrow> Schedule service_result" where
  "reschedule env wasEnabled s now1 now2 =
     (let s1 = s\<lparr>s_UpdatedAt := now1\<rparr> in
      if s_Enabled s1 then next_from env (s1\<lparr>s_PausedAt := None\<rparr>) now2
      else Inr (s1\<lparr>s_NextRunAt := None, s_PausedAt := (if wasEnabled then Some now1 else s_PausedAt s1)\<rparr>))"

definition replaced :: "Schedule \<Rightarrow> CreateScheduleRequest \<Rightarrow> Schedule" where
  "replaced current req = current
     \<lparr>s_Name := c_Name req, s_Enabled := c_Enabled req, s_Timezone := c_Timezone req, s_Schedule := c_Schedule req,
      s_Target := c_Target req, s_Policy := c_Policy req, s_Retry := c_Retry req, s_StartAt := c_StartAt req,
      s_EndAt := c_EndAt req\<rparr>"

definition Service_ReplaceSchedule ::
    "Env \<Rightarrow> time \<Rightarrow> time \<Rightarrow> DB \<Rightarrow> string \<Rightarrow> CreateScheduleRequest \<Rightarrow> (Schedule checked \<times> DB) service_result" where
  "Service_ReplaceSchedule env now1 now2 db i req0 =
     bind_result (Service_GetSchedule db i) (\<lambda>current.
       let req = withDefaults req0; errs = ValidateCreateSchedule env req in
       if errs \<noteq> [] then Inr (Inl errs, db)
       else bind_result (reschedule env (s_Enabled current) (replaced current req) now1 now2) (\<lambda>s.
         bind_result (stored (UpdateSchedule db s)) (\<lambda>db1. Inr (Inr s, db1))))"

definition Service_PatchSchedule ::
    "Env \<Rightarrow> time \<Rightarrow> time \<Rightarrow> DB \<Rightarrow> string \<Rightarrow> PatchScheduleRequest \<Rightarrow> (Schedule checked \<times> DB) service_result" where
  "Service_PatchSchedule env now1 now2 db i patch =
     bind_result (Service_GetSchedule db i) (\<lambda>current.
       let errs = ValidatePatch env current patch in
       if errs \<noteq> [] then Inr (Inl errs, db)
       else bind_result (reschedule env (s_Enabled current) (ApplyPatch current patch) now1 now2) (\<lambda>s.
         bind_result (stored (UpdateSchedule db s)) (\<lambda>db1. Inr (Inr s, db1))))"

definition Service_DeleteSchedule :: "DB \<Rightarrow> string \<Rightarrow> DB service_result" where
  "Service_DeleteSchedule db i = found ''schedule'' i (DeleteSchedule db i)"

definition PauseSchedule :: "time \<Rightarrow> DB \<Rightarrow> string \<Rightarrow> (Schedule \<times> DB) service_result" where
  "PauseSchedule now db i =
     bind_result (Service_GetSchedule db i) (\<lambda>current.
       let s = current\<lparr>s_Enabled := False, s_PausedAt := Some now, s_UpdatedAt := now\<rparr> in
       bind_result (stored (UpdateSchedule db s)) (\<lambda>db1. Inr (s, db1)))"

definition ResumeSchedule :: "Env \<Rightarrow> time \<Rightarrow> DB \<Rightarrow> string \<Rightarrow> (Schedule \<times> DB) service_result" where
  "ResumeSchedule env now db i =
     bind_result (Service_GetSchedule db i) (\<lambda>current.
       bind_result (next_from env (current\<lparr>s_Enabled := True, s_PausedAt := None\<rparr>) now) (\<lambda>s1.
         let s = s1\<lparr>s_UpdatedAt := now\<rparr> in
         bind_result (stored (UpdateSchedule db s)) (\<lambda>db1. Inr (s, db1))))"

section \<open>Triggers\<close>

definition manual_run :: "string \<Rightarrow> string \<Rightarrow> string \<Rightarrow> time \<Rightarrow> RunRow" where
  "manual_run runID scheduleID reason now =
     \<lparr>r_ID = runID, r_ScheduleID = scheduleID, r_OccurrenceKey = ''manual:'' @ runID, r_NominalTime = now, r_DueTime = now,
      r_Status = RunPending, r_Attempt = 1, r_ClaimedByWorkerID = None, r_ClaimExpiresAt = None,
      r_StartedAt = None, r_FinishedAt = None, r_HTTPStatusCode = None, r_ExitCode = None,
      r_ResultJSON = json_text (JObject [(''reason'', JString reason)]),
      r_ErrorText = None, r_RetryAvailableAt = None, r_CreatedAt = now, r_UpdatedAt = now\<rparr>"

definition TriggerSchedule :: "time \<Rightarrow> string \<Rightarrow> DB \<Rightarrow> string \<Rightarrow> string \<Rightarrow> (RunRow \<times> DB) service_result" where
  "TriggerSchedule now runID db i reason =
     (case ValidateTriggerReason reason of
        Some e \<Rightarrow> Inl (ApiErr (NewBadRequestError e))
      | None \<Rightarrow>
          bind_result (Service_GetSchedule db i) (\<lambda>s.
            let run = manual_run runID (s_ID s) reason now in
            bind_result (stored (InsertRun db run)) (\<lambda>db1. Inr (run, db1))))"

definition Service_TriggerEvent ::
    "(string \<Rightarrow> string) \<Rightarrow> bool \<Rightarrow> time \<Rightarrow> string \<Rightarrow> DB \<Rightarrow> string \<Rightarrow> TriggerEvent \<Rightarrow> ((Run \<times> bool) \<times> DB) service_result" where
  "Service_TriggerEvent sha256_hex id_first now runID db scheduleID ev0 =
     (let ev = ev0\<lparr>ev_ID := trim_space (ev_ID ev0), ev_Source := trim_space (ev_Source ev0)\<rparr> in
      case ValidateTriggerEvent id_first ev of
        Some e \<Rightarrow> Inl (ApiErr (NewBadRequestError e))
      | None \<Rightarrow>
          (case TriggerEvent_tx sha256_hex db scheduleID ev now runID of
             Inl ErrNotFound \<Rightarrow> Inl (ApiErr (NewNotFoundError ''schedule'' scheduleID))
           | Inl ErrEventConflict \<Rightarrow> Inl (ApiErr (NewConflictError ''event ID was already used with different data''))
           | Inl ErrSchedulePaused \<Rightarrow>
               Inl (ApiErr (NewConflictError ''schedule is paused; resume before delivering events''))
           | Inl ErrEventHistoryPruned \<Rightarrow> Inl (ApiErr \<lparr>ae_Status = 410, ae_Code = ''history_pruned'',
               ae_Message = ''event already processed; its run history has been pruned'', ae_Details = []\<rparr>)
           | Inl e \<Rightarrow> Inl (StoreErr e)
           | Inr x \<Rightarrow> Inr x))"

section \<open>Runs and reconciliation\<close>

definition Service_GetRun :: "DB \<Rightarrow> string \<Rightarrow> Run service_result" where
  "Service_GetRun db i = found ''run'' i (GetRun db i)"

definition Service_ListReceipts :: "DB \<Rightarrow> string \<Rightarrow> Receipt list service_result" where
  "Service_ListReceipts db runID = found ''run'' runID (ListReceipts db runID)"

definition Service_ReconcileExternalJob ::
    "dialect \<Rightarrow> Env \<Rightarrow> World \<Rightarrow> (ExternalJob \<Rightarrow> string) \<Rightarrow> int \<Rightarrow> time \<Rightarrow> string \<Rightarrow> DB \<Rightarrow> string \<Rightarrow> (Run \<times> DB) service_result" where
  "Service_ReconcileExternalJob dialect env w reconciled_json maxBytes now receiptID db runID =
     bind_result (Service_GetRun db runID) (\<lambda>run.
       if r_Status run = RunPending \<or> r_Status run = RunClaimed \<or> r_Status run = RunRunning \<or> r_Status run = RunRetryScheduled
       then Inl (ApiErr (NewConflictError ''active or retrying runs already own remote job tracking''))
       else case r_ExternalJob run of
         None \<Rightarrow> Inl (ApiErr (NewBadRequestError ''run has no unresolved external job identity''))
       | Some job \<Rightarrow>
           if j_Compacted job
           then Inl (ApiErr (NewBadRequestError ''run has no unresolved external job identity''))
           else if Terminal job then Inr (run, db)
           else if \<not> ReconciliationAvailable job
           then Inl (ApiErr (NewBadRequestError ''run has no remote identity or configured lookup URL to reconcile''))
           else (case Reconcile env w run job of
               (Inl e, tr) \<Rightarrow> Inl (ApiErr \<lparr>ae_Status = 502, ae_Code = ''runner_observation_failed'', ae_Message = e, ae_Details = []\<rparr>)
             | (Inr observed, tr) \<Rightarrow>
                 (case ReconcileExternalJob dialect reconciled_json maxBytes db run job observed now receiptID of
                    Inl e \<Rightarrow> Inl (if e = ErrConflict
                      then ApiErr (NewConflictError ''external job tracking changed during reconciliation; reload the run'')
                      else StoreErr e)
                  | Inr db1 \<Rightarrow> bind_result (Service_GetRun db1 runID) (\<lambda>run1. Inr (run1, db1)))))"

section \<open>Preview\<close>

text \<open>\<open>IsZero\<close>: the first instant of year 1.\<close>

definition zero_time :: time where
  "zero_time = - (719162 * 86400 * second)"

text \<open>The loop over at most \<open>n\<close> slots; \<open>ctx k\<close> is the error of the request's context at the k-th look.\<close>

fun preview_loop :: "Env \<Rightarrow> (nat \<Rightarrow> string option) \<Rightarrow> Schedule \<Rightarrow> nat \<Rightarrow> nat \<Rightarrow> time \<Rightarrow> time list service_result" where
  "preview_loop env ctx s k 0 base = Inr []"
| "preview_loop env ctx s k (Suc n) base =
     (case ctx k of
        Some e \<Rightarrow> Inl (TimeErr e)
      | None \<Rightarrow>
          (case NextAfter env s base of
             Inl e \<Rightarrow> Inl (TimeErr e)
           | Inr None \<Rightarrow> Inr []
           | Inr (Some t) \<Rightarrow>
               if t = zero_time \<or> \<not> base < t then Inr []
               else bind_result (preview_loop env ctx s (k + 1) n t) (\<lambda>ts. Inr (t # ts))))"

definition preview_schedule :: "CreateScheduleRequest \<Rightarrow> time \<Rightarrow> Schedule" where
  "preview_schedule req now =
     \<lparr>s_ID = '''', s_Name = '''', s_Enabled = False, s_Timezone = c_Timezone req, s_Schedule = anchored (c_Schedule req) now,
      s_Target = zero_TargetSpec,
      s_Policy = \<lparr>p_Overlap = OtherOverlap '''', p_Misfire = OtherMisfire '''', p_TimeoutSeconds = 0, p_MaxConcurrency = 0\<rparr>,
      s_Retry = \<lparr>rp_MaxAttempts = 0, rp_Strategy = OtherRetryStrategy '''', rp_InitialDelaySeconds = 0, rp_MaxDelaySeconds = 0\<rparr>,
      s_StartAt = c_StartAt req, s_EndAt = c_EndAt req, s_PausedAt = None, s_NextRunAt = None, s_LastRunAt = None,
      s_CreatedAt = now, s_UpdatedAt = zero_time\<rparr>"

definition preview_base :: "CreateScheduleRequest \<Rightarrow> time \<Rightarrow> time" where
  "preview_base req now =
     (case c_StartAt req of
        Some st \<Rightarrow> if now < st \<and> sp_Kind (c_Schedule req) = ScheduleKindCron then st - 1 else now - 1
      | None \<Rightarrow> now - 1)"

definition PreviewSchedule ::
    "Env \<Rightarrow> (nat \<Rightarrow> string option) \<Rightarrow> time \<Rightarrow> CreateScheduleRequest \<Rightarrow> time list checked service_result" where
  "PreviewSchedule env ctx now req0 =
     (case ctx 0 of
        Some e \<Rightarrow> Inl (TimeErr e)
      | None \<Rightarrow>
          let req = withDefaults req0; errs = ValidateCreateSchedule env req in
          if errs \<noteq> [] then Inr (Inl errs)
          else bind_result (preview_loop env ctx (preview_schedule req now) 1 5 (preview_base req now))
            (\<lambda>runs. Inr (Inr runs)))"

section \<open>Retention\<close>

text \<open>\<open>-time.Duration(days) * 24 * time.Hour\<close>, in 64 bits.\<close>

definition retention_offset :: "int \<Rightarrow> duration" where
  "retention_offset days = int64_wrap (int64_wrap (int64_wrap (- days) * 24) * (3600 * second))"

definition pruneRetention :: "Config \<Rightarrow> time \<Rightarrow> DB \<Rightarrow> DB" where
  "pruneRetention cfg now db =
     (if cf_RunRetentionDays cfg \<le> 0 then db
      else snd (PruneTerminalRunsBefore db (now + retention_offset (cf_RunRetentionDays cfg))))"

section \<open>Audit and status\<close>

definition RecordRequestAudit :: "Config \<Rightarrow> time \<Rightarrow> string \<Rightarrow> DB \<Rightarrow> RequestAudit \<Rightarrow> DB store_result" where
  "RecordRequestAudit cfg now newID db audit =
     (if \<not> cf_RequestAudit cfg then Inr db
      else
        let a1 = (if au_ID audit = '''' then audit\<lparr>au_ID := newID\<rparr> else audit);
            a2 = (if au_CreatedAt a1 = zero_time then a1\<lparr>au_CreatedAt := now\<rparr> else a1)
        in InsertRequestAudit db a2)"

text \<open>\<open>strings.Index\<close>.\<close>

fun str_index :: "string \<Rightarrow> string \<Rightarrow> nat option" where
  "str_index sub [] = (if sub = [] then Some 0 else None)"
| "str_index sub (c # cs) = (if has_prefix (c # cs) sub then Some 0 else map_option Suc (str_index sub cs))"

definition redactDatabaseURL :: "string \<Rightarrow> string" where
  "redactDatabaseURL raw =
     (case str_index ''://'' raw of
        None \<Rightarrow> raw
      | Some i \<Rightarrow>
          let rest = drop (i + 3) raw in
          (case str_index ''@'' rest of
             None \<Rightarrow> raw
           | Some p \<Rightarrow> take (i + 3) raw @ ''redacted@'' @ drop (p + 1) rest))"

record StatusResponse =
  st_Service :: string
  st_Version :: string
  st_StartedAt :: string
  st_Driver :: string
  st_Path :: string
  st_LoopIntervalSeconds :: int
  st_LastTickAt :: string
  st_DueRuns :: nat
  st_NextDueScheduleID :: string
  st_NextDueRunAt :: string
  st_ActiveWorkers :: nat
  st_ClaimedButExpired :: nat
  st_Running :: nat
  st_Failed :: nat
  st_RetryQueued :: nat
  st_DeadLetter :: nat
  st_RunRetentionDays :: int
  st_ReceiptMaxBytes :: int
  st_AuthRequired :: bool
  st_RequestAudit :: bool

definition dialect_text :: "dialect \<Rightarrow> string" where
  "dialect_text d = (case d of SQLite \<Rightarrow> ''sqlite'' | Postgres \<Rightarrow> ''postgres'')"

definition Status :: "Config \<Rightarrow> dialect \<Rightarrow> string \<Rightarrow> time \<Rightarrow> time option \<Rightarrow> Active \<Rightarrow> time \<Rightarrow> time \<Rightarrow> DB \<Rightarrow> StatusResponse" where
  "Status cfg dialect dataSource startedAt lastTick active now1 now2 db =
     \<lparr>st_Service = ''wakeplane'', st_Version = cf_Version cfg, st_StartedAt = rfc3339 startedAt, st_Driver = dialect_text dialect,
      st_Path = (if dialect = Postgres then redactDatabaseURL dataSource else dataSource),
      st_LoopIntervalSeconds = cf_SchedulerInterval cfg sdiv second,
      st_LastTickAt = (case lastTick of None \<Rightarrow> '''' | Some t \<Rightarrow> rfc3339 t),
      st_DueRuns = DueRunCount db now1,
      st_NextDueScheduleID = (case NextDueSchedule db of None \<Rightarrow> '''' | Some (i, t) \<Rightarrow> i),
      st_NextDueRunAt = (case NextDueSchedule db of None \<Rightarrow> '''' | Some (i, t) \<Rightarrow> rfc3339 t),
      st_ActiveWorkers = ActiveWorkers active, st_ClaimedButExpired = ClaimedExpiredCount db now2,
      st_Running = CountStatus db RunRunning, st_Failed = CountStatus db RunFailed,
      st_RetryQueued = RetryQueuedCount db, st_DeadLetter = length (dead_letters db),
      st_RunRetentionDays = cf_RunRetentionDays cfg, st_ReceiptMaxBytes = cf_ReceiptMaxBytes cfg,
      st_AuthRequired = (cf_AuthToken cfg \<noteq> ''''), st_RequestAudit = cf_RequestAudit cfg\<rparr>"

section \<open>Running\<close>

text \<open>The state of the run loop: the handle of the run in progress, if any. \<open>beginRun\<close> refuses a second one;
  \<open>clearRunState\<close> only forgets its own.\<close>

definition beginRun :: "nat \<Rightarrow> nat option \<Rightarrow> (string, nat option) result" where
  "beginRun handle runDone = (if runDone \<noteq> None then Inl ''service already running'' else Inr (Some handle))"

definition clearRunState :: "nat \<Rightarrow> nat option \<Rightarrow> nat option" where
  "clearRunState handle runDone = (if runDone = Some handle then None else runDone)"

section \<open>Metrics\<close>

definition metric_line :: "string \<Rightarrow> int \<Rightarrow> string" where
  "metric_line name v = name @ '' '' @ decimal v @ [CHR 0x0A]"

text \<open>The counters of \<open>Metrics\<close>; the per-executor lines that follow them are left out.\<close>

definition Metrics_counters :: "time option \<Rightarrow> time \<Rightarrow> time \<Rightarrow> DB \<Rightarrow> string" where
  "Metrics_counters lastTick now1 now2 db =
     metric_line ''schedules_total'' (int (length (schedules db)))
     @ metric_line ''schedules_enabled_total'' (int (ScheduleEnabledCount db))
     @ metric_line ''runs_total'' (int (length (schedule_runs db)))
     @ metric_line ''runs_due'' (int (DueRunCount db now1))
     @ metric_line ''runs_running'' (int (CountStatus db RunRunning))
     @ metric_line ''runs_failed_total'' (int (CountStatus db RunFailed))
     @ metric_line ''runs_succeeded_total'' (int (CountStatus db RunSucceeded))
     @ metric_line ''runs_retry_queued'' (int (RetryQueuedCount db))
     @ metric_line ''dead_letters_total'' (int (length (dead_letters db)))
     @ metric_line ''worker_leases_active'' (int (WorkerLeaseCount db))
     @ metric_line ''claimed_but_expired_total'' (int (ClaimedExpiredCount db now2))
     @ metric_line ''scheduler_last_tick_unix'' (case lastTick of None \<Rightarrow> 0 | Some t \<Rightarrow> unix t)"

end
