(* ===== verification/Operators.thy ===== *)
theory Operators
  imports Service System
begin

text \<open>
  What the operations of the application service guarantee to the operator who calls them: a preview
  shows the slots the planner will record, commands on schedules leave the runs that exist alone,
  a paused schedule is not planned, and retention removes only finished runs older than its cutoff.
\<close>

section \<open>Previews\<close>

lemma NextAfter_fails_alike: "NextAfter env s a = Inl e \<Longrightarrow> \<exists>e. NextAfter env s b = Inl e"
  by (auto simp: NextAfter_def split: if_splits option.splits ScheduleKind.splits)

lemma NextAfter_cong:
  assumes "s_Timezone s' = s_Timezone s" and "s_Schedule s' = s_Schedule s" and "s_StartAt s' = s_StartAt s"
    and "s_EndAt s' = s_EndAt s" and "interval_anchor s' = interval_anchor s"
  shows "NextAfter env s' = NextAfter env s" and "schedule_times_ok s' = schedule_times_ok s"
    and "window_ok s' = window_ok s"
proof -
  have same: "base_after s' = base_after s" "bound s' = bound s"
    using assms by (simp_all add: fun_eq_iff base_after_def bound_def cong: option.case_cong)
  show "NextAfter env s' = NextAfter env s"
    by (rule ext) (simp only: NextAfter_def next_interval_def assms same)
  show "schedule_times_ok s' = schedule_times_ok s" by (simp only: schedule_times_ok_def assms same)
  show "window_ok s' = window_ok s" using assms by (simp add: fun_eq_iff window_ok_def)
qed

text \<open>The preview loop lists the first slots after its base; the planner's list of due slots starts alike.\<close>

lemma preview_loop_lists_due:
  assumes "slot_ok env s base" and "zero_time \<le> base" and "NextAfter env s base = Inr c"
  shows "\<exists>ts. preview_loop env (\<lambda>_. None) s k n base = Inr ts \<and> length ts \<le> n
    \<and> sorted_wrt (<) (base # ts) \<and> list_all (window_ok s) ts \<and> (0 < n \<longrightarrow> c = (if ts = [] then None else Some (hd ts)))
    \<and> (\<forall>horizon due final. due_from (NextAfter env s) horizon c due final
         \<longrightarrow> filter (\<lambda>u. u \<le> horizon) ts = take n due)"
  using assms
proof (induction n arbitrary: k base c)
  case (Suc n)
  show ?case
  proof (cases c)
    case None
    have "due = []" if "due_from (NextAfter env s) horizon None due final" for horizon due final
      using that by (cases due) simp_all
    with Suc.prems None show ?thesis by auto
  next
    case (Some t)
    have t: "base < t" "slot_ok env s t" "window_ok s t"
      using Suc.prems(1,3) NextAfter_sound [of env s base t] unfolding Some
      by (auto simp: slot_ok_def dest: timecalc.next_later timecalc.next_ok)
    then have zero: "zero_time \<le> t" "t \<noteq> zero_time" using Suc.prems(2) by simp_all
    obtain c' where c': "NextAfter env s t = Inr c'"
      using NextAfter_fails_alike [of env s t _ base] Suc.prems(3) by (cases "NextAfter env s t") auto
    from Suc.IH [OF t(2) zero(1) c', of "k + 1"] obtain ts
      where ts: "preview_loop env (\<lambda>_. None) s (k + 1) n t = Inr ts" "length ts \<le> n" "sorted_wrt (<) (t # ts)"
        "list_all (window_ok s) ts"
      and due: "\<And>horizon due final. due_from (NextAfter env s) horizon c' due final
        \<Longrightarrow> filter (\<lambda>u. u \<le> horizon) ts = take n due" by blast
    have "filter (\<lambda>u. u \<le> horizon) (t # ts) = take (Suc n) d"
      if "due_from (NextAfter env s) horizon (Some t) d final" for horizon d final
    proof (cases d)
      case Nil
      with that have "horizon < t" by simp
      with ts(3) Nil show ?thesis by (auto simp: filter_empty_conv)
    next
      case (Cons u d')
      with that c' have "u = t" "t \<le> horizon" "due_from (NextAfter env s) horizon c' d' final" by auto
      with due [of horizon d' final] Cons show ?thesis by simp
    qed
    moreover have "preview_loop env (\<lambda>_. None) s k (Suc n) base = Inr (t # ts)"
      using Suc.prems(3) Some t(1) zero(2) ts(1) by simp
    ultimately show ?thesis using ts t Some by (intro exI [of _ "t # ts"]) auto
  qed
qed auto

lemma withDefaults_keeps [simp]:
  "c_Schedule (withDefaults req) = c_Schedule req" "c_StartAt (withDefaults req) = c_StartAt req"
  "c_EndAt (withDefaults req) = c_EndAt req" "c_Timezone (withDefaults req) = c_Timezone req"
  "c_Enabled (withDefaults req) = c_Enabled req" "c_Name (withDefaults req) = c_Name req"
  by (simp_all add: withDefaults_def Let_def)

lemma created_schedule:
  assumes "Service_CreateSchedule env i now db req = Inr (Inr s, db')" and "c_Enabled req"
  obtains c where "ValidateCreateSchedule env (withDefaults req) = []"
    and "NextAfter env (schedule_of i (withDefaults req) now) (now - 1) = Inr c"
    and "s = (schedule_of i (withDefaults req) now)\<lparr>s_NextRunAt := c\<rparr>"
    and "CreateSchedule db s = Inr db'"
proof -
  have "s_Enabled (schedule_of i (withDefaults req) now)" using assms(2) by (simp add: schedule_of_def)
  with assms(1) show ?thesis
    by (auto simp: Service_CreateSchedule_def Let_def next_from_def split: if_splits sum.splits intro: that)
qed

lemma preview_base:
  "now - 1 \<le> preview_base req now"
  "schedule_times_ok (schedule_of i req now) \<Longrightarrow> time_ok (now - 1) \<Longrightarrow> time_ok (preview_base req now)"
  by (auto simp: preview_base_def schedule_times_ok_def schedule_of_def split: option.split)

lemma preview_base_defaults [simp]: "preview_base (withDefaults req) now = preview_base req now"
  by (simp add: preview_base_def cong: option.case_cong)

text \<open>A cron expression starts from the window's start wherever before it one asks.\<close>

lemma NextAfter_preview_base:
  "NextAfter env (preview_schedule req now) (preview_base req now) = NextAfter env (preview_schedule req now) (now - 1)"
proof (cases "preview_base req now = now - 1")
  case False
  then obtain st where st: "c_StartAt req = Some st" "now < st" "sp_Kind (c_Schedule req) = ScheduleKindCron"
    "preview_base req now = st - 1"
    by (auto simp: preview_base_def split: option.splits if_splits)
  define p where "p = preview_schedule req now"
  have p: "s_StartAt p = Some st" "sp_Kind (s_Schedule p) = ScheduleKindCron"
    using st by (simp_all add: p_def preview_schedule_def anchored_def)
  from p(1) st(2) have "base_after p (st - 1) = base_after p (now - 1)" by (simp add: base_after_def)
  with p(2) show ?thesis unfolding p_def [symmetric] st(4) by (simp add: NextAfter_def)
qed simp

text \<open>
  C29: the preview is the plan. When creating an enabled schedule succeeds, previewing the same request
  at the same instant succeeds without touching the database; the schedule's first slot is the first
  previewed one; the at most five previewed slots are strictly increasing, not in the past and inside
  the schedule's window; and whenever the planner's catch-up loop later runs from the created schedule,
  up to any horizon, the due slots it lists begin with exactly the previewed slots up to that horizon.
\<close>

theorem preview_shows_planned_slots:
  assumes "cron_later env" and "schedule_times_ok (schedule_of i req now)" and "time_ok (now - 1)" and "zero_time < now"
    and "c_Enabled req" and "Service_CreateSchedule env i now db req = Inr (Inr s, db')"
  shows "\<exists>ts. PreviewSchedule env (\<lambda>_. None) now req = Inr (Inr ts) \<and> length ts \<le> 5
    \<and> s_NextRunAt s = (if ts = [] then None else Some (hd ts))
    \<and> sorted_wrt (<) ts \<and> list_all (\<lambda>t. now \<le> t \<and> window_ok s t) ts
    \<and> (\<forall>horizon due final. due_loop (NextAfter env s) horizon (s_NextRunAt s) [] = Some (Inr (due, final))
         \<longrightarrow> filter (\<lambda>u. u \<le> horizon) ts = take 5 due)"
proof -
  obtain c where valid: "ValidateCreateSchedule env (withDefaults req) = []"
    and c: "NextAfter env (schedule_of i (withDefaults req) now) (now - 1) = Inr c"
    and s: "s = (schedule_of i (withDefaults req) now)\<lparr>s_NextRunAt := c\<rparr>"
    by (rule created_schedule [OF assms(6,5)])
  define p where "p = preview_schedule (withDefaults req) now"
  define base where "base = preview_base req now"
  have s_p: "NextAfter env s = NextAfter env p" "schedule_times_ok p = schedule_times_ok (schedule_of i req now)"
    "window_ok s = window_ok p"
    unfolding p_def s
    by (rule NextAfter_cong; simp add: schedule_of_def preview_schedule_def interval_anchor_def cong: option.case_cong)+
  have c': "NextAfter env p (now - 1) = Inr c"
    using c NextAfter_cong(1) [of p "schedule_of i (withDefaults req) now" env]
    by (simp add: p_def schedule_of_def preview_schedule_def interval_anchor_def cong: option.case_cong)
  have base: "now - 1 \<le> base" "time_ok base"
    using preview_base(1) [of now req] preview_base(2) [of i req now] assms(2,3) by (simp_all add: base_def)
  have same: "NextAfter env p base = Inr c"
    using c' NextAfter_preview_base [of env "withDefaults req" now] by (simp add: p_def base_def)
  have ok: "slot_ok env p base" using assms(1,2) base(2) s_p(2) by (simp add: slot_ok_def)
  have zero: "zero_time \<le> base" using assms(4) base(1) by simp
  obtain ts where ts: "preview_loop env (\<lambda>_. None) p 1 5 base = Inr ts" "length ts \<le> 5"
      "sorted_wrt (<) (base # ts)" "list_all (window_ok p) ts"
    and first: "0 < (5 :: nat) \<longrightarrow> c = (if ts = [] then None else Some (hd ts))"
    and due: "\<forall>horizon due final. due_from (NextAfter env p) horizon c due final \<longrightarrow> filter (\<lambda>u. u \<le> horizon) ts = take 5 due"
    using preview_loop_lists_due [OF ok zero same, of 1 5] by (elim exE conjE) (rule that; assumption)
  have "PreviewSchedule env (\<lambda>_. None) now req = Inr (Inr ts)"
    using valid ts(1) by (simp add: PreviewSchedule_def base_def [symmetric] p_def [symmetric] Let_def)
  moreover have "list_all (\<lambda>t. now \<le> t \<and> window_ok s t) ts"
    using ts(3,4) base(1) s_p(3) by (auto simp: list_all_iff)
  moreover have "filter (\<lambda>u. u \<le> horizon) ts = take 5 d"
    if "due_loop (NextAfter env s) horizon (s_NextRunAt s) [] = Some (Inr (d, final))" for horizon d final
  proof -
    have "due_from (NextAfter env p) horizon c d final" using due_loop_sound [OF that] s_p(1) by (simp add: s)
    with due show ?thesis by blast
  qed
  ultimately show ?thesis using ts(2,3) first by (intro exI [of _ ts]) (simp add: s)
qed

lemma sample_request:
  "withDefaults (request_of sample_schedule) = request_of sample_schedule" "c_Enabled (request_of sample_schedule)"
  by (simp_all add: withDefaults_def request_of_def sample_schedule_def Let_def)

lemma sample_creation:
  "\<exists>s db'. Service_CreateSchedule sample_env ''sch_2'' (1800 * second + 1) empty_db (request_of sample_schedule) = Inr (Inr s, db')"
proof -
  define s where "s = schedule_of ''sch_2'' (request_of sample_schedule) (1800 * second + 1)"
  have "NextAfter sample_env s = NextAfter sample_env sample_schedule"
    unfolding s_def by (rule NextAfter_cong)
      (simp_all add: schedule_of_def request_of_def anchored_def interval_anchor_def sample_schedule_def)
  then have "NextAfter sample_env s (1800 * second) = Inr (Some (5400 * second))" using sample_next_at [of 0] by simp
  moreover have "s_Enabled s" "schedule_check (s\<lparr>s_NextRunAt := x\<rparr>)" for x
    by (simp_all add: s_def schedule_of_def request_of_def anchored_def sample_schedule_def schedule_check_def
        zero_TargetSpec_def)
  ultimately show ?thesis using sample_valid
    by (simp add: Service_CreateSchedule_def sample_request s_def [symmetric] next_from_def CreateSchedule_def
        empty_db_def)
qed

theorem preview_shows_planned_slots_witness:
  "\<exists>ts. PreviewSchedule sample_env (\<lambda>_. None) (1800 * second + 1) (request_of sample_schedule) = Inr (Inr ts)
    \<and> length ts \<le> 5 \<and> sorted_wrt (<) ts"
proof -
  obtain s db' where created: "Service_CreateSchedule sample_env ''sch_2'' (1800 * second + 1) empty_db
      (request_of sample_schedule) = Inr (Inr s, db')" using sample_creation by blast
  have "schedule_times_ok (schedule_of ''sch_2'' (request_of sample_schedule) (1800 * second + 1))"
    using sample_schedule_interval(2)
    by (simp add: schedule_times_ok_def schedule_of_def request_of_def anchored_def interval_anchor_def sample_schedule_def)
  moreover have "time_ok (1800 * second + 1 - 1)" "zero_time < 1800 * second + 1"
    by (simp_all add: time_ok_def unix_def second_def zero_time_def)
  ultimately show ?thesis
    using preview_shows_planned_slots [OF cron_later_sample _ _ _ sample_request(2) created] by blast
qed

section \<open>Commands\<close>

text \<open>
  The calls that can change the database, and what they read besides it: the environment, the runner,
  the digest, two clock readings, a fresh identifier, the configuration.
\<close>

datatype command =
    CreateCmd CreateScheduleRequest
  | ReplaceCmd string CreateScheduleRequest
  | PatchCmd string PatchScheduleRequest
  | DeleteCmd string
  | PauseCmd string
  | ResumeCmd string
  | TriggerCmd string string
  | EventCmd string TriggerEvent
  | ReconcileCmd string
  | AuditCmd RequestAudit
  | PruneCmd

record Inputs =
  in_Env :: Env
  in_World :: World
  in_Dialect :: dialect
  in_Digest :: "string \<Rightarrow> string"
  in_ReconciledJSON :: "ExternalJob \<Rightarrow> string"
  in_IDFirst :: bool
  in_ID :: string
  in_Now1 :: time
  in_Now2 :: time
  in_Config :: Config

text \<open>The database a command leaves; an error leaves it as it was.\<close>

definition perform :: "'a Inputs_scheme \<Rightarrow> DB \<Rightarrow> command \<Rightarrow> DB service_result" where
  "perform inp db cmd =
     (case cmd of
        CreateCmd req \<Rightarrow>
          map_sum id snd (Service_CreateSchedule (in_Env inp) (in_ID inp) (in_Now1 inp) db req)
      | ReplaceCmd i req \<Rightarrow>
          map_sum id snd (Service_ReplaceSchedule (in_Env inp) (in_Now1 inp) (in_Now2 inp) db i req)
      | PatchCmd i p \<Rightarrow> map_sum id snd (Service_PatchSchedule (in_Env inp) (in_Now1 inp) (in_Now2 inp) db i p)
      | DeleteCmd i \<Rightarrow> Service_DeleteSchedule db i
      | PauseCmd i \<Rightarrow> map_sum id snd (PauseSchedule (in_Now1 inp) db i)
      | ResumeCmd i \<Rightarrow> map_sum id snd (ResumeSchedule (in_Env inp) (in_Now1 inp) db i)
      | TriggerCmd i reason \<Rightarrow> map_sum id snd (TriggerSchedule (in_Now1 inp) (in_ID inp) db i reason)
      | EventCmd i ev \<Rightarrow>
          map_sum id snd (Service_TriggerEvent (in_Digest inp) (in_IDFirst inp) (in_Now1 inp) (in_ID inp) db i ev)
      | ReconcileCmd i \<Rightarrow>
          map_sum id snd (Service_ReconcileExternalJob (in_Dialect inp) (in_Env inp) (in_World inp)
            (in_ReconciledJSON inp) (cf_ReceiptMaxBytes (in_Config inp)) (in_Now1 inp) (in_ID inp) db i)
      | AuditCmd a \<Rightarrow> stored (RecordRequestAudit (in_Config inp) (in_Now1 inp) (in_ID inp) db a)
      | PruneCmd \<Rightarrow> Inr (pruneRetention (in_Config inp) (in_Now1 inp) db))"

text \<open>What a successful command committed: nothing, one transaction of the store, or an audit entry.\<close>

inductive transaction :: "'a Inputs_scheme \<Rightarrow> DB \<Rightarrow> DB \<Rightarrow> bool" for inp db where
  nothing: "transaction inp db db"
| schedule_row: "UpdateSchedule db s = Inr db' \<Longrightarrow> transaction inp db db'"
| new_schedule: "CreateSchedule db s = Inr db' \<Longrightarrow> transaction inp db db'"
| dropped: "DeleteSchedule db i = Inr db' \<Longrightarrow> transaction inp db db'"
| manual: "InsertRun db (manual_run (in_ID inp) i reason (in_Now1 inp)) = Inr db' \<Longrightarrow> transaction inp db db'"
| event: "TriggerEvent_tx (in_Digest inp) db i ev (in_Now1 inp) (in_ID inp) = Inr (x, db') \<Longrightarrow> transaction inp db db'"
| reconciled: "ReconcileExternalJob (in_Dialect inp) (in_ReconciledJSON inp) n db (run :: Run) expected observed
    (in_Now1 inp) (in_ID inp) = Inr db' \<Longrightarrow> transaction inp db db'"
| pruned: "transaction inp db (snd (PruneTerminalRunsBefore db cutoff))"

definition commits :: "'a Inputs_scheme \<Rightarrow> DB \<Rightarrow> DB \<Rightarrow> bool" where
  "commits inp db db' \<longleftrightarrow> transaction inp db db' \<or> (\<exists>a. InsertRequestAudit db a = Inr db')"

lemma map_snd_Inr [simp]: "map_sum id snd r = Inr y \<longleftrightarrow> (\<exists>x. r = Inr (x, y))"
  by (cases r) auto

lemma found_Inr [simp]: "found k i r = Inr x \<longleftrightarrow> r = Inr x"
  by (auto simp: found_def split: sum.splits)

lemma stored_Inr [simp]: "stored r = Inr x \<longleftrightarrow> r = Inr x"
  by (auto simp: stored_def split: sum.splits)

lemma commits_create:
  "Service_CreateSchedule env i now db req = Inr (x, db') \<Longrightarrow> db' = db \<or> (\<exists>s. CreateSchedule db s = Inr db')"
  by (auto simp: Service_CreateSchedule_def Let_def split: if_splits sum.splits)

lemma commits_replace:
  "Service_ReplaceSchedule env now1 now2 db i req = Inr (x, db') \<Longrightarrow> db' = db \<or> (\<exists>s. UpdateSchedule db s = Inr db')"
  by (auto simp: Service_ReplaceSchedule_def Let_def split: if_splits)

lemma commits_patch:
  "Service_PatchSchedule env now1 now2 db i p = Inr (x, db') \<Longrightarrow> db' = db \<or> (\<exists>s. UpdateSchedule db s = Inr db')"
  by (auto simp: Service_PatchSchedule_def Let_def split: if_splits)

lemma commits_trigger:
  "TriggerSchedule now runID db i reason = Inr (x, db') \<Longrightarrow> \<exists>i. InsertRun db (manual_run runID i reason now) = Inr db'"
  by (auto simp: TriggerSchedule_def Let_def split: option.splits)

lemma commits_event:
  assumes "Service_TriggerEvent h f now runID db i ev = Inr (x, db')"
  shows "\<exists>ev. TriggerEvent_tx h db i ev now runID = Inr (x, db')"
  using assms by (auto simp: Service_TriggerEvent_def Let_def split: option.splits sum.splits store_error.splits)

lemma commits_reconcile:
  assumes "Service_ReconcileExternalJob d env w rj n now c db i = Inr (x, db')"
  shows "db' = db \<or> (\<exists>run expected observed. ReconcileExternalJob d rj n db (run :: Run) expected observed now c = Inr db')"
  using assms
  by (auto simp: Service_ReconcileExternalJob_def split: if_splits option.splits prod.splits sum.splits)

lemma commits_audit:
  "RecordRequestAudit cfg now i db a = Inr db' \<Longrightarrow> db' = db \<or> (\<exists>a. InsertRequestAudit db a = Inr db')"
  by (auto simp: RecordRequestAudit_def Let_def split: if_splits)

lemma perform_commits: "perform inp db cmd = Inr db' \<Longrightarrow> commits inp db db'"
  by (cases cmd)
     (auto simp: perform_def PauseSchedule_def ResumeSchedule_def Service_DeleteSchedule_def pruneRetention_def Let_def
       commits_def intro: transaction.intros dest!: commits_create commits_replace commits_patch commits_trigger commits_event
         commits_reconcile commits_audit)

lemma manual_run_ok: "run_ok (manual_run i s reason now) \<and> r_ID (manual_run i s reason now) = i
    \<and> r_Status (manual_run i s reason now) = RunPending \<and> r_ScheduleID (manual_run i s reason now) = s"
  by (simp add: run_ok_def manual_run_def)

lemma commits_step:
  assumes "commits inp (sys_db \<sigma>) db'" and "in_ID inp \<notin> sys_runs \<sigma>"
  shows "db' = sys_db \<sigma> \<or> (\<exists>\<tau>. sys_step (\<lambda>_. True) \<sigma> \<tau> \<and> sys_db \<tau> = db'
    \<and> sys_runs \<tau> \<subseteq> Set.insert (in_ID inp) (sys_runs \<sigma>))"
proof (cases "transaction inp (sys_db \<sigma>) db'")
  case False
  then show ?thesis using assms(1) by (fastforce simp: commits_def dest: sys_step.audit)
next
  case True
  then show ?thesis
  proof cases
    case (manual i reason)
    have "sys_step (\<lambda>_. True) \<sigma> (\<sigma>\<lparr>sys_db := db', sys_runs := Set.insert (in_ID inp) (sys_runs \<sigma>)\<rparr>)"
      using sys_step.insert [OF manual, of "\<lambda>_. True"] assms(2) manual_run_ok by simp
    then show ?thesis by (intro disjI2 exI conjI) (assumption, simp_all)
  next
    case (event i ev x)
    have "sys_step (\<lambda>_. True) \<sigma> (\<sigma>\<lparr>sys_db := db', sys_runs := Set.insert (in_ID inp) (sys_runs \<sigma>)\<rparr>)"
      using event assms(2) by (rule sys_step.event)
    then show ?thesis by (intro disjI2 exI conjI) (assumption, simp_all)
  next
    case (pruned cutoff)
    show ?thesis using sys_step.prune [of "\<lambda>_. True" \<sigma> cutoff]
      by (intro disjI2 exI conjI) (assumption, simp_all add: pruned subset_insertI)
  qed (fastforce dest: sys_step.update sys_step.create sys_step.delete sys_step.reconcile)+
qed

text \<open>After a reconciliation is committed, the run is found again: no error follows the commit.\<close>

lemma reconcile_reread:
  assumes "Service_GetRun db i = Inr run" and "ReconcileExternalJob d rj n db run expected observed now c = Inr db'"
  shows "\<exists>run1. Service_GetRun db' i = Inr run1"
proof -
  have "schedule_runs db' = schedule_runs db"
    using assms(2) by (elim ReconcileExternalJob_cases) (auto simp: insert_receipt_def split: if_splits)
  with assms(1) show ?thesis
    by (auto simp: Service_GetRun_def found_def GetRun_def ListReceipts_def ensureRunExists_def split: option.splits sum.splits if_splits)
qed

text \<open>No transaction but the audit's own writes audit entries.\<close>

lemma insert_receipt_keeps_audit: "insert_receipt db c = Inr db' \<Longrightarrow> request_audit_logs db' = request_audit_logs db"
  by (auto simp: insert_receipt_def split: if_splits)

lemma event_keeps_audit:
  "TriggerEvent_tx h db i ev now runID = Inr ((run, created), db') \<Longrightarrow> request_audit_logs db' = request_audit_logs db"
proof (cases created)
  case True
  assume "TriggerEvent_tx h db i ev now runID = Inr ((run, created), db')"
  with True have "TriggerEvent_tx h db i ev now runID = Inr ((run, True), db')" by simp
  from arg_cong [OF TriggerEvent_db [OF this], of request_audit_logs] show ?thesis by simp
next
  case False
  assume "TriggerEvent_tx h db i ev now runID = Inr ((run, created), db')"
  with False have "TriggerEvent_tx h db i ev now runID = Inr ((run, False), db')" by simp
  from TriggerEvent_replayed [OF this] show ?thesis by simp
qed

lemma transaction_keeps_audit:
  assumes "transaction inp db db'"
  shows "request_audit_logs db' = request_audit_logs db"
  using assms
proof cases
  case (event i ev x)
  then show ?thesis using event_keeps_audit by (cases x) blast
next
  case (reconciled n run expected observed)
  then show ?thesis by (elim ReconcileExternalJob_cases) (simp add: insert_receipt_keeps_audit)
qed (auto simp: UpdateSchedule_def CreateSchedule_def DeleteSchedule_def InsertRun_def PruneTerminalRunsBefore_def
      compactPrunedExternalJobs_def delete_runs_def Let_def split: if_splits)

text \<open>What the transactions of a command, but deletion and retention, do to runs and leases.\<close>

definition adds_at_most :: "string \<Rightarrow> DB \<Rightarrow> DB \<Rightarrow> bool" where
  "adds_at_most i db db' \<longleftrightarrow> set (schedule_runs db) \<subseteq> set (schedule_runs db')
     \<and> (\<forall>r \<in> set (schedule_runs db') - set (schedule_runs db). r_ID r = i \<and> r_Status r = RunPending)
     \<and> worker_leases db' = worker_leases db"

lemma adds_nothing: "schedule_runs db' = schedule_runs db \<Longrightarrow> worker_leases db' = worker_leases db \<Longrightarrow> adds_at_most i db db'"
  by (simp add: adds_at_most_def)

lemma receipt_keeps_runs:
  "insert_receipt db c = Inr db' \<Longrightarrow> schedule_runs db' = schedule_runs db \<and> worker_leases db' = worker_leases db"
  by (auto simp: insert_receipt_def split: if_splits)

lemma adds_transactions:
  "UpdateSchedule db s = Inr db' \<Longrightarrow> adds_at_most i db db'"
  "CreateSchedule db s = Inr db' \<Longrightarrow> adds_at_most i db db'"
  "InsertRequestAudit db a = Inr db' \<Longrightarrow> adds_at_most i db db'"
  "InsertRun db (manual_run i sid reason now) = Inr db' \<Longrightarrow> adds_at_most i db db'"
  by (auto simp: UpdateSchedule_def CreateSchedule_def InsertRequestAudit_def InsertRun_def adds_at_most_def
      manual_run_ok split: if_splits)

lemma adds_event: "TriggerEvent_tx h db sid ev now i = Inr ((run, created), db') \<Longrightarrow> adds_at_most i db db'"
  by (cases created) (auto simp: adds_at_most_def event_run_def dest: TriggerEvent_created TriggerEvent_replayed)

lemma adds_reconcile:
  "ReconcileExternalJob d rj n db run expected observed now c = Inr db' \<Longrightarrow> adds_at_most i db db'"
  by (elim ReconcileExternalJob_cases) (auto intro!: adds_nothing dest!: receipt_keeps_runs)

lemma perform_adds:
  assumes "perform inp db cmd = Inr db'" and "\<And>i. cmd \<noteq> DeleteCmd i" and "cmd \<noteq> PruneCmd"
  shows "adds_at_most (in_ID inp) db db'"
  using assms
  by (cases cmd)
     (auto simp: perform_def PauseSchedule_def ResumeSchedule_def Let_def
       intro: adds_transactions adds_event adds_reconcile adds_nothing [OF refl refl]
       dest!: commits_create commits_replace commits_patch commits_trigger commits_event commits_reconcile commits_audit)

lemma runs_after_delete:
  "DeleteSchedule db i = Inr db' \<Longrightarrow> schedule_runs db' = sql_delete (\<lambda>r. r_ScheduleID r = i) (schedule_runs db)"
  by (auto simp: DeleteSchedule_def delete_runs_def Let_def split: if_splits)

lemma runs_after_prune: "schedule_runs (snd (PruneTerminalRunsBefore db t)) = sql_delete (prunable db t) (schedule_runs db)"
  by (simp add: PruneTerminalRunsBefore_def compactPrunedExternalJobs_def delete_runs_def Let_def)

section \<open>Properties of the commands\<close>

text \<open>
  C5: every command of the service is a step of the scheduler's transition system. From a state that
  satisfies the system's invariant, with an identifier not used before, a command that succeeds leads
  to the database of the same state or of a successor by one step, and the invariant holds there: what
  is proved of all interleavings of planner, dispatchers and recovery holds with operators among them.
\<close>

theorem commands_refine_system:
  assumes "sys_inv \<sigma>" and "in_ID inp \<notin> sys_runs \<sigma>" and "perform inp (sys_db \<sigma>) cmd = Inr db'"
  shows "\<exists>\<tau>. sys_db \<tau> = db' \<and> sys_inv \<tau> \<and> (\<tau> = \<sigma> \<or> sys_step (\<lambda>_. True) \<sigma> \<tau> \<and> later \<sigma> \<tau>)"
  using commits_step [OF perform_commits [OF assms(3)] assms(2)]
proof (elim disjE exE conjE)
  fix \<tau> assume step: "sys_step (\<lambda>_. True) \<sigma> \<tau>" and db: "sys_db \<tau> = db'"
  show ?thesis
    using step db step_inv [OF assms(1) step] history.step_rel [OF assms(1) step] by (intro exI [of _ \<tau>]) simp
qed (use assms(1) in blast)

text \<open>
  C6: operators cannot disturb runs that exist. Whatever command succeeds, a run of the database is
  still there, unchanged, unless its schedule was deleted, or retention removed it, being terminal,
  finished before the cutoff and without an unresolved remote job; and the only run a command adds is
  a pending one under the fresh identifier.
\<close>

theorem commands_leave_runs_alone:
  assumes "perform inp db cmd = Inr db'" and "r \<in> set (schedule_runs db)"
  shows "(r \<in> set (schedule_runs db') \<or> cmd = DeleteCmd (r_ScheduleID r)
      \<or> cmd = PruneCmd \<and> 0 < cf_RunRetentionDays (in_Config inp)
        \<and> prunable db (in_Now1 inp + retention_offset (cf_RunRetentionDays (in_Config inp))) r)
    \<and> (\<forall>r' \<in> set (schedule_runs db') - set (schedule_runs db). r_ID r' = in_ID inp \<and> r_Status r' = RunPending)"
proof (cases "(\<exists>i. cmd = DeleteCmd i) \<or> cmd = PruneCmd")
  case False
  then have "adds_at_most (in_ID inp) db db'" using perform_adds [OF assms(1)] by blast
  with assms(2) show ?thesis by (auto simp: adds_at_most_def)
next
  case True
  with assms show ?thesis
    by (auto simp: perform_def Service_DeleteSchedule_def pruneRetention_def runs_after_delete runs_after_prune
        table_simps split: if_splits)
qed

lemma retention_exact:
  assumes "0 < days" and "days \<le> 106751"
  shows "retention_offset days = - (days * 86400 * second)"
proof -
  have "int64_wrap (- days) = - days" and "int64_wrap (- days * 24) = - days * 24"
    and "int64_wrap (- days * 24 * (3600 * second)) = - days * 24 * (3600 * second)"
    using assms by (intro int64_wrap_id, simp add: is_int64_def second_def)+
  then show ?thesis by (simp add: retention_offset_def)
qed

text \<open>One day more, and the product is positive in 64 bits: the cutoff lies in the future.\<close>

lemma retention_overflows: "retention_offset 106752 = 9223371273709551616"
proof -
  have "int64_wrap (- 106752) = - 106752" "int64_wrap (- 106752 * 24) = - 2562048"
    "int64_wrap (- 2562048 * (3600 * second)) = 9223371273709551616"
    by (simp_all add: int64_wrap_def second_def)
  then show ?thesis by (simp add: retention_offset_def)
qed

text \<open>
  C35: retention is exact. For a configured number of days up to 106751 the prune removes a run
  exactly when it is terminal, finished before the instant that many days of 86400 seconds before now,
  and no remote job of its occurrence is unresolved; with zero or fewer days it removes nothing.
\<close>

theorem retention_keeps_recent_runs:
  assumes "cf_RunRetentionDays cfg \<le> 106751"
  shows "r \<in> set (schedule_runs (pruneRetention cfg now db)) \<longleftrightarrow> r \<in> set (schedule_runs db)
    \<and> \<not> (0 < cf_RunRetentionDays cfg \<and> terminal (r_Status r)
        \<and> (\<exists>t. r_FinishedAt r = Some t \<and> t < now - cf_RunRetentionDays cfg * 86400 * second)
        \<and> \<not> (\<exists>e \<in> set (external_jobs db). ej_occurrence_key e = r_OccurrenceKey r \<and> unresolved (ej_job_status e)))"
proof (cases "0 < cf_RunRetentionDays cfg")
  case True
  have "prunable db (now + retention_offset (cf_RunRetentionDays cfg)) r \<longleftrightarrow> terminal (r_Status r)
      \<and> (\<exists>t. r_FinishedAt r = Some t \<and> t < now - cf_RunRetentionDays cfg * 86400 * second)
      \<and> \<not> (\<exists>e \<in> set (external_jobs db). ej_occurrence_key e = r_OccurrenceKey r \<and> unresolved (ej_job_status e))"
    unfolding prunable_def retention_exact [OF True assms] by (cases "r_FinishedAt r") auto
  then show ?thesis using True by (simp add: pruneRetention_def runs_after_prune table_simps)
qed (simp add: pruneRetention_def)

section \<open>Paused schedules\<close>

text \<open>The rows of one schedule: what it is and what it has run.\<close>

definition rows_of :: "string \<Rightarrow> DB \<Rightarrow> Schedule list \<times> RunRow list" where
  "rows_of i db = (filter (\<lambda>s. s_ID s = i) (schedules db), filter (\<lambda>r. r_ScheduleID r = i) (schedule_runs db))"

lemma filter_sql_update_other:
  "(\<And>x. P x \<Longrightarrow> \<not> Q x \<and> \<not> Q (f x)) \<Longrightarrow> filter Q (sql_update P f rows) = filter Q rows"
  by (induction rows) (auto simp: sql_update_def)

lemma rows_of_insert_due:
  "s_ID s \<noteq> i \<Longrightarrow> rows_of i (snd (insert_due clock newID grace s now n k due db)) = rows_of i db"
proof (induction due arbitrary: k db)
  case (Cons t due)
  have "rows_of i db1 = rows_of i db" if "insertOccurrence db s t status e c j = Inr db1" for db1 status e c j
    using that Cons.prems by (auto simp: insertOccurrence_def InsertRun_def occurrence_row_def rows_of_def split: if_splits)
  with Cons show ?case by (auto split: option.splits sum.splits store_error.splits)
qed simp

lemma rows_of_updated: "s_ID s \<noteq> i \<Longrightarrow> rows_of i (snd (updated db s)) = rows_of i db"
  by (auto simp: updated_def UpdateSchedule_def rows_of_def filter_sql_update_other split: sum.splits if_splits)

lemma rows_of_materializeSchedule:
  assumes "materializeSchedule env grace clock newID db s now = Some (e, db')"
    and "s_ID s \<noteq> i \<or> \<not> s_Enabled s \<or> s_PausedAt s \<noteq> None"
  shows "rows_of i db' = rows_of i db"
proof (cases "s_Enabled s \<and> s_PausedAt s = None")
  case True
  with assms(2) have other: "s_ID s \<noteq> i" by simp
  have due: "rows_of i db1 = rows_of i db" if "insert_due clock newID grace s now n k due db = (e1, db1)" for n k due e1 db1
    using rows_of_insert_due [OF other, of clock newID grace now n k due db] that by simp
  have upd: "rows_of i db2 = rows_of i db1" if "updated db1 (s\<lparr>s_NextRunAt := x, s_UpdatedAt := y\<rparr>) = (e1, db2)" for db1 db2 x y e1
    using rows_of_updated [of "s\<lparr>s_NextRunAt := x, s_UpdatedAt := y\<rparr>" i db1] that other by simp
  have nxt: "rows_of i db2 = rows_of i db1" if "updated db1 (s\<lparr>s_NextRunAt := x\<rparr>) = (e1, db2)" for db1 db2 x e1
    using rows_of_updated [of "s\<lparr>s_NextRunAt := x\<rparr>" i db1] that other by simp
  show ?thesis
    using assms(1) True unfolding materializeSchedule_def
    by (auto split: option.splits sum.splits if_splits prod.splits dest!: due upd nxt)
qed (use assms in \<open>auto simp: materializeSchedule_def\<close>)

lemma rows_of_tick:
  assumes "tick_schedules env grace clock newID now k ss db = Some db'"
    and "\<forall>s \<in> set ss. s_ID s = i \<longrightarrow> \<not> s_Enabled s \<or> s_PausedAt s \<noteq> None"
  shows "rows_of i db' = rows_of i db"
  using assms
proof (induction ss arbitrary: k db)
  case (Cons s ss)
  then obtain e db1 where m: "materializeSchedule env grace (clock k) (newID k) db s now = Some (e, db1)"
    and "tick_schedules env grace clock newID now (k + 1) ss db1 = Some db'"
    by (auto split: option.splits)
  with Cons show ?case using rows_of_materializeSchedule [OF m, of i] by auto
qed simp

lemma find_filter: "sql_find P rows = (case filter P rows of [] \<Rightarrow> None | x # _ \<Rightarrow> Some x)"
  by (induction rows) (auto simp: table_simps)

lemma GetSchedule_rows_of: "rows_of i db' = rows_of i db \<Longrightarrow> GetSchedule db' i = GetSchedule db i"
  by (simp add: GetSchedule_def find_filter rows_of_def)

lemma paused_rows:
  assumes "PauseSchedule now db i = Inr (s, db1)"
  shows "\<forall>x \<in> set (schedules db1). s_ID x = i \<longrightarrow> \<not> s_Enabled x \<and> s_PausedAt x = Some now"
proof -
  obtain c where c: "GetSchedule db i = Inr c"
    and upd: "UpdateSchedule db (c\<lparr>s_Enabled := False, s_PausedAt := Some now, s_UpdatedAt := now\<rparr>) = Inr db1"
    using assms by (auto simp: PauseSchedule_def Service_GetSchedule_def Let_def)
  then have "s_ID c = i \<and> c \<in> set (schedules db)"
    by (auto simp: GetSchedule_def split: option.splits dest: sql_find_both)
  with upd show ?thesis by (auto simp: UpdateSchedule_def table_simps split: if_splits)
qed

text \<open>
  C32: a paused schedule stays quiet. After a pause, a planner tick that lists the schedules, whatever
  it makes of the others, records no run of the paused schedule and leaves its row as the pause wrote
  it; and an event delivered after that either fails or answers with the run of an earlier delivery
  without changing the database.
\<close>

theorem paused_schedule_stays_quiet:
  assumes "PauseSchedule now db i = Inr (s, db1)" and "Planner_Tick env grace clock newID t db1 = Some db2"
  shows "(\<forall>r \<in> set (schedule_runs db2). r_ScheduleID r = i \<longrightarrow> r \<in> set (schedule_runs db1))
    \<and> GetSchedule db2 i = GetSchedule db1 i
    \<and> (\<forall>ev now' runID run created db3.
         Service_TriggerEvent h id_first now' runID db2 i ev = Inr ((run, created), db3) \<longrightarrow> \<not> created \<and> db3 = db2)"
proof -
  note paused = paused_rows [OF assms(1)]
  have rows: "rows_of i db2 = rows_of i db1"
    by (rule rows_of_tick [OF assms(2) [unfolded Planner_Tick_def]]) (use paused in \<open>simp add: ListAllSchedules_def\<close>)
  have "r \<in> set (schedule_runs db1)" if "r \<in> set (schedule_runs db2)" "r_ScheduleID r = i" for r
  proof -
    have "r \<in> set (snd (rows_of i db2))" using that by (simp add: rows_of_def)
    then show ?thesis unfolding rows by (simp add: rows_of_def)
  qed
  moreover have "\<not> created \<and> db3 = db2"
    if delivered: "Service_TriggerEvent h id_first now' runID db2 i ev = Inr ((run, created), db3)"
    for ev now' runID run created db3
  proof -
    obtain ev' where tx: "TriggerEvent_tx h db2 i ev' now' runID = Inr ((run, created), db3)"
      using commits_event [OF delivered] by blast
    have "x \<in> set (fst (rows_of i db1))" if "x \<in> set (schedules db2)" "s_ID x = i" for x
      using that by (simp add: rows [symmetric]) (simp add: rows_of_def)
    then have off: "\<not> s_Enabled x" if "x \<in> set (schedules db2)" "s_ID x = i" for x
      using that paused by (simp add: rows_of_def)
    have "\<not> created"
      using tx off by (auto simp: TriggerEvent_tx_def Let_def dest!: sql_find_both
        split: option.splits if_splits sum.splits store_error.splits)
    then show ?thesis using tx TriggerEvent_replayed by auto
  qed
  ultimately show ?thesis using GetSchedule_rows_of [OF rows] by blast
qed

section \<open>Samples\<close>

definition sample_inputs :: Inputs where
  "sample_inputs = \<lparr>in_Env = sample_env, in_World = sample_world, in_Dialect = SQLite, in_Digest = (\<lambda>s. s),
     in_ReconciledJSON = (\<lambda>_. ''{}''), in_IDFirst = True, in_ID = ''run_2'', in_Now1 = 20, in_Now2 = 20,
     in_Config = (FromEnv (\<lambda>_. '''') ''v1'')\<lparr>cf_RunRetentionDays := 30\<rparr>\<rparr>"

definition sample_manual :: RunRow where
  "sample_manual = manual_run ''run_2'' ''sch_1'' ''ops'' 20"

lemma idle_db:
  "schedules (sys_db sys_idle) = [sample_schedule]" "schedule_runs (sys_db sys_idle) = [idle_run]" "sys_inv sys_idle"
proof -
  show "sys_inv sys_idle" by (rule history.reachable_inv [OF initial_sys0 step_to_idle [of "\<lambda>_. True"]])
  show "schedules (sys_db sys_idle) = [sample_schedule]" "schedule_runs (sys_db sys_idle) = [idle_run]"
    by (simp_all add: sys_idle_def sample_db_def)
qed

lemma sample_trigger:
  "perform sample_inputs (sys_db sys_idle) (TriggerCmd ''sch_1'' ''ops'')
   = Inr ((sys_db sys_idle)\<lparr>schedule_runs := [idle_run, sample_manual]\<rparr>)"
proof -
  have "trim_space ''ops'' \<noteq> ''''" by (simp add: trim_space_visible visible_def)
  moreover have "GetSchedule (sys_db sys_idle) ''sch_1'' = Inr sample_schedule" "s_ID sample_schedule = ''sch_1''"
    by (simp_all add: GetSchedule_def idle_db sql_find_def sample_schedule_def)
  moreover have "r_ID sample_manual = ''run_2''" "r_OccurrenceKey sample_manual = ''manual:run_2''" "r_ScheduleID sample_manual = ''sch_1''"
    by (simp_all add: sample_manual_def manual_run_def)
  then have "InsertRun (sys_db sys_idle) sample_manual = Inr ((sys_db sys_idle)\<lparr>schedule_runs := [idle_run, sample_manual]\<rparr>)"
    by (simp add: InsertRun_def idle_db) (simp add: idle_run_def sample_schedule_def)
  ultimately have "TriggerSchedule 20 ''run_2'' (sys_db sys_idle) ''sch_1'' ''ops''
      = Inr (sample_manual, (sys_db sys_idle)\<lparr>schedule_runs := [idle_run, sample_manual]\<rparr>)"
    by (simp only: TriggerSchedule_def ValidateTriggerReason_def Service_GetSchedule_def found_def stored_def
        Let_def sample_manual_def if_False option.case sum.case bind_result_simps)
  then show ?thesis by (simp add: perform_def sample_inputs_def)
qed

theorem commands_refine_system_witness:
  "\<exists>\<tau>. sys_db \<tau> = (sys_db sys_idle)\<lparr>schedule_runs := [idle_run, sample_manual]\<rparr> \<and> sys_inv \<tau>
    \<and> (\<tau> = sys_idle \<or> sys_step (\<lambda>_. True) sys_idle \<tau> \<and> later sys_idle \<tau>)"
  by (rule commands_refine_system [OF idle_db(3) _ sample_trigger]) (simp add: sample_inputs_def sys_idle_def)

lemma sample_runs: "schedule_runs (db\<lparr>schedule_runs := rows\<rparr>) = rows" by simp

theorem commands_leave_runs_alone_witness:
  "idle_run \<in> set [idle_run, sample_manual] \<and> r_ID sample_manual = ''run_2'' \<and> r_Status sample_manual = RunPending"
proof -
  have "idle_run \<in> set (schedule_runs (sys_db sys_idle))" by (simp add: idle_db)
  from commands_leave_runs_alone [OF sample_trigger this, THEN conjunct2]
  have new: "\<forall>r' \<in> set [idle_run, sample_manual] - set [idle_run]. r_ID r' = ''run_2'' \<and> r_Status r' = RunPending"
    by (simp only: idle_db(2) sample_runs sample_inputs_def Inputs.select_convs)
  have "r_ID sample_manual \<noteq> r_ID idle_run" by (simp add: sample_manual_def manual_run_def idle_run_def)
  then have "sample_manual \<in> set [idle_run, sample_manual] - set [idle_run]" by auto
  from bspec [OF new this] show ?thesis by simp
qed

theorem retention_keeps_recent_runs_witness:
  "idle_run \<in> set (schedule_runs (pruneRetention (in_Config sample_inputs) 20 (sys_db sys_idle)))"
proof -
  have days: "cf_RunRetentionDays (in_Config sample_inputs) \<le> 106751" by (simp add: sample_inputs_def)
  have "idle_run \<in> set (schedule_runs (sys_db sys_idle))" "\<not> terminal (r_Status idle_run)"
    by (simp add: idle_db, simp add: idle_run_def)
  then show ?thesis using retention_keeps_recent_runs [OF days, of idle_run 20 "sys_db sys_idle"] by blast
qed

lemma sample_pause: "\<exists>s db1 db2. PauseSchedule 20 (sys_db sys_idle) ''sch_1'' = Inr (s, db1)
    \<and> Planner_Tick sample_env (5 * second) (\<lambda>k i. 30) (\<lambda>k. sample_id) (7200 * second) db1 = Some db2"
proof -
  define s where "s = sample_schedule\<lparr>s_Enabled := False, s_PausedAt := Some 20, s_UpdatedAt := 20\<rparr>"
  have g: "GetSchedule (sys_db sys_idle) ''sch_1'' = Inr sample_schedule"
    by (simp add: GetSchedule_def idle_db sql_find_def sample_schedule_def)
  have "schedule_check s" by (simp add: s_def sample_schedule_def schedule_check_def zero_TargetSpec_def)
  then have u: "UpdateSchedule (sys_db sys_idle) s = Inr ((sys_db sys_idle)\<lparr>schedules := [s]\<rparr>)"
    by (simp add: UpdateSchedule_def idle_db sql_update_def) (simp add: s_def sample_schedule_def)
  then have "PauseSchedule 20 (sys_db sys_idle) ''sch_1'' = Inr (s, (sys_db sys_idle)\<lparr>schedules := [s]\<rparr>)"
    using g by (simp add: PauseSchedule_def Service_GetSchedule_def found_def stored_def s_def Let_def)
  moreover have "\<not> s_Enabled s" by (simp add: s_def)
  then have "Planner_Tick sample_env (5 * second) (\<lambda>k i. 30) (\<lambda>k. sample_id) (7200 * second) ((sys_db sys_idle)\<lparr>schedules := [s]\<rparr>)
      = Some ((sys_db sys_idle)\<lparr>schedules := [s]\<rparr>)"
    by (simp add: Planner_Tick_def ListAllSchedules_def materializeSchedule_def)
  ultimately show ?thesis by blast
qed

theorem paused_schedule_stays_quiet_witness:
  "\<exists>s db1 db2. PauseSchedule 20 (sys_db sys_idle) ''sch_1'' = Inr (s, db1)
    \<and> Planner_Tick sample_env (5 * second) (\<lambda>k i. 30) (\<lambda>k. sample_id) (7200 * second) db1 = Some db2
    \<and> list_all (\<lambda>r. r \<in> set (schedule_runs db1)) (filter (\<lambda>r. r_ScheduleID r = ''sch_1'') (schedule_runs db2))"
proof -
  obtain s db1 db2 where *: "PauseSchedule 20 (sys_db sys_idle) ''sch_1'' = Inr (s, db1)"
    "Planner_Tick sample_env (5 * second) (\<lambda>k i. 30) (\<lambda>k. sample_id) (7200 * second) db1 = Some db2"
    using sample_pause by blast
  moreover have "list_all (\<lambda>r. r \<in> set (schedule_runs db1)) (filter (\<lambda>r. r_ScheduleID r = ''sch_1'') (schedule_runs db2))"
    using paused_schedule_stays_quiet [OF *, THEN conjunct1] by (simp add: list_all_iff)
  ultimately show ?thesis by blast
qed

end
