(* ===== verification/Listing.thy ===== *)
theory Listing
  imports Events "HOL-Library.Product_Lexorder"
begin

text \<open>
  Paginated listings: the sortable form of stored timestamps (\<open>internal/store/timestamps.go\<close>), the
  cursors of \<open>internal/domain/helpers.go\<close> with the unpadded URL alphabet of base 64, and \<open>ListSchedules\<close>
  and \<open>ListRuns\<close> of \<open>internal/store/store.go\<close>.
\<close>

section \<open>Timestamps in the database\<close>

text \<open>SQL's \<open>substr\<close> counts from 1.\<close>

definition substr :: "string \<Rightarrow> nat \<Rightarrow> nat \<Rightarrow> string" where
  "substr s from len = take len (drop (from - 1) s)"

definition timestampSQL :: "string \<Rightarrow> string" where
  "timestampSQL column =
     substr column 1 19 @ ''.'' @
     substr ((if substr column 20 1 = ''.'' then substr column 21 (length column - 21) else '''') @ ''000000000'') 1 9 @ ''Z''"

definition comparisonTimeString :: "time \<Rightarrow> string" where
  "comparisonTimeString t = date_time t @ ''.'' @ nano_digits t @ ''Z''"

lemma trim_zeros_pad: "\<exists>k. s = trim_zeros s @ replicate k (CHR ''0'')"
proof -
  have "rev s = takeWhile (\<lambda>c. c = CHR ''0'') (rev s) @ dropWhile (\<lambda>c. c = CHR ''0'') (rev s)" by simp
  moreover have "takeWhile (\<lambda>c. c = CHR ''0'') (rev s) = replicate (length (takeWhile (\<lambda>c. c = CHR ''0'') (rev s))) (CHR ''0'')"
    by (intro replicate_length_same [symmetric]) (auto dest: set_takeWhileD)
  ultimately have "s = trim_zeros s @ rev (replicate (length (takeWhile (\<lambda>c. c = CHR ''0'') (rev s))) (CHR ''0''))"
    unfolding trim_zeros_def by (metis rev_append rev_rev_ident)
  then show ?thesis by auto
qed

lemma fraction_refilled: "take 9 (trim_zeros (nano_digits t) @ ''000000000'') = nano_digits t"
proof -
  define f where "f = trim_zeros (nano_digits t)"
  obtain k where k: "nano_digits t = f @ replicate k (CHR ''0'')" using trim_zeros_pad f_def by blast
  then have len: "length f + k = 9" using length_nano_digits [of t] by simp
  have zeros: "''000000000'' = replicate 9 (CHR ''0'')" by (simp add: numeral_eq_Suc)
  have "take 9 (f @ replicate 9 (CHR ''0'')) = f @ take (9 - length f) (replicate 9 (CHR ''0''))"
    using len by (simp only: take_append) simp
  also have "9 - length f = k" using len by simp
  also have "take k (replicate 9 (CHR ''0'')) = replicate k (CHR ''0'')" using len by (simp only: take_replicate) simp
  finally have "take 9 (f @ ''000000000'') = nano_digits t" using k zeros by simp
  then show ?thesis by (simp only: f_def)
qed

lemma timestampSQL_fraction:
  assumes "length d = 19"
  shows "timestampSQL (d @ ''Z'') = d @ ''.'' @ ''000000000'' @ ''Z''"
    and "timestampSQL (d @ ''.'' @ f @ ''Z'') = d @ ''.'' @ take 9 (f @ ''000000000'') @ ''Z''"
  using assms by (simp_all add: timestampSQL_def substr_def)

lemma comparison_less_iff:
  assumes "printable t" and "printable u"
  shows "comparisonTimeString t < comparisonTimeString u \<longleftrightarrow> t < u"
    and "comparisonTimeString t = comparisonTimeString u \<longleftrightarrow> t = u"
proof -
  have len: "length (date_time t) = length (date_time u)" using assms by (simp add: length_date_time)
  have nan: "length (nano_digits t) = length (nano_digits u)" by (simp add: length_nano_digits)
  have "t = unix t * second + nanosecond t" "u = unix u * second + nanosecond u" by (simp_all add: unix_nanosecond)
  note tu = this nanosecond_bounds [of t] nanosecond_bounds [of u]
  show "comparisonTimeString t < comparisonTimeString u \<longleftrightarrow> t < u"
    unfolding comparisonTimeString_def list_less_append [OF len] date_time_less_iff [OF assms]
    by (simp add: list_less_append [OF nan] nano_digits_less_iff) (use tu in \<open>auto simp: second_def\<close>)
  show "comparisonTimeString t = comparisonTimeString u \<longleftrightarrow> t = u"
    unfolding comparisonTimeString_def using len nan date_time_less_iff(2) [OF assms] nano_digits_less_iff(2) [of t u] tu
    by auto
qed

section \<open>Cursors\<close>

text \<open>\<open>base64.RawURLEncoding\<close>: three bytes as four characters, a rest of one or two bytes as two or three.\<close>

definition alphabet :: string where
  "alphabet = ''ABCDEFGHIJKLMNOPQRSTUVWXYZabcdefghijklmnopqrstuvwxyz0123456789-_''"

definition b64 :: "nat \<Rightarrow> char" where
  "b64 n = alphabet ! (n mod 64)"

fun position :: "'a \<Rightarrow> 'a list \<Rightarrow> nat option" where
  "position x [] = None"
| "position x (y # ys) = (if y = x then Some 0 else map_option Suc (position x ys))"

definition unb64 :: "char \<Rightarrow> nat option" where
  "unb64 c = position c alphabet"

definition byte :: "nat \<Rightarrow> char" where
  "byte n = char_of n"

fun encode64 :: "string \<Rightarrow> string" where
  "encode64 [] = []"
| "encode64 [a] = (let n = of_char a * 16 in [b64 (n div 64), b64 n])"
| "encode64 [a, b] = (let n = (of_char a * 256 + of_char b) * 4 in [b64 (n div 4096), b64 (n div 64), b64 n])"
| "encode64 (a # b # c # rest) =
     (let n = of_char a * 65536 + of_char b * 256 + of_char c in
      b64 (n div 262144) # b64 (n div 4096) # b64 (n div 64) # b64 n # encode64 rest)"

fun sextets :: "char list \<Rightarrow> nat option" where
  "sextets [] = Some 0"
| "sextets (c # cs) = (case (unb64 c, sextets cs) of (Some n, Some m) \<Rightarrow> Some (n * 64 ^ length cs + m) | _ \<Rightarrow> None)"

text \<open>Decoding ignores the unused bits of the last character, as the library does without \<open>Strict\<close>; line
  breaks in the text, which the library skips, are removed first.\<close>

fun decode64_clean :: "string \<Rightarrow> string option" where
  "decode64_clean [] = Some []"
| "decode64_clean [a] = None"
| "decode64_clean [a, b] = map_option (\<lambda>n. [byte (n div 16)]) (sextets [a, b])"
| "decode64_clean [a, b, c] = map_option (\<lambda>n. [byte (n div 1024), byte (n div 4)]) (sextets [a, b, c])"
| "decode64_clean (a # b # c # d # rest) =
     (case (sextets [a, b, c, d], decode64_clean rest) of
        (Some n, Some bs) \<Rightarrow> Some (byte (n div 65536) # byte (n div 256) # byte n # bs)
      | _ \<Rightarrow> None)"

definition decode64 :: "string \<Rightarrow> string option" where
  "decode64 s = decode64_clean (filter (\<lambda>c. c \<noteq> CHR 0x0A \<and> c \<noteq> CHR 0x0D) s)"

lemma position_nth: "distinct xs \<Longrightarrow> i < length xs \<Longrightarrow> position (xs ! i) xs = Some i"
  by (induction xs arbitrary: i) (auto simp: nth_Cons split: nat.splits)

lemma alphabet_facts: "length alphabet = 64" "distinct alphabet" "CHR 0x0A \<notin> set alphabet" "CHR 0x0D \<notin> set alphabet"
  by (simp_all add: alphabet_def)

lemma unb64_b64 [simp]: "unb64 (b64 n) = Some (n mod 64)"
  unfolding unb64_def b64_def by (rule position_nth) (simp_all add: alphabet_facts)

lemma b64_visible: "b64 n \<noteq> CHR 0x0A" "b64 n \<noteq> CHR 0x0D"
proof -
  have "b64 n \<in> set alphabet" unfolding b64_def by (rule nth_mem) (simp add: alphabet_facts)
  then show "b64 n \<noteq> CHR 0x0A" "b64 n \<noteq> CHR 0x0D" using alphabet_facts by metis+
qed

lemma of_char_le: "of_char c \<le> (255 :: nat)"
proof -
  have "(of_char c :: nat) mod 256 < 256" by (rule mod_less_divisor) simp
  then have "(of_char c :: nat) < 256" by (simp only: of_char_mod_256)
  then show ?thesis by linarith
qed

lemma byte_eq: "n mod 256 = of_char c \<Longrightarrow> byte n = c"
  by (rule of_char_eqI [where 'a = nat]) (simp add: byte_def)

text \<open>Reading back the digits of a number in base 64.\<close>

lemma base64_digits:
  fixes n :: nat
  shows "n < 4096 \<Longrightarrow> n div 64 mod 64 * 64 + n mod 64 = n"
    and "n < 262144 \<Longrightarrow> n div 4096 mod 64 * 4096 + (n div 64 mod 64 * 64 + n mod 64) = n"
    and "n < 16777216 \<Longrightarrow> n div 262144 mod 64 * 262144 + (n div 4096 mod 64 * 4096 + (n div 64 mod 64 * 64 + n mod 64)) = n"
proof -
  have step: "k = k div 64 * 64 + k mod 64" for k :: nat by simp
  have d: "n div 4096 = n div 64 div 64" "n div 262144 = n div 64 div 64 div 64" by (simp_all add: div_mult2_eq [symmetric])
  show "n div 64 mod 64 * 64 + n mod 64 = n" if "n < 4096"
  proof -
    have "n div 64 < 64" using that by (simp add: div_less_iff_less_mult)
    then show ?thesis using step [of n] by simp
  qed
  show "n div 4096 mod 64 * 4096 + (n div 64 mod 64 * 64 + n mod 64) = n" if "n < 262144"
  proof -
    have "n div 64 div 64 < 64" using that by (simp add: div_mult2_eq [symmetric] div_less_iff_less_mult)
    then have "n div 64 div 64 mod 64 = n div 64 div 64" by simp
    then show ?thesis unfolding d using step [of n] step [of "n div 64"] by linarith
  qed
  show "n div 262144 mod 64 * 262144 + (n div 4096 mod 64 * 4096 + (n div 64 mod 64 * 64 + n mod 64)) = n"
    if "n < 16777216"
  proof -
    have "n div 64 div 64 div 64 < 64" using that by (simp add: div_mult2_eq [symmetric] div_less_iff_less_mult)
    then have "n div 64 div 64 div 64 mod 64 = n div 64 div 64 div 64" by simp
    then show ?thesis unfolding d using step [of n] step [of "n div 64"] step [of "n div 64 div 64"] by linarith
  qed
qed

lemma sextets_b64:
  "n < 4096 \<Longrightarrow> sextets [b64 (n div 64), b64 n] = Some n"
  "n < 262144 \<Longrightarrow> sextets [b64 (n div 4096), b64 (n div 64), b64 n] = Some n"
  "n < 16777216 \<Longrightarrow> sextets [b64 (n div 262144), b64 (n div 4096), b64 (n div 64), b64 n] = Some n"
  using base64_digits [of n] by simp_all

lemma decode64_clean_encode64: "decode64_clean (encode64 s) = Some s"
proof (induction s rule: encode64.induct)
  case (2 a)
  define n where "n = (of_char a :: nat) * 16"
  have "n < 4096" using of_char_le [of a] by (simp add: n_def)
  moreover have "byte (n div 16) = a" by (rule byte_eq) (simp add: n_def)
  ultimately show ?case by (simp add: n_def [symmetric] Let_def sextets_b64 del: sextets.simps)
next
  case (3 a b)
  define n where "n = ((of_char a :: nat) * 256 + of_char b) * 4"
  have "n < 262144" using of_char_le [of a] of_char_le [of b] unfolding n_def distrib_right by linarith
  moreover have "byte (n div 4) = b" by (rule byte_eq) (simp add: n_def)
  moreover have "n div 1024 = n div 4 div 256" by (simp add: div_mult2_eq [symmetric])
  then have "n div 1024 = of_char a" using of_char_le [of b] by (simp add: n_def)
  then have "byte (n div 1024) = a" by (intro byte_eq) simp
  moreover have "encode64 [a, b] = [b64 (n div 4096), b64 (n div 64), b64 n]"
    by (simp only: encode64.simps n_def Let_def)
  ultimately show ?case by (simp add: sextets_b64 del: sextets.simps encode64.simps)
next
  case (4 a b c rest)
  define n where "n = (of_char a :: nat) * 65536 + of_char b * 256 + of_char c"
  have b: "of_char a \<le> (255 :: nat)" "of_char b \<le> (255 :: nat)" "of_char c \<le> (255 :: nat)" by (rule of_char_le)+
  have "n < 16777216" using b unfolding n_def by linarith
  moreover have n256: "n div 256 = of_char a * 256 + of_char b" using b by (simp add: n_def)
  have n: "n = of_char c + 256 * (of_char a * 256 + of_char b)" by (simp add: n_def)
  have "byte n = c" by (rule byte_eq) (simp only: n mod_mult_self2 of_char_mod_256)
  moreover have "byte (n div 256) = b" by (rule byte_eq) (simp add: n256)
  moreover have "n div 65536 = n div 256 div 256" by (simp add: div_mult2_eq [symmetric])
  then have "n div 65536 = of_char a" using b by (simp add: n256)
  then have "byte (n div 65536) = a" by (intro byte_eq) simp
  ultimately show ?case using 4 by (simp add: n_def [symmetric] Let_def sextets_b64 del: sextets.simps)
qed simp

lemma decode64_encode64: "decode64 (encode64 s) = Some s"
proof -
  have "list_all (\<lambda>c. c \<noteq> CHR 0x0A \<and> c \<noteq> CHR 0x0D) (encode64 s)"
    by (induction s rule: encode64.induct) (simp_all add: Let_def b64_visible)
  then have "filter (\<lambda>c. c \<noteq> CHR 0x0A \<and> c \<noteq> CHR 0x0D) (encode64 s) = encode64 s"
    by (simp add: list_all_iff filter_id_conv)
  then show ?thesis by (simp add: decode64_def decode64_clean_encode64)
qed

text \<open>
  Reading a cursor back uses \<open>json.Unmarshal\<close> into a map of strings (a missing key is the empty string)
  and \<open>time.Parse\<close>, which are parameters; \<open>reads\<close> states that they invert, for one row, what marshalling and
  formatting wrote.
\<close>

record Codec =
  unmarshal_strings :: "string \<Rightarrow> (string \<Rightarrow> string) option"
  parse_time :: "string \<Rightarrow> time option"

definition cursor_payload :: "time \<Rightarrow> string \<Rightarrow> string" where
  "cursor_payload createdAt i = json_text (JObject [(''created_at'', JString (rfc3339_nano createdAt)), (''id'', JString i)])"

definition EncodeCursor :: "time \<Rightarrow> string \<Rightarrow> string" where
  "EncodeCursor createdAt i = encode64 (cursor_payload createdAt i)"

definition DecodeCursor :: "Codec \<Rightarrow> string \<Rightarrow> (string, time \<times> string) result" where
  "DecodeCursor codec cursor =
     (case decode64 cursor of
        None \<Rightarrow> Inl ''illegal base64 data''
      | Some raw \<Rightarrow>
          (case unmarshal_strings codec raw of
             None \<Rightarrow> Inl ''json''
           | Some payload \<Rightarrow>
               (case parse_time codec (payload ''created_at'') of
                  None \<Rightarrow> Inl ''parsing time''
                | Some t \<Rightarrow> Inr (t, payload ''id''))))"

definition reads :: "Codec \<Rightarrow> time \<times> string \<Rightarrow> bool" where
  "reads codec k \<longleftrightarrow>
     (case unmarshal_strings codec (cursor_payload (fst k) (snd k)) of
        None \<Rightarrow> False
      | Some payload \<Rightarrow> payload ''created_at'' = rfc3339_nano (fst k) \<and> payload ''id'' = snd k)
     \<and> parse_time codec (rfc3339_nano (fst k)) = Some (fst k)"

lemma DecodeCursor_EncodeCursor: "reads codec k \<Longrightarrow> DecodeCursor codec (EncodeCursor (fst k) (snd k)) = Inr k"
  by (auto simp: DecodeCursor_def EncodeCursor_def decode64_encode64 reads_def split: option.splits)

lemma EncodeCursor_not_empty: "EncodeCursor t i \<noteq> ''''"
proof
  assume "EncodeCursor t i = ''''"
  then have "decode64 (encode64 (cursor_payload t i)) = decode64 ''''" by (simp add: EncodeCursor_def)
  then show False by (simp add: decode64_encode64) (simp add: decode64_def cursor_payload_def)
qed

section \<open>Pages\<close>

datatype list_error = BadCursor string | NegativeLimit

text \<open>\<open>LIMIT\<close>: SQLite takes a negative bound for none, Postgres refuses it.\<close>

definition sql_limit :: "dialect \<Rightarrow> int \<Rightarrow> 'r list \<Rightarrow> (list_error, 'r list) result" where
  "sql_limit dialect n rows =
     (if n < 0 then (case dialect of SQLite \<Rightarrow> Inr rows | Postgres \<Rightarrow> Inl NegativeLimit) else Inr (take (nat n) rows))"

text \<open>The two listings differ in their rows and filters: newest first, from the cursor on, one row more than
  the page holds, which tells whether there is a next page.\<close>

definition list_page ::
    "dialect \<Rightarrow> Codec \<Rightarrow> ('r \<Rightarrow> time \<times> string) \<Rightarrow> 'r list \<Rightarrow> int \<Rightarrow> string \<Rightarrow> (list_error, 'r list \<times> string option) result" where
  "list_page dialect codec key rows limit0 cursor =
     (let limit = (if limit0 \<le> 0 then 50 else limit0) in
      bind_result
        (if cursor = '''' then Inr (\<lambda>_. True)
         else (case DecodeCursor codec cursor of Inl e \<Rightarrow> Inl (BadCursor e) | Inr k \<Rightarrow> Inr (\<lambda>r. key r < k)))
        (\<lambda>below.
          bind_result (sql_limit dialect (int64_wrap (limit + 1)) (rev (sort_key key (filter below rows)))) (\<lambda>items.
            if int (length items) \<le> limit then Inr (items, None)
            else let last = items ! nat (limit - 1) in
              Inr (take (nat limit) items, Some (EncodeCursor (fst (key last)) (snd (key last)))))))"

definition schedule_summary :: "Schedule \<Rightarrow> ScheduleSummary" where
  "schedule_summary s =
     \<lparr>ss_ID = s_ID s, ss_Name = s_Name s, ss_Enabled = s_Enabled s, ss_Timezone = s_Timezone s,
      ss_Schedule = s_Schedule s, ss_TargetKind = t_Kind (s_Target s), ss_PausedAt = s_PausedAt s,
      ss_NextRunAt = s_NextRunAt s, ss_LastRunAt = s_LastRunAt s, ss_CreatedAt = s_CreatedAt s,
      ss_UpdatedAt = s_UpdatedAt s\<rparr>"

definition ListSchedules ::
    "dialect \<Rightarrow> Codec \<Rightarrow> DB \<Rightarrow> bool option \<Rightarrow> int \<Rightarrow> string \<Rightarrow> (list_error, ScheduleSummary list \<times> string option) result" where
  "ListSchedules dialect codec db enabled limit cursor =
     list_page dialect codec (\<lambda>s. (ss_CreatedAt s, ss_ID s))
       (map schedule_summary (filter (\<lambda>s. enabled = None \<or> enabled = Some (s_Enabled s)) (schedules db))) limit cursor"

definition ListRuns ::
    "dialect \<Rightarrow> Codec \<Rightarrow> DB \<Rightarrow> string option \<Rightarrow> RunStatus option \<Rightarrow> TargetKind option \<Rightarrow> int \<Rightarrow> string
     \<Rightarrow> (list_error, RunSummary list \<times> string option) result" where
  "ListRuns dialect codec db scheduleID status targetKind limit cursor =
     list_page dialect codec (\<lambda>r. (rs_CreatedAt r, rs_ID r))
       (map (\<lambda>(r, s). summary_of r s) (filter (\<lambda>(r, s).
          (scheduleID = None \<or> scheduleID = Some (r_ScheduleID r)) \<and> (status = None \<or> status = Some (r_Status r))
          \<and> (targetKind = None \<or> targetKind = Some (t_Kind (s_Target s)))) (joined_runs db))) limit cursor"

section \<open>The interface to the clients\<close>

text \<open>
  What a client that follows cursors relies on: a cursor stands for the rows still to come, a page holds the
  first \<open>n\<close> of them, and the cursor it returns stands for the rest.
\<close>

locale cursor_pages =
  fixes page :: "string \<Rightarrow> ('e, 'r list \<times> string option) result"
    and n :: nat
    and stands :: "string \<Rightarrow> 'r list \<Rightarrow> bool"
  assumes page_size: "stands c rest \<Longrightarrow> 0 < n"
    and last_page: "stands c rest \<Longrightarrow> length rest \<le> n \<Longrightarrow> page c = Inr (rest, None)"
    and full_page: "stands c rest \<Longrightarrow> n < length rest \<Longrightarrow>
      \<exists>c'. page c = Inr (take n rest, Some c') \<and> c' \<noteq> '''' \<and> stands c' (drop n rest)"
    and stands_unique: "stands c rest \<Longrightarrow> stands c rest' \<Longrightarrow> rest' = rest"

text \<open>The rows in the order of the listing, and what a cursor of \<open>list_page\<close> stands for.\<close>

definition newest_first :: "('r \<Rightarrow> 'k :: linorder) \<Rightarrow> 'r list \<Rightarrow> 'r list" where
  "newest_first key rows = rev (sort_key key rows)"

definition pages_ok :: "Codec \<Rightarrow> ('r \<Rightarrow> time \<times> string) \<Rightarrow> 'r list \<Rightarrow> int \<Rightarrow> bool" where
  "pages_ok codec key rows limit \<longleftrightarrow> distinct (map key rows) \<and> list_all (\<lambda>r. reads codec (key r)) rows
     \<and> 0 < limit \<and> limit < 2 ^ 63 - 1"

definition cursor_of :: "time \<times> string \<Rightarrow> string" where
  "cursor_of k = EncodeCursor (fst k) (snd k)"

definition stands_for :: "Codec \<Rightarrow> ('r \<Rightarrow> time \<times> string) \<Rightarrow> 'r list \<Rightarrow> int \<Rightarrow> string \<Rightarrow> 'r list \<Rightarrow> bool" where
  "stands_for codec key rows limit c rest \<longleftrightarrow> pages_ok codec key rows limit
     \<and> (c = '''' \<and> rest = newest_first key rows
        \<or> (\<exists>pre x. newest_first key rows = pre @ x # rest \<and> c = cursor_of (key x)))"

lemma newest_first_decreasing:
  assumes "distinct (map key rows)"
  shows "sorted_wrt (\<lambda>a b. key b < key a) (newest_first key rows)"
proof -
  have "distinct (map key (sort_key key rows))"
    using assms by (metis distinct_map distinct_sort set_sort)
  then have "sorted_wrt (<) (map key (sort_key key rows))" by (simp add: strict_sorted_iff)
  then show ?thesis by (simp add: newest_first_def sorted_wrt_rev sorted_wrt_map)
qed

lemma below_split:
  assumes "sorted_wrt (\<lambda>a b. key b < key a) (pre @ x # rest)"
  shows "filter (\<lambda>r. key r < (key x :: 'k :: linorder)) (pre @ x # rest) = rest"
proof -
  have "filter (\<lambda>r. key r < key x) pre = []"
    using assms by (auto simp: sorted_wrt_append filter_empty_conv dest: order.strict_trans2 order_less_asym)
  moreover have "filter (\<lambda>r. key r < key x) rest = rest" using assms by (simp add: sorted_wrt_append filter_id_conv)
  ultimately show ?thesis by simp
qed

lemma newest_first_filter: "rev (sort_key key (filter P rows)) = filter P (newest_first key rows)"
  by (simp add: newest_first_def filter_sort [symmetric] rev_filter)

lemma reads_cursor:
  assumes "pages_ok codec key rows limit" and "x \<in> set rows"
  shows "DecodeCursor codec (cursor_of (key x)) = Inr (key x)" and "cursor_of (key x) \<noteq> ''''"
  using assms by (auto simp: pages_ok_def list_all_iff cursor_of_def DecodeCursor_EncodeCursor EncodeCursor_not_empty)

lemma list_page_stands:
  assumes "stands_for codec key rows limit c rest"
  shows "list_page dialect codec key rows limit c =
    (if int (length rest) \<le> limit then Inr (rest, None)
     else Inr (take (nat limit) rest, Some (cursor_of (key (rest ! nat (limit - 1))))))"
proof -
  have ok: "pages_ok codec key rows limit" using assms by (simp add: stands_for_def)
  then have limit: "0 < limit" "\<not> limit \<le> 0" "int64_wrap (limit + 1) = limit + 1" "\<not> limit + 1 < 0"
    by (simp_all add: pages_ok_def int64_wrap_id is_int64_def)
  have page: "list_page dialect codec key rows limit c =
      (let items = take (nat (limit + 1)) rest in
       if int (length items) \<le> limit then Inr (items, None)
       else Inr (take (nat limit) items, Some (cursor_of (key (items ! nat (limit - 1))))))"
  proof (cases "c = ''''")
    case True
    with assms reads_cursor(2) [OF ok] have "rest = newest_first key rows"
      by (auto simp: stands_for_def) (metis in_set_conv_decomp newest_first_def set_rev set_sort)
    with True limit show ?thesis
      by (simp add: list_page_def sql_limit_def newest_first_def Let_def cursor_of_def)
  next
    case False
    then obtain pre x where split: "newest_first key rows = pre @ x # rest" and c: "c = cursor_of (key x)"
      using assms by (auto simp: stands_for_def)
    then have "x \<in> set rows" by (metis in_set_conv_decomp newest_first_def set_rev set_sort)
    note d = reads_cursor [OF ok this]
    have "rev (sort_key key (filter (\<lambda>r. key r < key x) rows)) = rest"
      unfolding newest_first_filter split
      using newest_first_decreasing [of key rows] ok split by (intro below_split) (simp add: pages_ok_def)
    with d limit show ?thesis unfolding c by (simp add: list_page_def sql_limit_def Let_def cursor_of_def)
  qed
  show ?thesis
  proof (cases "int (length rest) \<le> limit")
    case True
    then have "take (nat (limit + 1)) rest = rest" using limit(1) by simp
    with True show ?thesis unfolding page by simp
  next
    case False
    then have "nat limit < length rest" "nat (limit + 1) = Suc (nat limit)" "nat (limit - 1) < nat limit"
      using limit(1) by simp_all
    with False limit(1) show ?thesis unfolding page by (simp add: Let_def min_def)
  qed
qed

lemma stands_suffix:
  assumes "stands_for codec key rows limit c rest"
  obtains pre where "newest_first key rows = pre @ rest"
  using assms by (force simp: stands_for_def)

lemma stands_for_unique:
  assumes "stands_for codec key rows limit c rest" and "stands_for codec key rows limit c rest'"
  shows "rest' = rest"
proof (cases "c = ''''")
  case True
  have ok: "pages_ok codec key rows limit" using assms(1) by (simp add: stands_for_def)
  have "cursor_of (key x) \<noteq> ''''" if "newest_first key rows = pre @ x # r" for pre x r
  proof -
    from that have "x \<in> set rows" by (metis in_set_conv_decomp newest_first_def set_rev set_sort)
    then show ?thesis by (rule reads_cursor(2) [OF ok])
  qed
  with assms True show ?thesis unfolding stands_for_def by metis
next
  case False
  have ok: "pages_ok codec key rows limit" using assms(1) by (simp add: stands_for_def)
  obtain pre x where x: "newest_first key rows = pre @ x # rest" "c = cursor_of (key x)"
    using assms(1) False by (auto simp: stands_for_def)
  obtain pre' y where y: "newest_first key rows = pre' @ y # rest'" "c = cursor_of (key y)"
    using assms(2) False by (auto simp: stands_for_def)
  have "x \<in> set rows" "y \<in> set rows"
    using x(1) y(1) by (metis in_set_conv_decomp newest_first_def set_rev set_sort)+
  then have "key x = key y" using reads_cursor(1) [OF ok] x(2) y(2) by (metis sum.inject(2))
  moreover have "sorted_wrt (\<lambda>a b. key b < key a) (newest_first key rows)"
    using ok by (intro newest_first_decreasing) (simp add: pages_ok_def)
  ultimately show ?thesis using below_split [of key pre x rest] below_split [of key pre' y rest'] x(1) y(1) by metis
qed

interpretation pages: cursor_pages "list_page dialect codec key rows limit" "nat limit" "stands_for codec key rows limit"
  for dialect codec key rows limit
proof
  fix c :: string and rest rest' :: "'a list"
  assume st: "stands_for codec key rows limit c rest"
  then have limit: "0 < limit" and ok: "pages_ok codec key rows limit" by (simp_all add: stands_for_def pages_ok_def)
  show "0 < nat limit" using limit by simp
  show "list_page dialect codec key rows limit c = Inr (rest, None)" if "length rest \<le> nat limit"
    using that limit by (simp add: list_page_stands [OF st])
  show "\<exists>c'. list_page dialect codec key rows limit c = Inr (take (nat limit) rest, Some c') \<and> c' \<noteq> ''''
      \<and> stands_for codec key rows limit c' (drop (nat limit) rest)" if long: "nat limit < length rest"
  proof (intro exI conjI)
    define x where "x = rest ! nat (limit - 1)"
    obtain pre where pre: "newest_first key rows = pre @ rest" using stands_suffix [OF st] .
    have i: "nat (limit - 1) < length rest" "Suc (nat (limit - 1)) = nat limit" using long limit by simp_all
    from id_take_nth_drop [OF i(1)] have split: "newest_first key rows = (pre @ take (nat (limit - 1)) rest) @ x # drop (nat limit) rest"
      unfolding pre x_def i(2) by simp
    then have "x \<in> set rows" by (metis in_set_conv_decomp newest_first_def set_rev set_sort)
    then show "cursor_of (key x) \<noteq> ''''" by (rule reads_cursor(2) [OF ok])
    show "list_page dialect codec key rows limit c = Inr (take (nat limit) rest, Some (cursor_of (key x)))"
      using long limit by (simp add: list_page_stands [OF st] x_def)
    show "stands_for codec key rows limit (cursor_of (key x)) (drop (nat limit) rest)"
      using split ok by (auto simp: stands_for_def)
  qed
  show "rest' = rest" if "stands_for codec key rows limit c rest'" using stands_for_unique [OF st that] .
qed

section \<open>Properties\<close>

text \<open>
  Timestamps compare as instants. For instants with a four-digit year, the expression that the
  queries sort and compare by turns a stored timestamp, whose fraction has lost its trailing zeros,
  into the fixed-width text of the same instant, and those texts are ordered and equal exactly as
  the instants are.
\<close>

theorem stored_timestamps_sort:
  assumes "printable t" and "printable u"
  shows "timestampSQL (rfc3339_nano t) = comparisonTimeString t
    \<and> (timestampSQL (rfc3339_nano t) < comparisonTimeString u \<longleftrightarrow> t < u)
    \<and> (timestampSQL (rfc3339_nano t) = comparisonTimeString u \<longleftrightarrow> t = u)"
proof -
  have "timestampSQL (rfc3339_nano t) = comparisonTimeString t"
  proof (cases "trim_zeros (nano_digits t) = []")
    case True
    then have "nano_digits t = ''000000000''" using fraction_refilled [of t] by simp
    with True show ?thesis
      using timestampSQL_fraction(1) [OF length_date_time [OF assms(1)]]
      by (simp add: rfc3339_nano_def comparisonTimeString_def Let_def)
  next
    case False
    then show ?thesis
      using timestampSQL_fraction(2) [OF length_date_time [OF assms(1)], of "trim_zeros (nano_digits t)"] fraction_refilled [of t]
      by (simp add: rfc3339_nano_def comparisonTimeString_def Let_def)
  qed
  then show ?thesis using comparison_less_iff [OF assms] by simp
qed

theorem stored_timestamps_sort_witness:
  "timestampSQL (rfc3339_nano (1500 * 1000000)) < comparisonTimeString (2 * second)"
proof -
  have "printable (1500 * 1000000)" "printable (2 * second)"
    by (simp_all add: printable_def year_of_def day_of_def unix_def second_def unix_to_internal_days_def year_day_def Let_def)
  from stored_timestamps_sort [OF this, THEN conjunct2, THEN conjunct1] show ?thesis
    by (rule iffD2) (simp add: second_def)
qed

end
