(* ===== verification/Mcp.thy ===== *)
theory Mcp
  imports Operators Listing
begin

text \<open>
  The tools of the MCP endpoint (\<open>internal/mcp/tools.go\<close>, \<open>handler.go\<close>) over the application service. The
  protocol library turns a request into the tool calls it contains, with decoded arguments; what it
  decodes is a parameter, what the tools do with it is the code's.
\<close>

section \<open>Answers\<close>

text \<open>What the service gives back to a front end, before it is encoded as JSON.\<close>

datatype answer =
    AnSchedule Schedule
  | AnSchedules "ScheduleSummary list" "string option"
  | AnRun Run
  | AnQueued RunRow
  | AnRuns "RunSummary list" "string option"
  | AnReceipts "Receipt list"
  | AnTimes "time list"
  | AnEvent Run bool
  | AnStatus StatusResponse
  | AnText string
  | AnFlag bool
  | AnDeleted string
  | AnOther

text \<open>\<open>ErrorResponse\<close>.\<close>

record ErrorResponse =
  er_Code :: string
  er_Error :: string
  er_Details :: "ValidationError list"

text \<open>What the front ends read besides the inputs of the commands.\<close>

record FrontInputs = Inputs +
  fi_Codec :: Codec
  fi_Ctx :: "nat \<Rightarrow> string option"
  fi_DataSource :: string
  fi_StartedAt :: time
  fi_LastTick :: "time option"
  fi_Active :: Active
  fi_StoreError :: "store_error \<Rightarrow> string"
  fi_TimedOut :: "service_error \<Rightarrow> bool"

text \<open>An operation of the service as a front end calls it: an answer or an error, and the database after.\<close>

type_synonym call_result = "(service_error, answer) result \<times> DB"

definition read_only :: "DB \<Rightarrow> answer service_result \<Rightarrow> call_result" where
  "read_only db r = (r, db)"

definition writing :: "('a \<Rightarrow> answer) \<Rightarrow> DB \<Rightarrow> ('a \<times> DB) service_result \<Rightarrow> call_result" where
  "writing f db r = (case r of Inl e \<Rightarrow> (Inl e, db) | Inr (x, db1) \<Rightarrow> (Inr (f x), db1))"

text \<open>\<open>scheduleResult\<close>: validation errors become an API error.\<close>

definition scheduleResult :: "DB \<Rightarrow> (Schedule checked \<times> DB) service_result \<Rightarrow> call_result" where
  "scheduleResult db r =
     (case r of
        Inl e \<Rightarrow> (Inl e, db)
      | Inr (Inl errs, db1) \<Rightarrow> (Inl (ApiErr (NewValidationError errs)), db1)
      | Inr (Inr s, db1) \<Rightarrow> (Inr (AnSchedule s), db1))"

text \<open>Listing errors reach the service's callers as plain errors.\<close>

definition listed :: "('r list \<Rightarrow> string option \<Rightarrow> answer) \<Rightarrow> (list_error, 'r list \<times> string option) result \<Rightarrow> answer service_result" where
  "listed f r =
     (case r of
        Inl (BadCursor e) \<Rightarrow> Inl (StoreErr (ErrOther e))
      | Inl NegativeLimit \<Rightarrow> Inl (StoreErr (ErrOther ''LIMIT must not be negative''))
      | Inr (items, nxt) \<Rightarrow> Inr (f items nxt))"

section \<open>Arguments\<close>

record scheduleInput =
  mi_Name :: string
  mi_Enabled :: bool
  mi_Timezone :: string
  mi_Schedule :: ScheduleSpec
  mi_Target :: TargetSpec
  mi_Policy :: "Policy option"
  mi_Retry :: "RetryPolicy option"
  mi_StartAt :: "time option"
  mi_EndAt :: "time option"

definition request :: "scheduleInput \<Rightarrow> CreateScheduleRequest" where
  "request i =
     \<lparr>c_Name = mi_Name i, c_Enabled = mi_Enabled i, c_Timezone = mi_Timezone i, c_Schedule = mi_Schedule i,
      c_Target = mi_Target i,
      c_Policy = (case mi_Policy i of Some p \<Rightarrow> p
        | None \<Rightarrow> \<lparr>p_Overlap = OtherOverlap '''', p_Misfire = OtherMisfire '''', p_TimeoutSeconds = 0, p_MaxConcurrency = 0\<rparr>),
      c_Retry = (case mi_Retry i of Some r \<Rightarrow> r
        | None \<Rightarrow> \<lparr>rp_MaxAttempts = 0, rp_Strategy = OtherRetryStrategy '''', rp_InitialDelaySeconds = 0, rp_MaxDelaySeconds = 0\<rparr>),
      c_StartAt = mi_StartAt i, c_EndAt = mi_EndAt i\<rparr>"

definition requireID :: "string \<Rightarrow> APIError option" where
  "requireID i =
     (if trim_space i = '''' \<or> length i > 256 then Some (NewBadRequestError ''ID must be non-empty and at most 256 bytes'')
      else None)"

definition validatePage :: "Codec \<Rightarrow> int \<Rightarrow> string \<Rightarrow> (APIError, int) result" where
  "validatePage codec limit0 cursor =
     (let limit = (if limit0 = 0 then 50 else limit0) in
      if limit < 1 \<or> limit > 100 then Inl (NewBadRequestError ''limit must be between 1 and 100'')
      else if length cursor > 2048 then Inl (NewBadRequestError ''invalid cursor'')
      else if cursor \<noteq> '''' \<and> (case DecodeCursor codec cursor of Inl e \<Rightarrow> True | Inr k \<Rightarrow> False)
      then Inl (NewBadRequestError ''invalid cursor'')
      else Inr limit)"

text \<open>The statuses and kinds by their text.\<close>

definition status_table :: "(string \<times> RunStatus) list" where
  "status_table =
     [(''pending'', RunPending), (''claimed'', RunClaimed), (''running'', RunRunning), (''succeeded'', RunSucceeded),
      (''failed'', RunFailed), (''retry_scheduled'', RunRetryScheduled), (''dead_lettered'', RunDeadLettered),
      (''cancelled'', RunCancelled), (''skipped'', RunSkipped)]"

definition kind_table :: "(string \<times> TargetKind) list" where
  "kind_table = [(''http'', TargetKindHTTP), (''shell'', TargetKindShell), (''workflow'', TargetKindWorkflow)]"

definition validRunStatus :: "string \<Rightarrow> bool" where
  "validRunStatus s \<longleftrightarrow> s \<in> fst ` set status_table"

definition validTargetKind :: "string \<Rightarrow> bool" where
  "validTargetKind s \<longleftrightarrow> s \<in> fst ` set kind_table"

section \<open>Tools\<close>

datatype tool_call =
    StatusTool
  | ListSchedulesTool "bool option" int string
  | GetScheduleTool string
  | CreateTool scheduleInput
  | UpdateTool string scheduleInput
  | PauseTool string
  | ResumeTool string
  | TriggerTool string string
  | ListRunsTool "string option" "string option" "string option" int string
  | GetRunTool string
  | PreviewTool scheduleInput
  | EventTool string TriggerEvent
  | UndecodedTool

definition guarded :: "DB \<Rightarrow> APIError option \<Rightarrow> call_result \<Rightarrow> call_result" where
  "guarded db e r = (case e of Some err \<Rightarrow> (Inl (ApiErr err), db) | None \<Rightarrow> r)"

definition preview_result :: "time list checked service_result \<Rightarrow> answer service_result" where
  "preview_result r =
     (case r of Inl e \<Rightarrow> Inl e | Inr (Inl errs) \<Rightarrow> Inl (ApiErr (NewValidationError errs)) | Inr (Inr ts) \<Rightarrow> Inr (AnTimes ts))"

text \<open>Calls of the service that the two front ends share.\<close>

definition call_Status :: "FrontInputs \<Rightarrow> DB \<Rightarrow> StatusResponse" where
  "call_Status inp db =
     Status (in_Config inp) (in_Dialect inp) (fi_DataSource inp) (fi_StartedAt inp) (fi_LastTick inp) (fi_Active inp)
       (in_Now1 inp) (in_Now2 inp) db"

definition call_TriggerEvent :: "FrontInputs \<Rightarrow> DB \<Rightarrow> string \<Rightarrow> TriggerEvent \<Rightarrow> ((Run \<times> bool) \<times> DB) service_result" where
  "call_TriggerEvent inp db i ev =
     Service_TriggerEvent (in_Digest inp) (in_IDFirst inp) (in_Now1 inp) (in_ID inp) db i ev"

text \<open>The arguments of a run listing are checked one after the other before the service is asked.\<close>

definition list_runs_tool ::
    "FrontInputs \<Rightarrow> DB \<Rightarrow> string option \<Rightarrow> string option \<Rightarrow> string option \<Rightarrow> int \<Rightarrow> string \<Rightarrow> call_result" where
  "list_runs_tool inp db scheduleID status kind limit0 cursor =
     (case validatePage (fi_Codec inp) limit0 cursor of
        Inl e \<Rightarrow> (Inl (ApiErr e), db)
      | Inr limit \<Rightarrow>
          guarded db (case scheduleID of None \<Rightarrow> None | Some i \<Rightarrow> requireID i)
            (if (case status of None \<Rightarrow> False | Some s \<Rightarrow> \<not> validRunStatus s)
             then (Inl (ApiErr (NewBadRequestError ''invalid run status'')), db)
             else if (case kind of None \<Rightarrow> False | Some k \<Rightarrow> \<not> validTargetKind k)
             then (Inl (ApiErr (NewBadRequestError ''invalid target kind'')), db)
             else read_only db (listed AnRuns (ListRuns (in_Dialect inp) (fi_Codec inp) db scheduleID
               (Option.bind status (map_of status_table)) (Option.bind kind (map_of kind_table)) limit cursor))))"

fun call_tool :: "FrontInputs \<Rightarrow> DB \<Rightarrow> tool_call \<Rightarrow> call_result" where
  "call_tool inp db StatusTool = (Inr (AnStatus (call_Status inp db)), db)"
| "call_tool inp db (ListSchedulesTool enabled limit0 cursor) =
     (case validatePage (fi_Codec inp) limit0 cursor of
        Inl e \<Rightarrow> (Inl (ApiErr e), db)
      | Inr limit \<Rightarrow> read_only db (listed AnSchedules (ListSchedules (in_Dialect inp) (fi_Codec inp) db enabled limit cursor)))"
| "call_tool inp db (GetScheduleTool i) =
     guarded db (requireID i) (read_only db (map_sum id AnSchedule (Service_GetSchedule db i)))"
| "call_tool inp db (CreateTool i) =
     scheduleResult db (Service_CreateSchedule (in_Env inp) (in_ID inp) (in_Now1 inp) db (request i))"
| "call_tool inp db (UpdateTool k i) =
     guarded db (requireID k)
       (scheduleResult db (Service_ReplaceSchedule (in_Env inp) (in_Now1 inp) (in_Now2 inp) db k (request i)))"
| "call_tool inp db (PauseTool i) = guarded db (requireID i) (writing AnSchedule db (PauseSchedule (in_Now1 inp) db i))"
| "call_tool inp db (ResumeTool i) =
     guarded db (requireID i) (writing AnSchedule db (ResumeSchedule (in_Env inp) (in_Now1 inp) db i))"
| "call_tool inp db (TriggerTool i reason) =
     guarded db (requireID i) (writing AnQueued db (TriggerSchedule (in_Now1 inp) (in_ID inp) db i reason))"
| "call_tool inp db (ListRunsTool scheduleID status kind limit0 cursor) =
     list_runs_tool inp db scheduleID status kind limit0 cursor"
| "call_tool inp db (GetRunTool i) = guarded db (requireID i) (read_only db (map_sum id AnRun (Service_GetRun db i)))"
| "call_tool inp db (PreviewTool i) =
     read_only db (preview_result (PreviewSchedule (in_Env inp) (fi_Ctx inp) (in_Now1 inp) (request i)))"
| "call_tool inp db (EventTool i ev) =
     guarded db (requireID i) (writing (\<lambda>(run, created). AnEvent run created) db (call_TriggerEvent inp db i ev))"
| "call_tool inp db UndecodedTool = (Inl (ApiErr (NewBadRequestError ''invalid tool arguments'')), db)"

text \<open>What a failed tool answers: the API error, or a message that gives nothing away; \<open>timed_out\<close> tells that
  the error is the end of the call's context.\<close>

definition tool_error :: "bool \<Rightarrow> service_error \<Rightarrow> ErrorResponse" where
  "tool_error timed_out e =
     (case e of
        ApiErr a \<Rightarrow> \<lparr>er_Code = ae_Code a, er_Error = ae_Message a, er_Details = ae_Details a\<rparr>
      | _ \<Rightarrow> if timed_out
          then \<lparr>er_Code = ''timeout'', er_Error = ''The operation was cancelled or timed out; inspect current state before retrying a mutation'', er_Details = []\<rparr>
          else \<lparr>er_Code = ''internal_error'', er_Error = ''Wakeplane could not complete the operation'', er_Details = []\<rparr>)"

section \<open>Effects\<close>

lemma scheduleResult_db: "snd (scheduleResult db r) = db \<or> (\<exists>x db1. r = Inr (x, db1) \<and> snd (scheduleResult db r) = db1)"
  by (auto simp: scheduleResult_def split: sum.splits prod.splits)

lemma writing_db: "snd (writing f db r) = db \<or> (\<exists>x db1. r = Inr (x, db1) \<and> snd (writing f db r) = db1)"
  by (auto simp: writing_def split: sum.splits prod.splits)

lemma read_only_db [simp]: "snd (read_only db r) = db"
  by (simp add: read_only_def)

lemma guarded_transaction: "transaction inp db (snd r) \<Longrightarrow> transaction inp db (snd (guarded db e r))"
  by (auto simp: guarded_def intro: transaction.nothing split: option.split)

lemma list_runs_tool_db: "snd (list_runs_tool inp db i s k l c) = db"
  by (simp add: list_runs_tool_def guarded_def split: sum.split option.split)

lemma call_tool_transaction: "transaction inp db (snd (call_tool inp db call))"
proof (cases call)
  case (CreateTool i)
  then show ?thesis
    using scheduleResult_db [of db "Service_CreateSchedule (in_Env inp) (in_ID inp) (in_Now1 inp) db (request i)"]
    by (auto intro: transaction.intros dest!: commits_create)
next
  case (UpdateTool k i)
  then show ?thesis
    using scheduleResult_db [of db "Service_ReplaceSchedule (in_Env inp) (in_Now1 inp) (in_Now2 inp) db k (request i)"]
    by (auto intro!: guarded_transaction intro: transaction.intros dest!: commits_replace)
next
  case (PauseTool i)
  then show ?thesis
    using writing_db [of AnSchedule db "PauseSchedule (in_Now1 inp) db i"]
    by (auto simp: PauseSchedule_def Let_def intro!: guarded_transaction intro: transaction.intros)
next
  case (ResumeTool i)
  then show ?thesis
    using writing_db [of AnSchedule db "ResumeSchedule (in_Env inp) (in_Now1 inp) db i"]
    by (auto simp: ResumeSchedule_def Let_def intro!: guarded_transaction intro: transaction.intros)
next
  case (TriggerTool i reason)
  then show ?thesis
    using writing_db [of AnQueued db "TriggerSchedule (in_Now1 inp) (in_ID inp) db i reason"]
    by (auto intro!: guarded_transaction intro: transaction.intros dest!: commits_trigger)
next
  case (EventTool i ev)
  then show ?thesis
    using writing_db [of "\<lambda>(run, created). AnEvent run created" db "call_TriggerEvent inp db i ev"]
    by (auto simp: call_TriggerEvent_def intro!: guarded_transaction intro: transaction.intros dest!: commits_event)
qed (auto simp: list_runs_tool_db guarded_def intro: transaction.nothing split: sum.split option.split)

end
