(* ===== verification/Api.thy ===== *)
theory Api
  imports Mcp
begin

text \<open>
  The HTTP front end (\<open>internal/api/http.go\<close>, with the origin check of \<open>internal/mcp/handler.go\<close>): the
  handlers of the mux, one definition each, the mux's choice of a handler, and the middleware that
  demands the bearer token and records the audit. A request comes with the unescaped segments of its
  path and with \<open>hq_Clean\<close>, whether the path is its own cleaned form; decoding of bodies is a
  parameter.
\<close>

section \<open>Requests and responses\<close>

record ApiRequest =
  hq_Method :: string
  hq_Segments :: "string list"
  hq_Clean :: bool
  hq_Query :: "string \<Rightarrow> string"
  hq_Authorization :: string
  hq_Origins :: "string list"
  hq_Host :: string
  hq_TLS :: bool
  hq_Body :: string
  hq_RemoteAddr :: string
  hq_UserAgent :: string

definition url_path :: "ApiRequest \<Rightarrow> string" where
  "url_path rq = concat (map (\<lambda>s. CHR ''/'' # s) (hq_Segments rq))"

datatype reply = RpAnswer answer | RpError ErrorResponse | RpTools "(ErrorResponse, answer) result list" | RpOther

type_synonym response = "int \<times> reply"

record OriginURL =
  og_Scheme :: string
  og_Host :: string
  og_HasUser :: bool
  og_Path :: string
  og_RawQuery :: string
  og_Fragment :: string

text \<open>Decoders give the first JSON value of a text and what is left unread.\<close>

type_synonym 'a decoder = "string \<Rightarrow> (string, 'a \<times> string) result"

record ApiInputs = FrontInputs +
  ai_Create :: "CreateScheduleRequest decoder"
  ai_StrictCreate :: "CreateScheduleRequest decoder"
  ai_Patch :: "PatchScheduleRequest decoder"
  ai_Reason :: "string decoder"
  ai_Event :: "TriggerEvent decoder"
  ai_Origin :: "string \<Rightarrow> OriginURL option"
  ai_Calls :: "ApiRequest \<Rightarrow> (FrontInputs \<times> tool_call) list"
  ai_TransportStatus :: "ApiRequest \<Rightarrow> int"
  ai_Ping :: bool
  ai_ExecutorLines :: string
  ai_AuditID :: string
  ai_AuditNow :: time

section \<open>Writing responses\<close>

definition writeAPIError :: "APIError \<Rightarrow> response" where
  "writeAPIError e = (ae_Status e, RpError \<lparr>er_Code = ae_Code e, er_Error = ae_Message e, er_Details = ae_Details e\<rparr>)"

definition writeError :: "(store_error \<Rightarrow> string) \<Rightarrow> service_error \<Rightarrow> response" where
  "writeError store_text err =
     (case err of
        ApiErr e \<Rightarrow> writeAPIError e
      | StoreErr e \<Rightarrow> (500, RpError \<lparr>er_Code = ''internal_error'', er_Error = store_text e, er_Details = []\<rparr>)
      | TimeErr e \<Rightarrow> (500, RpError \<lparr>er_Code = ''internal_error'', er_Error = e, er_Details = []\<rparr>))"

definition bad_request :: "string \<Rightarrow> response" where
  "bad_request e = writeAPIError (NewBadRequestError e)"

definition respond :: "(store_error \<Rightarrow> string) \<Rightarrow> (answer \<Rightarrow> int) \<Rightarrow> call_result \<Rightarrow> response \<times> DB" where
  "respond store_text status r =
     (case r of (Inl e, db1) \<Rightarrow> (writeError store_text e, db1) | (Inr a, db1) \<Rightarrow> ((status a, RpAnswer a), db1))"

definition with_body :: "DB \<Rightarrow> (string, 'a) result \<Rightarrow> ('a \<Rightarrow> response \<times> DB) \<Rightarrow> response \<times> DB" where
  "with_body db decoded f = (case decoded of Inl e \<Rightarrow> (bad_request e, db) | Inr x \<Rightarrow> f x)"

section \<open>Reading requests\<close>

definition decode_first :: "'a decoder \<Rightarrow> string \<Rightarrow> (string, 'a) result" where
  "decode_first d body = map_sum id fst (d body)"

text \<open>At most \<open>1<<20\<close> bytes, and nothing but white space after the first value.\<close>

definition decodeBoundedJSON :: "'a decoder \<Rightarrow> string \<Rightarrow> (string, 'a) result" where
  "decodeBoundedJSON d body =
     (case d body of
        Inl e \<Rightarrow> Inl e
      | Inr (x, rest) \<Rightarrow>
          if length body - length rest > 2 ^ 20 then Inl ''http: request body too large''
          else if length body > 2 ^ 20 \<or> \<not> list_all (\<lambda>c. c \<in> {CHR '' '', CHR 0x09, CHR 0x0A, CHR 0x0D}) rest
          then Inl ''request must contain exactly one JSON object'' else Inr x)"

definition parseLimit :: "ApiRequest \<Rightarrow> int" where
  "parseLimit rq =
     (let raw = hq_Query rq ''limit'' in
      if raw = '''' then 50 else case atoi raw of None \<Rightarrow> 50 | Some n \<Rightarrow> if n \<le> 0 then 50 else n)"

definition parseStatus :: "ApiRequest \<Rightarrow> (string, RunStatus option) result" where
  "parseStatus rq =
     (let raw = hq_Query rq ''status'' in
      if raw = '''' then Inr None
      else case map_of status_table raw of Some s \<Rightarrow> Inr (Some s) | None \<Rightarrow> Inl (''invalid status value '' @ quoted raw))"

definition parseTargetKind :: "ApiRequest \<Rightarrow> (string, TargetKind option) result" where
  "parseTargetKind rq =
     (let raw = hq_Query rq ''target_kind'' in
      if raw = '''' then Inr None
      else case map_of kind_table raw of Some k \<Rightarrow> Inr (Some k) | None \<Rightarrow> Inl (''invalid target_kind value '' @ quoted raw))"

definition parseEnabledFilter :: "ApiRequest \<Rightarrow> (string, bool option) result" where
  "parseEnabledFilter rq =
     (let raw = hq_Query rq ''enabled'' in
      if raw = '''' then Inr None else if raw = ''true'' then Inr (Some True) else if raw = ''false'' then Inr (Some False)
      else Inl (''invalid enabled value '' @ quoted raw @ '': must be true or false''))"

definition parseCursor :: "Codec \<Rightarrow> ApiRequest \<Rightarrow> (string, string) result" where
  "parseCursor codec rq =
     (let cursor = hq_Query rq ''cursor'' in
      if cursor = '''' then Inr ''''
      else case DecodeCursor codec cursor of Inl e \<Rightarrow> Inl ''invalid cursor'' | Inr k \<Rightarrow> Inr cursor)"

section \<open>Handlers\<close>

definition reconcile_handler :: "ApiInputs \<Rightarrow> DB \<Rightarrow> string \<Rightarrow> response \<times> DB" where
  "reconcile_handler inp db i =
     respond (fi_StoreError inp) (\<lambda>_. 200) (writing AnRun db
       (Service_ReconcileExternalJob (in_Dialect inp) (in_Env inp) (in_World inp) (in_ReconciledJSON inp)
         (cf_ReceiptMaxBytes (in_Config inp)) (in_Now1 inp) (in_ID inp) db i))"

definition preview_handler :: "ApiInputs \<Rightarrow> DB \<Rightarrow> ApiRequest \<Rightarrow> response \<times> DB" where
  "preview_handler inp db rq =
     with_body db (decodeBoundedJSON (ai_StrictCreate inp) (hq_Body rq)) (\<lambda>req.
       respond (fi_StoreError inp) (\<lambda>_. 200) (read_only db
         (preview_result (PreviewSchedule (in_Env inp) (fi_Ctx inp) (in_Now1 inp) req))))"

definition event_handler :: "ApiInputs \<Rightarrow> DB \<Rightarrow> ApiRequest \<Rightarrow> string \<Rightarrow> response \<times> DB" where
  "event_handler inp db rq i =
     with_body db (decodeBoundedJSON (ai_Event inp) (hq_Body rq)) (\<lambda>ev.
       respond (fi_StoreError inp) (\<lambda>a. case a of AnEvent run created \<Rightarrow> if created then 201 else 200 | _ \<Rightarrow> 200)
         (writing (\<lambda>(run, created). AnEvent run created) db
           (Service_TriggerEvent (in_Digest inp) (in_IDFirst inp) (in_Now1 inp) (in_ID inp) db i ev)))"

definition ready_handler :: "ApiInputs \<Rightarrow> DB \<Rightarrow> response \<times> DB" where
  "ready_handler inp db = ((if ai_Ping inp then 200 else 503, RpAnswer (AnFlag (ai_Ping inp))), db)"

definition status_handler :: "ApiInputs \<Rightarrow> DB \<Rightarrow> response \<times> DB" where
  "status_handler inp db =
     ((200, RpAnswer (AnStatus (Status (in_Config inp) (in_Dialect inp) (fi_DataSource inp) (fi_StartedAt inp)
        (fi_LastTick inp) (fi_Active inp) (in_Now1 inp) (in_Now2 inp) db))), db)"

definition metrics_handler :: "ApiInputs \<Rightarrow> DB \<Rightarrow> response \<times> DB" where
  "metrics_handler inp db =
     ((200, RpAnswer (AnText (Metrics_counters (fi_LastTick inp) (in_Now1 inp) (in_Now2 inp) db @ ai_ExecutorLines inp))), db)"

definition create_handler :: "ApiInputs \<Rightarrow> DB \<Rightarrow> ApiRequest \<Rightarrow> response \<times> DB" where
  "create_handler inp db rq =
     with_body db (decode_first (ai_Create inp) (hq_Body rq)) (\<lambda>req.
       respond (fi_StoreError inp) (\<lambda>_. 201)
         (scheduleResult db (Service_CreateSchedule (in_Env inp) (in_ID inp) (in_Now1 inp) db req)))"

definition list_schedules_handler :: "ApiInputs \<Rightarrow> DB \<Rightarrow> ApiRequest \<Rightarrow> response \<times> DB" where
  "list_schedules_handler inp db rq =
     with_body db (parseEnabledFilter rq) (\<lambda>enabled.
       with_body db (parseCursor (fi_Codec inp) rq) (\<lambda>cursor.
         respond (fi_StoreError inp) (\<lambda>_. 200) (read_only db (listed AnSchedules
           (ListSchedules (in_Dialect inp) (fi_Codec inp) db enabled (parseLimit rq) cursor)))))"

definition get_handler :: "ApiInputs \<Rightarrow> DB \<Rightarrow> string \<Rightarrow> response \<times> DB" where
  "get_handler inp db i =
     respond (fi_StoreError inp) (\<lambda>_. 200) (read_only db (map_sum id AnSchedule (Service_GetSchedule db i)))"

definition replace_handler :: "ApiInputs \<Rightarrow> DB \<Rightarrow> ApiRequest \<Rightarrow> string \<Rightarrow> response \<times> DB" where
  "replace_handler inp db rq i =
     with_body db (decode_first (ai_Create inp) (hq_Body rq)) (\<lambda>req.
       respond (fi_StoreError inp) (\<lambda>_. 200)
         (scheduleResult db (Service_ReplaceSchedule (in_Env inp) (in_Now1 inp) (in_Now2 inp) db i req)))"

definition patch_handler :: "ApiInputs \<Rightarrow> DB \<Rightarrow> ApiRequest \<Rightarrow> string \<Rightarrow> response \<times> DB" where
  "patch_handler inp db rq i =
     with_body db (decode_first (ai_Patch inp) (hq_Body rq)) (\<lambda>p.
       respond (fi_StoreError inp) (\<lambda>_. 200)
         (scheduleResult db (Service_PatchSchedule (in_Env inp) (in_Now1 inp) (in_Now2 inp) db i p)))"

definition delete_handler :: "ApiInputs \<Rightarrow> DB \<Rightarrow> string \<Rightarrow> response \<times> DB" where
  "delete_handler inp db i =
     respond (fi_StoreError inp) (\<lambda>_. 200)
       (writing (\<lambda>_. AnDeleted i) db (map_sum id (Pair ()) (Service_DeleteSchedule db i)))"

definition pause_handler :: "ApiInputs \<Rightarrow> DB \<Rightarrow> string \<Rightarrow> response \<times> DB" where
  "pause_handler inp db i =
     respond (fi_StoreError inp) (\<lambda>_. 200) (writing AnSchedule db (PauseSchedule (in_Now1 inp) db i))"

definition resume_handler :: "ApiInputs \<Rightarrow> DB \<Rightarrow> string \<Rightarrow> response \<times> DB" where
  "resume_handler inp db i =
     respond (fi_StoreError inp) (\<lambda>_. 200) (writing AnSchedule db (ResumeSchedule (in_Env inp) (in_Now1 inp) db i))"

definition trigger_handler :: "ApiInputs \<Rightarrow> DB \<Rightarrow> ApiRequest \<Rightarrow> string \<Rightarrow> response \<times> DB" where
  "trigger_handler inp db rq i =
     with_body db (decode_first (ai_Reason inp) (hq_Body rq)) (\<lambda>reason.
       respond (fi_StoreError inp) (\<lambda>_. 200)
         (writing AnQueued db (TriggerSchedule (in_Now1 inp) (in_ID inp) db i reason)))"

definition runs_handler :: "ApiInputs \<Rightarrow> DB \<Rightarrow> ApiRequest \<Rightarrow> string option \<Rightarrow> response \<times> DB" where
  "runs_handler inp db rq scheduleID =
     with_body db (parseStatus rq) (\<lambda>status.
       with_body db (parseTargetKind rq) (\<lambda>kind.
         with_body db (parseCursor (fi_Codec inp) rq) (\<lambda>cursor.
           respond (fi_StoreError inp) (\<lambda>_. 200) (read_only db (listed AnRuns
             (ListRuns (in_Dialect inp) (fi_Codec inp) db scheduleID status kind (parseLimit rq) cursor))))))"

definition all_runs_handler :: "ApiInputs \<Rightarrow> DB \<Rightarrow> ApiRequest \<Rightarrow> response \<times> DB" where
  "all_runs_handler inp db rq =
     runs_handler inp db rq (if hq_Query rq ''schedule_id'' \<noteq> '''' then Some (hq_Query rq ''schedule_id'') else None)"

definition run_handler :: "ApiInputs \<Rightarrow> DB \<Rightarrow> string \<Rightarrow> response \<times> DB" where
  "run_handler inp db i =
     respond (fi_StoreError inp) (\<lambda>_. 200) (read_only db (map_sum id AnRun (Service_GetRun db i)))"

definition receipts_handler :: "ApiInputs \<Rightarrow> DB \<Rightarrow> string \<Rightarrow> response \<times> DB" where
  "receipts_handler inp db i =
     respond (fi_StoreError inp) (\<lambda>_. 200) (read_only db (map_sum id AnReceipts (Service_ListReceipts db i)))"

section \<open>The MCP endpoint\<close>

definition validOrigin :: "(string \<Rightarrow> OriginURL option) \<Rightarrow> ApiRequest \<Rightarrow> bool" where
  "validOrigin parse rq =
     (case hq_Origins rq of
        [] \<Rightarrow> True
      | [o1] \<Rightarrow>
          o1 \<noteq> '''' \<and>
          (case parse o1 of
             None \<Rightarrow> False
           | Some u \<Rightarrow> \<not> og_HasUser u \<and> og_Host u \<noteq> '''' \<and> og_Path u = '''' \<and> og_RawQuery u = '''' \<and> og_Fragment u = ''''
               \<and> og_Scheme u = (if hq_TLS rq then ''https'' else ''http'') \<and> equal_fold (og_Host u) (hq_Host rq))
      | _ \<Rightarrow> False)"

text \<open>The tool calls of one message, in order, each with its answer or error payload.\<close>

fun run_tools :: "(FrontInputs \<times> tool_call) list \<Rightarrow> DB \<Rightarrow> (ErrorResponse, answer) result list \<times> DB" where
  "run_tools [] db = ([], db)"
| "run_tools ((inp, call) # rest) db =
     (let (a, db1) = call_tool inp db call; (as, db2) = run_tools rest db1 in
      (map_sum (\<lambda>e. tool_error (fi_TimedOut inp e) e) id a # as, db2))"

definition mcp_handler :: "ApiInputs \<Rightarrow> DB \<Rightarrow> ApiRequest \<Rightarrow> response \<times> DB" where
  "mcp_handler inp db rq =
     (if \<not> validOrigin (ai_Origin inp) rq then ((403, RpOther), db)
      else let (as, db1) = run_tools (ai_Calls inp rq) db in ((ai_TransportStatus inp rq, RpTools as), db1))"

section \<open>The mux\<close>

datatype handler = HMcp | HTemplates | HReconcile | HPreview | HEvent | HHealth | HReady | HStatus | HMetrics | HCreate
  | HListSchedules | HGet | HReplace | HPatch | HDelete | HPause | HResume | HTrigger | HScheduleRuns | HRuns | HRun
  | HReceipts | HConsole

definition mux_patterns :: "(string \<times> string list \<times> handler) list" where
  "mux_patterns =
     [(''POST'', [''v1'', ''mcp''], HMcp), (''GET'', [''v1'', ''mcp''], HMcp), (''DELETE'', [''v1'', ''mcp''], HMcp),
      (''GET'', [''v1'', ''templates''], HTemplates),
      (''POST'', [''v1'', ''runs'', ''{id}'', ''reconcile''], HReconcile),
      (''POST'', [''v1'', ''schedules'', ''preview''], HPreview),
      (''POST'', [''v1'', ''schedules'', ''{id}'', ''events''], HEvent),
      (''GET'', [''console''], HConsole),
      (''GET'', [''healthz''], HHealth), (''GET'', [''readyz''], HReady),
      (''GET'', [''v1'', ''status''], HStatus), (''GET'', [''v1'', ''metrics''], HMetrics),
      (''POST'', [''v1'', ''schedules''], HCreate), (''GET'', [''v1'', ''schedules''], HListSchedules),
      (''GET'', [''v1'', ''schedules'', ''{id}''], HGet), (''PUT'', [''v1'', ''schedules'', ''{id}''], HReplace),
      (''PATCH'', [''v1'', ''schedules'', ''{id}''], HPatch), (''DELETE'', [''v1'', ''schedules'', ''{id}''], HDelete),
      (''POST'', [''v1'', ''schedules'', ''{id}'', ''pause''], HPause),
      (''POST'', [''v1'', ''schedules'', ''{id}'', ''resume''], HResume),
      (''POST'', [''v1'', ''schedules'', ''{id}'', ''trigger''], HTrigger),
      (''GET'', [''v1'', ''schedules'', ''{id}'', ''runs''], HScheduleRuns),
      (''GET'', [''v1'', ''runs''], HRuns), (''GET'', [''v1'', ''runs'', ''{id}''], HRun),
      (''GET'', [''v1'', ''runs'', ''{id}'', ''receipts''], HReceipts)]"

text \<open>A wildcard matches one segment that is not empty; \<open>GET\<close> patterns also serve \<open>HEAD\<close>.\<close>

fun path_matches :: "string list \<Rightarrow> string list \<Rightarrow> bool" where
  "path_matches [] [] = True"
| "path_matches (p # ps) (s # ss) = ((p = ''{id}'' \<and> s \<noteq> '''' \<or> p \<noteq> ''{id}'' \<and> p = s) \<and> path_matches ps ss)"
| "path_matches ps ss = False"

definition find_handler :: "string \<Rightarrow> string list \<Rightarrow> handler option" where
  "find_handler m segs =
     map_option (\<lambda>(meth, pat, h). h)
       (find (\<lambda>(meth, pat, h). (meth = m \<or> meth = ''GET'' \<and> m = ''HEAD'') \<and> path_matches pat segs) mux_patterns)"

definition handle :: "ApiInputs \<Rightarrow> DB \<Rightarrow> ApiRequest \<Rightarrow> handler \<Rightarrow> response \<times> DB" where
  "handle inp db rq h =
     (let i = hq_Segments rq ! 2 in
      case h of
        HMcp \<Rightarrow> mcp_handler inp db rq
      | HTemplates \<Rightarrow> ((200, RpAnswer AnOther), db)
      | HReconcile \<Rightarrow> reconcile_handler inp db i
      | HPreview \<Rightarrow> preview_handler inp db rq
      | HEvent \<Rightarrow> event_handler inp db rq i
      | HHealth \<Rightarrow> ((200, RpAnswer (AnFlag True)), db)
      | HReady \<Rightarrow> ready_handler inp db
      | HStatus \<Rightarrow> status_handler inp db
      | HMetrics \<Rightarrow> metrics_handler inp db
      | HCreate \<Rightarrow> create_handler inp db rq
      | HListSchedules \<Rightarrow> list_schedules_handler inp db rq
      | HGet \<Rightarrow> get_handler inp db i
      | HReplace \<Rightarrow> replace_handler inp db rq i
      | HPatch \<Rightarrow> patch_handler inp db rq i
      | HDelete \<Rightarrow> delete_handler inp db i
      | HPause \<Rightarrow> pause_handler inp db i
      | HResume \<Rightarrow> resume_handler inp db i
      | HTrigger \<Rightarrow> trigger_handler inp db rq i
      | HScheduleRuns \<Rightarrow> runs_handler inp db rq (Some i)
      | HRuns \<Rightarrow> all_runs_handler inp db rq
      | HRun \<Rightarrow> run_handler inp db i
      | HReceipts \<Rightarrow> receipts_handler inp db i
      | HConsole \<Rightarrow> ((301, RpOther), db))"

text \<open>A path that is not clean is redirected; what no pattern matches falls to the console's assets and to the
  root pattern, which serve \<open>GET\<close> only.\<close>

definition NewMux :: "ApiInputs \<Rightarrow> DB \<Rightarrow> ApiRequest \<Rightarrow> response \<times> DB" where
  "NewMux inp db rq =
     (if \<not> hq_Clean rq \<and> hq_Method rq \<noteq> ''CONNECT'' then ((301, RpOther), db)
      else case find_handler (hq_Method rq) (hq_Segments rq) of
        Some h \<Rightarrow> handle inp db rq h
      | None \<Rightarrow>
          ((if \<not> (hq_Method rq = ''GET'' \<or> hq_Method rq = ''HEAD'') then 405
            else if hq_Segments rq = [''''] then 302
            else if length (hq_Segments rq) > 1 \<and> hd (hq_Segments rq) = ''console'' then 200
            else 404, RpOther), db))"

section \<open>The middleware\<close>

definition authorizedBearer :: "string \<Rightarrow> string \<Rightarrow> bool" where
  "authorizedBearer header token =
     (if header = '''' then False
      else let value = trim_space header in
        if \<not> has_prefix value ''Bearer '' then False
        else trim_space (drop (length ''Bearer '') value) = token)"

definition recordAudit :: "ApiInputs \<Rightarrow> DB \<Rightarrow> ApiRequest \<Rightarrow> int \<Rightarrow> string \<Rightarrow> DB" where
  "recordAudit inp db rq statusCode authSubject =
     (if \<not> cf_RequestAudit (in_Config inp) then db
      else case RecordRequestAudit (in_Config inp) (ai_AuditNow inp) (ai_AuditID inp) db
          \<lparr>au_ID = '''', au_Method = hq_Method rq, au_Path = url_path rq, au_StatusCode = statusCode,
           au_RemoteAddr = hq_RemoteAddr rq, au_UserAgent = hq_UserAgent rq, au_AuthSubject = authSubject,
           au_CreatedAt = ai_AuditNow inp\<rparr> of
        Inl e \<Rightarrow> db
      | Inr db1 \<Rightarrow> db1)"

definition controlPlaneMiddleware :: "ApiInputs \<Rightarrow> DB \<Rightarrow> ApiRequest \<Rightarrow> response \<times> DB" where
  "controlPlaneMiddleware inp db rq =
     (if \<not> has_prefix (url_path rq) ''/v1/'' then NewMux inp db rq
      else let token = cf_AuthToken (in_Config inp) in
        if token \<noteq> '''' \<and> \<not> authorizedBearer (hq_Authorization rq) token
        then (writeAPIError (NewUnauthorizedError ''missing or invalid bearer token''), recordAudit inp db rq 401 '''')
        else let (r, db1) = NewMux inp db rq in
          (r, recordAudit inp db1 rq (fst r) (if token \<noteq> '''' then ''operator'' else '''')))"

section \<open>Effects of the handlers\<close>

text \<open>A call of the service commits at most one transaction, and none when it answers an error.\<close>

definition call_ok :: "'a Inputs_scheme \<Rightarrow> DB \<Rightarrow> call_result \<Rightarrow> bool" where
  "call_ok inp db r \<longleftrightarrow> transaction inp db (snd r) \<and> (\<forall>e. fst r = Inl e \<longrightarrow> snd r = db)"

definition reply_ok :: "'a Inputs_scheme \<Rightarrow> DB \<Rightarrow> response \<times> DB \<Rightarrow> bool" where
  "reply_ok inp db r \<longleftrightarrow> transaction inp db (snd r) \<and> (\<forall>e. snd (fst r) = RpError e \<longrightarrow> snd r = db)"

lemma read_only_ok [intro]: "call_ok inp db (read_only db r)"
  by (simp add: call_ok_def read_only_def transaction.nothing)

lemma writing_ok: "(\<And>x db1. r = Inr (x, db1) \<Longrightarrow> transaction inp db db1) \<Longrightarrow> call_ok inp db (writing f db r)"
  by (auto simp: call_ok_def writing_def intro: transaction.nothing split: sum.splits prod.splits)

lemma scheduleResult_ok:
  assumes "\<And>x db1. r = Inr (x, db1) \<Longrightarrow> transaction inp db db1"
    and "\<And>errs db1. r = Inr (Inl errs, db1) \<Longrightarrow> db1 = db"
  shows "call_ok inp db (scheduleResult db r)"
  using assms by (auto simp: call_ok_def scheduleResult_def intro: transaction.nothing split: sum.splits prod.splits)

lemma respond_ok: "call_ok inp db r \<Longrightarrow> reply_ok inp db (respond t status r)"
  by (auto simp: call_ok_def reply_ok_def respond_def split: sum.splits prod.splits)

lemma with_body_ok: "(\<And>x. d = Inr x \<Longrightarrow> reply_ok inp db (f x)) \<Longrightarrow> reply_ok inp db (with_body db d f)"
  by (auto simp: with_body_def reply_ok_def intro: transaction.nothing split: sum.splits)

lemma same_ok [intro]: "(\<And>e. reply \<noteq> RpError e) \<Longrightarrow> reply_ok inp db ((status, reply), db)"
  by (simp add: reply_ok_def transaction.nothing)

text \<open>What the service's operations commit, in the form the handlers need.\<close>

lemma create_ok: "call_ok inp db (scheduleResult db (Service_CreateSchedule env i now db req))"
proof (rule scheduleResult_ok)
  show "transaction inp db db1" if "Service_CreateSchedule env i now db req = Inr (x, db1)" for x db1
    using commits_create [OF that] by (auto intro: transaction.intros)
qed (auto simp: Service_CreateSchedule_def Let_def split: if_splits sum.splits)

lemma replace_ok: "call_ok inp db (scheduleResult db (Service_ReplaceSchedule env now1 now2 db i req))"
proof (rule scheduleResult_ok)
  show "transaction inp db db1" if "Service_ReplaceSchedule env now1 now2 db i req = Inr (x, db1)" for x db1
    using commits_replace [OF that] by (auto intro: transaction.intros)
qed (auto simp: Service_ReplaceSchedule_def Let_def split: if_splits)

lemma patch_ok: "call_ok inp db (scheduleResult db (Service_PatchSchedule env now1 now2 db i p))"
proof (rule scheduleResult_ok)
  show "transaction inp db db1" if "Service_PatchSchedule env now1 now2 db i p = Inr (x, db1)" for x db1
    using commits_patch [OF that] by (auto intro: transaction.intros)
qed (auto simp: Service_PatchSchedule_def Let_def split: if_splits)

lemmas handler_defs = reconcile_handler_def preview_handler_def event_handler_def ready_handler_def status_handler_def
  metrics_handler_def create_handler_def list_schedules_handler_def get_handler_def replace_handler_def
  patch_handler_def delete_handler_def pause_handler_def resume_handler_def trigger_handler_def runs_handler_def
  all_runs_handler_def run_handler_def receipts_handler_def

lemmas handler_intros = respond_ok with_body_ok writing_ok create_ok replace_ok patch_ok

lemma map_unit_Inr [simp]: "map_sum id (Pair ()) r = Inr (u, y) \<longleftrightarrow> r = Inr y"
  by (cases r) auto

lemma handle_ok:
  assumes "h \<noteq> HMcp"
  shows "reply_ok inp db (handle inp db rq h)"
  using assms
  by (cases h)
     (auto simp: handle_def handler_defs Let_def PauseSchedule_def ResumeSchedule_def Service_DeleteSchedule_def
       intro!: handler_intros intro: transaction.intros dest!: commits_reconcile commits_event commits_trigger)

section \<open>Requests as steps of the system\<close>

text \<open>The system can go from a state to a database, drawing no identifiers but the given ones.\<close>

definition reaches :: "Sys \<Rightarrow> string set \<Rightarrow> DB \<Rightarrow> bool" where
  "reaches \<sigma> ids db' \<longleftrightarrow> (\<exists>\<tau>. sys_db \<tau> = db' \<and> sys_inv \<tau> \<and> (sys_step (\<lambda>_. True))\<^sup>*\<^sup>* \<sigma> \<tau> \<and> sys_runs \<tau> \<subseteq> ids \<union> sys_runs \<sigma>)"

lemma reaches_refl: "sys_inv \<sigma> \<Longrightarrow> reaches \<sigma> ids (sys_db \<sigma>)"
  unfolding reaches_def by (intro exI [of _ \<sigma>]) simp

lemma reaches_step:
  assumes "sys_inv \<sigma>" and "commits inp (sys_db \<sigma>) db'" and "in_ID inp \<notin> sys_runs \<sigma>"
  shows "reaches \<sigma> {in_ID inp} db'"
  using commits_step [OF assms(2,3)]
proof (elim disjE exE conjE)
  fix \<tau> assume "sys_step (\<lambda>_. True) \<sigma> \<tau>" "sys_db \<tau> = db'" "sys_runs \<tau> \<subseteq> Set.insert (in_ID inp) (sys_runs \<sigma>)"
  then show ?thesis using step_inv [OF assms(1)] unfolding reaches_def by (intro exI [of _ \<tau>]) auto
qed (use reaches_refl [OF assms(1)] in simp)

lemma reaches_trans:
  assumes "reaches \<sigma> A db1"
    and "\<And>\<tau>. sys_db \<tau> = db1 \<Longrightarrow> sys_inv \<tau> \<Longrightarrow> sys_runs \<tau> \<subseteq> A \<union> sys_runs \<sigma> \<Longrightarrow> reaches \<tau> B db2"
  shows "reaches \<sigma> (A \<union> B) db2"
proof -
  obtain \<tau> where t: "sys_db \<tau> = db1" "sys_inv \<tau>" "(sys_step (\<lambda>_. True))\<^sup>*\<^sup>* \<sigma> \<tau>" "sys_runs \<tau> \<subseteq> A \<union> sys_runs \<sigma>"
    using assms(1) by (auto simp: reaches_def)
  from assms(2) [OF t(1,2,4)] obtain \<upsilon> where "sys_db \<upsilon> = db2" "sys_inv \<upsilon>" "(sys_step (\<lambda>_. True))\<^sup>*\<^sup>* \<tau> \<upsilon>"
    "sys_runs \<upsilon> \<subseteq> B \<union> sys_runs \<tau>" by (auto simp: reaches_def)
  with t show ?thesis unfolding reaches_def by (intro exI [of _ \<upsilon>]) (auto intro: rtranclp_trans)
qed

lemma run_tools_reaches:
  assumes "sys_inv \<sigma>" and "distinct (map (\<lambda>c. in_ID (fst c)) calls)"
    and "set (map (\<lambda>c. in_ID (fst c)) calls) \<inter> sys_runs \<sigma> = {}"
  shows "reaches \<sigma> (set (map (\<lambda>c. in_ID (fst c)) calls)) (snd (run_tools calls (sys_db \<sigma>)))"
  using assms
proof (induction calls arbitrary: \<sigma>)
  case Nil
  then show ?case by (simp add: reaches_refl)
next
  case (Cons c calls)
  obtain inp call where c: "c = (inp, call)" by (cases c)
  define db1 where "db1 = snd (call_tool inp (sys_db \<sigma>) call)"
  have first: "reaches \<sigma> {in_ID inp} db1"
    unfolding db1_def using Cons.prems c by (intro reaches_step) (auto simp: commits_def call_tool_transaction)
  have "reaches \<sigma> ({in_ID inp} \<union> set (map (\<lambda>c. in_ID (fst c)) calls)) (snd (run_tools calls db1))"
  proof (rule reaches_trans [OF first])
    fix \<tau> assume "sys_db \<tau> = db1" "sys_inv \<tau>" "sys_runs \<tau> \<subseteq> {in_ID inp} \<union> sys_runs \<sigma>"
    moreover have "in_ID inp \<notin> set (map (\<lambda>c. in_ID (fst c)) calls)"
      and "set (map (\<lambda>c. in_ID (fst c)) calls) \<inter> sys_runs \<sigma> = {}" using Cons.prems c by (simp_all add: Int_insert_left split: if_splits)
    ultimately moreover have "set (map (\<lambda>c. in_ID (fst c)) calls) \<inter> sys_runs \<tau> = {}" by blast
    ultimately show "reaches \<tau> (set (map (\<lambda>c. in_ID (fst c)) calls)) (snd (run_tools calls db1))"
      using Cons.IH [of \<tau>] Cons.prems c by auto
  qed
  then show ?case by (simp add: c db1_def split_beta)
qed

text \<open>The identifiers a request may use: its own, or those of the tool calls it carries.\<close>

definition request_ids :: "ApiInputs \<Rightarrow> ApiRequest \<Rightarrow> string list" where
  "request_ids inp rq = in_ID inp # map (\<lambda>c. in_ID (fst c)) (ai_Calls inp rq)"

lemma NewMux_reaches:
  assumes "sys_inv \<sigma>" and "distinct (request_ids inp rq)" and "set (request_ids inp rq) \<inter> sys_runs \<sigma> = {}"
  shows "reaches \<sigma> (set (request_ids inp rq)) (snd (NewMux inp (sys_db \<sigma>) rq))"
proof -
  have weaken: "reaches \<sigma> A db1 \<Longrightarrow> A \<subseteq> set (request_ids inp rq) \<Longrightarrow> reaches \<sigma> (set (request_ids inp rq)) db1" for A db1
    unfolding reaches_def by blast
  have same: "reaches \<sigma> (set (request_ids inp rq)) (sys_db \<sigma>)" using assms(1) by (rule reaches_refl)
  have "reaches \<sigma> (set (request_ids inp rq)) (snd (handle inp (sys_db \<sigma>) rq h))" for h
  proof (cases "h = HMcp")
    case True
    have "reaches \<sigma> (set (map (\<lambda>c. in_ID (fst c)) (ai_Calls inp rq))) (snd (run_tools (ai_Calls inp rq) (sys_db \<sigma>)))"
      using assms by (intro run_tools_reaches) (auto simp: request_ids_def)
    then have "reaches \<sigma> (set (request_ids inp rq)) (snd (run_tools (ai_Calls inp rq) (sys_db \<sigma>)))"
      by (rule weaken) (auto simp: request_ids_def)
    with same True show ?thesis by (simp add: handle_def Let_def mcp_handler_def split_beta)
  next
    case False
    then have "transaction inp (sys_db \<sigma>) (snd (handle inp (sys_db \<sigma>) rq h))"
      using handle_ok [of h inp "sys_db \<sigma>" rq] by (simp add: reply_ok_def)
    then have "reaches \<sigma> {in_ID inp} (snd (handle inp (sys_db \<sigma>) rq h))"
      using assms by (intro reaches_step) (auto simp: commits_def request_ids_def)
    then show ?thesis by (rule weaken) (simp add: request_ids_def)
  qed
  with same show ?thesis by (simp add: NewMux_def split: option.split)
qed

section \<open>Who may do what\<close>

lemma path_matches_Cons: "path_matches (p # ps) segs \<longleftrightarrow>
    (\<exists>s ss. segs = s # ss \<and> (p = ''{id}'' \<and> s \<noteq> '''' \<or> p \<noteq> ''{id}'' \<and> p = s) \<and> path_matches ps ss)"
  by (cases segs) auto

lemma find_handlerD:
  assumes "find_handler m segs = Some h"
  obtains meth pat where "(meth, pat, h) \<in> set mux_patterns" and "path_matches pat segs"
proof -
  obtain meth pat where "sql_find (\<lambda>(meth, pat, h). (meth = m \<or> meth = ''GET'' \<and> m = ''HEAD'') \<and> path_matches pat segs)
      mux_patterns = Some (meth, pat, h)"
    using assms by (auto simp: find_handler_def sql_find_def)
  from sql_find_both [OF this] have "(meth, pat, h) \<in> set mux_patterns" "path_matches pat segs" by auto
  then show thesis by (rule that)
qed

text \<open>Outside \<open>/v1/\<close> there are only the health checks and redirects.\<close>

lemma outside_v1:
  assumes "find_handler m segs = Some h" and "\<not> has_prefix (concat (map (\<lambda>s. CHR ''/'' # s) segs)) ''/v1/''"
  shows "h \<in> {HHealth, HReady, HConsole}"
proof (rule find_handlerD [OF assms(1)])
  fix meth pat assume pat: "(meth, pat, h) \<in> set mux_patterns" "path_matches pat segs"
  have no: "\<not> path_matches (''v1'' # p # ps) segs" for p ps
    using assms(2) by (auto simp: path_matches_Cons has_prefix_def)
  have "(\<exists>p ps. pat = ''v1'' # p # ps) \<or> h \<in> {HHealth, HReady, HConsole}"
    using pat(1) by (auto simp: mux_patterns_def)
  with no pat(2) show ?thesis by auto
qed

lemma recordAudit_frame: "(recordAudit inp db rq status subject)\<lparr>request_audit_logs := x\<rparr> = db\<lparr>request_audit_logs := x\<rparr>"
  by (auto simp: recordAudit_def RecordRequestAudit_def InsertRequestAudit_def Let_def split: sum.splits if_splits)

text \<open>What a response tells of the database.\<close>

definition reveals_nothing :: "reply \<Rightarrow> bool" where
  "reveals_nothing reply \<longleftrightarrow>
     (case reply of RpAnswer a \<Rightarrow> a = AnOther \<or> a = AnFlag True \<or> a = AnFlag False | RpTools as \<Rightarrow> False | _ \<Rightarrow> True)"

lemma NewMux_outside:
  assumes "\<not> has_prefix (url_path rq) ''/v1/''"
  shows "snd (NewMux inp db rq) = db \<and> reveals_nothing (snd (fst (NewMux inp db rq)))"
proof (cases "find_handler (hq_Method rq) (hq_Segments rq)")
  case (Some h)
  then have "h \<in> {HHealth, HReady, HConsole}" using assms by (intro outside_v1) (simp_all add: url_path_def)
  with Some show ?thesis
    by (auto simp: NewMux_def handle_def ready_handler_def reveals_nothing_def Let_def)
qed (simp add: NewMux_def reveals_nothing_def)

section \<open>Properties\<close>

text \<open>
  C7: without the token nothing happens and nothing is shown. When a token is configured, a request
  whose authorization header is not that bearer token, or whose path does not start with \<open>/v1/\<close>, leaves
  every table but the audit log as it was, and its response carries no data of the database; under
  \<open>/v1/\<close> the answer is 401. No path, method or unclean spelling of a path gets around this.
\<close>

theorem no_token_no_effect:
  assumes "cf_AuthToken (in_Config inp) \<noteq> ''''"
    and "\<not> (has_prefix (url_path rq) ''/v1/'' \<and> authorizedBearer (hq_Authorization rq) (cf_AuthToken (in_Config inp)))"
    and "controlPlaneMiddleware inp db rq = ((status, reply), db')"
  shows "db'\<lparr>request_audit_logs := request_audit_logs db\<rparr> = db \<and> reveals_nothing reply
    \<and> (has_prefix (url_path rq) ''/v1/'' \<longrightarrow> status = 401)"
proof (cases "has_prefix (url_path rq) ''/v1/''")
  case True
  with assms have "reply = snd (writeAPIError (NewUnauthorizedError ''missing or invalid bearer token''))" "status = 401"
    "db' = recordAudit inp db rq 401 ''''"
    by (auto simp: controlPlaneMiddleware_def Let_def writeAPIError_def NewUnauthorizedError_def)
  then show ?thesis by (simp add: recordAudit_frame reveals_nothing_def writeAPIError_def)
next
  case False
  with assms(3) have "NewMux inp db rq = ((status, reply), db')" by (simp add: controlPlaneMiddleware_def)
  with NewMux_outside [OF False, of inp db] False show ?thesis by simp
qed

text \<open>
  C8: whatever the network sends, the system takes its own steps. From a state satisfying the system's
  invariant, serving any request, with any bodies, decoders and tool calls, under identifiers not
  used before, ends in the database of a state that the scheduler's transition system reaches, and the
  invariant holds there.
\<close>

theorem requests_refine_system:
  assumes "sys_inv \<sigma>" and "distinct (request_ids inp rq)" and "set (request_ids inp rq) \<inter> sys_runs \<sigma> = {}"
    and "controlPlaneMiddleware inp (sys_db \<sigma>) rq = (r, db')"
  shows "\<exists>\<tau>. sys_db \<tau> = db' \<and> sys_inv \<tau> \<and> (sys_step (\<lambda>_. True))\<^sup>*\<^sup>* \<sigma> \<tau>"
proof -
  have audit: "reaches \<tau> {} (recordAudit inp (sys_db \<tau>) rq status subject)" if inv: "sys_inv \<tau>" for \<tau> status subject
  proof (cases "recordAudit inp (sys_db \<tau>) rq status subject = sys_db \<tau>")
    case False
    then obtain a where "InsertRequestAudit (sys_db \<tau>) a = Inr (recordAudit inp (sys_db \<tau>) rq status subject)"
      by (auto simp: recordAudit_def RecordRequestAudit_def Let_def split: sum.splits if_splits)
    then have "sys_step (\<lambda>_. True) \<tau> (\<tau>\<lparr>sys_db := recordAudit inp (sys_db \<tau>) rq status subject\<rparr>)" by (rule sys_step.audit)
    then show ?thesis using step_inv [OF inv] unfolding reaches_def by (intro exI conjI) auto
  qed (simp add: reaches_refl [OF inv])
  define A where "A = set (request_ids inp rq)"
  note mux = NewMux_reaches [OF assms(1-3), folded A_def]
  have "reaches \<sigma> (A \<union> {}) (recordAudit inp (snd (NewMux inp (sys_db \<sigma>) rq)) rq status subject)" for status subject
  proof (rule reaches_trans [OF mux])
    fix \<tau> assume "sys_db \<tau> = snd (NewMux inp (sys_db \<sigma>) rq)" "sys_inv \<tau>"
    then show "reaches \<tau> {} (recordAudit inp (snd (NewMux inp (sys_db \<sigma>) rq)) rq status subject)"
      using audit [of \<tau> status subject] by simp
  qed
  then have "reaches \<sigma> A db'"
    using assms(4) mux reaches_refl [OF assms(1)] reaches_trans [OF reaches_refl [OF assms(1)], of "{}" "{}" "recordAudit inp (sys_db \<sigma>) rq 401 ''''"]
      audit [OF assms(1), of 401 "''''"]
    by (auto simp: controlPlaneMiddleware_def Let_def reaches_def split: if_splits prod.splits)
  then show ?thesis by (auto simp: reaches_def)
qed

lemma run_tools_keeps_audit: "request_audit_logs (snd (run_tools calls db)) = request_audit_logs db"
proof (induction calls arbitrary: db)
  case (Cons c calls)
  obtain inp call where "c = (inp, call)" by (cases c)
  moreover have "request_audit_logs (snd (call_tool inp db call)) = request_audit_logs db"
    by (rule transaction_keeps_audit [OF call_tool_transaction])
  ultimately show ?case using Cons.IH [of "snd (call_tool inp db call)"] by (simp add: split_beta)
qed simp

lemma NewMux_keeps_audit: "request_audit_logs (snd (NewMux inp db rq)) = request_audit_logs db"
proof -
  have "request_audit_logs (snd (handle inp db rq h)) = request_audit_logs db" for h
  proof (cases "h = HMcp")
    case True
    then show ?thesis by (simp add: handle_def Let_def mcp_handler_def split_beta run_tools_keeps_audit)
  next
    case False
    then have "transaction inp db (snd (handle inp db rq h))" using handle_ok [of h inp db rq] by (simp add: reply_ok_def)
    then show ?thesis by (rule transaction_keeps_audit)
  qed
  then show ?thesis by (simp add: NewMux_def split: option.split)
qed

lemma NewMux_error:
  assumes "snd (fst (NewMux inp db rq)) = RpError e"
  shows "snd (NewMux inp db rq) = db"
proof -
  have "snd (handle inp db rq h) = db" if "snd (fst (handle inp db rq h)) = RpError e" for h
  proof (cases "h = HMcp")
    case True
    with that show ?thesis by (simp add: handle_def Let_def mcp_handler_def split_beta split: if_splits)
  next
    case False
    with that handle_ok [OF False, of inp db rq] show ?thesis by (simp add: reply_ok_def)
  qed
  with assms show ?thesis by (auto simp: NewMux_def split: if_splits option.splits)
qed

definition audit_row :: "ApiInputs \<Rightarrow> ApiRequest \<Rightarrow> int \<Rightarrow> string \<Rightarrow> RequestAudit" where
  "audit_row inp rq status subject =
     \<lparr>au_ID = ai_AuditID inp, au_Method = hq_Method rq, au_Path = url_path rq, au_StatusCode = status,
      au_RemoteAddr = hq_RemoteAddr rq, au_UserAgent = hq_UserAgent rq, au_AuthSubject = subject,
      au_CreatedAt = ai_AuditNow inp\<rparr>"

lemma recordAudit_appends:
  assumes "cf_RequestAudit (in_Config inp)" and "ai_AuditID inp \<notin> au_ID ` set (request_audit_logs db)"
  shows "recordAudit inp db rq status subject
    = db\<lparr>request_audit_logs := request_audit_logs db @ [audit_row inp rq status subject]\<rparr>"
proof -
  have "\<forall>x \<in> set (request_audit_logs db). au_ID x \<noteq> ai_AuditID inp" using assms(2) by (metis image_eqI)
  then show ?thesis
    using assms(1) by (simp add: recordAudit_def RecordRequestAudit_def InsertRequestAudit_def audit_row_def Let_def)
qed

text \<open>
  C9: every request to the control plane leaves its trace, and a refused one leaves nothing else. With
  the audit on and an unused audit identifier, serving a request under \<open>/v1/\<close>, authorized or not,
  appends exactly one audit entry, which carries its method, path and the status that was sent; and
  when the response is an error, no other table has changed.
\<close>

theorem requests_are_audited:
  assumes "cf_RequestAudit (in_Config inp)" and "ai_AuditID inp \<notin> au_ID ` set (request_audit_logs db)"
    and "has_prefix (url_path rq) ''/v1/''" and "controlPlaneMiddleware inp db rq = ((status, reply), db')"
  shows "\<exists>subject. request_audit_logs db' = request_audit_logs db @ [audit_row inp rq status subject]
    \<and> (subject = ''operator'' \<longrightarrow> authorizedBearer (hq_Authorization rq) (cf_AuthToken (in_Config inp)))
    \<and> (\<forall>e. reply = RpError e \<longrightarrow> db'\<lparr>request_audit_logs := request_audit_logs db\<rparr> = db)"
proof (cases "cf_AuthToken (in_Config inp) \<noteq> '''' \<and> \<not> authorizedBearer (hq_Authorization rq) (cf_AuthToken (in_Config inp))")
  case True
  then have "status = 401" "db' = recordAudit inp db rq 401 ''''"
    using assms(3,4) by (simp_all add: controlPlaneMiddleware_def Let_def writeAPIError_def NewUnauthorizedError_def)
  then show ?thesis by (intro exI [of _ "''''"]) (simp add: recordAudit_appends [OF assms(1,2)])
next
  case False
  define subject where "subject = (if cf_AuthToken (in_Config inp) \<noteq> '''' then ''operator'' else '''')"
  obtain db1 where mux: "NewMux inp db rq = ((status, reply), db1)" and db': "db' = recordAudit inp db1 rq status subject"
    using assms(3,4) False by (auto simp: controlPlaneMiddleware_def Let_def subject_def split: prod.splits)
  have logs: "request_audit_logs db1 = request_audit_logs db" using NewMux_keeps_audit [of inp db rq] mux by simp
  then have row: "db' = db1\<lparr>request_audit_logs := request_audit_logs db @ [audit_row inp rq status subject]\<rparr>"
    unfolding db' using assms(1,2) recordAudit_appends [of inp db1] by simp
  have "db1 = db" if "reply = RpError e" for e using NewMux_error [of inp db rq e] mux that by simp
  then show ?thesis using row False by (intro exI [of _ subject]) (auto simp: subject_def)
qed

section \<open>Samples\<close>

definition sample_api :: ApiInputs where
  "sample_api =
     \<lparr>in_Env = sample_env, in_World = sample_world, in_Dialect = SQLite, in_Digest = (\<lambda>s. s),
      in_ReconciledJSON = (\<lambda>_. ''{}''), in_IDFirst = True, in_ID = ''run_2'', in_Now1 = 20, in_Now2 = 20,
      in_Config = (FromEnv (\<lambda>_. '''') ''v1'')\<lparr>cf_AuthToken := ''secret'', cf_RequestAudit := True\<rparr>,
      fi_Codec = \<lparr>unmarshal_strings = (\<lambda>_. None), parse_time = (\<lambda>_. None)\<rparr>, fi_Ctx = (\<lambda>_. None), fi_DataSource = '''',
      fi_StartedAt = 0, fi_LastTick = None, fi_Active = \<lparr>active_executions = Map.empty, cancelled_executions = {}\<rparr>,
      fi_StoreError = (\<lambda>_. ''error''), fi_TimedOut = (\<lambda>_. False), ai_Create = (\<lambda>_. Inl ''EOF''), ai_StrictCreate = (\<lambda>_. Inl ''EOF''), ai_Patch = (\<lambda>_. Inl ''EOF''),
      ai_Reason = (\<lambda>body. Inr (body, '''')), ai_Event = (\<lambda>_. Inl ''EOF''), ai_Origin = (\<lambda>_. None), ai_Calls = (\<lambda>_. []),
      ai_TransportStatus = (\<lambda>_. 200), ai_Ping = True, ai_ExecutorLines = '''', ai_AuditID = ''aud_1'', ai_AuditNow = 20\<rparr>"

definition sample_api_request :: "string \<Rightarrow> ApiRequest" where
  "sample_api_request header =
     \<lparr>hq_Method = ''POST'', hq_Segments = [''v1'', ''schedules'', ''sch_1'', ''trigger''], hq_Clean = True,
      hq_Query = (\<lambda>_. ''''), hq_Authorization = header, hq_Origins = [], hq_Host = ''h'', hq_TLS = False,
      hq_Body = ''ops'', hq_RemoteAddr = ''a'', hq_UserAgent = ''u''\<rparr>"

lemma sample_path: "url_path (sample_api_request header) = ''/v1/schedules/sch_1/trigger''"
  by (simp add: url_path_def sample_api_request_def)

lemma sample_under_v1: "has_prefix (url_path (sample_api_request header)) ''/v1/''"
  by (simp add: sample_path has_prefix_def)

lemma sample_api_config:
  "cf_AuthToken (in_Config sample_api) = ''secret''" "cf_RequestAudit (in_Config sample_api)"
  by (simp_all add: sample_api_def)

lemma sample_ids: "request_ids sample_api (sample_api_request header) = [''run_2'']"
  by (simp add: request_ids_def sample_api_def)

lemma sample_logs: "request_audit_logs (sys_db sys_idle) = []"
  by (simp add: sys_idle_def sample_db_def empty_db_def)

lemma wrong_token: "\<not> authorizedBearer ''wrong'' ''secret''"
proof -
  have "trim_space ''wrong'' = ''wrong''" by (simp add: trim_space_visible visible_def)
  then show ?thesis by (simp add: authorizedBearer_def has_prefix_def)
qed

theorem no_token_no_effect_witness:
  "\<exists>status reply db'. controlPlaneMiddleware sample_api (sys_db sys_idle) (sample_api_request ''wrong'') = ((status, reply), db')
    \<and> status = 401 \<and> schedule_runs db' = [idle_run]"
proof -
  obtain status reply db' where *: "controlPlaneMiddleware sample_api (sys_db sys_idle) (sample_api_request ''wrong'')
      = ((status, reply), db')" by (metis prod.collapse)
  have refused: "\<not> (has_prefix (url_path (sample_api_request ''wrong'')) ''/v1/''
      \<and> authorizedBearer (hq_Authorization (sample_api_request ''wrong'')) (cf_AuthToken (in_Config sample_api)))"
    by (simp add: sample_api_request_def sample_api_config wrong_token)
  have token: "cf_AuthToken (in_Config sample_api) \<noteq> ''''" by (simp add: sample_api_config)
  note safe = no_token_no_effect [OF token refused *]
  from safe have "status = 401" using sample_under_v1 by blast
  moreover have "schedule_runs db' = [idle_run]"
    using arg_cong [OF safe [THEN conjunct1], of schedule_runs] by (simp add: idle_db)
  ultimately show ?thesis using * by blast
qed

theorem requests_refine_system_witness:
  "\<exists>r db' \<tau>. controlPlaneMiddleware sample_api (sys_db sys_idle) (sample_api_request ''Bearer secret'') = (r, db')
    \<and> sys_db \<tau> = db' \<and> sys_inv \<tau>"
proof -
  obtain r db' where *: "controlPlaneMiddleware sample_api (sys_db sys_idle) (sample_api_request ''Bearer secret'') = (r, db')"
    by (metis prod.collapse)
  have "\<exists>\<tau>. sys_db \<tau> = db' \<and> sys_inv \<tau> \<and> (sys_step (\<lambda>_. True))\<^sup>*\<^sup>* sys_idle \<tau>"
    by (rule requests_refine_system [OF idle_db(3) _ _ *]) (simp_all add: sample_ids sys_idle_def)
  with * show ?thesis by blast
qed

theorem requests_are_audited_witness:
  "\<exists>status reply db'. controlPlaneMiddleware sample_api (sys_db sys_idle) (sample_api_request ''Bearer secret'') = ((status, reply), db')
    \<and> length (request_audit_logs db') = 1"
proof -
  obtain status reply db' where *: "controlPlaneMiddleware sample_api (sys_db sys_idle) (sample_api_request ''Bearer secret'')
      = ((status, reply), db')" by (metis prod.collapse)
  have "ai_AuditID sample_api \<notin> au_ID ` set (request_audit_logs (sys_db sys_idle))" by (simp add: sample_logs)
  from requests_are_audited [OF sample_api_config(2) this sample_under_v1 *] * show ?thesis by (auto simp: sample_logs)
qed

end
