(* ===== verification/Client.thy ===== *)
theory Client
  imports Operators Listing
begin

text \<open>
  The schedule commands of the command-line client that do more than one request
  (\<open>internal/cli/root.go\<close>): the export, which follows the cursors of the listing and fetches every
  schedule, and the import, which creates the schedules of a manifest one after the other. Requests
  are functions of the server; the loop over cursors is a partial function, since nothing in the
  client bounds the number of pages.
\<close>

section \<open>Export\<close>

fun fetch_all :: "('i \<Rightarrow> (string, 's) result) \<Rightarrow> 'i list \<Rightarrow> (string, 's list) result" where
  "fetch_all get [] = Inr []"
| "fetch_all get (i # rest) = bind_result (get i) (\<lambda>s. bind_result (fetch_all get rest) (\<lambda>ss. Inr (s # ss)))"

partial_function (option) export_loop ::
    "(string \<Rightarrow> (string, 'i list \<times> string option) result) \<Rightarrow> ('i \<Rightarrow> (string, 's) result)
     \<Rightarrow> string \<Rightarrow> string list \<Rightarrow> 's list \<Rightarrow> (string, 's list) result option" where
  "export_loop list get cursor seen acc =
     (case list cursor of
        Inl e \<Rightarrow> Some (Inl e)
      | Inr (items, nxt) \<Rightarrow>
          (case fetch_all get items of
             Inl e \<Rightarrow> Some (Inl e)
           | Inr ss \<Rightarrow>
               (case nxt of
                  None \<Rightarrow> Some (Inr (acc @ ss))
                | Some c \<Rightarrow>
                    if c = '''' then Some (Inr (acc @ ss))
                    else if c \<in> set seen then Some (Inl ''schedule pagination repeated cursor'')
                    else export_loop list get c (c # seen) (acc @ ss))))"

declare export_loop.simps [code]

text \<open>The two requests of the export, answered by the service over one database.\<close>

definition list_request ::
    "dialect \<Rightarrow> Codec \<Rightarrow> DB \<Rightarrow> string \<Rightarrow> (string, ScheduleSummary list \<times> string option) result" where
  "list_request dialect codec db cursor =
     (case ListSchedules dialect codec db None 1000 cursor of
        Inl (BadCursor e) \<Rightarrow> Inl e | Inl NegativeLimit \<Rightarrow> Inl ''LIMIT must not be negative'' | Inr page \<Rightarrow> Inr page)"

definition get_request :: "DB \<Rightarrow> ScheduleSummary \<Rightarrow> (string, CreateScheduleRequest) result" where
  "get_request db item =
     (case Service_GetSchedule db (ss_ID item) of Inl e \<Rightarrow> Inl ''not found'' | Inr s \<Rightarrow> Inr (request_of s))"

definition exportScheduleManifest ::
    "dialect \<Rightarrow> Codec \<Rightarrow> DB \<Rightarrow> (string, CreateScheduleRequest list) result option" where
  "exportScheduleManifest dialect codec db = export_loop (list_request dialect codec db) (get_request db) '''' [] []"

section \<open>Import\<close>

text \<open>An empty batch is read again as a single schedule.\<close>

definition import_batch :: "CreateScheduleRequest list \<Rightarrow> CreateScheduleRequest \<Rightarrow> CreateScheduleRequest list" where
  "import_batch batch single = (if batch = [] then [single] else batch)"

definition create_request ::
    "Env \<Rightarrow> string \<Rightarrow> time \<Rightarrow> DB \<Rightarrow> CreateScheduleRequest \<Rightarrow> (string, DB) result" where
  "create_request env i now db req =
     (case Service_CreateSchedule env i now db req of
        Inl e \<Rightarrow> Inl ''error''
      | Inr (Inl errs, db1) \<Rightarrow> Inl ''validation failed''
      | Inr (Inr s, db1) \<Rightarrow> Inr db1)"

text \<open>The import stops at the first request that fails; the schedules before it stay created.\<close>

fun import_loop ::
    "Env \<Rightarrow> (nat \<Rightarrow> string) \<Rightarrow> (nat \<Rightarrow> time) \<Rightarrow> nat \<Rightarrow> DB \<Rightarrow> CreateScheduleRequest list \<Rightarrow> string option \<times> DB" where
  "import_loop env newID clock k db [] = (None, db)"
| "import_loop env newID clock k db (req # rest) =
     (case create_request env (newID k) (clock k) db req of
        Inl e \<Rightarrow> (Some e, db)
      | Inr db1 \<Rightarrow> import_loop env newID clock (k + 1) db1 rest)"

definition import_manifest ::
    "Env \<Rightarrow> (nat \<Rightarrow> string) \<Rightarrow> (nat \<Rightarrow> time) \<Rightarrow> DB \<Rightarrow> CreateScheduleRequest list \<Rightarrow> CreateScheduleRequest
     \<Rightarrow> string option \<times> DB" where
  "import_manifest env newID clock db batch single = import_loop env newID clock 0 db (import_batch batch single)"

text \<open>What the decoder makes of a manifest that names no schedule, read as a single one.\<close>

definition no_schedule :: CreateScheduleRequest where
  "no_schedule = \<lparr>c_Name = [], c_Enabled = False, c_Timezone = [],
     c_Schedule = \<lparr>sp_Kind = OtherScheduleKind [], sp_Expr = [], sp_EverySeconds = 0, sp_AnchorAt = None, sp_At = None\<rparr>,
     c_Target = zero_TargetSpec,
     c_Policy = \<lparr>p_Overlap = OtherOverlap [], p_Misfire = OtherMisfire [], p_TimeoutSeconds = 0, p_MaxConcurrency = 0\<rparr>,
     c_Retry = \<lparr>rp_MaxAttempts = 0, rp_Strategy = OtherRetryStrategy [], rp_InitialDelaySeconds = 0, rp_MaxDelaySeconds = 0\<rparr>,
     c_StartAt = None, c_EndAt = None\<rparr>"

section \<open>The export over any source of pages\<close>

lemma fetch_all_Inr: "\<forall>i \<in> set items. get i = Inr (f i) \<Longrightarrow> fetch_all get items = Inr (map f items)"
  by (induction items) simp_all

context cursor_pages begin

lemma export_loop_complete:
  fixes list :: "string \<Rightarrow> (string, 'r list \<times> string option) result"
  assumes "\<And>c r. page c = Inr r \<Longrightarrow> list c = Inr r"
    and "stands c rest" and "\<forall>i \<in> set rest. get i = Inr (f i)"
    and "\<And>c' r. c' \<in> set seen \<Longrightarrow> stands c' r \<Longrightarrow> length rest \<le> length r"
  shows "export_loop list get c seen acc = Some (Inr (acc @ map f rest))"
  using assms(2-4)
proof (induction "length rest" arbitrary: c rest seen acc rule: less_induct)
  case less
  note st = less.prems(1)
  show ?case
  proof (cases "length rest \<le> n")
    case True
    with assms(1) last_page [OF st] have "list c = Inr (rest, None)" by blast
    with fetch_all_Inr [OF less.prems(2)] show ?thesis by (simp add: export_loop.simps)
  next
    case False
    then obtain c' where c': "page c = Inr (take n rest, Some c')" "c' \<noteq> ''''" "stands c' (drop n rest)"
      using full_page [OF st] by auto
    have shorter: "length (drop n rest) < length rest" using False page_size [OF st] by simp
    have fresh: "c' \<notin> set seen" using less.prems(3) [OF _ c'(3)] shorter by auto
    have fetched: "fetch_all get (take n rest) = Inr (map f (take n rest))"
      using less.prems(2) by (intro fetch_all_Inr) (auto dest: in_set_takeD)
    have later: "export_loop list get c' (c' # seen) (acc @ map f (take n rest))
        = Some (Inr ((acc @ map f (take n rest)) @ map f (drop n rest)))"
    proof (rule less.hyps [OF shorter c'(3)])
      show "\<forall>i \<in> set (drop n rest). get i = Inr (f i)" using less.prems(2) by (auto dest: in_set_dropD)
      show "length (drop n rest) \<le> length r" if "c'' \<in> set (c' # seen)" "stands c'' r" for c'' r
      proof (cases "c'' = c'")
        case True
        with that(2) have "r = drop n rest" using stands_unique [OF c'(3)] by blast
        then show ?thesis by simp
      next
        case False
        with that have "length rest \<le> length r" using less.prems(3) [of c'' r] by simp
        with shorter show ?thesis by linarith
      qed
    qed
    have "export_loop list get c seen acc = export_loop list get c' (c' # seen) (acc @ map f (take n rest))"
      by (subst export_loop.simps) (simp add: assms(1) [OF c'(1)] fetched c'(2) fresh)
    also note later
    also have "(acc @ map f (take n rest)) @ map f (drop n rest) = acc @ map f rest"
      by (simp add: map_append [symmetric] del: map_append)
    finally show ?thesis .
  qed
qed

end

section \<open>The export of a server\<close>

definition schedule_key :: "Schedule \<Rightarrow> time \<times> string" where
  "schedule_key s = (s_CreatedAt s, s_ID s)"

lemma sort_key_map: "sort_key f (map g xs) = map g (sort_key (\<lambda>x. f (g x)) xs)"
proof (induction xs)
  case (Cons x xs)
  have "insort_key f (g x) (map g ys) = map g (insort_key (\<lambda>x. f (g x)) x ys)" for ys by (induction ys) simp_all
  with Cons show ?case by simp
qed simp

text \<open>Every cursor a listing of this database can hand out is read back by the codec.\<close>

definition listing_ok :: "Codec \<Rightarrow> DB \<Rightarrow> bool" where
  "listing_ok codec db \<longleftrightarrow> wf_db db \<and> list_all (\<lambda>s. reads codec (schedule_key s)) (schedules db)"

lemma listing_stands:
  assumes "listing_ok codec db"
  shows "stands_for codec (\<lambda>s. (ss_CreatedAt s, ss_ID s)) (map schedule_summary (schedules db)) 1000 ''''
    (map schedule_summary (newest_first schedule_key (schedules db)))"
proof -
  have key: "(ss_CreatedAt (schedule_summary s), ss_ID (schedule_summary s)) = schedule_key s" for s
    by (simp add: schedule_summary_def schedule_key_def)
  have "distinct (map s_ID (schedules db))" using assms by (intro wf_dbD) (simp add: listing_ok_def)
  then have "distinct (map schedule_key (schedules db))"
    by (simp add: distinct_map inj_on_def schedule_key_def)
  moreover have "newest_first (\<lambda>s. (ss_CreatedAt s, ss_ID s)) (map schedule_summary (schedules db))
      = map schedule_summary (newest_first schedule_key (schedules db))"
    by (simp add: newest_first_def sort_key_map key rev_map)
  ultimately show ?thesis
    using assms by (simp add: stands_for_def pages_ok_def listing_ok_def list_all_iff key comp_def)
qed

lemma get_request_found:
  assumes "wf_db db" and "s \<in> set (schedules db)"
  shows "get_request db (schedule_summary s) = Inr (request_of s)"
proof -
  have "sql_find (\<lambda>x. s_ID x = s_ID s) (schedules db) = Some s"
    by (rule sql_find_key [OF wf_dbD(1) [OF assms(1)] assms(2)])
  then show ?thesis
    by (simp add: get_request_def Service_GetSchedule_def found_def GetSchedule_def schedule_summary_def)
qed

lemma export_complete:
  assumes "listing_ok codec db"
  shows "exportScheduleManifest dialect codec db
    = Some (Inr (map request_of (newest_first schedule_key (schedules db))))"
proof -
  define rows where "rows = newest_first schedule_key (schedules db)"
  define f where "f i = projr (get_request db i)" for i
  have got: "get_request db (schedule_summary s) = Inr (request_of s)" if "s \<in> set rows" for s
    using assms that by (intro get_request_found) (simp_all add: listing_ok_def rows_def newest_first_def)
  have "export_loop (list_request dialect codec db) (get_request db) '''' [] []
      = Some (Inr ([] @ map f (map schedule_summary rows)))"
  proof (rule pages.export_loop_complete [OF _ listing_stands [OF assms, folded rows_def]])
    show "list_request dialect codec db c = Inr r"
      if "list_page dialect codec (\<lambda>s. (ss_CreatedAt s, ss_ID s)) (map schedule_summary (schedules db)) 1000 c = Inr r" for c r
      using that by (simp add: list_request_def ListSchedules_def)
  qed (use got in \<open>auto simp: f_def\<close>)
  moreover have "map f (map schedule_summary rows) = map request_of rows" using got by (simp add: f_def)
  ultimately show ?thesis by (simp add: exportScheduleManifest_def rows_def)
qed

section \<open>The import of an export\<close>

text \<open>Definitions that the service accepts as they are: validation passes, no default changes them, and an
  interval has its anchor.\<close>

definition portable :: "Env \<Rightarrow> CreateScheduleRequest \<Rightarrow> bool" where
  "portable env req \<longleftrightarrow> ValidateCreateSchedule env req = [] \<and> withDefaults req = req
     \<and> (sp_Kind (c_Schedule req) = ScheduleKindInterval \<longrightarrow> sp_AnchorAt (c_Schedule req) \<noteq> None)"

lemma portable_accepted:
  assumes "portable env req" and "i \<notin> schedule_ids db" and "c_Name req \<notin> s_Name ` set (schedules db)"
  shows "\<exists>s. create_request env i now db req = Inr (db\<lparr>schedules := schedules db @ [s]\<rparr>)
    \<and> s_ID s = i \<and> request_of s = req"
proof -
  have valid: "ValidateCreateSchedule env req = []" and defaults: "withDefaults req = req"
    using assms(1) by (simp_all add: portable_def)
  note parts = ValidateCreateSchedule_parts [OF valid]
  define s0 where "s0 = schedule_of i req now"
  have s0: "s_ID s0 = i" "request_of s0 = req" "s_Enabled s0 = c_Enabled req" "s_Name s0 = c_Name req"
    using assms(1) by (auto simp: s0_def schedule_of_def request_of_def anchored_def portable_def)
  have kinds: "t_Kind (c_Target req) \<in> {TargetKindHTTP, TargetKindShell, TargetKindWorkflow}"
    using parts(3) by (auto simp: validateTargetSpec_def Let_def split: TargetKind.splits if_splits)
  have check: "schedule_check (s0\<lparr>s_NextRunAt := x\<rparr>)" for x
    using parts(2,4,5) kinds assms(1)
    by (auto simp: schedule_check_def s0_def schedule_of_def anchored_def spec_ok_def policy_ok_def retry_ok_def)
  have "s_Schedule s0 = c_Schedule req" "s_Timezone s0 = c_Timezone req"
    using s0(2) by (auto simp: request_of_def)
  then obtain nxt where nxt: "NextAfter env s0 (now - 1) = Inr nxt"
    using spec_ok_NextAfter [of env s0 "now - 1"] parts(1,2) by auto
  define s where "s = (if c_Enabled req then s0\<lparr>s_NextRunAt := nxt\<rparr> else s0\<lparr>s_NextRunAt := None\<rparr>)"
  have same: "s0\<lparr>s_NextRunAt := None\<rparr> = s0" by (simp add: s0_def schedule_of_def)
  have "s_ID s = i" "s_Name s = c_Name req" "schedule_check s" using s0 check by (simp_all add: s_def)
  moreover have "\<forall>x \<in> set (schedules db). s_ID x \<noteq> i \<and> s_Name x \<noteq> c_Name req"
    using assms(2,3) unfolding schedule_ids_def by (metis image_eqI)
  ultimately have "CreateSchedule db s = Inr (db\<lparr>schedules := schedules db @ [s]\<rparr>)" by (simp add: CreateSchedule_def)
  moreover have "(if s_Enabled s0 then next_from env s0 now else Inr s0) = Inr s"
    using nxt s0(3) same by (simp add: next_from_def s_def)
  ultimately have "create_request env i now db req = Inr (db\<lparr>schedules := schedules db @ [s]\<rparr>)"
    using valid defaults by (simp add: create_request_def Service_CreateSchedule_def Let_def s0_def [symmetric])
  moreover have "s_ID s = i" "request_of s = req" using s0(1,2) by (auto simp: s_def request_of_def)
  ultimately show ?thesis by blast
qed

lemma import_loop_creates:
  assumes "list_all (portable env) reqs" and "distinct (map c_Name reqs)"
    and "set (map c_Name reqs) \<inter> s_Name ` set (schedules db) = {}"
    and "inj newID" and "\<forall>j \<ge> k. newID j \<notin> schedule_ids db"
  shows "\<exists>news. import_loop env newID clock k db reqs = (None, db\<lparr>schedules := schedules db @ news\<rparr>)
    \<and> map request_of news = reqs"
  using assms(1-3,5)
proof (induction reqs arbitrary: k db)
  case (Cons req reqs)
  obtain s where s: "create_request env (newID k) (clock k) db req = Inr (db\<lparr>schedules := schedules db @ [s]\<rparr>)"
    "s_ID s = newID k" "request_of s = req"
    using portable_accepted [of env req "newID k" db "clock k"] Cons.prems by auto
  define db1 where "db1 = db\<lparr>schedules := schedules db @ [s]\<rparr>"
  have name: "s_Name s = c_Name req" using s(3) by (auto simp: request_of_def)
  have "\<exists>news. import_loop env newID clock (k + 1) db1 reqs = (None, db1\<lparr>schedules := schedules db1 @ news\<rparr>)
      \<and> map request_of news = reqs"
  proof (rule Cons.IH)
    show "\<forall>j \<ge> k + 1. newID j \<notin> schedule_ids db1"
      using Cons.prems(4) assms(4) s(2) by (auto simp: db1_def schedule_ids_def dest: injD)
  qed (use Cons.prems name in \<open>auto simp: db1_def\<close>)
  then obtain news where "import_loop env newID clock (k + 1) db1 reqs = (None, db1\<lparr>schedules := schedules db1 @ news\<rparr>)"
    "map request_of news = reqs" by blast
  then show ?case using s(1,3) by (intro exI [of _ "s # news"]) (simp add: db1_def)
qed simp

section \<open>Properties\<close>

lemma no_schedule_refused: "create_request env i now db no_schedule = Inl ''validation failed''"
proof -
  have "ValidateCreateSchedule env (withDefaults no_schedule) \<noteq> []"
    by (simp add: ValidateCreateSchedule_def withDefaults_def no_schedule_def Let_def)
  then show ?thesis by (simp add: create_request_def Service_CreateSchedule_def Let_def)
qed

text \<open>
  C10: an export holds every schedule and can be imported elsewhere, unless it is empty. Over a database that
  does not change meanwhile, the client's export ends, whatever the number of pages, with the definition of every
  schedule exactly once, newest first. If there is a schedule, importing that manifest into an empty server, under
  fresh identifiers and whatever the clock, succeeds and gives a server with exactly these definitions in
  this order, provided validation accepts them as they are stored. The export of a server without schedules
  is not importable: its import fails with a validation error and creates nothing.
\<close>

theorem export_import_roundtrip:
  assumes "listing_ok codec db"
    and "list_all (\<lambda>s. portable env (request_of s)) (schedules db)" and "inj newID"
  shows "\<exists>manifest. exportScheduleManifest dialect codec db = Some (Inr manifest)
    \<and> manifest = map request_of (newest_first schedule_key (schedules db))
    \<and> (if schedules db \<noteq> []
       then \<exists>db'. import_manifest env newID clock empty_db manifest single = (None, db') \<and> map request_of (schedules db') = manifest
       else import_manifest env newID clock empty_db manifest no_schedule = (Some ''validation failed'', empty_db))"
proof -
  define rows where "rows = newest_first schedule_key (schedules db)"
  have rows: "set rows = set (schedules db)" by (simp add: rows_def newest_first_def)
  have "wf_db db" using assms(1) by (simp add: listing_ok_def)
  then have "distinct (map s_Name (schedules db))" by (simp add: wf_db_def keys_ok_def)
  then have "distinct (map s_Name rows)" by (simp add: rows_def newest_first_def distinct_map)
  then have names: "distinct (map c_Name (map request_of rows))" by (simp add: comp_def request_of_def)
  have "list_all (portable env) (map request_of rows)" using assms(2) rows by (simp add: list_all_iff)
  from import_loop_creates [OF this names _ assms(3), of empty_db 0 clock]
  obtain news where loop: "import_loop env newID clock 0 empty_db (map request_of rows) = (None, empty_db\<lparr>schedules := news\<rparr>)"
    and news: "map request_of news = map request_of rows"
    by (auto simp: empty_db_def schedule_ids_def)
  have "if schedules db \<noteq> []
      then \<exists>db'. import_manifest env newID clock empty_db (map request_of rows) single = (None, db')
        \<and> map request_of (schedules db') = map request_of rows
      else import_manifest env newID clock empty_db (map request_of rows) no_schedule = (Some ''validation failed'', empty_db)"
  proof (cases "schedules db = []")
    case True
    then have "rows = []" using rows by simp
    then show ?thesis using True by (simp add: import_manifest_def import_batch_def no_schedule_refused)
  next
    case False
    then have "map request_of rows \<noteq> []" using rows by auto
    then show ?thesis
      using False loop news by (intro iffD2 [OF if_P]) (auto simp: import_manifest_def import_batch_def)
  qed
  then show ?thesis using export_complete [OF assms(1)] unfolding rows_def by blast
qed

definition sample_codec :: Codec where
  "sample_codec =
     \<lparr>unmarshal_strings = (\<lambda>s. if s = cursor_payload 0 ''sch_1''
        then Some (\<lambda>k. if k = ''created_at'' then rfc3339_nano 0 else if k = ''id'' then ''sch_1'' else '''') else None),
      parse_time = (\<lambda>s. if s = rfc3339_nano 0 then Some 0 else None)\<rparr>"

lemma sample_listing: "listing_ok sample_codec sample_db" "schedules sample_db = [sample_schedule]"
proof -
  show sch: "schedules sample_db = [sample_schedule]" by (simp add: sample_db_def)
  have key: "schedule_key sample_schedule = (0, ''sch_1'')" by (simp add: schedule_key_def sample_schedule_def)
  have "reads sample_codec (0, ''sch_1'')" by (simp only: reads_def sample_codec_def Codec.select_convs fst_conv snd_conv) simp
  then show "listing_ok sample_codec sample_db"
    using sys_okD(1) [OF sample_db_ok] by (simp add: listing_ok_def sch key)
qed

theorem export_import_roundtrip_witness:
  "\<exists>manifest. exportScheduleManifest SQLite sample_codec sample_db = Some (Inr manifest)
    \<and> manifest = map request_of (newest_first schedule_key (schedules sample_db))
    \<and> (\<exists>db'. import_manifest sample_env sample_id (\<lambda>k. 20) empty_db manifest (request_of sample_schedule) = (None, db')
        \<and> map request_of (schedules db') = manifest)"
proof -
  have "sp_AnchorAt (c_Schedule (request_of sample_schedule)) \<noteq> None"
    by (simp add: request_of_def sample_schedule_def)
  then have portable: "list_all (\<lambda>s. portable sample_env (request_of s)) (schedules sample_db)"
    using sample_valid sample_request(1) by (simp add: sample_listing(2) portable_def)
  have "schedules sample_db \<noteq> []" by (simp add: sample_listing(2))
  with export_import_roundtrip [OF sample_listing(1) portable sample_id(1), of SQLite "\<lambda>k. 20" "request_of sample_schedule"]
  show ?thesis by (simp only: if_True simp_thms)
qed

end
