(* ===== verification/Commands.thy ===== *)
theory Commands
  imports Api Client
begin

text \<open>
  The commands of the client that send one request (\<open>internal/cli/root.go\<close>), and what becomes of them at
  the server of \<open>Api\<close>. The JSON encoder is a parameter, which may fail; an argument is put into the path as it is.
  The request of \<open>Status\<close> is the one of \<open>printStatus\<close>.
\<close>

section \<open>Requests of the client\<close>

datatype command =
    Status
  | Create CreateScheduleRequest
  | Update string CreateScheduleRequest
  | ScheduleList
  | ScheduleGet string
  | Pause string
  | Resume string
  | Delete string
  | Trigger string
  | RunList
  | RunGet string

record ClientRequest =
  cq_Method :: string
  cq_Path :: string
  cq_Body :: "string option"
  cq_Authorization :: string

record Encoder =
  ec_Schedule :: "CreateScheduleRequest \<Rightarrow> (string, string) result"
  ec_Reason :: "string \<Rightarrow> (string, string) result"

definition applyAuth :: "string \<Rightarrow> ClientRequest \<Rightarrow> ClientRequest" where
  "applyAuth token q = (if token \<noteq> '''' then q\<lparr>cq_Authorization := ''Bearer '' @ token\<rparr> else q)"

definition get_url :: "string \<Rightarrow> ClientRequest" where
  "get_url path = \<lparr>cq_Method = ''GET'', cq_Path = path, cq_Body = None, cq_Authorization = ''''\<rparr>"

definition sendJSON :: "string \<Rightarrow> string \<Rightarrow> (string, string) result \<Rightarrow> (string, ClientRequest) result" where
  "sendJSON method path body =
     bind_result body (\<lambda>b. Inr \<lparr>cq_Method = method, cq_Path = path, cq_Body = Some b, cq_Authorization = ''''\<rparr>)"

fun built_request :: "Encoder \<Rightarrow> command \<Rightarrow> (string, ClientRequest) result" where
  "built_request enc Status = Inr (get_url ''/v1/status'')"
| "built_request enc (Create req) = sendJSON ''POST'' ''/v1/schedules'' (ec_Schedule enc req)"
| "built_request enc (Update i req) = sendJSON ''PUT'' (''/v1/schedules/'' @ i) (ec_Schedule enc req)"
| "built_request enc ScheduleList = Inr (get_url ''/v1/schedules'')"
| "built_request enc (ScheduleGet i) = Inr (get_url (''/v1/schedules/'' @ i))"
| "built_request enc (Pause i) = sendJSON ''POST'' (''/v1/schedules/'' @ i @ ''/pause'') (Inr ''{}'')"
| "built_request enc (Resume i) = sendJSON ''POST'' (''/v1/schedules/'' @ i @ ''/resume'') (Inr ''{}'')"
| "built_request enc (Delete i) =
     Inr \<lparr>cq_Method = ''DELETE'', cq_Path = ''/v1/schedules/'' @ i, cq_Body = None, cq_Authorization = ''''\<rparr>"
| "built_request enc (Trigger i) =
     sendJSON ''POST'' (''/v1/schedules/'' @ i @ ''/trigger'') (ec_Reason enc ''manual operator trigger'')"
| "built_request enc RunList = Inr (get_url ''/v1/runs'')"
| "built_request enc (RunGet i) = Inr (get_url (''/v1/runs/'' @ i))"

definition command_request :: "Encoder \<Rightarrow> string \<Rightarrow> command \<Rightarrow> (string, ClientRequest) result" where
  "command_request enc token cmd = bind_result (built_request enc cmd) (\<lambda>q. Inr (applyAuth token q))"

text \<open>What the client makes of the response: its body is the error, or what is printed (the code indents it,
  and summarizes a status).\<close>

definition do_response :: "(string, int \<times> string) result \<Rightarrow> (string, string) result" where
  "do_response r = bind_result r (\<lambda>(code, body). if code \<ge> 400 then Inl body else Inr body)"

definition run_command ::
  "Encoder \<Rightarrow> string \<Rightarrow> (ClientRequest \<Rightarrow> (string, int \<times> string) result) \<Rightarrow> command \<Rightarrow> (string, string) result" where
  "run_command enc token send cmd = bind_result (command_request enc token cmd) (\<lambda>q. do_response (send q))"

section \<open>At the server\<close>

text \<open>What the server receives, for paths that need no escaping and have no query; \<open>rest\<close> gives the address and the
  headers that the client does not set.\<close>

definition received :: "ApiRequest \<Rightarrow> ClientRequest \<Rightarrow> ApiRequest" where
  "received rest q = rest\<lparr>hq_Method := cq_Method q, hq_Segments := tl (split_slash (cq_Path q)), hq_Clean := True,
     hq_Query := (\<lambda>_. ''''), hq_Authorization := cq_Authorization q, hq_Body := (case cq_Body q of None \<Rightarrow> '''' | Some b \<Rightarrow> b)\<rparr>"

definition plain_id :: "string \<Rightarrow> bool" where
  "plain_id i \<longleftrightarrow> i \<notin> {'''', ''.'', ''..''} \<and> list_all (\<lambda>c. visible c \<and> c \<notin> {CHR ''/'', CHR ''?'', CHR ''#'', CHR ''%''}) i"

fun command_id :: "command \<Rightarrow> string option" where
  "command_id (Update i req) = Some i"
| "command_id (ScheduleGet i) = Some i"
| "command_id (Pause i) = Some i"
| "command_id (Resume i) = Some i"
| "command_id (Delete i) = Some i"
| "command_id (Trigger i) = Some i"
| "command_id (RunGet i) = Some i"
| "command_id cmd = None"

definition plain_command :: "command \<Rightarrow> bool" where
  "plain_command cmd = (case command_id cmd of None \<Rightarrow> True | Some i \<Rightarrow> plain_id i)"

fun command_handler :: "command \<Rightarrow> handler" where
  "command_handler Status = HStatus"
| "command_handler (Create req) = HCreate"
| "command_handler (Update i req) = HReplace"
| "command_handler ScheduleList = HListSchedules"
| "command_handler (ScheduleGet i) = HGet"
| "command_handler (Pause i) = HPause"
| "command_handler (Resume i) = HResume"
| "command_handler (Delete i) = HDelete"
| "command_handler (Trigger i) = HTrigger"
| "command_handler RunList = HRuns"
| "command_handler (RunGet i) = HRun"

text \<open>The body each handler is to read: the encoded definition, the encoded reason, an empty object or nothing.\<close>

fun carries :: "Encoder \<Rightarrow> command \<Rightarrow> string \<Rightarrow> bool" where
  "carries enc (Create req) body \<longleftrightarrow> ec_Schedule enc req = Inr body"
| "carries enc (Update i req) body \<longleftrightarrow> ec_Schedule enc req = Inr body"
| "carries enc (Trigger i) body \<longleftrightarrow> ec_Reason enc ''manual operator trigger'' = Inr body"
| "carries enc (Pause i) body \<longleftrightarrow> body = ''{}''"
| "carries enc (Resume i) body \<longleftrightarrow> body = ''{}''"
| "carries enc cmd body \<longleftrightarrow> body = ''''"

lemma built_body:
  "built_request enc cmd = Inr q \<Longrightarrow> carries enc cmd (case cq_Body q of None \<Rightarrow> '''' | Some b \<Rightarrow> b)"
  by (cases cmd) (auto simp: get_url_def sendJSON_def bind_result_def split: sum.splits)

lemma plain_id_simps:
  assumes "plain_id i"
  shows "i \<noteq> ''''" "split_slash i = [i]" "split_slash (i @ CHR ''/'' # t) = i # split_slash t"
proof -
  have "CHR ''/'' \<notin> set i" using assms by (auto simp: plain_id_def list_all_iff)
  then show "split_slash i = [i]" "split_slash (i @ CHR ''/'' # t) = i # split_slash t"
    by (rule split_slash_none, rule split_slash_first)
qed (use assms in \<open>simp add: plain_id_def\<close>)

fun command_line :: "command \<Rightarrow> string \<times> string" where
  "command_line Status = (''GET'', ''/v1/status'')"
| "command_line (Create req) = (''POST'', ''/v1/schedules'')"
| "command_line (Update i req) = (''PUT'', ''/v1/schedules/'' @ i)"
| "command_line ScheduleList = (''GET'', ''/v1/schedules'')"
| "command_line (ScheduleGet i) = (''GET'', ''/v1/schedules/'' @ i)"
| "command_line (Pause i) = (''POST'', ''/v1/schedules/'' @ i @ ''/pause'')"
| "command_line (Resume i) = (''POST'', ''/v1/schedules/'' @ i @ ''/resume'')"
| "command_line (Delete i) = (''DELETE'', ''/v1/schedules/'' @ i)"
| "command_line (Trigger i) = (''POST'', ''/v1/schedules/'' @ i @ ''/trigger'')"
| "command_line RunList = (''GET'', ''/v1/runs'')"
| "command_line (RunGet i) = (''GET'', ''/v1/runs/'' @ i)"

lemma built_line:
  "built_request enc cmd = Inr q \<Longrightarrow> (cq_Method q, cq_Path q) = command_line cmd \<and> cq_Authorization q = ''''"
  by (cases cmd) (auto simp: get_url_def sendJSON_def bind_result_def split: sum.splits)

lemma line_found:
  assumes "plain_command cmd"
  shows "find_handler (fst (command_line cmd)) (tl (split_slash (snd (command_line cmd)))) = Some (command_handler cmd)
    \<and> hd (tl (split_slash (snd (command_line cmd)))) = ''v1'' \<and> length (tl (split_slash (snd (command_line cmd)))) \<ge> 2
    \<and> (command_id cmd = None \<or> Some (tl (split_slash (snd (command_line cmd))) ! 2) = command_id cmd)"
  using assms by (cases cmd) (simp_all add: plain_command_def plain_id_simps find_handler_def mux_patterns_def)

lemma command_found:
  assumes "plain_command cmd" and "built_request enc cmd = Inr q"
  shows "find_handler (cq_Method q) (tl (split_slash (cq_Path q))) = Some (command_handler cmd)"
    and "hd (tl (split_slash (cq_Path q))) = ''v1''" and "length (tl (split_slash (cq_Path q))) \<ge> 2"
    and "command_id cmd = Some i \<Longrightarrow> tl (split_slash (cq_Path q)) ! 2 = i" and "cq_Authorization q = ''''"
  using line_found [OF assms(1)] built_line [OF assms(2)] by (simp_all add: prod_eq_iff)

lemma applyAuth_frame:
  "cq_Method (applyAuth token q) = cq_Method q" "cq_Path (applyAuth token q) = cq_Path q" "cq_Body (applyAuth token q) = cq_Body q"
  by (simp_all add: applyAuth_def)

lemma received_under_v1:
  assumes "hd (tl (split_slash (cq_Path q))) = ''v1''" and "length (tl (split_slash (cq_Path q))) \<ge> 2"
  shows "has_prefix (url_path (received rest q)) ''/v1/''"
  using assms by (cases "tl (split_slash (cq_Path q))"; cases "tl (tl (split_slash (cq_Path q)))")
     (auto simp: url_path_def received_def has_prefix_def)

lemma bearer_accepted:
  assumes "token \<noteq> ''''" and "visible (hd token)" and "visible (last token)"
  shows "authorizedBearer (''Bearer '' @ token) token"
proof -
  have "trim_space (''Bearer '' @ token) = ''Bearer '' @ token"
    using assms by (intro trim_space_visible) (simp_all add: visible_def)
  moreover have "trim_space token = token" using assms by (intro trim_space_visible)
  ultimately show ?thesis by (simp add: authorizedBearer_def has_prefix_def)
qed

text \<open>
  C11: a command of the client does at the server what its name says. For an identifier that needs no escaping
  in a URL and a token without surrounding blanks that the client shares with the server, the request that
  the command sends is let through by the bearer check and is served by the handler of that command, for that
  identifier, and is recorded as the operator's. Its body is the encoded definition for creating and updating, the
  encoded reason for triggering, an empty object for pausing and resuming, and nothing otherwise. The command
  fails exactly when the response is an error.
\<close>

theorem commands_reach_handlers:
  assumes "plain_command cmd" and "command_request enc token cmd = Inr q"
    and "cf_AuthToken (in_Config inp) = token" and "token = '''' \<or> visible (hd token) \<and> visible (last token)"
    and "handle inp db (received rest q) (command_handler cmd) = ((status, reply), db1)"
  shows "controlPlaneMiddleware inp db (received rest q)
      = ((status, reply), recordAudit inp db1 (received rest q) status (if token \<noteq> '''' then ''operator'' else ''''))
    \<and> (\<forall>i. command_id cmd = Some i \<longrightarrow> hq_Segments (received rest q) ! 2 = i)
    \<and> (case cmd of
         Create req \<Rightarrow> ec_Schedule enc req = Inr (hq_Body (received rest q))
       | Update i req \<Rightarrow> ec_Schedule enc req = Inr (hq_Body (received rest q))
       | Trigger i \<Rightarrow> ec_Reason enc ''manual operator trigger'' = Inr (hq_Body (received rest q))
       | Pause i \<Rightarrow> hq_Body (received rest q) = ''{}''
       | Resume i \<Rightarrow> hq_Body (received rest q) = ''{}''
       | _ \<Rightarrow> hq_Body (received rest q) = '''')
    \<and> run_command enc token (\<lambda>q. let r = fst (controlPlaneMiddleware inp db (received rest q)) in Inr (fst r, render (snd r))) cmd
      = (if status \<ge> 400 then Inl (render reply) else Inr (render reply))"
proof -
  obtain q0 where q0: "built_request enc cmd = Inr q0" and q: "q = applyAuth token q0"
    using assms(2) by (auto simp: command_request_def bind_result_def split: sum.splits)
  note found = command_found [OF assms(1) q0]
  have path: "tl (split_slash (cq_Path q)) = tl (split_slash (cq_Path q0))" by (simp add: q applyAuth_frame)
  have mux: "NewMux inp db (received rest q) = ((status, reply), db1)"
    using found assms(5) by (simp add: NewMux_def received_def q applyAuth_frame)
  have v1: "has_prefix (url_path (received rest q)) ''/v1/''"
    using found by (intro received_under_v1) (simp_all add: path)
  have auth: "token \<noteq> '''' \<Longrightarrow> authorizedBearer (hq_Authorization (received rest q)) token"
    using assms(4) bearer_accepted by (simp add: received_def q applyAuth_def)
  have served: "controlPlaneMiddleware inp db (received rest q)
      = ((status, reply), recordAudit inp db1 (received rest q) status (if token \<noteq> '''' then ''operator'' else ''''))"
    using v1 auth mux assms(3) by (cases "token = ''''") (simp_all add: controlPlaneMiddleware_def Let_def)
  moreover have "carries enc cmd (hq_Body (received rest q))"
    using built_body [OF q0] by (simp add: received_def q applyAuth_frame)
  then have "case cmd of
         Create req \<Rightarrow> ec_Schedule enc req = Inr (hq_Body (received rest q))
       | Update i req \<Rightarrow> ec_Schedule enc req = Inr (hq_Body (received rest q))
       | Trigger i \<Rightarrow> ec_Reason enc ''manual operator trigger'' = Inr (hq_Body (received rest q))
       | Pause i \<Rightarrow> hq_Body (received rest q) = ''{}''
       | Resume i \<Rightarrow> hq_Body (received rest q) = ''{}''
       | _ \<Rightarrow> hq_Body (received rest q) = ''''"
    by (cases cmd) simp_all
  moreover have "hq_Segments (received rest q) = tl (split_slash (cq_Path q0))" by (simp add: received_def path)
  ultimately show ?thesis
    using found assms(2) by (simp add: run_command_def do_response_def bind_result_def)
qed

section \<open>Samples\<close>

definition sample_encoder :: Encoder where
  "sample_encoder = \<lparr>ec_Schedule = (\<lambda>_. Inr ''{}''), ec_Reason = (\<lambda>reason. Inr reason)\<rparr>"

theorem commands_reach_handlers_witness:
  "\<exists>status reply db1. handle sample_api (sys_db sys_idle)
       (received (sample_api_request '''') \<lparr>cq_Method = ''POST'', cq_Path = ''/v1/schedules/sch_1/trigger'',
          cq_Body = Some ''manual operator trigger'', cq_Authorization = ''Bearer secret''\<rparr>) HTrigger = ((status, reply), db1)
    \<and> fst (controlPlaneMiddleware sample_api (sys_db sys_idle)
       (received (sample_api_request '''') \<lparr>cq_Method = ''POST'', cq_Path = ''/v1/schedules/sch_1/trigger'',
          cq_Body = Some ''manual operator trigger'', cq_Authorization = ''Bearer secret''\<rparr>)) = (status, reply)"
proof -
  define q where "q = \<lparr>cq_Method = ''POST'', cq_Path = ''/v1/schedules/sch_1/trigger'',
     cq_Body = Some ''manual operator trigger'', cq_Authorization = ''Bearer secret''\<rparr>"
  obtain status reply db1 where run: "handle sample_api (sys_db sys_idle) (received (sample_api_request '''') q) HTrigger
      = ((status, reply), db1)" by (metis prod.collapse)
  have plain: "plain_command (Trigger ''sch_1'')" by (simp add: plain_command_def plain_id_def visible_def)
  have sent: "command_request sample_encoder ''secret'' (Trigger ''sch_1'') = Inr q"
    by (simp add: command_request_def sendJSON_def sample_encoder_def applyAuth_def bind_result_def q_def)
  have token: "''secret'' = '''' \<or> visible (hd ''secret'') \<and> visible (last ''secret'')" by (simp add: visible_def)
  have "handle sample_api (sys_db sys_idle) (received (sample_api_request '''') q) (command_handler (Trigger ''sch_1''))
      = ((status, reply), db1)" using run by simp
  from commands_reach_handlers [OF plain sent sample_api_config(1) token this] run
  show ?thesis unfolding q_def by auto
qed

end
