(* ===== verification/Daemon.thy ===== *)
theory Daemon
  imports Operators
begin

text \<open>
  The life of a daemon process: \<open>Service.Run\<close> with its two loops (\<open>internal/scheduler/loop.go\<close>,
  \<open>runDispatcher\<close> of \<open>internal/app/service.go\<close>), and \<open>CloseContext\<close> with the drain of the dispatcher. Runs
  of the service, closers and executions are concurrent; a step is what one of them does between two
  points where the others can be noticed.
\<close>

section \<open>Construction\<close>

text \<open>\<open>strings.ToLower\<close> as far as it can yield ASCII: the dotted capital I and the Kelvin sign, two and
  three bytes long, have ASCII lower case; other letters beyond ASCII never do and stay as they are.\<close>

fun to_lower :: "string \<Rightarrow> string" where
  "to_lower [] = []"
| "to_lower (c # cs) =
     (if c = CHR 0xC4 \<and> has_prefix cs [CHR 0xB0] then CHR ''i'' # to_lower (drop 1 cs)
      else if c = CHR 0xE2 \<and> has_prefix cs [CHR 0x84, CHR 0xAA] then CHR ''k'' # to_lower (drop 2 cs)
      else ascii_lower c # to_lower cs)"

text \<open>\<open>openStore\<close> chooses the dialect and the data source; connecting is outside the model.\<close>

definition OpenPostgres :: "string \<Rightarrow> (string, dialect \<times> string) result" where
  "OpenPostgres databaseURL =
     (if trim_space databaseURL = '''' then Inl ''postgres database URL is required'' else Inr (Postgres, databaseURL))"

definition openStore :: "Config \<Rightarrow> (string, dialect \<times> string) result" where
  "openStore cfg =
     (let d = to_lower (cf_StoreDialect cfg) in
      if d = '''' \<or> d = ''sqlite'' then Inr (SQLite, cf_DatabasePath cfg)
      else if d = ''postgres'' then OpenPostgres (cf_DatabaseURL cfg)
      else Inl (''unsupported store dialect '' @ quoted (cf_StoreDialect cfg)))"

section \<open>The state of a process\<close>

text \<open>Where a loop is: in a tick, at its \<open>select\<close>, or returned.\<close>

datatype loop_pc = Ticking | Waiting | Ended

text \<open>Where a call of \<open>CloseContext\<close> is: waiting for the done channel of a run, about to cancel the
  executions, waiting for them, or returned. The number is that of the runs begun when it looked.\<close>

datatype close_pc = AwaitingLoop nat nat | Stopping nat | Draining nat | Closed nat | GaveUp

record Process =
  pr_DB :: DB
  pr_Open :: bool
  pr_Active :: Active
  pr_Executing :: "(nat \<times> string) set"
  pr_runDone :: "nat option"
  pr_Begun :: nat
  pr_Cancelled :: "nat set"
  pr_Done :: "nat set"
  pr_Planner :: "nat \<Rightarrow> loop_pc"
  pr_Dispatcher :: "nat \<Rightarrow> loop_pc"
  pr_LastTick :: "time option"
  pr_Close :: "nat \<Rightarrow> close_pc option"

text \<open>\<open>NewWithOptions\<close>, on a database that is migrated.\<close>

definition new_process :: "DB \<Rightarrow> Process" where
  "new_process db =
     \<lparr>pr_DB = db, pr_Open = True, pr_Active = \<lparr>active_executions = Map.empty, cancelled_executions = {}\<rparr>,
      pr_Executing = {}, pr_runDone = None, pr_Begun = 0, pr_Cancelled = {}, pr_Done = {},
      pr_Planner = (\<lambda>_. Ended), pr_Dispatcher = (\<lambda>_. Ended), pr_LastTick = None, pr_Close = (\<lambda>_. None)\<rparr>"

section \<open>Operations\<close>

text \<open>\<open>Service.Run\<close> up to the start of its two loops.\<close>

definition run_begins :: "Process \<Rightarrow> (string, Process) result" where
  "run_begins p =
     bind_result (beginRun (pr_Begun p) (pr_runDone p)) (\<lambda>runDone.
       Inr (p\<lparr>pr_runDone := runDone, pr_Begun := pr_Begun p + 1,
              pr_Planner := (pr_Planner p)(pr_Begun p := Ticking),
              pr_Dispatcher := (pr_Dispatcher p)(pr_Begun p := Ticking)\<rparr>))"

text \<open>The deferred end of \<open>Service.Run\<close>: cancel and close the done channel, then forget the run.\<close>

definition run_ends :: "nat \<Rightarrow> Process \<Rightarrow> Process" where
  "run_ends k p = p\<lparr>pr_Cancelled := insert k (pr_Cancelled p), pr_Done := insert k (pr_Done p)\<rparr>"

definition run_forgotten :: "nat \<Rightarrow> Process \<Rightarrow> Process" where
  "run_forgotten k p = p\<lparr>pr_runDone := clearRunState k (pr_runDone p)\<rparr>"

text \<open>One tick of the scheduler's loop; a failure, as on a closed store, is only logged.\<close>

definition planner_tick ::
    "Env \<Rightarrow> Config \<Rightarrow> (nat \<Rightarrow> nat \<Rightarrow> time) \<Rightarrow> (nat \<Rightarrow> nat \<Rightarrow> string) \<Rightarrow> time \<Rightarrow> nat \<Rightarrow> Process \<Rightarrow> Process option" where
  "planner_tick env cfg clock newID now k p =
     map_option (\<lambda>db. p\<lparr>pr_DB := db, pr_LastTick := Some now, pr_Planner := (pr_Planner p)(k := Waiting)\<rparr>)
       (if pr_Open p then Planner_Tick env (misfire_grace [cf_SchedulerInterval cfg]) clock newID now (pr_DB p)
        else Some (pr_DB p))"

text \<open>What a tick of the dispatcher's loop reads besides the process.\<close>

record TickInputs =
  ti_Dialect :: dialect
  ti_PruneNow :: time
  ti_Now :: time
  ti_RecoverClock :: "nat \<Rightarrow> time"
  ti_IDs :: "nat \<Rightarrow> NewIDs"
  ti_Clock :: "nat \<Rightarrow> time"
  ti_ClaimClock :: "nat \<Rightarrow> time"
  ti_Tokens :: "nat \<Rightarrow> string"

text \<open>Retention comes first, then the dispatcher; the executions it starts run under the loop's context.\<close>

definition dispatcher_tick :: "Config \<Rightarrow> TickInputs \<Rightarrow> nat \<Rightarrow> Process \<Rightarrow> Process" where
  "dispatcher_tick cfg ti k p =
     (let (err, started, db, act) =
        (if pr_Open p
         then Dispatcher_Tick (ti_Dialect ti) (cf_ReceiptMaxBytes cfg) (cf_WorkerID cfg) (cf_LeaseTTL cfg) (ti_Now ti)
                (ti_RecoverClock ti) (ti_IDs ti) (ti_Clock ti) (ti_ClaimClock ti) (ti_Tokens ti)
                (pruneRetention cfg (ti_PruneNow ti) (pr_DB p), pr_Active p)
         else (None, [], pr_DB p, pr_Active p))
      in p\<lparr>pr_DB := db, pr_Active := act,
           pr_Executing := pr_Executing p \<union> (\<lambda>(s, run). (k, r_ExecutionLeaseToken run)) ` set started,
           pr_Dispatcher := (pr_Dispatcher p)(k := Waiting)\<rparr>)"

text \<open>The first part of \<open>CloseContext\<close>: \<open>runtimeHandle\<close>, and the cancellation of the run it found.\<close>

definition close_begins :: "nat \<Rightarrow> Process \<Rightarrow> Process" where
  "close_begins c p =
     (case pr_runDone p of
        Some k \<Rightarrow> p\<lparr>pr_Cancelled := insert k (pr_Cancelled p), pr_Close := (pr_Close p)(c \<mapsto> AwaitingLoop k (pr_Begun p))\<rparr>
      | None \<Rightarrow> p\<lparr>pr_Close := (pr_Close p)(c \<mapsto> Stopping (pr_Begun p))\<rparr>)"

section \<open>Steps\<close>

inductive process_step :: "Env \<Rightarrow> Config \<Rightarrow> Process \<Rightarrow> Process \<Rightarrow> bool" for env cfg where
  begins: "run_begins p = Inr p' \<Longrightarrow> process_step env cfg p p'"
| planner: "pr_Planner p k = Ticking \<Longrightarrow> planner_tick env cfg clock newID now k p = Some p' \<Longrightarrow> process_step env cfg p p'"
| planner_again: "pr_Planner p k = Waiting \<Longrightarrow> process_step env cfg p (p\<lparr>pr_Planner := (pr_Planner p)(k := Ticking)\<rparr>)"
| planner_stops: "pr_Planner p k = Waiting \<Longrightarrow> k \<in> pr_Cancelled p
    \<Longrightarrow> process_step env cfg p (p\<lparr>pr_Planner := (pr_Planner p)(k := Ended)\<rparr>)"
| dispatcher: "pr_Dispatcher p k = Ticking \<Longrightarrow> process_step env cfg p (dispatcher_tick cfg ti k p)"
| dispatcher_again: "pr_Dispatcher p k = Waiting \<Longrightarrow> process_step env cfg p (p\<lparr>pr_Dispatcher := (pr_Dispatcher p)(k := Ticking)\<rparr>)"
| dispatcher_stops: "pr_Dispatcher p k = Waiting \<Longrightarrow> k \<in> pr_Cancelled p
    \<Longrightarrow> process_step env cfg p (p\<lparr>pr_Dispatcher := (pr_Dispatcher p)(k := Ended)\<rparr>)"
| ends: "pr_runDone p = Some k \<Longrightarrow> pr_Planner p k = Ended \<Longrightarrow> pr_Dispatcher p k = Ended
    \<Longrightarrow> process_step env cfg p (run_ends k p)"
| forgotten: "k \<in> pr_Done p \<Longrightarrow> process_step env cfg p (run_forgotten k p)"
| interrupted: "process_step env cfg p (p\<lparr>pr_Cancelled := insert k (pr_Cancelled p)\<rparr>)"
| execution_works: "process_step env cfg p (p\<lparr>pr_DB := db, pr_Active := act\<rparr>)"
| execution_ends: "e \<in> pr_Executing p \<Longrightarrow> process_step env cfg p (p\<lparr>pr_Executing := pr_Executing p - {e}\<rparr>)"
| close: "pr_Close p c = None \<Longrightarrow> process_step env cfg p (close_begins c p)"
| loop_stopped: "pr_Close p c = Some (AwaitingLoop k n) \<Longrightarrow> k \<in> pr_Done p
    \<Longrightarrow> process_step env cfg p (p\<lparr>pr_Close := (pr_Close p)(c \<mapsto> Stopping n)\<rparr>)"
| stop: "pr_Close p c = Some (Stopping n)
    \<Longrightarrow> process_step env cfg p (p\<lparr>pr_Active := Shutdown (pr_Active p), pr_Close := (pr_Close p)(c \<mapsto> Draining n)\<rparr>)"
| drained: "pr_Close p c = Some (Draining n) \<Longrightarrow> pr_Executing p = {}
    \<Longrightarrow> process_step env cfg p (p\<lparr>pr_Open := False, pr_Close := (pr_Close p)(c \<mapsto> Closed n)\<rparr>)"
| timeout: "pr_Close p c = Some (AwaitingLoop k n) \<or> pr_Close p c = Some (Draining n)
    \<Longrightarrow> process_step env cfg p (p\<lparr>pr_Close := (pr_Close p)(c \<mapsto> GaveUp)\<rparr>)"

section \<open>The invariant\<close>

definition close_looked :: "close_pc \<Rightarrow> nat option" where
  "close_looked pc = (case pc of AwaitingLoop k n \<Rightarrow> Some n | Stopping n \<Rightarrow> Some n | Draining n \<Rightarrow> Some n | Closed n \<Rightarrow> Some n
     | GaveUp \<Rightarrow> None)"

text \<open>The run that has begun and not closed its done channel.\<close>

definition live :: "Process \<Rightarrow> nat \<Rightarrow> bool" where
  "live p k \<longleftrightarrow> pr_runDone p = Some k \<and> k \<notin> pr_Done p"

definition idle :: "Process \<Rightarrow> bool" where
  "idle p \<longleftrightarrow> (\<forall>k. \<not> live p k)"

definition loops_inv :: "Process \<Rightarrow> bool" where
  "loops_inv p \<longleftrightarrow> (\<forall>k. pr_Planner p k \<noteq> Ended \<or> pr_Dispatcher p k \<noteq> Ended \<longrightarrow> live p k)
     \<and> (\<forall>k. pr_runDone p = Some k \<longrightarrow> k < pr_Begun p)
     \<and> (\<forall>k < pr_Begun p. live p k \<or> k \<in> pr_Cancelled p)
     \<and> (\<forall>(k, t) \<in> pr_Executing p. k < pr_Begun p) \<and> (\<forall>k \<in> pr_Done p. k < pr_Begun p)"

lemma live_cong: "pr_runDone q = pr_runDone p \<Longrightarrow> pr_Done q = pr_Done p \<Longrightarrow> live q = live p"
  by (simp add: live_def fun_eq_iff)

lemma live_begun: "loops_inv p \<Longrightarrow> live p k \<Longrightarrow> k < pr_Begun p"
  by (simp add: loops_inv_def live_def)

lemma loops_inv_frame:
  assumes "loops_inv p" and "live q = live p" and "pr_Begun q = pr_Begun p" and "pr_runDone q = pr_runDone p \<or> pr_runDone q = None"
    and "pr_Done q = pr_Done p" and "pr_Cancelled p \<subseteq> pr_Cancelled q"
    and "\<And>k. pr_Planner q k \<noteq> Ended \<Longrightarrow> pr_Planner p k \<noteq> Ended" and "\<And>k. pr_Dispatcher q k \<noteq> Ended \<Longrightarrow> pr_Dispatcher p k \<noteq> Ended"
    and "\<And>k t. (k, t) \<in> pr_Executing q \<Longrightarrow> (k, t) \<in> pr_Executing p \<or> live p k"
  shows "loops_inv q"
  unfolding loops_inv_def assms(2,3,5)
proof (intro conjI allI impI ballI)
  show "live p k" if "pr_Planner q k \<noteq> Ended \<or> pr_Dispatcher q k \<noteq> Ended" for k
    using assms(1,7,8) that by (auto simp: loops_inv_def)
  show "k < pr_Begun p" if "pr_runDone q = Some k" for k using assms(1,4) that by (auto simp: loops_inv_def)
  show "live p k \<or> k \<in> pr_Cancelled q" if "k < pr_Begun p" for k using assms(1,6) that by (auto simp: loops_inv_def)
  show "case e of (k, t) \<Rightarrow> k < pr_Begun p" if "e \<in> pr_Executing q" for e
    using assms(1,9) live_begun [OF assms(1)] that by (fastforce simp: loops_inv_def)
  show "k < pr_Begun p" if "k \<in> pr_Done p" for k using assms(1) that by (auto simp: loops_inv_def)
qed

text \<open>As long as no run has begun since a closer looked, it finds only the run it saw, and later none.\<close>

definition closer_ok :: "Process \<Rightarrow> close_pc \<Rightarrow> bool" where
  "closer_ok p pc \<longleftrightarrow> (\<forall>n. close_looked pc = Some n \<longrightarrow> n \<le> pr_Begun p)
     \<and> (close_looked pc = Some (pr_Begun p) \<longrightarrow>
          (case pc of
             AwaitingLoop k n \<Rightarrow> pr_runDone p = Some k \<or> idle p
           | Closed n \<Rightarrow> idle p \<and> pr_Executing p = {}
           | _ \<Rightarrow> idle p))
     \<and> (\<forall>n. pc = Closed n \<longrightarrow> \<not> pr_Open p)"

definition process_inv :: "Process \<Rightarrow> bool" where
  "process_inv p \<longleftrightarrow> loops_inv p \<and> (\<forall>c pc. pr_Close p c = Some pc \<longrightarrow> closer_ok p pc)"

lemma closer_moves:
  assumes "\<forall>c pc. pr_Close p c = Some pc \<longrightarrow> closer_ok p pc" and "closer_ok q pc"
    and "\<And>c' pc'. c' \<noteq> c \<Longrightarrow> closer_ok p pc' \<Longrightarrow> closer_ok q pc'" and "pr_Close q = (pr_Close p)(c \<mapsto> pc)"
  shows "\<forall>c pc. pr_Close q c = Some pc \<longrightarrow> closer_ok q pc"
  using assms by auto

lemma step_loops_inv:
  assumes "process_step env cfg p q" and "process_inv p"
  shows "loops_inv q"
proof -
  have inv: "loops_inv p" using assms(2) by (simp add: process_inv_def)
  note frame = loops_inv_frame [OF inv]
  have ticking: "live p k" if "pr_Dispatcher p k = Ticking" for k using inv that by (simp add: loops_inv_def)
  from assms(1) show ?thesis
  proof cases
    case begins
    then have none: "pr_runDone p = None" and q: "q = p\<lparr>pr_runDone := Some (pr_Begun p), pr_Begun := pr_Begun p + 1,
        pr_Planner := (pr_Planner p)(pr_Begun p := Ticking), pr_Dispatcher := (pr_Dispatcher p)(pr_Begun p := Ticking)\<rparr>"
      by (auto simp: run_begins_def beginRun_def split: if_splits)
    have "\<not> live p k" for k by (simp add: live_def none)
    with inv have "pr_Planner p k = Ended \<and> pr_Dispatcher p k = Ended" "k < pr_Begun p \<Longrightarrow> k \<in> pr_Cancelled p" for k
      by (auto simp: loops_inv_def)
    with inv show ?thesis by (auto simp: q loops_inv_def live_def less_Suc_eq)
  next
    case (ends k)
    have "live q j \<longleftrightarrow> live p j \<and> j \<noteq> k" for j by (auto simp: ends(1) live_def run_ends_def)
    moreover have "pr_Planner p j = Ended \<and> pr_Dispatcher p j = Ended \<or> live p j" for j using inv by (auto simp: loops_inv_def)
    ultimately show ?thesis using inv ends(2,3,4) by (auto simp: ends(1) loops_inv_def run_ends_def)
  next
    case (forgotten k)
    have "live q = live p" using forgotten(2) by (auto simp: forgotten(1) run_forgotten_def clearRunState_def live_def)
    then show ?thesis by (rule frame) (simp_all add: forgotten(1) run_forgotten_def clearRunState_def)
  next
    case (planner k clock newID now)
    show ?thesis by (rule frame [OF live_cong]) (use planner in \<open>auto simp: planner_tick_def split: if_splits\<close>)
  next
    case (dispatcher k ti)
    then show ?thesis
      using ticking by (intro frame [OF live_cong]) (auto simp: dispatcher_tick_def split: if_splits prod.splits)
  next
    case (close c)
    show ?thesis unfolding close(1) by (rule frame [OF live_cong]) (auto simp: close_begins_def split: option.splits)
  qed (rule frame [OF live_cong]; auto split: if_splits)+
qed

lemma closer_begins: "closer_ok p pc \<Longrightarrow> run_begins p = Inr q \<Longrightarrow> closer_ok q pc"
  by (cases pc) (auto simp: closer_ok_def close_looked_def run_begins_def beginRun_def split: if_splits)

lemma closer_frame:
  assumes "closer_ok p pc" and "pr_Begun q = pr_Begun p" and "pr_runDone q = pr_runDone p \<and> pr_Done p \<subseteq> pr_Done q \<or> idle q"
    and "pr_Executing q \<subseteq> pr_Executing p \<or> \<not> idle p" and "pr_Open q \<longrightarrow> pr_Open p"
  shows "closer_ok q pc"
proof -
  have "idle q" if "idle p" using assms(3) that by (auto simp: idle_def live_def)
  then show ?thesis using assms by (cases pc) (auto simp: closer_ok_def close_looked_def)
qed

lemma closers_unmoved:
  assumes "\<forall>c pc. pr_Close p c = Some pc \<longrightarrow> closer_ok p pc" and "pr_Close q = pr_Close p" and "pr_Begun q = pr_Begun p"
    and "pr_runDone q = pr_runDone p \<and> pr_Done p \<subseteq> pr_Done q \<or> idle q"
    and "pr_Executing q \<subseteq> pr_Executing p \<or> \<not> idle p" and "pr_Open q \<longrightarrow> pr_Open p"
  shows "\<forall>c pc. pr_Close q c = Some pc \<longrightarrow> closer_ok q pc"
  unfolding assms(2) using assms(1) closer_frame [OF _ assms(3-6)] by blast

lemma closer_moved:
  assumes "\<forall>c pc. pr_Close p c = Some pc \<longrightarrow> closer_ok p pc" and "pr_Close q = (pr_Close p)(c \<mapsto> pc)"
    and "closer_ok q pc" and "pr_Begun q = pr_Begun p" and "pr_runDone q = pr_runDone p" and "pr_Done q = pr_Done p"
    and "pr_Executing q = pr_Executing p" and "pr_Open q \<longrightarrow> pr_Open p"
  shows "\<forall>c pc. pr_Close q c = Some pc \<longrightarrow> closer_ok q pc"
  unfolding assms(2) using assms(1,3-) closer_frame [of p _ q] by (metis fun_upd_apply option.inject order_refl)

lemma closer_advances:
  "closer_ok p (AwaitingLoop k n) \<Longrightarrow> k \<in> pr_Done p \<Longrightarrow> closer_ok p (Stopping n)"
  "closer_ok p (Stopping n) \<Longrightarrow> closer_ok p (Draining n)"
  "closer_ok p (Draining n) \<Longrightarrow> pr_Executing p = {} \<Longrightarrow> \<not> pr_Open p \<Longrightarrow> closer_ok p (Closed n)"
  "closer_ok p GaveUp"
  by (auto simp: closer_ok_def close_looked_def idle_def live_def)

lemma closer_looks: "pr_Close (close_begins c p) = (pr_Close p)(c \<mapsto> case pr_runDone p of Some k \<Rightarrow> AwaitingLoop k (pr_Begun p) | None \<Rightarrow> Stopping (pr_Begun p))"
  "closer_ok (close_begins c p) (case pr_runDone p of Some k \<Rightarrow> AwaitingLoop k (pr_Begun p) | None \<Rightarrow> Stopping (pr_Begun p))"
  by (auto simp: close_begins_def closer_ok_def close_looked_def idle_def live_def split: option.split)

lemma close_begins_frame:
  "pr_Begun (close_begins c p) = pr_Begun p" "pr_runDone (close_begins c p) = pr_runDone p" "pr_Done (close_begins c p) = pr_Done p"
  "pr_Executing (close_begins c p) = pr_Executing p" "pr_Open (close_begins c p) = pr_Open p"
  by (simp_all add: close_begins_def split: option.split)

lemma dispatcher_tick_frame:
  "pr_Close (dispatcher_tick cfg ti k p) = pr_Close p" "pr_Begun (dispatcher_tick cfg ti k p) = pr_Begun p"
  "pr_runDone (dispatcher_tick cfg ti k p) = pr_runDone p" "pr_Open (dispatcher_tick cfg ti k p) = pr_Open p"
  "pr_Done (dispatcher_tick cfg ti k p) = pr_Done p"
  by (simp_all add: dispatcher_tick_def split: prod.split)

lemma step_closers:
  assumes "process_step env cfg p q" and "process_inv p"
  shows "\<forall>c pc. pr_Close q c = Some pc \<longrightarrow> closer_ok q pc"
proof -
  note closers = assms(2) [unfolded process_inv_def, THEN conjunct2]
  note same = closers_unmoved [OF closers] and moved = closer_moved [OF closers]
  from assms(1) show ?thesis
  proof cases
    case begins
    moreover from begins have "pr_Close q = pr_Close p" by (auto simp: run_begins_def beginRun_def split: if_splits)
    ultimately show ?thesis using closers closer_begins [OF _ begins] by simp
  next
    case (planner k clock newID now)
    show ?thesis by (rule same) (use planner in \<open>auto simp: planner_tick_def\<close>)
  next
    case (dispatcher k ti)
    have "live p k" using dispatcher(2) assms(2) by (simp add: process_inv_def loops_inv_def)
    then have "\<not> idle p" by (auto simp: idle_def)
    then show ?thesis by (intro same) (simp_all add: dispatcher(1) dispatcher_tick_frame)
  next
    case (ends k)
    show ?thesis by (rule same) (auto simp: ends(1) run_ends_def)
  next
    case (forgotten k)
    show ?thesis by (rule same) (auto simp: forgotten(1) run_forgotten_def clearRunState_def idle_def live_def)
  next
    case (close c)
    show ?thesis unfolding close(1) by (rule moved [OF closer_looks]) (simp_all add: close_begins_frame)
  next
    case (loop_stopped c k n)
    then have "closer_ok p (Stopping n)" using closers closer_advances(1) by blast
    then show ?thesis by (intro moved [of _ c "Stopping n"]) (simp_all add: loop_stopped(1) closer_ok_def idle_def live_def)
  next
    case (stop c n)
    then have "closer_ok p (Draining n)" using closers closer_advances(2) by blast
    then show ?thesis by (intro moved [of _ c "Draining n"]) (simp_all add: stop(1) closer_ok_def idle_def live_def)
  next
    case (drained c n)
    define p' where "p' = p\<lparr>pr_Open := False\<rparr>"
    have "closer_ok p (Draining n)" using closers drained(2) by blast
    then have "closer_ok p' (Draining n)" by (rule closer_frame) (simp_all add: p'_def)
    then have "closer_ok p' (Closed n)" by (rule closer_advances(3)) (simp_all add: p'_def drained(3))
    then have "closer_ok q (Closed n)" by (simp add: p'_def drained(1) closer_ok_def idle_def live_def)
    then show ?thesis by (intro moved [of _ c "Closed n"]) (simp_all add: drained(1))
  next
    case (timeout c k n)
    then show ?thesis by (intro moved [of _ c GaveUp]) (simp_all add: closer_advances)
  qed (rule same; simp)+
qed

lemma process_step_keeps: "process_inv p \<Longrightarrow> process_step env cfg p q \<Longrightarrow> process_inv q"
  using step_loops_inv step_closers unfolding process_inv_def by blast

interpretation lifecycle: transition_system "\<lambda>p. \<exists>db. p = new_process db" "process_step env cfg" process_inv for env cfg
proof unfold_locales
  show "process_inv p" if "\<exists>db. p = new_process db" for p
    using that by (auto simp: new_process_def process_inv_def loops_inv_def)
qed (rule process_step_keeps)

section \<open>Properties\<close>

lemma reachable_process: "(process_step env cfg)\<^sup>*\<^sup>* (new_process db) p \<Longrightarrow> process_inv p"
  by (rule lifecycle.reachable_inv [of "new_process db"]) blast

text \<open>
  C21: a service runs one pair of loops at a time and shuts down cleanly. Whatever the interleaving of
  runs, ticks, executions, closers and their timeouts: loops that have not returned belong to one run,
  and while there is one, a second call of \<open>Run\<close> is refused. Once a closer has got past its wait, and as
  long as no new run has begun, both loops of every run have returned and what still executes does so under a
  cancelled context; when it returns without error, nothing executes and the store is closed.
\<close>

theorem shutdown_is_clean:
  assumes "(process_step env cfg)\<^sup>*\<^sup>* (new_process db) p"
  shows "(pr_Planner p j \<noteq> Ended \<or> pr_Dispatcher p j \<noteq> Ended \<longrightarrow> run_begins p = Inl ''service already running''
      \<and> (pr_Planner p k \<noteq> Ended \<or> pr_Dispatcher p k \<noteq> Ended \<longrightarrow> j = k))
    \<and> (pr_Close p c \<in> {Some (Stopping (pr_Begun p)), Some (Draining (pr_Begun p)), Some (Closed (pr_Begun p))} \<longrightarrow>
        (\<forall>k. pr_Planner p k = Ended \<and> pr_Dispatcher p k = Ended)
        \<and> (\<forall>(k, t) \<in> pr_Executing p. k \<in> pr_Cancelled p))
    \<and> (pr_Close p c = Some (Closed (pr_Begun p)) \<longrightarrow> pr_Executing p = {} \<and> \<not> pr_Open p)"
proof -
  have loops: "loops_inv p" and closers: "\<forall>c pc. pr_Close p c = Some pc \<longrightarrow> closer_ok p pc"
    using reachable_process [OF assms] by (simp_all add: process_inv_def)
  have past: "idle p" if phase: "pr_Close p c \<in> {Some (Stopping (pr_Begun p)), Some (Draining (pr_Begun p)), Some (Closed (pr_Begun p))}"
  proof -
    obtain pc where "pr_Close p c = Some pc" and pc: "pc \<in> {Stopping (pr_Begun p), Draining (pr_Begun p), Closed (pr_Begun p)}"
      using phase by (cases "pr_Close p c") auto
    with closers have "closer_ok p pc" by blast
    with pc show ?thesis by (auto simp: closer_ok_def close_looked_def)
  qed
  have closed: "pr_Executing p = {} \<and> \<not> pr_Open p" if "pr_Close p c = Some (Closed (pr_Begun p))"
  proof -
    have "closer_ok p (Closed (pr_Begun p))" using closers that by blast
    then show ?thesis by (simp add: closer_ok_def close_looked_def)
  qed
  have "(\<forall>k. pr_Planner p k = Ended \<and> pr_Dispatcher p k = Ended) \<and> (\<forall>(k, t) \<in> pr_Executing p. k \<in> pr_Cancelled p)"
    if "idle p"
    using loops that by (fastforce simp: loops_inv_def idle_def)
  moreover have "run_begins p = Inl ''service already running'' \<and> pr_runDone p = Some i"
    if "pr_Planner p i \<noteq> Ended \<or> pr_Dispatcher p i \<noteq> Ended" for i
  proof -
    have "live p i" using loops that by (auto simp: loops_inv_def)
    then show ?thesis by (simp add: live_def run_begins_def beginRun_def)
  qed
  ultimately show ?thesis using past closed by (metis option.inject)
qed

section \<open>Samples\<close>

text \<open>A run that begins on an empty database, is closed while its loops tick, and drains.\<close>

definition sample_tick :: TickInputs where
  "sample_tick = \<lparr>ti_Dialect = SQLite, ti_PruneNow = 1, ti_Now = 1, ti_RecoverClock = (\<lambda>_. 1),
     ti_IDs = (\<lambda>_. \<lparr>id_retry = ''run'', id_dead = ''dl'', id_receipts = (\<lambda>_. ''rcp'')\<rparr>), ti_Clock = (\<lambda>_. 1),
     ti_ClaimClock = (\<lambda>_. 1), ti_Tokens = (\<lambda>_. ''tok'')\<rparr>"

definition sample_config :: Config where
  "sample_config = FromEnv (\<lambda>_. '''') ''v1''"

lemma empty_ticks:
  "Dispatcher_Tick d m w ttl now rc ids clk cc tok (empty_db, act) = (None, [], empty_db, act)"
  "Planner_Tick env g c i now empty_db = Some empty_db"
  by (simp_all add: Dispatcher_Tick_def recoverExpiredLeases_def ListExpiredLeases_def ListCandidateRuns_def empty_db_def
      Planner_Tick_def ListAllSchedules_def)

lemma sample_prune: "pruneRetention sample_config now db = db"
  by (simp add: pruneRetention_def sample_config_def FromEnv_def intEnv_def)

text \<open>The same life step by step, over any process that has only begun one run on an empty database.\<close>

lemma empty_planner_tick:
  "pr_DB p = empty_db \<Longrightarrow> planner_tick env cfg clock newID now k p
     = Some (p\<lparr>pr_LastTick := Some now, pr_Planner := (pr_Planner p)(k := Waiting)\<rparr>)"
  by (cases p) (simp add: planner_tick_def empty_ticks)

lemma empty_dispatcher_tick:
  "pr_DB p = empty_db \<Longrightarrow> dispatcher_tick sample_config ti k p = p\<lparr>pr_Dispatcher := (pr_Dispatcher p)(k := Waiting)\<rparr>"
  by (cases p) (simp add: dispatcher_tick_def empty_ticks sample_prune)

definition stage :: "nat \<Rightarrow> nat set \<Rightarrow> nat set \<Rightarrow> loop_pc \<Rightarrow> loop_pc \<Rightarrow> close_pc option \<Rightarrow> Process" where
  "stage begun cancelled dones planner dispatcher closing = (new_process empty_db)
     \<lparr>pr_Begun := begun, pr_runDone := Some 0, pr_Cancelled := cancelled,
      pr_Done := dones, pr_Planner := (\<lambda>_. Ended)(0 := planner), pr_Dispatcher := (\<lambda>_. Ended)(0 := dispatcher),
      pr_Close := Map.empty(0 := closing), pr_LastTick := (if planner = Ticking then None else Some 1),
      pr_Open := (closing \<noteq> Some (Closed 1))\<rparr>"

lemma stage_steps:
  "process_step env sample_config (stage 1 {} {} Ticking Ticking None) (stage 1 {0} {} Ticking Ticking (Some (AwaitingLoop 0 1)))"
  "process_step env sample_config (stage 1 {0} {} Ticking Ticking c) (stage 1 {0} {} Waiting Ticking c)"
  "process_step env sample_config (stage 1 {0} {} Waiting d c) (stage 1 {0} {} Ended d c)"
  "process_step env sample_config (stage 1 {0} {} Ended Ticking c) (stage 1 {0} {} Ended Waiting c)"
  "process_step env sample_config (stage 1 {0} {} Ended Waiting c) (stage 1 {0} {} Ended Ended c)"
  "process_step env sample_config (stage 1 {0} {} Ended Ended c) (stage 1 {0} {0} Ended Ended c)"
  "process_step env sample_config (stage 1 {0} {0} Ended Ended (Some (AwaitingLoop 0 1))) (stage 1 {0} {0} Ended Ended (Some (Stopping 1)))"
  "process_step env sample_config (stage 1 {0} {0} Ended Ended (Some (Stopping 1))) (stage 1 {0} {0} Ended Ended (Some (Draining 1)))"
  "process_step env sample_config (stage 1 {0} {0} Ended Ended (Some (Draining 1))) (stage 1 {0} {0} Ended Ended (Some (Closed 1)))"
proof -
  let ?step = "process_step env sample_config"
  have by_rule: "?step p q" if "?step p q'" "q' = q" for p q q' using that by simp
  show "?step (stage 1 {} {} Ticking Ticking None) (stage 1 {0} {} Ticking Ticking (Some (AwaitingLoop 0 1)))"
    by (rule by_rule, rule process_step.close [of _ 0]) (simp_all add: stage_def new_process_def close_begins_def)
  show "?step (stage 1 {0} {} Ticking Ticking c) (stage 1 {0} {} Waiting Ticking c)"
    by (rule process_step.planner [where k = 0 and clock = "\<lambda>_ _. 1" and newID = "\<lambda>_ _. ''run''" and now = 1])
       (simp_all add: stage_def new_process_def empty_planner_tick)
  show "?step (stage 1 {0} {} Waiting d c) (stage 1 {0} {} Ended d c)"
    by (rule by_rule, rule process_step.planner_stops [of _ 0]) (simp_all add: stage_def new_process_def)
  show "?step (stage 1 {0} {} Ended Ticking c) (stage 1 {0} {} Ended Waiting c)"
    by (rule by_rule, rule process_step.dispatcher [where k = 0 and ti = sample_tick])
       (simp_all add: stage_def new_process_def empty_dispatcher_tick)
  show "?step (stage 1 {0} {} Ended Waiting c) (stage 1 {0} {} Ended Ended c)"
    by (rule by_rule, rule process_step.dispatcher_stops [of _ 0]) (simp_all add: stage_def new_process_def)
  show "?step (stage 1 {0} {} Ended Ended c) (stage 1 {0} {0} Ended Ended c)"
    by (rule by_rule, rule process_step.ends [of _ 0]) (simp_all add: stage_def new_process_def run_ends_def)
  show "?step (stage 1 {0} {0} Ended Ended (Some (AwaitingLoop 0 1))) (stage 1 {0} {0} Ended Ended (Some (Stopping 1)))"
    by (rule by_rule, rule process_step.loop_stopped [of _ 0]) (simp_all add: stage_def new_process_def)
  show "?step (stage 1 {0} {0} Ended Ended (Some (Stopping 1))) (stage 1 {0} {0} Ended Ended (Some (Draining 1)))"
    by (rule by_rule, rule process_step.stop [of _ 0]) (simp_all add: stage_def new_process_def Shutdown_def)
  show "?step (stage 1 {0} {0} Ended Ended (Some (Draining 1))) (stage 1 {0} {0} Ended Ended (Some (Closed 1)))"
    by (rule by_rule, rule process_step.drained [of _ 0]) (simp_all add: stage_def new_process_def)
qed

lemma sample_life:
  "(process_step sample_env sample_config)\<^sup>*\<^sup>* (new_process empty_db) (stage 1 {0} {0} Ended Ended (Some (Closed 1)))"
proof -
  have "process_step sample_env sample_config (new_process empty_db) (stage 1 {} {} Ticking Ticking None)"
    by (rule process_step.begins) (simp add: run_begins_def beginRun_def stage_def new_process_def fun_upd_def)
  then show ?thesis
    using stage_steps [where env = sample_env] by (meson converse_rtranclp_into_rtranclp rtranclp.rtrancl_refl)
qed

theorem shutdown_is_clean_witness:
  "pr_Executing (stage 1 {0} {0} Ended Ended (Some (Closed 1))) = {}
   \<and> \<not> pr_Open (stage 1 {0} {0} Ended Ended (Some (Closed 1)))"
  using shutdown_is_clean [OF sample_life, THEN conjunct2, THEN conjunct2, of 0] by (simp add: stage_def)

end
