(* ===== verification/Deploy.thy ===== *)
theory Deploy
  imports HttpJob "HOL-Library.Multiset"
begin

text \<open>
  The check of rendered deployments (\<open>tools/deploycheck\<close>): a stream of Kubernetes resources is read one
  after the other and refused at the first violation. The YAML decoder is a parameter: the stream is a list
  of decoded resources or decoding errors.
\<close>

section \<open>Resources\<close>

record Container =
  cn_Name :: string
  cn_EnvFrom :: "string list"
  cn_Env :: "(string \<times> string) list"
  cn_AllowPrivilegeEscalation :: bool
  cn_ReadOnlyRootFilesystem :: bool
  cn_VolumeMounts :: "(string \<times> string) list"

record PodSpec =
  pd_AutomountServiceAccountToken :: bool
  pd_TerminationGracePeriodSeconds :: int
  pd_RunAsNonRoot :: bool
  pd_RunAsUser :: int
  pd_FSGroup :: int
  pd_Containers :: "Container list"
  pd_Volumes :: "(string \<times> string) list"

record resource =
  rs_Kind :: string
  rs_Name :: string
  rs_Provisioner :: string
  rs_ReclaimPolicy :: string
  rs_Type :: string
  rs_Replicas :: int
  rs_Strategy :: string
  rs_AccessModes :: "string list"
  rs_StorageClassName :: string
  rs_Pod :: PodSpec

record Topology =
  tp_Deployments :: "string list"
  tp_Claims :: "string list"
  tp_Services :: "string list"
  tp_StorageClass :: string

section \<open>The check\<close>

definition expected_provisioner :: "string \<Rightarrow> string" where
  "expected_provisioner provider = (if provider = ''google-cloud'' then ''pd.csi.storage.gke.io'' else ''ebs.csi.aws.com'')"

text \<open>The checks of a deployment after those on its replicas.\<close>

definition check_container :: "string \<Rightarrow> PodSpec \<Rightarrow> Container \<Rightarrow> string option" where
  "check_container name pod c =
     (if cn_AllowPrivilegeEscalation c \<or> \<not> cn_ReadOnlyRootFilesystem c \<or> length (cn_EnvFrom c) \<noteq> 1
         \<or> hd (cn_EnvFrom c) \<noteq> name @ ''-secrets''
      then Some ''unsafe container or missing secret reference''
      else if \<not> list_ex (\<lambda>(v, path). v = ''state'' \<and> path = ''/data'') (cn_VolumeMounts c)
              \<or> \<not> list_ex (\<lambda>(v, claim). v = ''state'' \<and> claim = name @ ''-state'') (pd_Volumes pod)
      then Some (''missing durable state for '' @ name)
      else if name = ''runner'' \<and> \<not> list_ex (\<lambda>(n, v). n = ''AUTOMATION_RUNNER_PUBLIC_URL''
              \<and> v = ''http://runner.wakeplane.svc.cluster.local:8080'') (cn_Env c)
      then Some ''runner origin must be private and match its service''
      else None)"

definition check_pod :: "string \<Rightarrow> PodSpec \<Rightarrow> string option" where
  "check_pod name pod =
     (if pd_AutomountServiceAccountToken pod \<or> \<not> pd_RunAsNonRoot pod \<or> pd_RunAsUser pod \<noteq> 10001 \<or> pd_FSGroup pod \<noteq> 10001
         \<or> pd_TerminationGracePeriodSeconds pod < 30
      then Some (''unsafe pod security or drain '' @ name)
      else case pd_Containers pod of
        [c] \<Rightarrow> check_container name pod c
      | _ \<Rightarrow> Some ''daemon and runner must remain separate'')"

definition check_resource :: "string \<Rightarrow> Topology \<Rightarrow> resource \<Rightarrow> (string, Topology) result" where
  "check_resource provider tp r =
     (let name = rs_Name r in
      if rs_Kind r = ''StorageClass''
      then if rs_Provisioner r \<noteq> expected_provisioner provider \<or> rs_ReclaimPolicy r \<noteq> ''Retain''
           then Inl ''provider storage must retain state'' else Inr (tp\<lparr>tp_StorageClass := name\<rparr>)
      else if rs_Kind r = ''PersistentVolumeClaim''
      then if name \<in> set (tp_Claims tp) \<or> rs_AccessModes r \<noteq> [''ReadWriteOnce''] \<or> rs_StorageClassName r \<noteq> ''wakeplane-'' @ provider
           then Inl (''invalid durable claim '' @ name) else Inr (tp\<lparr>tp_Claims := name # tp_Claims tp\<rparr>)
      else if rs_Kind r = ''Service''
      then if name \<in> set (tp_Services tp) \<or> rs_Type r \<noteq> ''ClusterIP''
           then Inl (''service '' @ name @ '' must remain private'') else Inr (tp\<lparr>tp_Services := name # tp_Services tp\<rparr>)
      else if rs_Kind r = ''Deployment''
      then if name \<in> set (tp_Deployments tp) \<or> rs_Replicas r \<noteq> 1 \<or> rs_Strategy r \<noteq> ''Recreate''
           then Inl (name @ '' must be one replica without deployment overlap'')
           else (case check_pod name (rs_Pod r) of
               Some err \<Rightarrow> Inl err
             | None \<Rightarrow> Inr (tp\<lparr>tp_Deployments := name # tp_Deployments tp\<rparr>))
      else if rs_Kind r = ''Namespace'' then Inr tp
      else Inl (''unreviewed resource kind '' @ rs_Kind r))"

definition check_topology :: "string \<Rightarrow> Topology \<Rightarrow> string option" where
  "check_topology provider tp =
     (if tp_StorageClass tp \<noteq> ''wakeplane-'' @ provider \<or> length (tp_Deployments tp) \<noteq> 2 \<or> length (tp_Claims tp) \<noteq> 2
         \<or> length (tp_Services tp) \<noteq> 2
      then Some ''incomplete topology''
      else if list_ex (\<lambda>name. name \<notin> set (tp_Deployments tp) \<or> name @ ''-state'' \<notin> set (tp_Claims tp) \<or> name \<notin> set (tp_Services tp))
                [''daemon'', ''runner'']
      then Some ''missing daemon or runner resources'' else None)"

fun validate_loop :: "string \<Rightarrow> Topology \<Rightarrow> (string, resource) result list \<Rightarrow> string option" where
  "validate_loop provider tp [] = check_topology provider tp"
| "validate_loop provider tp (d # ds) =
     (case d of
        Inl err \<Rightarrow> Some err
      | Inr r \<Rightarrow> (case check_resource provider tp r of Inl err \<Rightarrow> Some err | Inr tp1 \<Rightarrow> validate_loop provider tp1 ds))"

definition validate_deployment :: "string \<Rightarrow> (string, resource) result list \<Rightarrow> string option" where
  "validate_deployment provider ds =
     validate_loop provider \<lparr>tp_Deployments = [], tp_Claims = [], tp_Services = [], tp_StorageClass = ''''\<rparr> ds"

section \<open>The deployments that pass\<close>

definition names_of :: "string \<Rightarrow> resource list \<Rightarrow> string list" where
  "names_of kind rs = map rs_Name (filter (\<lambda>r. rs_Kind r = kind) rs)"

text \<open>A deployment that keeps its state: one replica that is never run twice, unprivileged, with its own secrets
  and its own claim mounted.\<close>

definition safe_deployment :: "resource \<Rightarrow> bool" where
  "safe_deployment r \<longleftrightarrow>
     (let name = rs_Name r; pod = rs_Pod r in
      rs_Replicas r = 1 \<and> rs_Strategy r = ''Recreate'' \<and> \<not> pd_AutomountServiceAccountToken pod \<and> pd_RunAsNonRoot pod
      \<and> pd_RunAsUser pod = 10001 \<and> pd_FSGroup pod = 10001 \<and> 30 \<le> pd_TerminationGracePeriodSeconds pod
      \<and> (''state'', name @ ''-state'') \<in> set (pd_Volumes pod)
      \<and> (\<exists>c. pd_Containers pod = [c] \<and> \<not> cn_AllowPrivilegeEscalation c \<and> cn_ReadOnlyRootFilesystem c
           \<and> cn_EnvFrom c = [name @ ''-secrets''] \<and> (''state'', ''/data'') \<in> set (cn_VolumeMounts c)
           \<and> (name = ''runner''
               \<longrightarrow> (''AUTOMATION_RUNNER_PUBLIC_URL'', ''http://runner.wakeplane.svc.cluster.local:8080'') \<in> set (cn_Env c))))"

definition safe_resource :: "string \<Rightarrow> resource \<Rightarrow> bool" where
  "safe_resource provider r \<longleftrightarrow>
     rs_Kind r = ''Namespace''
     \<or> rs_Kind r = ''StorageClass'' \<and> rs_Provisioner r = expected_provisioner provider \<and> rs_ReclaimPolicy r = ''Retain''
     \<or> rs_Kind r = ''PersistentVolumeClaim'' \<and> rs_AccessModes r = [''ReadWriteOnce''] \<and> rs_StorageClassName r = ''wakeplane-'' @ provider
     \<or> rs_Kind r = ''Service'' \<and> rs_Type r = ''ClusterIP''
     \<or> rs_Kind r = ''Deployment'' \<and> safe_deployment r"

definition safe_topology :: "string \<Rightarrow> resource list \<Rightarrow> bool" where
  "safe_topology provider rs \<longleftrightarrow>
     list_all (safe_resource provider) rs
     \<and> names_of ''StorageClass'' rs \<noteq> [] \<and> last (names_of ''StorageClass'' rs) = ''wakeplane-'' @ provider
     \<and> mset (names_of ''Deployment'' rs) = {#''daemon'', ''runner''#}
     \<and> mset (names_of ''PersistentVolumeClaim'' rs) = {#''daemon-state'', ''runner-state''#}
     \<and> mset (names_of ''Service'' rs) = {#''daemon'', ''runner''#}"

lemma check_pod_safe:
  "rs_Replicas r = 1 \<and> rs_Strategy r = ''Recreate'' \<and> check_pod (rs_Name r) (rs_Pod r) = None \<longleftrightarrow> safe_deployment r"
  by (auto simp: check_pod_def check_container_def safe_deployment_def Let_def list_ex_iff length_Suc_conv not_less
      split: list.split if_splits)

section \<open>The loop\<close>

definition added :: "resource \<Rightarrow> Topology \<Rightarrow> Topology" where
  "added r tp =
     (if rs_Kind r = ''StorageClass'' then tp\<lparr>tp_StorageClass := rs_Name r\<rparr>
      else if rs_Kind r = ''PersistentVolumeClaim'' then tp\<lparr>tp_Claims := rs_Name r # tp_Claims tp\<rparr>
      else if rs_Kind r = ''Service'' then tp\<lparr>tp_Services := rs_Name r # tp_Services tp\<rparr>
      else if rs_Kind r = ''Deployment'' then tp\<lparr>tp_Deployments := rs_Name r # tp_Deployments tp\<rparr>
      else tp)"

definition no_repetition :: "Topology \<Rightarrow> bool" where
  "no_repetition tp \<longleftrightarrow> distinct (tp_Deployments tp) \<and> distinct (tp_Claims tp) \<and> distinct (tp_Services tp)"

lemma check_resource_iff:
  assumes "no_repetition tp"
  shows "check_resource provider tp r = Inr tp' \<longleftrightarrow> safe_resource provider r \<and> no_repetition (added r tp) \<and> tp' = added r tp"
  using assms check_pod_safe [of r]
  by (auto simp: check_resource_def safe_resource_def added_def no_repetition_def Let_def split: option.splits)

definition all_added :: "resource list \<Rightarrow> Topology \<Rightarrow> Topology" where
  "all_added rs tp = fold added rs tp"

lemma all_added_fields:
  "tp_Deployments (all_added rs tp) = rev (names_of ''Deployment'' rs) @ tp_Deployments tp"
  "tp_Claims (all_added rs tp) = rev (names_of ''PersistentVolumeClaim'' rs) @ tp_Claims tp"
  "tp_Services (all_added rs tp) = rev (names_of ''Service'' rs) @ tp_Services tp"
  "tp_StorageClass (all_added rs tp) = (if names_of ''StorageClass'' rs = [] then tp_StorageClass tp else last (names_of ''StorageClass'' rs))"
  by (induction rs arbitrary: tp) (simp_all add: all_added_def added_def names_of_def)

lemma no_repetition_prefix: "no_repetition (all_added rs tp) \<Longrightarrow> no_repetition tp"
  by (simp add: no_repetition_def all_added_fields)

lemma validate_loop_iff:
  assumes "no_repetition tp"
  shows "validate_loop provider tp (map Inr rs) = None
    \<longleftrightarrow> list_all (safe_resource provider) rs \<and> no_repetition (all_added rs tp) \<and> check_topology provider (all_added rs tp) = None"
  using assms
proof (induction rs arbitrary: tp)
  case Nil
  then show ?case by (simp add: all_added_def)
next
  case (Cons r rs)
  have step: "all_added (r # rs) tp = all_added rs (added r tp)" by (simp add: all_added_def)
  show ?case
  proof (cases "safe_resource provider r \<and> no_repetition (added r tp)")
    case True
    then have "check_resource provider tp r = Inr (added r tp)" using check_resource_iff [OF Cons.prems] by blast
    then show ?thesis using Cons.IH [of "added r tp"] True by (simp add: step)
  next
    case False
    then have "\<exists>err. check_resource provider tp r = Inl err"
      using check_resource_iff [OF Cons.prems] by (cases "check_resource provider tp r") auto
    then show ?thesis using False no_repetition_prefix [of rs "added r tp"] by (auto simp: step)
  qed
qed

lemma validate_loop_decodes: "validate_loop provider tp ds = None \<Longrightarrow> \<exists>rs. ds = map Inr rs"
proof (induction ds arbitrary: tp)
  case (Cons d ds)
  then obtain r tp1 where "d = Inr r" "validate_loop provider tp1 ds = None" by (auto split: sum.splits)
  with Cons.IH obtain rs where "ds = map Inr rs" by blast
  with \<open>d = Inr r\<close> show ?case by (intro exI [of _ "r # rs"]) simp
qed simp

lemma pair_of_names:
  assumes "a \<noteq> b"
  shows "distinct xs \<and> length xs = 2 \<and> a \<in> set xs \<and> b \<in> set xs \<longleftrightarrow> mset xs = {#a, b#}"
proof
  assume "mset xs = {#a, b#}"
  then have "mset xs = mset [a, b]" by simp
  with assms show "distinct xs \<and> length xs = 2 \<and> a \<in> set xs \<and> b \<in> set xs"
    by (metis mset_eq_setD mset_eq_length mset_eq_imp_distinct_iff distinct_length_2_or_more distinct_singleton list.set_intros length_Cons
        list.size(3) One_nat_def Suc_1)
next
  assume "distinct xs \<and> length xs = 2 \<and> a \<in> set xs \<and> b \<in> set xs"
  then show "mset xs = {#a, b#}" using assms by (auto simp: length_Suc_conv numeral_2_eq_2)
qed

text \<open>
  C37: exactly the safe deployments pass the check. The check succeeds if and only if every document of the
  stream decodes, every resource is safe (storage that is retained, claims for one writer, private services,
  unprivileged deployments of one replica that are never run twice, each with its own secrets and claim), and
  the resources are one daemon and one runner with a service and a claim each, on the provider's storage class.
\<close>

theorem deployment_check_exact:
  "validate_deployment provider ds = None \<longleftrightarrow> (\<exists>rs. ds = map Inr rs \<and> safe_topology provider rs)"
proof -
  define tp where "tp = \<lparr>tp_Deployments = [], tp_Claims = [], tp_Services = [], tp_StorageClass = ''''\<rparr>"
  have "validate_loop provider tp (map Inr rs) = None \<longleftrightarrow> safe_topology provider rs" for rs
  proof -
    have "no_repetition tp" by (simp add: tp_def no_repetition_def)
    note loop = validate_loop_iff [OF this, of provider rs]
    have "no_repetition (all_added rs tp) \<and> check_topology provider (all_added rs tp) = None
        \<longleftrightarrow> names_of ''StorageClass'' rs \<noteq> [] \<and> last (names_of ''StorageClass'' rs) = ''wakeplane-'' @ provider
          \<and> mset (names_of ''Deployment'' rs) = {#''daemon'', ''runner''#}
          \<and> mset (names_of ''PersistentVolumeClaim'' rs) = {#''daemon-state'', ''runner-state''#}
          \<and> mset (names_of ''Service'' rs) = {#''daemon'', ''runner''#}"
      by (subst (1 2 3) pair_of_names [symmetric])
         (auto simp: no_repetition_def check_topology_def all_added_fields tp_def)
    then show ?thesis unfolding loop by (simp add: safe_topology_def)
  qed
  then show ?thesis
    using validate_loop_decodes [of provider tp ds] by (auto simp: validate_deployment_def tp_def)
qed

end
