(* ===== verification/RunnerText.thy ===== *)
theory RunnerText
  imports GoString
begin

text \<open>
  The text functions of the automation runner (\<open>tasks.go\<close>, \<open>notifications.go\<close>, \<open>email.go\<close>): cutting a text at a
  number of runes, removing markup and white space, the length limit of a chat message, and wrapping.
  Texts are UTF-8, as the JSON and XML decoders give them; a rune is its bytes.
\<close>

definition continuation :: "char \<Rightarrow> bool" where
  "continuation c \<longleftrightarrow> 128 \<le> (of_char c :: nat) \<and> (of_char c :: nat) < 192"

function runes :: "string \<Rightarrow> string list" where
  "runes [] = []"
| "runes (c # cs) = (c # takeWhile continuation cs) # runes (dropWhile continuation cs)"
  by pat_completeness auto
termination by (relation "measure length") (auto simp: length_dropWhile_le le_imp_less_Suc)

definition ellipsis :: string where
  "ellipsis = bytes [226, 128, 166]"

definition truncate_text :: "string \<Rightarrow> nat \<Rightarrow> string" where
  "truncate_text value limit =
     (if length (runes value) > limit then concat (take limit (runes value)) @ ellipsis else value)"

text \<open>\<open><[^>]*>\<close> replaced by a space.\<close>

function strip_tags :: "string \<Rightarrow> string" where
  "strip_tags [] = []"
| "strip_tags (c # cs) =
     (if c = CHR ''<'' \<and> CHR ''>'' \<in> set cs then CHR '' '' # strip_tags (tl (dropWhile (\<lambda>x. x \<noteq> CHR ''>'') cs))
      else c # strip_tags cs)"
  by pat_completeness auto
termination
proof (relation "measure length")
  fix c and cs :: string
  have "length (tl (dropWhile (\<lambda>x. x \<noteq> CHR ''>'') cs)) \<le> length cs"
    using length_dropWhile_le [of "\<lambda>x. x \<noteq> CHR ''>''" cs] by simp
  then show "(tl (dropWhile (\<lambda>x. x \<noteq> CHR ''>'') cs), c # cs) \<in> measure length" by simp
qed simp_all

text \<open>\<open>strings.Fields\<close>: the first word and what follows it, and all words.\<close>

fun next_word :: "string \<Rightarrow> string \<times> string" where
  "next_word [] = ([], [])"
| "next_word (c # cs) =
     (if list_ex (has_prefix (c # cs)) space_runes then ([], c # cs)
      else case next_word cs of (word, rest) \<Rightarrow> (c # word, rest))"

lemma next_word_append: "next_word s = (word, rest) \<Longrightarrow> s = word @ rest"
  by (induction s arbitrary: word) (auto split: if_splits prod.splits)

lemma trim_left_stops: "trim_left ws s \<noteq> [] \<Longrightarrow> w \<in> set ws \<Longrightarrow> w \<noteq> [] \<Longrightarrow> \<not> has_prefix (trim_left ws s) w"
proof (induction ws s rule: trim_left.induct)
  case (1 ws s)
  show ?case
  proof (cases "find (\<lambda>w. w \<noteq> [] \<and> has_prefix s w) ws")
    case None
    then have "trim_left ws s = s" by (simp add: trim_left.simps [of ws s])
    with None 1(3,4) show ?thesis by (auto simp: find_None_iff)
  next
    case (Some v)
    then have "trim_left ws s = trim_left ws (drop (length v) s)" by (simp add: trim_left.simps [of ws s])
    with 1 Some show ?thesis by simp
  qed
qed

lemma space_runes_nonempty: "w \<in> set space_runes \<Longrightarrow> w \<noteq> []"
  by (auto simp: space_runes_def bytes_def)

lemma next_word_shorter:
  assumes "trim_left space_runes s \<noteq> []"
  shows "length (snd (next_word (trim_left space_runes s))) < length s"
proof -
  obtain c cs where t: "trim_left space_runes s = c # cs" using assms by (cases "trim_left space_runes s") auto
  have "\<not> list_ex (has_prefix (c # cs)) space_runes"
    using trim_left_stops [OF assms] space_runes_nonempty by (auto simp: t list_ex_iff)
  moreover obtain word rest where n: "next_word cs = (word, rest)" by fastforce
  ultimately have "snd (next_word (c # cs)) = rest" by simp
  then show ?thesis using next_word_append [OF n] trim_left_length [of space_runes s] by (simp add: t)
qed

function fields :: "string \<Rightarrow> string list" where
  "fields s =
     (if trim_left space_runes s = [] then []
      else fst (next_word (trim_left space_runes s)) # fields (snd (next_word (trim_left space_runes s))))"
  by pat_completeness auto
termination by (relation "measure length") (simp_all add: next_word_shorter)

declare fields.simps [simp del]

fun spaced :: "string list \<Rightarrow> string" where
  "spaced [] = []"
| "spaced [w] = w"
| "spaced (v # w # ws) = v @ CHR '' '' # spaced (w # ws)"

definition plainText :: "(string \<Rightarrow> string) \<Rightarrow> string \<Rightarrow> nat \<Rightarrow> string" where
  "plainText unescape value limit = truncate_text (spaced (fields (unescape (strip_tags value)))) limit"

section \<open>Chat messages\<close>

text \<open>A rune of four bytes takes two UTF-16 units.\<close>

definition rune_units :: "string \<Rightarrow> nat" where
  "rune_units r = (if 240 \<le> (of_char (hd r) :: nat) then 2 else 1)"

definition shortened_note :: string where
  "shortened_note = CHR 0x0A # ''[Report shortened; open the runner report for full details.]''"

fun discord_loop :: "nat \<Rightarrow> string list \<Rightarrow> string" where
  "discord_loop units [] = []"
| "discord_loop units (r # rs) =
     (if units + rune_units r > 1900 then shortened_note else r @ discord_loop (units + rune_units r) rs)"

definition discordContent :: "string \<Rightarrow> string" where
  "discordContent text = discord_loop 0 (runes text)"

definition text_units :: "string \<Rightarrow> nat" where
  "text_units s = sum_list (map rune_units (runes s))"

section \<open>Wrapping\<close>

fun wrap_words :: "string \<Rightarrow> string list \<Rightarrow> string list" where
  "wrap_words line [] = [line]"
| "wrap_words line (w # ws) =
     (if length line + 1 + length w > 68 \<and> line \<noteq> '''' then line # wrap_words w ws
      else wrap_words (if line \<noteq> '''' then line @ '' '' @ w else w) ws)"

text \<open>\<open>ascii\<close> stands for the Unicode normalization of \<open>asciiText\<close>.\<close>

definition wrapEmailText :: "(string \<Rightarrow> string) \<Rightarrow> string \<Rightarrow> string" where
  "wrapEmailText ascii text =
     (case wrap_words '''' (fields (ascii text)) of [] \<Rightarrow> '''' | l # ls \<Rightarrow> l @ concat (map (\<lambda>x. CHR 0x0A # x) ls))"

section \<open>Runes of a prefix\<close>

lemma concat_runes: "concat (runes s) = s"
  by (induction s rule: runes.induct) simp_all

lemma runes_Cons_append:
  assumes "list_all continuation xs" and "ys = [] \<or> \<not> continuation (hd ys)"
  shows "runes (c # xs @ ys) = (c # xs) # runes ys"
proof -
  have "takeWhile continuation (xs @ ys) = xs" "dropWhile continuation (xs @ ys) = ys"
    using assms by (cases ys; simp add: list_all_iff takeWhile_append2 dropWhile_append2)+
  then show ?thesis by simp
qed

lemma runes_of_take: "k \<noteq> 0 \<Longrightarrow> s \<noteq> [] \<Longrightarrow> concat (take k (runes s)) \<noteq> [] \<and> hd (concat (take k (runes s))) = hd s"
  by (cases k; cases s) simp_all

lemma runes_take_append:
  assumes "y = [] \<or> \<not> continuation (hd y)"
  shows "runes (concat (take k (runes s)) @ y) = take k (runes s) @ runes y"
proof (induction s arbitrary: k rule: runes.induct)
  case (2 c cs)
  show ?case
  proof (cases k)
    case (Suc n)
    let ?rest = "concat (take n (runes (dropWhile continuation cs))) @ y"
    have "?rest = [] \<or> \<not> continuation (hd ?rest)"
    proof (cases "n = 0 \<or> dropWhile continuation cs = []")
      case True
      then have "?rest = y" by (elim disjE) (simp_all del: dropWhile_eq_Nil_conv)
      with assms show ?thesis by (simp only:)
    next
      case False
      then show ?thesis
        using runes_of_take [of n "dropWhile continuation cs"] hd_dropWhile [of continuation cs] by simp
    qed
    moreover have "list_all continuation (takeWhile continuation cs)" by (auto simp: list_all_iff dest: set_takeWhileD)
    ultimately have "runes (c # takeWhile continuation cs @ ?rest) = (c # takeWhile continuation cs) # runes ?rest"
      by (rule runes_Cons_append [rotated])
    then show ?thesis using 2 [of n] Suc by simp
  qed simp
qed simp

lemma runes_note: "runes shortened_note = map (\<lambda>c. [c]) shortened_note"
  by (simp add: shortened_note_def continuation_def)

lemma rune_units_bounds: "1 \<le> rune_units r" "rune_units r \<le> 2"
  by (simp_all add: rune_units_def)

lemma discord_loop_cases:
  obtains (whole) "discord_loop u rs = concat rs" and "u + sum_list (map rune_units rs) \<le> 1900 \<or> rs = []"
  | (cut) k where "discord_loop u rs = concat (take k rs) @ shortened_note" and "sum_list (map rune_units (take k rs)) \<le> 1900 - u"
      and "1900 < u + sum_list (map rune_units rs)"
proof (induction rs arbitrary: u thesis)
  case Nil
  then show ?case by simp
next
  case (Cons r rs)
  show ?case
  proof (cases "u + rune_units r > 1900")
    case True
    then show ?thesis by (intro Cons.prems(2) [of 0]) simp_all
  next
    case False
    show ?thesis
    proof (rule Cons.IH [of "u + rune_units r"])
      assume "discord_loop (u + rune_units r) rs = concat rs" "u + rune_units r + sum_list (map rune_units rs) \<le> 1900 \<or> rs = []"
      then show ?thesis using False by (intro Cons.prems(1)) (auto simp: algebra_simps)
    next
      fix k
      assume "discord_loop (u + rune_units r) rs = concat (take k rs) @ shortened_note"
        "sum_list (map rune_units (take k rs)) \<le> 1900 - (u + rune_units r)" "1900 < u + rune_units r + sum_list (map rune_units rs)"
      then show ?thesis using False by (intro Cons.prems(2) [of "Suc k"]) (auto simp: algebra_simps)
    qed
  qed
qed

text \<open>
  C23: a chat message respects the provider's limit. Whatever the report, the text sent has at most 2000
  UTF-16 units, and it is the whole report unless that has more than 1900.
\<close>

theorem discord_content_fits:
  "text_units (discordContent s) \<le> 2000 \<and> (discordContent s = s \<or> 1900 < text_units s)"
proof (cases rule: discord_loop_cases [of 0 "runes s"])
  case whole
  then show ?thesis by (auto simp: discordContent_def text_units_def concat_runes)
next
  case (cut k)
  have "text_units (discordContent s) = sum_list (map rune_units (take k (runes s))) + sum_list (map rune_units (runes shortened_note))"
    using runes_take_append [of shortened_note k s] cut(1)
    by (simp add: text_units_def discordContent_def) (simp add: shortened_note_def continuation_def)
  moreover have "sum_list (map rune_units (runes shortened_note)) \<le> 100"
    by (simp add: runes_note) (simp add: shortened_note_def rune_units_def)
  ultimately show ?thesis using cut(2,3) by (simp add: text_units_def)
qed

text \<open>A cut text has at most one rune more than the limit, and begins like the whole.\<close>

lemma truncate_bounds:
  "length (runes (truncate_text s n)) \<le> n + 1 \<and> take (length (concat (take n (runes s)))) (truncate_text s n) = concat (take n (runes s))"
proof -
  have "\<not> continuation (hd ellipsis)" "runes ellipsis = [ellipsis]" by (simp_all add: ellipsis_def bytes_def continuation_def)
  then have "runes (concat (take n (runes s)) @ ellipsis) = take n (runes s) @ [ellipsis]" by (simp add: runes_take_append)
  moreover have "s = concat (take n (runes s)) @ concat (drop n (runes s))"
    by (simp add: concat_runes flip: concat_append)
  then have "take (length (concat (take n (runes s)))) s = concat (take n (runes s))" by (metis append_eq_conv_conj)
  ultimately show ?thesis by (simp add: truncate_text_def concat_runes)
qed

text \<open>Lines are at most 68 bytes long, or a single longer word; and no word is lost.\<close>

lemma wrapped_lines:
  assumes "length line \<le> 68 \<or> line \<in> set ws"
  shows "l \<in> set (wrap_words line vs) \<Longrightarrow> set vs \<subseteq> set ws \<Longrightarrow> length l \<le> 68 \<or> l \<in> set ws"
  using assms
proof (induction line vs rule: wrap_words.induct)
  case (2 line w vs)
  then show ?case by (auto split: if_splits)
qed auto

lemma wrap_words_nonempty: "wrap_words line ws \<noteq> []"
  by (induction line ws rule: wrap_words.induct) simp_all

lemma wrapped_words:
  assumes "'''' \<notin> set ws"
  shows "spaced (wrap_words line ws) = spaced (if line = '''' \<and> ws \<noteq> [] then ws else line # ws)"
  using assms
proof (induction line ws rule: wrap_words.induct)
  case (2 line w ws)
  have join: "spaced (v # (if xs = [] then [y] else y # xs)) = v @ CHR '' '' # spaced (y # xs)" for v y xs by simp
  show ?case
  proof (cases "length line + 1 + length w > 68 \<and> line \<noteq> ''''")
    case True
    moreover obtain l ls where "wrap_words w ws = l # ls" using wrap_words_nonempty [of w ws] by (cases "wrap_words w ws") simp_all
    ultimately show ?thesis using 2 by auto
  next
    case False
    then show ?thesis using 2 by (cases ws) (auto split: if_splits)
  qed
qed simp

end
