(* ===== verification/Runner.thy ===== *)
theory Runner
  imports JobContract RunnerText "HOL-Library.AList"
begin

text \<open>
  The automation runner (\<open>examples/automation-runner\<close>), the other side of the remote jobs of
  \<open>HttpJob\<close>: its configuration and request checks, the job table in memory and on disk, and the
  handlers that accept a job and report on it. Hashing, JSON and the file system are parameters; what is
  written to disk is the value that is encoded.
\<close>

section \<open>Data\<close>

record TaskRequest =
  tk_Task :: string
  tk_Repository :: string
  tk_Feeds :: "string list"
  tk_NotifyURL :: string
  tk_NotifyChannel :: string
  tk_WakeplaneEvent :: string

record ReportItem =
  ri_Title :: string
  ri_URL :: string
  ri_Source :: string
  ri_PublishedAt :: string
  ri_Excerpt :: string

record DeliveryState =
  ds_Status :: string
  ds_Attempts :: nat
  ds_LastError :: string
  ds_DeliveredAt :: "time option"
  ds_ProviderMessageID :: string

text \<open>A report as the sources give it, and with the state of its delivery.\<close>

record SourceReport =
  rpt_Title :: string
  rpt_GeneratedAt :: time
  rpt_Summary :: string
  rpt_Items :: "ReportItem list"

record Report = SourceReport +
  rpt_Delivery :: "DeliveryState option"

text \<open>The public part of a job, and the whole of it.\<close>

record PublicJob =
  jb_ID :: string
  jb_StatusURL :: string
  jb_Status :: string
  jb_Percent :: nat
  jb_Message :: string
  jb_Result :: "Report option"
  jb_Artifacts :: "(string \<times> string \<times> string) list"
  jb_Error :: string
  jb_CreatedAt :: time
  jb_UpdatedAt :: time

record RunnerJob = PublicJob +
  jb_Request :: TaskRequest
  jb_Fingerprint :: string

record StoredJob =
  sj_Job :: PublicJob
  sj_Request :: TaskRequest
  sj_Fingerprint :: string

record DiskState =
  dk_Version :: int
  dk_Jobs :: "(string \<times> StoredJob) list"

record RunnerConfig =
  rc_StateDir :: string
  rc_PublicURL :: string
  rc_Token :: string
  rc_GitHubURL :: string
  rc_GitHubToken :: string
  rc_NotifyToken :: string
  rc_NotifyOrigin :: string
  rc_RetryDelay :: duration
  rc_DiscordWebhookURL :: string
  rc_GmailFrom :: string
  rc_GmailTo :: string
  rc_GmailClientID :: string
  rc_GmailClientSecret :: string
  rc_GmailRefreshToken :: string

text \<open>What the runner asks of code outside: URL and address parsing, SHA-256 in hexadecimal, the JSON of a
  task, the number of bytes of an encoded state, a URL with \<open>wait=true\<close> as its query.\<close>

record RunnerEnv =
  re_URLs :: Env
  re_Path :: "string \<Rightarrow> string"
  re_RawQuery :: "string \<Rightarrow> string"
  re_Address :: "string \<Rightarrow> string option"
  re_Sha :: "string \<Rightarrow> string"
  re_Marshal :: "TaskRequest \<Rightarrow> string"
  re_Size :: "DiskState \<Rightarrow> int"
  re_WithWait :: "string \<Rightarrow> string"

definition maxStateBytes :: int where "maxStateBytes = 64 * 1024 * 1024"
definition maxJobs :: int where "maxJobs = 500"
definition maxFeeds :: nat where "maxFeeds = 5"
definition maxDeliveries :: nat where "maxDeliveries = 3"

section \<open>Checks\<close>

definition validHTTPURL :: "RunnerEnv \<Rightarrow> string \<Rightarrow> (string, URL) result" where
  "validHTTPURL e value =
     (case url_parse (re_URLs e) value of
        None \<Rightarrow> Inl ''use an absolute HTTP or HTTPS URL without embedded credentials or a fragment''
      | Some u \<Rightarrow>
          if int (length value) > 2048 \<or> u_Scheme u \<noteq> ''https'' \<and> u_Scheme u \<noteq> ''http'' \<or> u_Hostname u = '''' \<or> u_HasUser u
             \<or> u_Fragment u \<noteq> ''''
          then Inl ''use an absolute HTTP or HTTPS URL without embedded credentials or a fragment''
          else Inr u)"

definition same_url_origin :: "URL \<Rightarrow> URL \<Rightarrow> bool" where
  "same_url_origin a b \<longleftrightarrow> equal_fold (u_Scheme a) (u_Scheme b) \<and> equal_fold (u_Host a) (u_Host b)"

text \<open>The regular expressions, as conditions on the text between slashes.\<close>

definition is_digit :: "char \<Rightarrow> bool" where
  "is_digit c \<longleftrightarrow> 48 \<le> (of_char c :: nat) \<and> (of_char c :: nat) \<le> 57"

definition is_alnum :: "char \<Rightarrow> bool" where
  "is_alnum c \<longleftrightarrow> is_digit c \<or> 65 \<le> (of_char c :: nat) \<and> (of_char c :: nat) \<le> 90
     \<or> 97 \<le> (of_char c :: nat) \<and> (of_char c :: nat) \<le> 122"

definition repositoryName :: "string \<Rightarrow> bool" where
  "repositoryName s \<longleftrightarrow>
     (case split_slash s of
        [owner, name] \<Rightarrow> owner \<noteq> [] \<and> is_alnum (hd owner) \<and> list_all (\<lambda>c. is_alnum c \<or> c = CHR ''-'') owner
          \<and> name \<noteq> [] \<and> list_all (\<lambda>c. is_alnum c \<or> c \<in> {CHR ''_'', CHR ''.'', CHR ''-''}) name
      | _ \<Rightarrow> False)"

definition discordWebhookPath :: "string \<Rightarrow> bool" where
  "discordWebhookPath s \<longleftrightarrow>
     (let digits = (\<lambda>x. x \<noteq> [] \<and> list_all is_digit x);
          token = (\<lambda>x. x \<noteq> [] \<and> list_all (\<lambda>c. is_alnum c \<or> c = CHR ''_'' \<or> c = CHR ''-'') x)
      in case split_slash s of
           [e, api, webhooks, i, t] \<Rightarrow> e = '''' \<and> api = ''api'' \<and> webhooks = ''webhooks'' \<and> digits i \<and> token t
         | [e, api, v, webhooks, i, t] \<Rightarrow> e = '''' \<and> api = ''api'' \<and> v \<noteq> [] \<and> hd v = CHR ''v'' \<and> digits (tl v)
             \<and> webhooks = ''webhooks'' \<and> digits i \<and> token t
         | _ \<Rightarrow> False)"

definition has_suffix :: "string \<Rightarrow> string \<Rightarrow> bool" where
  "has_suffix s p \<longleftrightarrow> has_prefix (rev s) (rev p)"

definition nativeDelivery :: "TaskRequest \<Rightarrow> bool" where
  "nativeDelivery task \<longleftrightarrow> tk_NotifyChannel task = ''discord'' \<or> tk_NotifyChannel task = ''email''"

definition validateDeliveryConfig :: "RunnerEnv \<Rightarrow> RunnerConfig \<Rightarrow> string option" where
  "validateDeliveryConfig e cfg =
     (let gmail = [rc_GmailFrom cfg, rc_GmailTo cfg, rc_GmailClientID cfg, rc_GmailClientSecret cfg, rc_GmailRefreshToken cfg];
          plain = (\<lambda>v. re_Address e v = Some v \<and> \<not> list_ex (\<lambda>c. c = CHR 0x0D \<or> c = CHR 0x0A) v) in
      if rc_DiscordWebhookURL cfg \<noteq> ''''
         \<and> (case validHTTPURL e (rc_DiscordWebhookURL cfg) of
              Inl err \<Rightarrow> True
            | Inr u \<Rightarrow> u_Scheme u \<noteq> ''https'' \<or> u_Host u \<noteq> ''discord.com''
                \<or> \<not> discordWebhookPath (re_Path e (rc_DiscordWebhookURL cfg)) \<or> re_RawQuery e (rc_DiscordWebhookURL cfg) \<noteq> '''')
      then Some ''Discord webhook must be an HTTPS discord.com API webhook URL without query parameters''
      else if list_ex (\<lambda>v. v \<noteq> '''') gmail \<and> list_ex (\<lambda>v. v = '''') gmail
      then Some ''Gmail delivery requires FROM, TO, CLIENT_ID, CLIENT_SECRET and REFRESH_TOKEN settings''
      else if list_ex (\<lambda>v. v \<noteq> '''') gmail \<and> \<not> (plain (rc_GmailFrom cfg) \<and> plain (rc_GmailTo cfg))
      then Some ''Gmail FROM and TO must each be a single plain email address''
      else None)"

definition validateDelivery :: "RunnerConfig \<Rightarrow> TaskRequest \<Rightarrow> string option" where
  "validateDelivery cfg task =
     (let channel = tk_NotifyChannel task in
      if channel \<notin> set ['''', ''webhook'', ''discord'', ''email''] then Some ''notify_channel must be webhook, discord or email''
      else if channel = ''webhook'' \<and> tk_NotifyURL task = '''' then Some ''webhook delivery requires notify_url''
      else if channel = ''discord'' \<and> rc_DiscordWebhookURL cfg = '''' then Some ''Discord delivery is not configured on this runner''
      else if channel = ''email'' \<and> rc_GmailRefreshToken cfg = '''' then Some ''Gmail delivery is not configured on this runner''
      else if nativeDelivery task \<and> tk_NotifyURL task \<noteq> ''''
      then Some ''Discord/email destinations are runner configuration; omit notify_url''
      else None)"

text \<open>The sources of a task; the first bad feed decides.\<close>

definition validate_sources :: "RunnerEnv \<Rightarrow> TaskRequest \<Rightarrow> string option" where
  "validate_sources e task =
     (let repo = tk_Repository task in
      if tk_Task task = ''repository-watch''
      then if \<not> repositoryName repo \<or> has_suffix repo ''/.'' \<or> has_suffix repo ''/..'' \<or> int (length repo) > 200
           then Some ''repository-watch requires repository as owner/name'' else None
      else if tk_Task task = ''weekly-summary''
      then if tk_Feeds task = [] \<or> length (tk_Feeds task) > maxFeeds
           then Some ''weekly-summary requires between 1 and 5 RSS or Atom feed URLs''
           else map_option (\<lambda>f. ''invalid feed URL: '' @ (case validHTTPURL e f of Inl err \<Rightarrow> err | Inr u \<Rightarrow> ''''))
             (find (\<lambda>f. case validHTTPURL e f of Inl err \<Rightarrow> True | Inr u \<Rightarrow> False) (tk_Feeds task))
      else Some ''task must be repository-watch or weekly-summary'')"

definition validateTask :: "RunnerEnv \<Rightarrow> RunnerConfig \<Rightarrow> TaskRequest \<Rightarrow> string option" where
  "validateTask e cfg task =
     (case validate_sources e task of
        Some err \<Rightarrow> Some err
      | None \<Rightarrow>
          (case validateDelivery cfg task of
             Some err \<Rightarrow> Some err
           | None \<Rightarrow>
               if tk_NotifyURL task = '''' then None
               else (case validHTTPURL e (tk_NotifyURL task) of
                   Inl err \<Rightarrow> Some (''invalid notification URL: '' @ err)
                 | Inr u \<Rightarrow>
                     if rc_NotifyToken cfg \<noteq> ''''
                        \<and> (case validHTTPURL e (rc_NotifyOrigin cfg) of Inl err \<Rightarrow> True | Inr origin \<Rightarrow> \<not> same_url_origin u origin)
                     then Some ''notification URL must share the configured credential origin''
                     else None)))"

text \<open>\<open>newRunner\<close> on its configuration; \<open>strings.TrimRight\<close> of the slashes.\<close>

definition trim_slashes :: "string \<Rightarrow> string" where
  "trim_slashes s = rev (dropWhile (\<lambda>c. c = CHR ''/'') (rev s))"

definition invalid_url :: "RunnerEnv \<Rightarrow> string \<Rightarrow> bool" where
  "invalid_url e s = (case validHTTPURL e s of Inl err \<Rightarrow> True | Inr u \<Rightarrow> False)"

definition url_error :: "RunnerEnv \<Rightarrow> string \<Rightarrow> string" where
  "url_error e s = (case validHTTPURL e s of Inl err \<Rightarrow> err | Inr u \<Rightarrow> '''')"

definition configured :: "RunnerEnv \<Rightarrow> RunnerConfig \<Rightarrow> (string, RunnerConfig) result" where
  "configured e cfg0 =
     (if rc_StateDir cfg0 = '''' then Inl ''state directory is required''
      else if rc_PublicURL cfg0 \<noteq> '''' \<and> invalid_url e (rc_PublicURL cfg0)
      then Inl (''public URL: '' @ url_error e (rc_PublicURL cfg0))
      else
        let cfg1 = cfg0\<lparr>rc_PublicURL := trim_slashes (rc_PublicURL cfg0),
              rc_GitHubURL := (if rc_GitHubURL cfg0 = '''' then ''https://api.github.com'' else rc_GitHubURL cfg0)\<rparr> in
        if invalid_url e (rc_GitHubURL cfg1) then Inl (''GitHub API URL: '' @ url_error e (rc_GitHubURL cfg1))
        else if rc_NotifyToken cfg1 \<noteq> '''' \<and> invalid_url e (rc_NotifyOrigin cfg1)
        then Inl ''a notification token requires AUTOMATION_RUNNER_NOTIFY_ORIGIN''
        else (case validateDeliveryConfig e cfg1 of
            Some err \<Rightarrow> Inl err
          | None \<Rightarrow> Inr (cfg1\<lparr>rc_RetryDelay := (if rc_RetryDelay cfg1 = 0 then second else rc_RetryDelay cfg1)\<rparr>)))"

section \<open>The job table\<close>

type_synonym jobs = "(string \<times> RunnerJob) list"
type_synonym disk = "DiskState option"

record Runner =
  rn_Jobs :: jobs
  rn_Queue :: "string list"
  rn_Closed :: bool
  rn_Cancelled :: bool

definition public_part :: "RunnerJob \<Rightarrow> PublicJob" where
  "public_part j = PublicJob.truncate j"

definition stored :: "RunnerJob \<Rightarrow> StoredJob" where
  "stored j = \<lparr>sj_Job = public_part j, sj_Request = jb_Request j, sj_Fingerprint = jb_Fingerprint j\<rparr>"

definition restored :: "StoredJob \<Rightarrow> RunnerJob" where
  "restored s = PublicJob.extend (sj_Job s) (RunnerJob.fields (sj_Request s) (sj_Fingerprint s))"

text \<open>What the file system does with a new state: everything succeeds; something fails before the rename;
  the rename succeeds and syncing the directory fails.\<close>

datatype disk_outcome = Synced | NotWritten string | NotSynced string

definition persistLocked :: "RunnerEnv \<Rightarrow> disk_outcome \<Rightarrow> jobs \<Rightarrow> disk \<Rightarrow> string option \<times> disk" where
  "persistLocked e out jobs disk =
     (let state = \<lparr>dk_Version = 1, dk_Jobs = map (\<lambda>(i, j). (i, stored j)) jobs\<rparr> in
      if re_Size e state > maxStateBytes then (Some ''job state capacity exceeded'', disk)
      else case out of
        Synced \<Rightarrow> (None, Some state)
      | NotWritten err \<Rightarrow> (Some err, disk)
      | NotSynced err \<Rightarrow> (Some err, Some state))"

definition load :: "RunnerEnv \<Rightarrow> disk \<Rightarrow> (string, jobs) result" where
  "load e disk =
     (case disk of
        None \<Rightarrow> Inr []
      | Some state \<Rightarrow>
          if re_Size e state > maxStateBytes then Inl ''job state exceeds the storage limit or cannot be read''
          else if dk_Version state \<noteq> 1 \<or> int (length (dk_Jobs state)) > maxJobs
          then Inl ''unsupported job state version or capacity exceeded''
          else if list_ex (\<lambda>(i, s). i \<noteq> jb_ID (sj_Job s) \<or> sj_Fingerprint s = '''') (dk_Jobs state)
          then Inl ''invalid stored job identity''
          else Inr (map (\<lambda>(i, s). (i, restored s)) (dk_Jobs state)))"

text \<open>\<open>update\<close>: the change is kept in memory only if the new state has been persisted.\<close>

definition update_job ::
    "RunnerEnv \<Rightarrow> time \<Rightarrow> disk_outcome \<Rightarrow> string \<Rightarrow> (RunnerJob \<Rightarrow> RunnerJob) \<Rightarrow> Runner \<times> disk
     \<Rightarrow> string option \<times> Runner \<times> disk" where
  "update_job e now out i change st =
     (let (rn, disk) = st in
      if rn_Closed rn then (Some ''context canceled'', rn, disk)
      else case map_of (rn_Jobs rn) i of
        None \<Rightarrow> (Some ''job disappeared'', rn, disk)
      | Some previous \<Rightarrow>
          let jobs = AList.update i ((change previous)\<lparr>jb_UpdatedAt := now\<rparr>) (rn_Jobs rn);
              (err, disk1) = persistLocked e out jobs disk
          in (err, if err = None then rn\<lparr>rn_Jobs := jobs\<rparr> else rn, disk1))"

section \<open>Handlers\<close>

datatype runner_reply = RrJob PublicJob | RrError string | RrReport Report | RrHealth

definition job_id :: "RunnerEnv \<Rightarrow> string \<Rightarrow> string" where
  "job_id e key = ''job_'' @ re_Sha e key"

definition runner_job :: "RunnerEnv \<Rightarrow> RunnerConfig \<Rightarrow> bool \<Rightarrow> string \<Rightarrow> time \<Rightarrow> string \<Rightarrow> TaskRequest \<Rightarrow> RunnerJob" where
  "runner_job e cfg tls host now key task =
     (let baseURL = (if rc_PublicURL cfg \<noteq> '''' then rc_PublicURL cfg
                     else (if tls then ''https'' else ''http'') @ ''://'' @ host) in
      \<lparr>jb_ID = job_id e key, jb_StatusURL = baseURL @ ''/jobs/'' @ job_id e key, jb_Status = ''queued'',
       jb_Percent = 0, jb_Message = ''Accepted; waiting for execution'', jb_Result = None, jb_Artifacts = [],
       jb_Error = '''', jb_CreatedAt = now, jb_UpdatedAt = now, jb_Request = task,
       jb_Fingerprint = re_Sha e (re_Marshal e task)\<rparr>)"

text \<open>A request body: its decoded task or the reason it is none (syntax, unknown field, size), and what
  follows the first value.\<close>

datatype submit_body = BadBody | ExtraBody TaskRequest | OneTask TaskRequest

text \<open>\<open>submit\<close> gives the status and reply, and the identifier that is put into the queue afterwards.\<close>

definition submit_request ::
    "RunnerEnv \<Rightarrow> RunnerConfig \<Rightarrow> time \<Rightarrow> disk_outcome \<Rightarrow> bool \<Rightarrow> string \<Rightarrow> string \<Rightarrow> submit_body \<Rightarrow> Runner \<times> disk
     \<Rightarrow> (int \<times> runner_reply) \<times> string option \<times> Runner \<times> disk" where
  "submit_request e cfg now out tls host header body st =
     (let (rn, disk) = st; key = trim_space header; refuse = (\<lambda>code msg. ((code, RrError msg), None, rn, disk)) in
      if key = '''' \<or> int (length key) > 512
      then refuse 400 ''Idempotency-Key is required and must be at most 512 characters''
      else case body of
        BadBody \<Rightarrow> refuse 400 ''invalid or oversized job request''
      | ExtraBody task \<Rightarrow> refuse 400 ''request must contain one JSON object''
      | OneTask task \<Rightarrow>
          (case validateTask e cfg task of
             Some err \<Rightarrow> refuse 400 err
           | None \<Rightarrow>
               if rn_Closed rn then refuse 503 ''runner is shutting down''
               else (case map_of (rn_Jobs rn) (job_id e key) of
                   Some existing \<Rightarrow>
                     if jb_Fingerprint existing \<noteq> re_Sha e (re_Marshal e task)
                     then refuse 409 ''Idempotency-Key was already used with different instructions''
                     else ((200, RrJob (public_part existing)), None, rn, disk)
                 | None \<Rightarrow>
                     if int (length (rn_Jobs rn)) \<ge> maxJobs
                     then refuse 503 ''runner job capacity reached; retained state requires operator review''
                     else
                       let entry = runner_job e cfg tls host now key task;
                           jobs = AList.update (job_id e key) entry (rn_Jobs rn);
                           (err, disk1) = persistLocked e out jobs disk
                       in if err \<noteq> None then ((500, RrError ''job could not be durably recorded''), None, rn, disk1)
                          else ((202, RrJob (public_part entry)), Some (job_id e key), rn\<lparr>rn_Jobs := jobs\<rparr>, disk1))))"

definition status_request :: "Runner \<Rightarrow> string \<Rightarrow> int \<times> runner_reply" where
  "status_request rn i =
     (case map_of (rn_Jobs rn) i of None \<Rightarrow> (404, RrError ''job not found'') | Some j \<Rightarrow> (200, RrJob (public_part j)))"

definition lookup_request :: "RunnerEnv \<Rightarrow> Runner \<Rightarrow> string \<Rightarrow> int \<times> runner_reply" where
  "lookup_request e rn header =
     (let key = trim_space header in
      if key = '''' \<or> int (length key) > 512
      then (400, RrError ''Idempotency-Key is required and must be at most 512 characters'')
      else case map_of (rn_Jobs rn) (job_id e key) of
        None \<Rightarrow> (404, RrError ''no recorded job for this Idempotency-Key'')
      | Some j \<Rightarrow> (200, RrJob (public_part j)))"

definition report_request :: "Runner \<Rightarrow> string \<Rightarrow> int \<times> runner_reply" where
  "report_request rn i =
     (case map_of (rn_Jobs rn) i of
        None \<Rightarrow> (404, RrError ''job not found'')
      | Some j \<Rightarrow> (case jb_Result j of None \<Rightarrow> (409, RrError ''report is not ready'') | Some r \<Rightarrow> (200, RrReport r)))"

text \<open>The check of the token in front of every handler but the health check.\<close>

definition runner_authorized :: "RunnerConfig \<Rightarrow> string \<Rightarrow> string \<Rightarrow> bool" where
  "runner_authorized cfg path header =
     (path = ''/healthz'' \<or> rc_Token cfg = ''''
      \<or> (has_prefix header ''Bearer '' \<and> drop (length ''Bearer '') header = rc_Token cfg))"

end

