(* ===== verification/RunnerWork.thy ===== *)
theory RunnerWork
  imports Runner
begin

text \<open>
  The work of the automation runner (\<open>runner.go\<close>, \<open>notifications.go\<close> under
  \<open>examples/automation-runner\<close>): \<open>execute\<close> and \<open>deliver\<close> as steps between two updates of the job table, and
  the runner with its queue, workers, handlers, crashes and restarts as a transition system.
\<close>

section \<open>Notifications\<close>

text \<open>The authorization header a request leaves with: none, the given value, or the access token that the OAuth
  transport of the Gmail client obtains for the configured refresh token.\<close>

datatype authorization = NoAuthorization | NotifyBearer string | GmailAccess

record NotifyRequest =
  nq_Address :: string
  nq_Channel :: string
  nq_JobID :: string
  nq_Task :: string
  nq_Report :: Report
  nq_IdempotencyKey :: "string option"
  nq_Authorization :: authorization

text \<open>No response, or a status with the message identifier its body confirms, if any.\<close>

datatype notify_answer = NoResponse | Answered int "string option"

datatype send_error = NotificationError string bool bool | PlainError string

definition gmailSendURL :: string where
  "gmailSendURL = ''https://gmail.googleapis.com/gmail/v1/users/me/messages/send''"

definition notify_address :: "RunnerEnv \<Rightarrow> RunnerConfig \<Rightarrow> TaskRequest \<Rightarrow> string" where
  "notify_address e cfg task =
     (if tk_NotifyChannel task = ''discord'' then re_WithWait e (rc_DiscordWebhookURL cfg)
      else if tk_NotifyChannel task = ''email'' then gmailSendURL
      else tk_NotifyURL task)"

definition notify_request :: "RunnerEnv \<Rightarrow> RunnerConfig \<Rightarrow> RunnerJob \<Rightarrow> Report \<Rightarrow> (string, NotifyRequest) result" where
  "notify_request e cfg entry result =
     (let task = jb_Request entry; address = notify_address e cfg task in
      if url_parse (re_URLs e) address = None then Inl ''notification request could not be constructed''
      else Inr \<lparr>nq_Address = address, nq_Channel = tk_NotifyChannel task, nq_JobID = jb_ID entry, nq_Task = tk_Task task,
        nq_Report = result\<lparr>rpt_Delivery := None\<rparr>,
        nq_IdempotencyKey = (if nativeDelivery task then None else Some (''wakeplane-notify:'' @ jb_ID entry)),
        nq_Authorization = (if \<not> nativeDelivery task \<and> rc_NotifyToken cfg \<noteq> '''' then NotifyBearer (''Bearer '' @ rc_NotifyToken cfg)
          else if tk_NotifyChannel task = ''email'' then GmailAccess else NoAuthorization)\<rparr>)"

text \<open>Whether the runner has a webhook or a client for the channel; if not, \<open>sendNotification\<close> dereferences a null
  pointer. Validation checks it, but a stored job may meet another configuration.\<close>

definition channel_configured :: "RunnerConfig \<Rightarrow> TaskRequest \<Rightarrow> bool" where
  "channel_configured cfg task \<longleftrightarrow> (tk_NotifyChannel task = ''discord'' \<longrightarrow> rc_DiscordWebhookURL cfg \<noteq> '''')
     \<and> (tk_NotifyChannel task = ''email'' \<longrightarrow> rc_GmailRefreshToken cfg \<noteq> '''')"

definition notify_result :: "TaskRequest \<Rightarrow> notify_answer \<Rightarrow> (send_error, string) result" where
  "notify_result task answer =
     (case answer of
        NoResponse \<Rightarrow> Inl (NotificationError ''notification transport or authorization failed; acceptance unconfirmed''
          (nativeDelivery task) (\<not> nativeDelivery task))
      | Answered code confirmation \<Rightarrow>
          if code < 200 \<or> code \<ge> 300
          then if \<not> nativeDelivery task then Inl (PlainError (''notification endpoint returned HTTP '' @ decimal code))
               else Inl (NotificationError (''notification provider returned HTTP '' @ decimal code) (code \<ge> 500) (code = 429))
          else if \<not> nativeDelivery task then Inr ''''
          else (case confirmation of
              None \<Rightarrow> Inl (NotificationError ''notification response did not confirm a provider message ID'' True False)
            | Some i \<Rightarrow> if i = '''' then Inl (NotificationError ''notification response did not confirm a provider message ID'' True False)
                else Inr i))"

section \<open>Changes of a job\<close>

definition set_delivery :: "(DeliveryState \<Rightarrow> DeliveryState) \<Rightarrow> RunnerJob \<Rightarrow> RunnerJob" where
  "set_delivery f j = j\<lparr>jb_Result := map_option (\<lambda>r. r\<lparr>rpt_Delivery := map_option f (rpt_Delivery r)\<rparr>) (jb_Result j)\<rparr>"

definition delivery_of :: "RunnerJob \<Rightarrow> DeliveryState option" where
  "delivery_of j = Option.bind (jb_Result j) rpt_Delivery"

definition started_job :: "RunnerJob \<Rightarrow> RunnerJob" where
  "started_job j = j\<lparr>jb_Status := ''running'', jb_Percent := 10, jb_Message := ''Reading source information''\<rparr>"

definition pending_delivery :: DeliveryState where
  "pending_delivery = \<lparr>ds_Status = ''pending'', ds_Attempts = 0, ds_LastError = '''', ds_DeliveredAt = None, ds_ProviderMessageID = ''''\<rparr>"

definition reported :: "SourceReport \<Rightarrow> RunnerJob \<Rightarrow> RunnerJob" where
  "reported r j = j
     \<lparr>jb_Result := Some (SourceReport.extend r (Report.fields
        (if tk_NotifyURL (jb_Request j) \<noteq> '''' \<or> tk_NotifyChannel (jb_Request j) \<noteq> '''' then Some pending_delivery else None))),
      jb_Artifacts := [(''Automation report'', jb_StatusURL j @ ''/report'', ''text/markdown'')],
      jb_Percent := 90, jb_Message := ''Report ready''\<rparr>"

definition failed_job :: "string \<Rightarrow> RunnerJob \<Rightarrow> RunnerJob" where
  "failed_job cause j = j\<lparr>jb_Status := ''failed'', jb_Error := truncate_text cause 1000, jb_Percent := 100,
     jb_Message := ''Source information could not be read''\<rparr>"

definition attempted :: "RunnerJob \<Rightarrow> RunnerJob" where
  "attempted j = (set_delivery (\<lambda>d. d\<lparr>ds_Status := (if nativeDelivery (jb_Request j) then ''sending'' else ''pending''),
       ds_Attempts := ds_Attempts d + 1\<rparr>) j)
     \<lparr>jb_Percent := 90, jb_Message := ''Report ready; delivering notification''\<rparr>"

definition restarted_unknown :: "RunnerJob \<Rightarrow> RunnerJob" where
  "restarted_unknown = set_delivery (\<lambda>d. d\<lparr>ds_Status := ''unknown'',
     ds_LastError := ''runner restarted during send; investigate provider before resending''\<rparr>)"

definition exhausted :: "RunnerJob \<Rightarrow> RunnerJob" where
  "exhausted = set_delivery (\<lambda>d. d\<lparr>ds_Status := ''failed'',
     ds_LastError := (if ds_LastError d = '''' then ''delivery remained unconfirmed after the maximum number of attempts''
       else ds_LastError d)\<rparr>)"

definition delivered :: "time \<Rightarrow> string \<Rightarrow> RunnerJob \<Rightarrow> RunnerJob" where
  "delivered now messageID = set_delivery (\<lambda>d. d\<lparr>ds_Status := ''sent'', ds_DeliveredAt := Some now, ds_LastError := '''',
     ds_ProviderMessageID := messageID\<rparr>)"

definition undelivered :: "string \<Rightarrow> bool \<Rightarrow> RunnerJob \<Rightarrow> RunnerJob" where
  "undelivered msg unconfirmed = set_delivery (\<lambda>d. d\<lparr>ds_Status := (if unconfirmed then ''unknown'' else ''failed''), ds_LastError := msg\<rparr>)"

definition requeued :: "string \<Rightarrow> RunnerJob \<Rightarrow> RunnerJob" where
  "requeued msg = set_delivery (\<lambda>d. d\<lparr>ds_LastError := truncate_text msg 1000, ds_Status := ''pending''\<rparr>)"

definition gave_up :: "RunnerJob \<Rightarrow> RunnerJob" where
  "gave_up = set_delivery (\<lambda>d. d\<lparr>ds_Status := ''failed''\<rparr>)"

definition completed :: "RunnerJob \<Rightarrow> RunnerJob" where
  "completed j = j\<lparr>jb_Status := ''succeeded'', jb_Percent := 100,
     jb_Message := ''Report completed'' @ (case delivery_of j of
         None \<Rightarrow> ''''
       | Some d \<Rightarrow> if ds_Status d = ''sent'' then ''; notification sent''
           else if ds_Status d = ''unknown'' then ''; notification unconfirmed (investigate before resending)''
           else ''; notification failed (inspect delivery result)'')\<rparr>"

section \<open>A worker\<close>

text \<open>
  Where a worker is in \<open>execute\<close> and \<open>deliver\<close>: between two points one thing happens that others can see. \<open>AtSend\<close>
  and \<open>AtAnswer\<close> carry the copy of the job that was read before the attempt was counted.
\<close>

datatype work_pc = AtStart | AtSource | AtGate | AtDeliver | AtSend RunnerJob | AtAnswer RunnerJob | AtRetry | AtFinish

record WorkInputs =
  wi_Now :: time
  wi_Disk :: disk_outcome
  wi_Report :: "(string, SourceReport) result"
  wi_Answer :: notify_answer
  wi_Timer :: bool

text \<open>An update and where to go on: nowhere if it failed.\<close>

definition update_then ::
    "RunnerEnv \<Rightarrow> WorkInputs \<Rightarrow> string \<Rightarrow> (RunnerJob \<Rightarrow> RunnerJob) \<Rightarrow> work_pc option \<Rightarrow> Runner \<times> disk
     \<Rightarrow> work_pc option \<times> NotifyRequest option \<times> Runner \<times> disk" where
  "update_then e inp i change next_pc st =
     (let (err, st1) = update_job e (wi_Now inp) (wi_Disk inp) i change st in
      (if err = None then next_pc else None, None, st1))"

definition send_result :: "RunnerEnv \<Rightarrow> RunnerConfig \<Rightarrow> RunnerJob \<Rightarrow> notify_answer \<Rightarrow> (send_error, string) result" where
  "send_result e cfg entry answer =
     (case jb_Result entry of
        None \<Rightarrow> Inl (PlainError '''')
      | Some result \<Rightarrow>
          (case notify_request e cfg entry result of
             Inl err \<Rightarrow> Inl (PlainError err)
           | Inr req \<Rightarrow> notify_result (jb_Request entry) answer))"

text \<open>A missing job, report, delivery or client, where the code would dereference a null pointer, ends the worker.\<close>

fun work ::
    "RunnerEnv \<Rightarrow> RunnerConfig \<Rightarrow> WorkInputs \<Rightarrow> string \<Rightarrow> work_pc \<Rightarrow> Runner \<times> disk
     \<Rightarrow> work_pc option \<times> NotifyRequest option \<times> Runner \<times> disk" where
  "work e cfg inp i AtStart (rn, disk) =
     (case map_of (rn_Jobs rn) i of
        None \<Rightarrow> (None, None, rn, disk)
      | Some entry \<Rightarrow>
          if jb_Status entry \<noteq> ''queued'' \<and> jb_Status entry \<noteq> ''running'' then (None, None, rn, disk)
          else update_then e inp i started_job (Some (if jb_Result entry = None then AtSource else AtGate)) (rn, disk))"
| "work e cfg inp i AtSource (rn, disk) =
     (case wi_Report inp of
        Inl cause \<Rightarrow> if rn_Cancelled rn then (None, None, rn, disk) else update_then e inp i (failed_job cause) None (rn, disk)
      | Inr result \<Rightarrow> update_then e inp i (reported result) (Some AtGate) (rn, disk))"
| "work e cfg inp i AtGate (rn, disk) =
     (case map_of (rn_Jobs rn) i of
        None \<Rightarrow> (None, None, rn, disk)
      | Some entry \<Rightarrow>
          if jb_Result entry = None then (None, None, rn, disk)
          else (case delivery_of entry of
             None \<Rightarrow> (Some AtFinish, None, rn, disk)
           | Some d \<Rightarrow>
               (if ds_Status d \<noteq> ''sent'' \<and> ds_Status d \<noteq> ''failed'' \<and> ds_Status d \<noteq> ''unknown'' then Some AtDeliver
                else Some AtFinish, None, rn, disk)))"
| "work e cfg inp i AtDeliver (rn, disk) =
     (case map_of (rn_Jobs rn) i of
        None \<Rightarrow> (None, None, rn, disk)
      | Some entry \<Rightarrow>
          (case delivery_of entry of
             None \<Rightarrow> (None, None, rn, disk)
           | Some d \<Rightarrow>
               if nativeDelivery (jb_Request entry) \<and> ds_Status d = ''sending''
               then update_then e inp i restarted_unknown (Some AtFinish) (rn, disk)
               else if ds_Attempts d \<ge> maxDeliveries then update_then e inp i exhausted (Some AtFinish) (rn, disk)
               else update_then e inp i attempted (Some (AtSend entry)) (rn, disk)))"
| "work e cfg inp i (AtSend entry) (rn, disk) =
     (case jb_Result entry of
        None \<Rightarrow> (None, None, rn, disk)
      | Some result \<Rightarrow>
          if \<not> channel_configured cfg (jb_Request entry) then (None, None, rn, disk)
         else (Some (AtAnswer entry), case notify_request e cfg entry result of Inl err \<Rightarrow> None | Inr req \<Rightarrow> Some req, rn, disk))"
| "work e cfg inp i (AtAnswer entry) (rn, disk) =
     (if rn_Cancelled rn then (None, None, rn, disk)
      else case send_result e cfg entry (wi_Answer inp) of
        Inr messageID \<Rightarrow> update_then e inp i (delivered (wi_Now inp) messageID) (Some AtFinish) (rn, disk)
      | Inl (NotificationError msg unconfirmed retryable) \<Rightarrow>
          if unconfirmed \<or> \<not> retryable then update_then e inp i (undelivered msg unconfirmed) (Some AtFinish) (rn, disk)
          else update_then e inp i (requeued msg) (Some AtRetry) (rn, disk)
      | Inl (PlainError msg) \<Rightarrow> update_then e inp i (requeued msg) (Some AtRetry) (rn, disk))"
| "work e cfg inp i AtRetry (rn, disk) =
     (case Option.bind (map_of (rn_Jobs rn) i) delivery_of of
        None \<Rightarrow> (None, None, rn, disk)
      | Some d \<Rightarrow>
          if ds_Attempts d \<ge> maxDeliveries then update_then e inp i gave_up (Some AtFinish) (rn, disk)
          else if rn_Cancelled rn \<and> \<not> wi_Timer inp then (None, None, rn, disk)
          else (Some AtDeliver, None, rn, disk))"
| "work e cfg inp i AtFinish (rn, disk) =
     (if rn_Cancelled rn then (None, None, rn, disk) else update_then e inp i completed None (rn, disk))"

section \<open>The machine\<close>

text \<open>
  A state directory with at most one runner process on it (the directory is locked): the disk, the
  configuration and the state of the process, the identifiers handlers have acknowledged and not yet
  queued, the workers; and, as history, the notifications that have left, newest first, with their answers.
\<close>

record Machine =
  mc_Disk :: disk
  mc_Config :: RunnerConfig
  mc_Runner :: "Runner option"
  mc_Pending :: "string list"
  mc_Workers :: "(string \<times> work_pc) list"
  mc_Sends :: "(string \<times> NotifyRequest \<times> notify_answer option) list"

definition active_job :: "RunnerJob \<Rightarrow> bool" where
  "active_job j \<longleftrightarrow> jb_Status j = ''queued'' \<or> jb_Status j = ''running''"

text \<open>An answer is noted at the newest request of its job.\<close>

fun note_answer ::
    "string \<Rightarrow> notify_answer \<Rightarrow> (string \<times> NotifyRequest \<times> notify_answer option) list
     \<Rightarrow> (string \<times> NotifyRequest \<times> notify_answer option) list" where
  "note_answer i a [] = []"
| "note_answer i a ((k, q, x) # hist) = (if k = i then (k, q, Some a) # hist else (k, q, x) # note_answer i a hist)"

definition answer_comes :: "RunnerEnv \<Rightarrow> RunnerConfig \<Rightarrow> work_pc \<Rightarrow> bool" where
  "answer_comes e cfg pc =
     (case pc of
        AtAnswer entry \<Rightarrow>
          (case jb_Result entry of
             None \<Rightarrow> False
           | Some result \<Rightarrow> (case notify_request e cfg entry result of Inl err \<Rightarrow> False | Inr q \<Rightarrow> True))
      | _ \<Rightarrow> False)"

definition sends_after ::
    "RunnerEnv \<Rightarrow> RunnerConfig \<Rightarrow> string \<Rightarrow> work_pc \<Rightarrow> notify_answer \<Rightarrow> NotifyRequest option
     \<Rightarrow> (string \<times> NotifyRequest \<times> notify_answer option) list \<Rightarrow> (string \<times> NotifyRequest \<times> notify_answer option) list" where
  "sends_after e cfg i pc answer req hist =
     (case req of
        Some q \<Rightarrow> (i, q, None) # hist
      | None \<Rightarrow> if answer_comes e cfg pc then note_answer i answer hist else hist)"

definition worker_moves :: "string \<times> work_pc \<Rightarrow> work_pc option \<Rightarrow> (string \<times> work_pc) list \<Rightarrow> (string \<times> work_pc) list" where
  "worker_moves w next_pc ws = (case next_pc of None \<Rightarrow> [] | Some pc \<Rightarrow> [(fst w, pc)]) @ remove1 w ws"

inductive machine_step :: "RunnerEnv \<Rightarrow> (RunnerConfig \<Rightarrow> bool) \<Rightarrow> Machine \<Rightarrow> Machine \<Rightarrow> bool" for e allowed where
  starts: "mc_Runner m = None \<Longrightarrow> configured e cfg0 = Inr cfg \<Longrightarrow> allowed cfg \<Longrightarrow> load e (mc_Disk m) = Inr jobs \<Longrightarrow> distinct queue
    \<Longrightarrow> set queue = {i. \<exists>j. map_of jobs i = Some j \<and> active_job j}
    \<Longrightarrow> machine_step e allowed m (m\<lparr>mc_Config := cfg, mc_Pending := [], mc_Workers := [],
      mc_Runner := Some \<lparr>rn_Jobs = jobs, rn_Queue = queue, rn_Closed = False, rn_Cancelled = False\<rparr>\<rparr>)"
| submits: "mc_Runner m = Some rn
    \<Longrightarrow> submit_request e (mc_Config m) now out tls host header body (rn, mc_Disk m) = (reply, accepted, rn', disk')
    \<Longrightarrow> machine_step e allowed m (m\<lparr>mc_Runner := Some rn', mc_Disk := disk',
      mc_Pending := (case accepted of None \<Rightarrow> mc_Pending m | Some i \<Rightarrow> i # mc_Pending m)\<rparr>)"
| enqueues: "mc_Runner m = Some rn \<Longrightarrow> i \<in> set (mc_Pending m) \<Longrightarrow> int (length (rn_Queue rn)) < maxJobs
    \<Longrightarrow> machine_step e allowed m (m\<lparr>mc_Runner := Some (rn\<lparr>rn_Queue := rn_Queue rn @ [i]\<rparr>), mc_Pending := remove1 i (mc_Pending m)\<rparr>)"
| abandons: "mc_Runner m = Some rn \<Longrightarrow> rn_Cancelled rn \<Longrightarrow> i \<in> set (mc_Pending m)
    \<Longrightarrow> machine_step e allowed m (m\<lparr>mc_Pending := remove1 i (mc_Pending m)\<rparr>)"
| takes: "mc_Runner m = Some rn \<Longrightarrow> rn_Queue rn = i # rest \<Longrightarrow> length (mc_Workers m) < 2
    \<Longrightarrow> machine_step e allowed m (m\<lparr>mc_Runner := Some (rn\<lparr>rn_Queue := rest\<rparr>),
      mc_Workers := (if rn_Cancelled rn then mc_Workers m else (i, AtStart) # mc_Workers m)\<rparr>)"
| works: "mc_Runner m = Some rn \<Longrightarrow> (i, pc) \<in> set (mc_Workers m)
    \<Longrightarrow> work e (mc_Config m) inp i pc (rn, mc_Disk m) = (next_pc, req, rn', disk')
    \<Longrightarrow> machine_step e allowed m (m\<lparr>mc_Runner := Some rn', mc_Disk := disk', mc_Workers := worker_moves (i, pc) next_pc (mc_Workers m),
      mc_Sends := sends_after e (mc_Config m) i pc (wi_Answer inp) req (mc_Sends m)\<rparr>)"
| cancelled: "mc_Runner m = Some rn \<Longrightarrow> machine_step e allowed m (m\<lparr>mc_Runner := Some (rn\<lparr>rn_Cancelled := True\<rparr>)\<rparr>)"
| closes: "mc_Runner m = Some rn \<Longrightarrow> machine_step e allowed m (m\<lparr>mc_Runner := Some (rn\<lparr>rn_Closed := True\<rparr>)\<rparr>)"
| crashes: "machine_step e allowed m (m\<lparr>mc_Runner := None, mc_Pending := [], mc_Workers := []\<rparr>)"

definition fresh_machine :: "RunnerConfig \<Rightarrow> Machine" where
  "fresh_machine cfg = \<lparr>mc_Disk = None, mc_Config = cfg, mc_Runner = None, mc_Pending = [], mc_Workers = [], mc_Sends = []\<rparr>"

section \<open>Views of a state\<close>

text \<open>A job as the process has it, as the disk has it, and the requests sent for it.\<close>

definition memory_job :: "Machine \<Rightarrow> string \<Rightarrow> RunnerJob option" where
  "memory_job m i = (case mc_Runner m of None \<Rightarrow> None | Some rn \<Rightarrow> map_of (rn_Jobs rn) i)"

definition disk_map :: "disk \<Rightarrow> string \<Rightarrow> RunnerJob option" where
  "disk_map disk i = (case disk of None \<Rightarrow> None | Some s \<Rightarrow> map_option restored (map_of (dk_Jobs s) i))"

definition disk_job :: "Machine \<Rightarrow> string \<Rightarrow> RunnerJob option" where
  "disk_job m = disk_map (mc_Disk m)"

definition sends_of :: "string \<Rightarrow> (string \<times> NotifyRequest \<times> notify_answer option) list \<Rightarrow> (NotifyRequest \<times> notify_answer option) list" where
  "sends_of i hist = map snd (filter (\<lambda>x. fst x = i) hist)"

lemma restored_stored [simp]: "restored (stored j) = j"
  by (cases j) (simp add: restored_def stored_def public_part_def PublicJob.defs RunnerJob.defs)

lemma map_of_map_snd: "map_of (map (\<lambda>(i, x). (i, f x)) xs) i = map_option f (map_of xs i)"
  by (induction xs) auto

lemma persistLocked_cases:
  assumes "persistLocked e out jobs disk = (err, disk')"
  shows "disk' = disk \<and> err \<noteq> None \<or> disk_map disk' = map_of jobs"
  using assms
  by (auto simp: persistLocked_def Let_def disk_map_def fun_eq_iff map_of_map_snd option.map_comp o_def option.map_ident
      split: if_splits disk_outcome.splits)

lemma load_map: "load e disk = Inr jobs \<Longrightarrow> map_of jobs = disk_map disk"
  by (auto simp: load_def disk_map_def fun_eq_iff map_of_map_snd split: option.splits if_splits)

text \<open>An update either fails, and leaves the memory alone and the disk or writes the new state there
  unsynced, or it succeeds in both.\<close>

lemma update_job_cases:
  assumes "update_job e now out i change (rn, disk) = (err, rn', disk')"
  obtains (unchanged) "err \<noteq> None" "rn' = rn" "disk' = disk"
  | (unsynced) j where "err \<noteq> None" "rn' = rn" "map_of (rn_Jobs rn) i = Some j"
      "disk_map disk' = (map_of (rn_Jobs rn))(i \<mapsto> (change j)\<lparr>jb_UpdatedAt := now\<rparr>)"
  | (committed) j jobs where "err = None" "map_of (rn_Jobs rn) i = Some j" "rn' = rn\<lparr>rn_Jobs := jobs\<rparr>"
      "map_of jobs = (map_of (rn_Jobs rn))(i \<mapsto> (change j)\<lparr>jb_UpdatedAt := now\<rparr>)" "disk_map disk' = map_of jobs"
proof (cases "rn_Closed rn \<or> map_of (rn_Jobs rn) i = None")
  case True
  show ?thesis by (rule unchanged) (use assms True in \<open>auto simp: update_job_def split: if_splits option.splits\<close>)
next
  case False
  then obtain j where j: "map_of (rn_Jobs rn) i = Some j" and serving: "\<not> rn_Closed rn" by auto
  define jobs where "jobs = AList.update i ((change j)\<lparr>jb_UpdatedAt := now\<rparr>) (rn_Jobs rn)"
  have jobs: "map_of jobs = (map_of (rn_Jobs rn))(i \<mapsto> (change j)\<lparr>jb_UpdatedAt := now\<rparr>)"
    by (simp add: jobs_def update_conv')
  obtain err1 disk1 where p: "persistLocked e out jobs disk = (err1, disk1)" by fastforce
  with assms j serving have r: "err = err1" "disk' = disk1" "rn' = (if err1 = None then rn\<lparr>rn_Jobs := jobs\<rparr> else rn)"
    by (auto simp: update_job_def jobs_def [symmetric] split: if_splits)
  note persisted = persistLocked_cases [OF p, folded r(1,2)]
  show ?thesis
  proof (cases err)
    case None
    then show ?thesis using persisted r j jobs by (intro committed) auto
  next
    case (Some x)
    then have failed: "err \<noteq> None" "rn' = rn" using r by auto
    from persisted show ?thesis
    proof
      assume "disk' = disk \<and> err \<noteq> None"
      then show ?thesis by (intro unchanged [OF failed]) simp
    next
      assume "disk_map disk' = map_of jobs"
      then show ?thesis by (intro unsynced [OF failed j]) (simp add: jobs)
    qed
  qed
qed

section \<open>The invariant of one job\<close>

definition attempts_of :: "RunnerJob option \<Rightarrow> nat" where
  "attempts_of j = (case Option.bind j delivery_of of None \<Rightarrow> 0 | Some d \<Rightarrow> ds_Attempts d)"

definition delivery_in :: "string set \<Rightarrow> RunnerJob \<Rightarrow> bool" where
  "delivery_in S j \<longleftrightarrow> (case delivery_of j of None \<Rightarrow> False | Some d \<Rightarrow> ds_Status d \<in> S)"

definition rejected :: "NotifyRequest \<times> notify_answer option \<Rightarrow> bool" where
  "rejected x = (case snd x of Some (Answered code c) \<Rightarrow> code = 429 | _ \<Rightarrow> False)"

definition notifies :: "TaskRequest \<Rightarrow> bool" where
  "notifies task \<longleftrightarrow> tk_NotifyURL task \<noteq> '''' \<or> tk_NotifyChannel task \<noteq> ''''"

text \<open>Only a task that asks for it has a delivery. Of a native delivery, every request but the newest was rejected
  for good reason to send again; and the newest too, unless the job's own record says that a send may have
  happened.\<close>

definition sends_ok :: "RunnerJob \<Rightarrow> (NotifyRequest \<times> notify_answer option) list \<Rightarrow> bool" where
  "sends_ok j sends \<longleftrightarrow> (delivery_of j \<noteq> None \<longrightarrow> notifies (jb_Request j)) \<and> (nativeDelivery (jb_Request j) \<longrightarrow> list_all rejected (tl sends)
     \<and> (list_all rejected sends \<or> delivery_in {''sending'', ''sent'', ''failed'', ''unknown''} j))"

definition same_task :: "RunnerJob \<Rightarrow> RunnerJob \<Rightarrow> bool" where
  "same_task j k \<longleftrightarrow> jb_ID j = jb_ID k \<and> jb_StatusURL j = jb_StatusURL k \<and> jb_Request j = jb_Request k \<and> jb_Fingerprint j = jb_Fingerprint k"

definition sendable :: "RunnerEnv \<Rightarrow> RunnerConfig \<Rightarrow> RunnerJob \<Rightarrow> bool" where
  "sendable e cfg entry \<longleftrightarrow> answer_comes e cfg (AtAnswer entry)"

text \<open>What a worker knows of its job in memory \<open>j\<close> and on disk \<open>d\<close> at each point.\<close>

fun pc_ok ::
    "RunnerEnv \<Rightarrow> RunnerConfig \<Rightarrow> RunnerJob \<Rightarrow> RunnerJob option \<Rightarrow> (NotifyRequest \<times> notify_answer option) list \<Rightarrow> work_pc \<Rightarrow> bool" where
  "pc_ok e cfg j d sends AtSource \<longleftrightarrow> jb_Result j = None"
| "pc_ok e cfg j d sends AtGate \<longleftrightarrow> jb_Result j \<noteq> None"
| "pc_ok e cfg j d sends AtDeliver \<longleftrightarrow> delivery_of j \<noteq> None \<and> \<not> delivery_in {''sent'', ''failed'', ''unknown''} j"
| "pc_ok e cfg j d sends (AtSend entry) \<longleftrightarrow> delivery_of j \<noteq> None \<and> d = Some j \<and> length sends < attempts_of (Some j)
     \<and> jb_Request entry = jb_Request j \<and> jb_Result entry \<noteq> None
     \<and> (nativeDelivery (jb_Request j) \<longrightarrow> list_all rejected sends \<and> delivery_in {''sending''} j)"
| "pc_ok e cfg j d sends (AtAnswer entry) \<longleftrightarrow> delivery_of j \<noteq> None \<and> d = Some j
     \<and> jb_Request entry = jb_Request j \<and> jb_Result entry \<noteq> None \<and> (sendable e cfg entry \<longrightarrow> sends \<noteq> [])
     \<and> (nativeDelivery (jb_Request j) \<longrightarrow> delivery_in {''sending''} j \<and> (sendable e cfg entry \<or> list_all rejected sends))"
| "pc_ok e cfg j d sends AtRetry \<longleftrightarrow> delivery_of j \<noteq> None \<and> \<not> delivery_in {''sending'', ''sent'', ''failed'', ''unknown''} j"
| "pc_ok e cfg j d sends pc \<longleftrightarrow> True"

definition memory_ok ::
    "RunnerEnv \<Rightarrow> RunnerConfig \<Rightarrow> RunnerJob \<Rightarrow> RunnerJob option \<Rightarrow> nat \<Rightarrow> work_pc list
     \<Rightarrow> (NotifyRequest \<times> notify_answer option) list \<Rightarrow> bool" where
  "memory_ok e cfg j d waiting pcs sends \<longleftrightarrow> (\<exists>j'. d = Some j' \<and> same_task j j') \<and> (\<not> active_job j \<longrightarrow> d = Some j)
     \<and> length sends \<le> attempts_of (Some j) \<and> attempts_of (Some j) \<le> maxDeliveries \<and> sends_ok j sends
     \<and> (waiting + length pcs > 0 \<longrightarrow> active_job j) \<and> list_all (pc_ok e cfg j d sends) pcs"

definition disk_ok :: "RunnerJob option \<Rightarrow> (NotifyRequest \<times> notify_answer option) list \<Rightarrow> bool" where
  "disk_ok d sends \<longleftrightarrow> length sends \<le> attempts_of d \<and> attempts_of d \<le> maxDeliveries \<and> (\<forall>j. d = Some j \<longrightarrow> sends_ok j sends)"

text \<open>\<open>m\<close> is the job in memory, if the process is \<open>up\<close>, \<open>d\<close> on disk, \<open>waiting\<close> how often it is queued, \<open>pcs\<close>
  where workers are on it.\<close>

definition job_inv ::
    "RunnerEnv \<Rightarrow> RunnerConfig \<Rightarrow> bool \<Rightarrow> RunnerJob option \<Rightarrow> RunnerJob option \<Rightarrow> nat \<Rightarrow> work_pc list
     \<Rightarrow> (NotifyRequest \<times> notify_answer option) list \<Rightarrow> bool" where
  "job_inv e cfg up m d waiting pcs sends \<longleftrightarrow> waiting + length pcs \<le> 1 \<and> disk_ok d sends
     \<and> (case m of None \<Rightarrow> waiting + length pcs = 0 \<and> (up \<longrightarrow> sends = [])
        | Some j \<Rightarrow> up \<and> memory_ok e cfg j d waiting pcs sends)"

text \<open>Writing another job's change rewrites this one from memory.\<close>

lemma pc_ok_written: "pc_ok e cfg j d sends pc \<Longrightarrow> pc_ok e cfg j (Some j) sends pc"
  by (cases pc) auto

lemma job_inv_written:
  assumes "job_inv e cfg True m d waiting pcs sends"
  shows "job_inv e cfg True m m waiting pcs sends"
proof (cases m)
  case None
  with assms show ?thesis by (auto simp: job_inv_def disk_ok_def attempts_of_def)
next
  case (Some j)
  with assms show ?thesis
    by (auto simp: job_inv_def memory_ok_def disk_ok_def same_task_def list_all_iff intro: pc_ok_written)
qed

text \<open>A crash forgets the memory; a start takes it from the disk and queues what is active.\<close>

lemma job_inv_crash: "job_inv e cfg up m d waiting pcs sends \<Longrightarrow> job_inv e cfg' False None d 0 [] sends"
  by (auto simp: job_inv_def)

lemma job_inv_start:
  assumes "job_inv e cfg False None d waiting pcs sends" and "n = (if \<exists>j. d = Some j \<and> active_job j then 1 else 0)"
  shows "job_inv e cfg' True d d n [] sends"
proof (cases d)
  case None
  with assms show ?thesis by (auto simp: job_inv_def disk_ok_def attempts_of_def)
next
  case (Some j)
  with assms show ?thesis by (auto simp: job_inv_def disk_ok_def memory_ok_def same_task_def)
qed

section \<open>What the changes do to a delivery\<close>

named_theorems change_simps

lemma delivery_of_fields [change_simps]:
  "delivery_of (j\<lparr>jb_UpdatedAt := t\<rparr>) = delivery_of j" "delivery_of (j\<lparr>jb_Status := s\<rparr>) = delivery_of j"
  "delivery_of (j\<lparr>jb_Percent := n\<rparr>) = delivery_of j" "delivery_of (j\<lparr>jb_Message := x\<rparr>) = delivery_of j"
  "delivery_of (j\<lparr>jb_Error := x\<rparr>) = delivery_of j"
  by (simp_all add: delivery_of_def)

lemma delivery_of_set [change_simps]: "delivery_of (set_delivery f j) = map_option f (delivery_of j)"
  by (cases "jb_Result j") (simp_all add: delivery_of_def set_delivery_def)

lemma delivery_of_changes [change_simps]:
  "delivery_of (started_job j) = delivery_of j" "delivery_of (failed_job x j) = delivery_of j" "delivery_of (completed j) = delivery_of j"
  "delivery_of (attempted j) = map_option (\<lambda>d. d\<lparr>ds_Status := (if nativeDelivery (jb_Request j) then ''sending'' else ''pending''),
     ds_Attempts := ds_Attempts d + 1\<rparr>) (delivery_of j)"
  by (simp_all add: started_job_def failed_job_def completed_def attempted_def change_simps)

lemma set_delivery_fields [change_simps]:
  "jb_ID (set_delivery f j) = jb_ID j" "jb_StatusURL (set_delivery f j) = jb_StatusURL j" "jb_Request (set_delivery f j) = jb_Request j"
  "jb_Fingerprint (set_delivery f j) = jb_Fingerprint j" "jb_Status (set_delivery f j) = jb_Status j"
  by (simp_all add: set_delivery_def)

lemmas change_defs = started_job_def failed_job_def reported_def restarted_unknown_def exhausted_def attempted_def delivered_def
  undelivered_def requeued_def gave_up_def completed_def

lemma same_task_changes:
  "same_task j (started_job j)" "same_task j (failed_job x j)" "same_task j (reported r j)" "same_task j (restarted_unknown j)"
  "same_task j (exhausted j)" "same_task j (attempted j)" "same_task j (delivered now i j)" "same_task j (undelivered x u j)"
  "same_task j (requeued x j)" "same_task j (gave_up j)" "same_task j (completed j)"
  by (simp_all add: same_task_def change_defs change_simps)

lemma same_task_updated [simp]: "same_task j (k\<lparr>jb_UpdatedAt := t\<rparr>) \<longleftrightarrow> same_task j k"
  by (simp add: same_task_def)

text \<open>A change that keeps the task and the delivery keeps what was known of the requests.\<close>

lemma sends_ok_kept: "sends_ok j sends \<Longrightarrow> same_task j k \<Longrightarrow> delivery_of k = delivery_of j \<Longrightarrow> sends_ok k sends"
  by (simp add: sends_ok_def same_task_def delivery_in_def)

lemma attempts_kept: "map_option ds_Attempts (delivery_of k) = map_option ds_Attempts (delivery_of j)
    \<Longrightarrow> attempts_of (Some k) = attempts_of (Some j)"
  by (cases "delivery_of j"; cases "delivery_of k") (simp_all add: attempts_of_def)

section \<open>A worker keeps the invariant of its job\<close>

lemma job_inv_idle:
  "job_inv e cfg True (Some j) d w pcs sends \<Longrightarrow> job_inv e cfg True (Some j) d 0 [] sends"
  by (simp add: job_inv_def memory_ok_def)

text \<open>The condition on the job after a change under which the worker may go on at \<open>next_pc\<close>.\<close>

definition change_ok ::
    "RunnerEnv \<Rightarrow> RunnerConfig \<Rightarrow> RunnerJob \<Rightarrow> RunnerJob \<Rightarrow> work_pc option \<Rightarrow> (NotifyRequest \<times> notify_answer option) list \<Rightarrow> bool" where
  "change_ok e cfg j k next_pc sends \<longleftrightarrow> same_task j k \<and> length sends \<le> attempts_of (Some k) \<and> attempts_of (Some k) \<le> maxDeliveries
     \<and> sends_ok k sends \<and> (case next_pc of None \<Rightarrow> True | Some pc \<Rightarrow> active_job k \<and> (\<forall>t. pc_ok e cfg (k\<lparr>jb_UpdatedAt := t\<rparr>)
         (Some (k\<lparr>jb_UpdatedAt := t\<rparr>)) sends pc))"

lemma stamped:
  "attempts_of (Some (k\<lparr>jb_UpdatedAt := t\<rparr>)) = attempts_of (Some k)" "sends_ok (k\<lparr>jb_UpdatedAt := t\<rparr>) = sends_ok k"
  "active_job (k\<lparr>jb_UpdatedAt := t\<rparr>) = active_job k"
  by (simp_all add: attempts_of_def sends_ok_def delivery_in_def active_job_def change_simps fun_eq_iff)

lemma update_then_own:
  assumes "update_then e inp i change next_pc (rn, disk) = (pc', req, rn', disk')"
    and "job_inv e cfg True (Some j) (disk_map disk i) 0 [] sends" and "map_of (rn_Jobs rn) i = Some j" and "active_job j"
    and "change_ok e cfg j (change j) next_pc sends"
  shows "req = None \<and> job_inv e cfg True (map_of (rn_Jobs rn') i) (disk_map disk' i) 0 (case pc' of None \<Rightarrow> [] | Some p \<Rightarrow> [p]) sends"
proof -
  define k where "k = (change j)\<lparr>jb_UpdatedAt := wi_Now inp\<rparr>"
  obtain err where u: "update_job e (wi_Now inp) (wi_Disk inp) i change (rn, disk) = (err, rn', disk')"
    and pc': "pc' = (if err = None then next_pc else None)" and req: "req = None"
    using assms(1) by (auto simp: update_then_def split: prod.splits)
  have k: "same_task j k" "length sends \<le> attempts_of (Some k)" "attempts_of (Some k) \<le> maxDeliveries" "sends_ok k sends"
    "\<And>pc. next_pc = Some pc \<Longrightarrow> active_job k \<and> pc_ok e cfg k (Some k) sends pc"
    using assms(5) by (auto simp: change_ok_def k_def stamped)
  from u show ?thesis
  proof (cases rule: update_job_cases)
    case unchanged
    with assms(2,3) show ?thesis by (auto simp: pc' req)
  next
    case (unsynced j')
    with assms(3) have "disk_map disk' i = Some k" by (simp add: k_def)
    with unsynced(1,2) assms(2-4) k show ?thesis by (auto simp: pc' req job_inv_def memory_ok_def disk_ok_def)
  next
    case (committed j' jobs)
    with assms(3) have "map_of (rn_Jobs rn') i = Some k" "disk_map disk' i = Some k" by (simp_all add: k_def)
    with committed(1) k show ?thesis
      by (auto simp: pc' req job_inv_def memory_ok_def disk_ok_def same_task_def split: option.split)
  qed
qed

text \<open>What an update does to other jobs.\<close>

lemma update_then_other:
  assumes "update_then e inp i change next_pc (rn, disk) = (pc', req, rn', disk')" and "k \<noteq> i"
  shows "map_of (rn_Jobs rn') k = map_of (rn_Jobs rn) k
    \<and> (disk_map disk' k = disk_map disk k \<or> disk_map disk' k = map_of (rn_Jobs rn) k)"
proof -
  obtain err where u: "update_job e (wi_Now inp) (wi_Disk inp) i change (rn, disk) = (err, rn', disk')"
    using assms(1) by (auto simp: update_then_def split: prod.splits)
  from u show ?thesis by (cases rule: update_job_cases) (use assms(2) in auto)
qed

text \<open>What the invariant of a job with a worker says of it.\<close>

definition known :: "RunnerJob \<Rightarrow> (NotifyRequest \<times> notify_answer option) list \<Rightarrow> bool" where
  "known j sends \<longleftrightarrow> length sends \<le> attempts_of (Some j) \<and> attempts_of (Some j) \<le> maxDeliveries \<and> sends_ok j sends \<and> active_job j"

lemma worker_knows:
  assumes "job_inv e cfg True (Some j) d 0 [pc] sends"
  shows "known j sends" and "pc_ok e cfg j d sends pc" and "disk_ok d sends"
  using assms by (simp_all add: job_inv_def memory_ok_def known_def)

lemma change_ok_same:
  assumes "known j sends" and "same_task j k" and "delivery_of k = delivery_of j"
    and "\<And>pc t. next_pc = Some pc \<Longrightarrow> active_job k \<and> pc_ok e cfg (k\<lparr>jb_UpdatedAt := t\<rparr>) (Some (k\<lparr>jb_UpdatedAt := t\<rparr>)) sends pc"
  shows "change_ok e cfg j k next_pc sends"
proof -
  have "attempts_of (Some k) = attempts_of (Some j)" by (rule attempts_kept) (simp add: assms(3))
  with assms show ?thesis by (auto simp: change_ok_def known_def intro: sends_ok_kept split: option.split)
qed

lemma change_ok_delivery:
  assumes "known j sends" and "map_option ds_Attempts (delivery_of (set_delivery f j)) = map_option ds_Attempts (delivery_of j)"
    and "delivery_in {''sending'', ''sent'', ''failed'', ''unknown''} (set_delivery f j) \<or> (nativeDelivery (jb_Request j) \<longrightarrow> list_all rejected sends)"
    and "\<And>t. pc_ok e cfg ((set_delivery f j)\<lparr>jb_UpdatedAt := t\<rparr>) (Some ((set_delivery f j)\<lparr>jb_UpdatedAt := t\<rparr>)) sends pc"
  shows "change_ok e cfg j (set_delivery f j) (Some pc) sends"
proof -
  have task: "same_task j (set_delivery f j)" by (simp add: same_task_def change_simps)
  have "sends_ok (set_delivery f j) sends"
    using assms(1,3) by (simp add: known_def sends_ok_def change_simps) blast
  moreover have "active_job (set_delivery f j)" using assms(1) by (simp add: known_def active_job_def change_simps)
  ultimately show ?thesis using assms(1,4) task attempts_kept [OF assms(2)] by (simp add: change_ok_def known_def)
qed

lemma deliver_changes_ok:
  assumes "known j sends" and "delivery_of j = Some d"
  shows "change_ok e cfg j (restarted_unknown j) (Some AtFinish) sends"
    and "change_ok e cfg j (exhausted j) (Some AtFinish) sends"
    and "change_ok e cfg j (delivered now x j) (Some AtFinish) sends"
    and "change_ok e cfg j (undelivered x u j) (Some AtFinish) sends"
    and "change_ok e cfg j (gave_up j) (Some AtFinish) sends"
    and "(nativeDelivery (jb_Request j) \<longrightarrow> list_all rejected sends) \<Longrightarrow> change_ok e cfg j (requeued x j) (Some AtRetry) sends"
  unfolding restarted_unknown_def exhausted_def delivered_def undelivered_def gave_up_def requeued_def
  by (rule change_ok_delivery [OF assms(1)]; simp add: change_simps assms(2) delivery_in_def)+

lemma attempted_ok:
  assumes "known j sends" and "delivery_of j = Some d" and "ds_Attempts d < maxDeliveries" and "jb_Result j \<noteq> None"
    and "\<not> delivery_in {''sent'', ''failed'', ''unknown''} j" and "\<not> (nativeDelivery (jb_Request j) \<and> ds_Status d = ''sending'')"
  shows "change_ok e cfg j (attempted j) (Some (AtSend j)) sends"
proof -
  have req: "jb_Request (attempted j) = jb_Request j" by (simp add: attempted_def change_simps)
  have all: "nativeDelivery (jb_Request j) \<longrightarrow> list_all rejected sends"
    using assms(1,2,5,6) by (auto simp: known_def sends_ok_def delivery_in_def)
  moreover have "attempts_of (Some (attempted j)) = Suc (ds_Attempts d)" "attempts_of (Some j) = ds_Attempts d"
    by (simp_all add: attempts_of_def change_simps assms(2))
  moreover have "delivery_in {''sending''} (attempted j)" if "nativeDelivery (jb_Request j)"
    using that by (simp add: delivery_in_def change_simps assms(2))
  moreover have "active_job (attempted j)" using assms(1) by (simp add: known_def active_job_def attempted_def change_simps)
  ultimately show ?thesis
    using assms same_task_changes(6) [of j]
    by (auto simp: change_ok_def known_def sends_ok_def stamped change_simps delivery_in_def req list_all_iff dest: list.set_sel(2))
qed

definition noted :: "notify_answer \<Rightarrow> (NotifyRequest \<times> notify_answer option) list \<Rightarrow> (NotifyRequest \<times> notify_answer option) list" where
  "noted a sends = (case sends of [] \<Rightarrow> [] | (q, x) # rest \<Rightarrow> (q, Some a) # rest)"

lemma sends_of_Cons: "sends_of i ((k, q, a) # hist) = (if k = i then (q, a) # sends_of i hist else sends_of i hist)"
  by (simp add: sends_of_def)

lemma sends_of_note: "sends_of k (note_answer i a hist) = (if k = i then noted a (sends_of i hist) else sends_of k hist)"
  by (induction hist) (auto simp: sends_of_def noted_def)

lemma sends_of_after:
  "sends_of i (sends_after e cfg i pc a req hist) = (case req of Some q \<Rightarrow> (q, None) # sends_of i hist
     | None \<Rightarrow> if answer_comes e cfg pc then noted a (sends_of i hist) else sends_of i hist)"
  by (simp add: sends_after_def sends_of_Cons sends_of_note split: option.split)

lemma sends_of_other: "k \<noteq> i \<Longrightarrow> sends_of k (sends_after e cfg i pc a req hist) = sends_of k hist"
  by (simp add: sends_after_def sends_of_Cons sends_of_note split: option.split)

lemma noted_simps [simp]: "length (noted a sends) = length sends" "tl (noted a sends) = tl sends" "noted a sends = [] \<longleftrightarrow> sends = []"
  by (simp_all add: noted_def split: list.split prod.split)

text \<open>Noting the answer keeps the invariant of the waiting worker's job.\<close>

lemma job_inv_noted:
  assumes "job_inv e cfg True (Some j) d 0 [AtAnswer entry] sends"
  shows "job_inv e cfg True (Some j) d 0 [] (noted a sends)"
proof -
  have ans: "d = Some j" "nativeDelivery (jb_Request j) \<longrightarrow> delivery_in {''sending''} j"
    using worker_knows(2) [OF assms] by simp_all
  moreover have "sends_ok j (noted a sends)"
    using worker_knows(1) [OF assms] ans(2) by (auto simp: known_def sends_ok_def delivery_in_def split: option.splits)
  ultimately show ?thesis using assms by (simp add: job_inv_def memory_ok_def disk_ok_def)
qed

lemma rejected_after_answer:
  assumes "send_result e cfg entry a = Inl err" and "jb_Result entry \<noteq> None" and "nativeDelivery (jb_Request entry)"
    and "list_all rejected (tl sends)" and "sendable e cfg entry \<longrightarrow> sends \<noteq> []" and "sendable e cfg entry \<or> list_all rejected sends"
    and "case err of NotificationError x unconfirmed retryable \<Rightarrow> \<not> unconfirmed \<and> retryable | PlainError x \<Rightarrow> True"
  shows "list_all rejected (if sendable e cfg entry then noted a sends else sends)"
proof (cases "sendable e cfg entry")
  case True
  then obtain r q where "jb_Result entry = Some r" "notify_request e cfg entry r = Inr q"
    by (auto simp: sendable_def answer_comes_def split: option.splits sum.splits)
  with assms(1,3,7) have "rejected (q, Some a)" for q
    by (auto simp: send_result_def notify_result_def rejected_def split: notify_answer.splits if_splits option.splits)
  with True assms(4,5) show ?thesis by (cases sends) (auto simp: noted_def)
qed (use assms(6) in simp)

lemma reported_attempts: "attempts_of (Some (reported r j)) = 0"
  by (simp add: attempts_of_def delivery_of_def reported_def pending_delivery_def SourceReport.defs Report.defs)

lemma reported_active: "active_job (reported r j) = active_job j"
  by (simp add: active_job_def reported_def)

lemma reported_notifies: "delivery_of (reported r j) \<noteq> None \<longrightarrow> notifies (jb_Request (reported r j))"
  by (simp add: delivery_of_def reported_def notifies_def SourceReport.defs Report.defs)

lemma reported_result: "jb_Result (reported r j) \<noteq> None"
  by (simp add: reported_def)

text \<open>The invariant of a job after a step of its worker, and the ways a step keeps it: an update, or going on.\<close>

abbreviation own_inv ::
    "RunnerEnv \<Rightarrow> RunnerConfig \<Rightarrow> string \<Rightarrow> work_pc option \<Rightarrow> Runner \<Rightarrow> disk \<Rightarrow> (NotifyRequest \<times> notify_answer option) list \<Rightarrow> bool" where
  "own_inv e cfg i pc rn disk sends \<equiv> job_inv e cfg True (map_of (rn_Jobs rn) i) (disk_map disk i) 0
     (case pc of None \<Rightarrow> [] | Some p \<Rightarrow> [p]) sends"

lemma own_update:
  assumes "own_inv e cfg i (Some pc) rn disk (sends_of i hist)" and "map_of (rn_Jobs rn) i = Some j"
    and "update_then e inp i change next_pc (rn, disk) = (pc', req, rn', disk')" and "\<not> answer_comes e cfg pc" and "change_ok e cfg j (change j) next_pc (sends_of i hist)"
  shows "own_inv e cfg i pc' rn' disk' (sends_of i (sends_after e cfg i pc a req hist))"
proof -
  have idle: "job_inv e cfg True (Some j) (disk_map disk i) 0 [] (sends_of i hist)" and "active_job j"
    using assms(1,2) by (auto simp: job_inv_def memory_ok_def)
  from update_then_own [OF assms(3) this(1) assms(2) this(2) assms(5)] assms(4) show ?thesis by (auto simp: sends_of_after)
qed

lemma own_send:
  assumes inv: "own_inv e cfg i (Some (AtSend entry)) rn disk (sends_of i hist)" and j: "map_of (rn_Jobs rn) i = Some j"
    and work: "work e cfg inp i (AtSend entry) (rn, disk) = (pc', req, rn', disk')"
  shows "own_inv e cfg i pc' rn' disk' (sends_of i (sends_after e cfg i (AtSend entry) a req hist))"
proof -
  let ?sends = "sends_of i hist"
  have inv': "job_inv e cfg True (Some j) (disk_map disk i) 0 [AtSend entry] ?sends" using inv j by simp
  note known = worker_knows(1) [OF inv'] and at = worker_knows(2) [OF inv']
  then obtain result where result: "jb_Result entry = Some result" and onDisk: "disk_map disk i = Some j"
    and few: "length ?sends < attempts_of (Some j)" and same: "jb_Request entry = jb_Request j" and some: "delivery_of j \<noteq> None"
    and native: "nativeDelivery (jb_Request j) \<longrightarrow> list_all rejected ?sends \<and> delivery_in {''sending''} j" by auto
  show ?thesis
  proof (cases "channel_configured cfg (jb_Request entry)")
    case False
    then have "pc' = None" "req = None" "rn' = rn" "disk' = disk" using work result by auto
    then show ?thesis using job_inv_idle [OF inv'] by (simp add: j sends_of_after answer_comes_def)
  next
  case True
  have w: "pc' = Some (AtAnswer entry)" "rn' = rn" "disk' = disk"
    "req = (case notify_request e cfg entry result of Inl err \<Rightarrow> None | Inr q \<Rightarrow> Some q)"
    using work result True by auto
  have "notifies (jb_Request j)" using known some by (simp add: known_def sends_ok_def)
  then have "sends_ok j ((q, None) # ?sends)" for q
    using native by (auto simp: sends_ok_def delivery_in_def split: option.splits)
  then show ?thesis
    using known few same some native result inv'
    by (auto simp: w j onDisk sends_of_after answer_comes_def job_inv_def memory_ok_def disk_ok_def sendable_def
        same_task_def known_def split: sum.splits)
  qed
qed

lemma own_answer:
  assumes inv: "own_inv e cfg i (Some (AtAnswer entry)) rn disk (sends_of i hist)" and j: "map_of (rn_Jobs rn) i = Some j"
    and work: "work e cfg inp i (AtAnswer entry) (rn, disk) = (pc', req, rn', disk')"
  shows "own_inv e cfg i pc' rn' disk' (sends_of i (sends_after e cfg i (AtAnswer entry) (wi_Answer inp) req hist))"
proof -
  let ?sends = "sends_of i hist" and ?after = "sends_of i (sends_after e cfg i (AtAnswer entry) (wi_Answer inp) None hist)"
  have inv': "job_inv e cfg True (Some j) (disk_map disk i) 0 [AtAnswer entry] ?sends" using inv j by simp
  have after: "?after = (if sendable e cfg entry then noted (wi_Answer inp) ?sends else ?sends)"
    by (simp add: sends_of_after sendable_def)
  obtain d where d: "delivery_of j = Some d" and same: "jb_Request entry = jb_Request j" and result: "jb_Result entry \<noteq> None"
    and sent: "sendable e cfg entry \<longrightarrow> ?sends \<noteq> []"
    and native: "nativeDelivery (jb_Request j) \<longrightarrow> delivery_in {''sending''} j \<and> (sendable e cfg entry \<or> list_all rejected ?sends)"
    using worker_knows(2) [OF inv'] by auto
  have idle: "job_inv e cfg True (Some j) (disk_map disk i) 0 [] ?after"
    using job_inv_noted [OF inv'] job_inv_idle [OF inv'] by (simp add: after)
  have active: "active_job j" using worker_knows(1) [OF inv'] by (simp add: known_def)
  with idle have known: "known j ?after" by (simp add: job_inv_def memory_ok_def known_def)
  have go: ?thesis if "update_then e inp i change next_pc (rn, disk) = (pc', req, rn', disk')" "change_ok e cfg j (change j) next_pc ?after"
    for change next_pc
    using update_then_own [OF that(1) idle j active that(2)] by auto
  have again: "nativeDelivery (jb_Request j) \<longrightarrow> list_all rejected ?after"
    if "send_result e cfg entry (wi_Answer inp) = Inl err"
      "case err of NotificationError x unconfirmed retryable \<Rightarrow> \<not> unconfirmed \<and> retryable | PlainError x \<Rightarrow> True" for err
    using rejected_after_answer [OF that(1) result _ _ sent _ that(2)] native worker_knows(1) [OF inv'] same
    by (auto simp: after known_def sends_ok_def)
  show ?thesis
  proof (cases "rn_Cancelled rn")
    case True
    then show ?thesis using work idle j by auto
  next
    case False
    then show ?thesis
      using work go deliver_changes_ok(3,4) [OF known d] deliver_changes_ok(6) [OF known d] again
      by (auto split: sum.splits send_error.splits if_splits)
  qed
qed

lemma own_retry:
  assumes inv: "own_inv e cfg i (Some AtRetry) rn disk (sends_of i hist)" and j: "map_of (rn_Jobs rn) i = Some j"
    and work: "work e cfg inp i AtRetry (rn, disk) = (pc', req, rn', disk')"
  shows "own_inv e cfg i pc' rn' disk' (sends_of i (sends_after e cfg i AtRetry a req hist))"
proof -
  let ?sends = "sends_of i hist"
  have inv': "job_inv e cfg True (Some j) (disk_map disk i) 0 [AtRetry] ?sends" using inv j by simp
  note known = worker_knows(1) [OF inv'] and idle = job_inv_idle [OF inv']
  obtain d where d: "delivery_of j = Some d" and gate: "\<not> delivery_in {''sending'', ''sent'', ''failed'', ''unknown''} j"
    using worker_knows(2) [OF inv'] by auto
  then have "pc_ok e cfg j x ?sends AtDeliver" for x by (auto simp: delivery_in_def)
  then have again: "job_inv e cfg True (Some j) (disk_map disk i) 0 [AtDeliver] ?sends"
    using idle known by (simp add: job_inv_def memory_ok_def known_def)
  show ?thesis
  proof (cases "ds_Attempts d \<ge> maxDeliveries")
    case True
    then have "update_then e inp i gave_up (Some AtFinish) (rn, disk) = (pc', req, rn', disk')" using work j d by simp
    then show ?thesis by (rule own_update [OF inv j]) (simp_all add: deliver_changes_ok(5) [OF known d] answer_comes_def)
  next
    case False
    then show ?thesis using work j d idle again by (auto simp: sends_of_after answer_comes_def split: if_splits)
  qed
qed

lemma work_own:
  assumes work: "work e cfg inp i pc (rn, disk) = (pc', req, rn', disk')"
    and inv: "job_inv e cfg True (Some j) (disk_map disk i) 0 [pc] (sends_of i hist)" and j: "map_of (rn_Jobs rn) i = Some j"
  shows "own_inv e cfg i pc' rn' disk' (sends_of i (sends_after e cfg i pc (wi_Answer inp) req hist))"
proof -
  let ?sends = "sends_of i hist"
  have inv': "own_inv e cfg i (Some pc) rn disk (sends_of i hist)" using inv j by simp
  note known = worker_knows(1) [OF inv] and at = worker_knows(2) [OF inv] and idle = job_inv_idle [OF inv]
  have active: "active_job j" using known by (simp add: known_def)
  note upd = own_update [OF inv' j]
  have stop: ?thesis if "pc' = None" "req = None" "rn' = rn" "disk' = disk" "\<not> answer_comes e cfg pc"
    using that j idle by (simp add: sends_of_after)
  show ?thesis
  proof (cases pc)
    case AtStart
    have "change_ok e cfg j (started_job j) (Some (if jb_Result j = None then AtSource else AtGate)) ?sends"
      by (rule change_ok_same [OF known same_task_changes(1)]) (auto simp: change_simps started_job_def active_job_def split: if_splits)
    then show ?thesis using AtStart work j active upd by (auto simp: answer_comes_def active_job_def split: if_splits)
  next
    case AtSource
    then have none: "jb_Result j = None" using at by simp
    then have "?sends = []" using known by (simp add: known_def attempts_of_def delivery_of_def)
    then have "change_ok e cfg j (reported r j) (Some AtGate) ?sends" for r
      using active same_task_changes(3) [of j r] reported_result [of r j] reported_notifies [of r j]
      by (simp add: change_ok_def reported_attempts sends_ok_def reported_active del: not_None_eq)
    moreover have "change_ok e cfg j (failed_job x j) None ?sends" for x
      by (rule change_ok_same [OF known]) (simp_all add: same_task_changes change_simps)
    ultimately show ?thesis using AtSource work upd stop by (auto simp: answer_comes_def split: sum.splits if_splits)
  next
    case AtGate
    then show ?thesis using work j idle
      by (auto simp: sends_of_after answer_comes_def job_inv_def memory_ok_def delivery_in_def active split: option.splits if_splits)
  next
    case AtDeliver
    then obtain d where d: "delivery_of j = Some d" and gate: "\<not> delivery_in {''sent'', ''failed'', ''unknown''} j" using at by auto
    then have result: "jb_Result j \<noteq> None" by (cases "jb_Result j") (simp_all add: delivery_of_def)
    show ?thesis
      using AtDeliver work j d deliver_changes_ok(1,2) [OF known d] attempted_ok [OF known d _ result gate] upd
      by (auto simp: answer_comes_def split: if_splits)
  next
    case AtFinish
    have "change_ok e cfg j (completed j) None ?sends"
      by (rule change_ok_same [OF known]) (simp_all add: same_task_changes change_simps)
    then show ?thesis using AtFinish work upd stop by (auto simp: answer_comes_def split: if_splits)
  next
    case (AtSend entry)
    show ?thesis using own_send [OF inv' [unfolded AtSend] j work [unfolded AtSend]] by (simp only: AtSend)
  next
    case (AtAnswer entry)
    show ?thesis using own_answer [OF inv' [unfolded AtAnswer] j work [unfolded AtAnswer]] by (simp only: AtAnswer)
  next
    case AtRetry
    show ?thesis using own_retry [OF inv' [unfolded AtRetry] j work [unfolded AtRetry]] by (simp only: AtRetry)
  qed
qed

end
