(* ===== verification/RunnerMoves.thy ===== *)
theory RunnerMoves
  imports RunnerWork
begin

text \<open>
  The transition system of the automation runner as a function of the actions that are taken, so that runs
  of it can be evaluated; every such run is a run of \<open>machine_step\<close>.
\<close>

datatype machine_action =
    Starts RunnerConfig
  | Submits time disk_outcome bool string string submit_body
  | Enqueues string
  | Takes
  | Works string WorkInputs
  | Cancels
  | Crashes

definition unfinished :: "jobs \<Rightarrow> string list" where
  "unfinished jobs = filter (\<lambda>i. list_ex active_job (case map_of jobs i of None \<Rightarrow> [] | Some j \<Rightarrow> [j])) (remdups (map fst jobs))"

lemma unfinished_set: "distinct (unfinished jobs) \<and> set (unfinished jobs) = {i. \<exists>j. map_of jobs i = Some j \<and> active_job j}"
  by (force simp: unfinished_def split: option.splits dest: map_of_SomeD)

fun moves :: "RunnerEnv \<Rightarrow> (RunnerConfig \<Rightarrow> bool) \<Rightarrow> machine_action \<Rightarrow> Machine \<Rightarrow> Machine option" where
  "moves e allowed (Starts cfg0) m =
     (case (mc_Runner m, configured e cfg0, load e (mc_Disk m)) of
        (None, Inr cfg, Inr jobs) \<Rightarrow>
          if allowed cfg
          then Some (m\<lparr>mc_Config := cfg, mc_Pending := [], mc_Workers := [],
            mc_Runner := Some \<lparr>rn_Jobs = jobs, rn_Queue = unfinished jobs, rn_Closed = False, rn_Cancelled = False\<rparr>\<rparr>)
          else None
      | _ \<Rightarrow> None)"
| "moves e allowed (Submits now out tls host header body) m =
     (case mc_Runner m of
        None \<Rightarrow> None
      | Some rn \<Rightarrow>
          (case submit_request e (mc_Config m) now out tls host header body (rn, mc_Disk m) of
             (reply, accepted, rn', disk') \<Rightarrow>
               Some (m\<lparr>mc_Runner := Some rn', mc_Disk := disk',
                 mc_Pending := (case accepted of None \<Rightarrow> mc_Pending m | Some i \<Rightarrow> i # mc_Pending m)\<rparr>)))"
| "moves e allowed (Enqueues i) m =
     (case mc_Runner m of
        None \<Rightarrow> None
      | Some rn \<Rightarrow>
          if i \<in> set (mc_Pending m) \<and> int (length (rn_Queue rn)) < maxJobs
          then Some (m\<lparr>mc_Runner := Some (rn\<lparr>rn_Queue := rn_Queue rn @ [i]\<rparr>), mc_Pending := remove1 i (mc_Pending m)\<rparr>)
          else None)"
| "moves e allowed Takes m =
     (case mc_Runner m of
        None \<Rightarrow> None
      | Some rn \<Rightarrow>
          (case rn_Queue rn of
             [] \<Rightarrow> None
           | i # rest \<Rightarrow>
               if length (mc_Workers m) < 2
               then Some (m\<lparr>mc_Runner := Some (rn\<lparr>rn_Queue := rest\<rparr>),
                 mc_Workers := (if rn_Cancelled rn then mc_Workers m else (i, AtStart) # mc_Workers m)\<rparr>)
               else None))"
| "moves e allowed (Works i inp) m =
     (case (mc_Runner m, map_of (mc_Workers m) i) of
        (Some rn, Some pc) \<Rightarrow>
          (case work e (mc_Config m) inp i pc (rn, mc_Disk m) of
             (next_pc, req, rn', disk') \<Rightarrow>
               Some (m\<lparr>mc_Runner := Some rn', mc_Disk := disk', mc_Workers := worker_moves (i, pc) next_pc (mc_Workers m),
                 mc_Sends := sends_after e (mc_Config m) i pc (wi_Answer inp) req (mc_Sends m)\<rparr>))
      | _ \<Rightarrow> None)"
| "moves e allowed Cancels m = map_option (\<lambda>rn. m\<lparr>mc_Runner := Some (rn\<lparr>rn_Cancelled := True\<rparr>)\<rparr>) (mc_Runner m)"
| "moves e allowed Crashes m = Some (m\<lparr>mc_Runner := None, mc_Pending := [], mc_Workers := []\<rparr>)"

fun run_moves :: "RunnerEnv \<Rightarrow> (RunnerConfig \<Rightarrow> bool) \<Rightarrow> machine_action list \<Rightarrow> Machine \<Rightarrow> Machine option" where
  "run_moves e allowed [] m = Some m"
| "run_moves e allowed (a # as) m = (case moves e allowed a m of None \<Rightarrow> None | Some m' \<Rightarrow> run_moves e allowed as m')"

lemma moves_step:
  assumes "moves e allowed a m = Some m'"
  shows "machine_step e allowed m m'"
proof (cases a)
  case (Starts cfg0)
  then show ?thesis
    using assms unfinished_set by (auto split: option.splits sum.splits if_splits intro: machine_step.starts)
next
  case (Submits now out tls host header body)
  then obtain rn where rn: "mc_Runner m = Some rn" using assms by (auto split: option.splits)
  obtain reply acc rn' disk' where r: "submit_request e (mc_Config m) now out tls host header body (rn, mc_Disk m) = (reply, acc, rn', disk')"
    by (metis prod_cases4)
  from machine_step.submits [OF rn r, of allowed] show ?thesis using assms by (simp add: Submits rn r)
next
  case Takes
  then obtain rn i rest where t: "mc_Runner m = Some rn" "rn_Queue rn = i # rest" "length (mc_Workers m) < 2"
    using assms by (auto split: option.splits list.splits if_splits)
  from machine_step.takes [OF t, of e allowed] show ?thesis using assms t by (simp add: Takes)
qed (use assms in \<open>auto split: option.splits prod.splits if_splits dest!: map_of_SomeD intro: machine_step.intros\<close>)

lemma run_moves_steps: "run_moves e allowed as m = Some m' \<Longrightarrow> (machine_step e allowed)\<^sup>*\<^sup>* m m'"
  by (induction "as" arbitrary: m)
     (auto split: option.splits dest: moves_step intro: converse_rtranclp_into_rtranclp)

section \<open>A sample\<close>

definition sample_runner_env :: RunnerEnv where
  "sample_runner_env =
     (let u = (\<lambda>h. \<lparr>u_Scheme = ''http'', u_Host = h, u_Hostname = h, u_Port = '''', u_HasUser = False, u_Fragment = ''''\<rparr>) in
     \<lparr>re_URLs = sample_env\<lparr>url_parse := \<lambda>s. if s = ''http://h/x'' then Some (u ''h'')
        else if s = ''http://g/x'' then Some (u ''g'') else None\<rparr>,
      re_Path = (\<lambda>s. ''/x''), re_RawQuery = (\<lambda>s. ''''), re_Address = (\<lambda>s. None), re_Sha = (\<lambda>s. s), re_Marshal = tk_NotifyURL,
      re_Size = (\<lambda>s. 0), re_WithWait = (\<lambda>s. s)\<rparr>)"

definition sample_runner_config :: "string \<Rightarrow> RunnerConfig" where
  "sample_runner_config token =
     \<lparr>rc_StateDir = ''s'', rc_PublicURL = '''', rc_Token = '''', rc_GitHubURL = ''http://h/x'', rc_GitHubToken = '''', rc_NotifyToken = token,
      rc_NotifyOrigin = (if token = '''' then '''' else ''http://h/x''), rc_RetryDelay = 1, rc_DiscordWebhookURL = '''',
      rc_GmailFrom = '''', rc_GmailTo = '''', rc_GmailClientID = '''', rc_GmailClientSecret = '''', rc_GmailRefreshToken = ''''\<rparr>"

definition sample_task :: "string \<Rightarrow> TaskRequest" where
  "sample_task url = \<lparr>tk_Task = ''repository-watch'', tk_Repository = ''a/b'', tk_Feeds = [], tk_NotifyURL = url, tk_NotifyChannel = '''',
     tk_WakeplaneEvent = ''''\<rparr>"

definition sample_inputs :: "(string, SourceReport) result \<Rightarrow> notify_answer \<Rightarrow> WorkInputs" where
  "sample_inputs report answer = \<lparr>wi_Now = 1, wi_Disk = Synced, wi_Report = report, wi_Answer = answer, wi_Timer = True\<rparr>"

definition sample_report :: SourceReport where
  "sample_report = \<lparr>rpt_Title = ''t'', rpt_GeneratedAt = 1, rpt_Summary = '''', rpt_Items = []\<rparr>"

text \<open>
  A run: a start with token \<open>t\<close>, a submission with notification URL \<open>u\<close>, a crash, a start with token \<open>t'\<close>,
  and a worker on the job.
\<close>

definition acceptance_run :: "string \<Rightarrow> string \<Rightarrow> machine_action list" where
  "acceptance_run t u = [Starts (sample_runner_config t), Submits 0 Synced False ''r'' ''k'' (OneTask (sample_task u))]"

definition sample_accepts :: "string \<Rightarrow> string \<Rightarrow> bool" where
  "sample_accepts t u \<longleftrightarrow> (t, u) \<in> set [('''', ''http://h/x''), ('''', ''http://g/x''), (''t'', ''http://h/x'')]"

text \<open>The job as it comes along.\<close>

definition new_sample :: "string \<Rightarrow> string \<Rightarrow> RunnerJob" where
  "new_sample t u = runner_job sample_runner_env (sample_runner_config t) False ''r'' 0 ''k'' (sample_task u)"

definition started_sample :: "string \<Rightarrow> string \<Rightarrow> RunnerJob" where
  "started_sample t u = (started_job (new_sample t u))\<lparr>jb_UpdatedAt := 1\<rparr>"

definition reported_sample :: "string \<Rightarrow> string \<Rightarrow> RunnerJob" where
  "reported_sample t u = (reported sample_report (started_sample t u))\<lparr>jb_UpdatedAt := 1\<rparr>"

definition attempted_sample :: "string \<Rightarrow> string \<Rightarrow> RunnerJob" where
  "attempted_sample t u = (attempted (reported_sample t u))\<lparr>jb_UpdatedAt := 1\<rparr>"

definition failed_sample :: "string \<Rightarrow> string \<Rightarrow> RunnerJob" where
  "failed_sample t u = (failed_job ''e'' (started_sample t u))\<lparr>jb_UpdatedAt := 1\<rparr>"

definition sample_machine ::
    "string \<Rightarrow> RunnerJob \<Rightarrow> string list \<Rightarrow> string list \<Rightarrow> work_pc list \<Rightarrow> (string \<times> NotifyRequest \<times> notify_answer option) list \<Rightarrow> Machine" where
  "sample_machine t j pending queue pcs sends =
     \<lparr>mc_Disk = Some \<lparr>dk_Version = 1, dk_Jobs = [(''job_k'', stored j)]\<rparr>, mc_Config = sample_runner_config t,
      mc_Runner = Some \<lparr>rn_Jobs = [(''job_k'', j)], rn_Queue = queue, rn_Closed = False, rn_Cancelled = False\<rparr>,
      mc_Pending = pending, mc_Workers = map (Pair ''job_k'') pcs, mc_Sends = sends\<rparr>"

named_theorems sample_simps

lemma sample_configured [sample_simps]: "configured sample_runner_env (sample_runner_config t) = Inr (sample_runner_config t)"
  by (simp add: sample_runner_env_def sample_runner_config_def configured_def Let_def invalid_url_def url_error_def validHTTPURL_def
      validateDeliveryConfig_def trim_slashes_def)

lemma sample_task_valid:
  assumes "sample_accepts t u"
  shows "validateTask sample_runner_env (sample_runner_config t) (sample_task u) = None"
proof -
  have "validate_sources sample_runner_env (sample_task u) = None"
    by (simp add: sample_task_def validate_sources_def Let_def repositoryName_def is_alnum_def is_digit_def has_suffix_def has_prefix_def)
  then show ?thesis
    using assms
    by (auto simp: sample_accepts_def sample_task_def sample_runner_env_def sample_runner_config_def validateTask_def validateDelivery_def
        nativeDelivery_def validHTTPURL_def same_url_origin_def Let_def equal_fold_def)
qed

lemma sample_key [sample_simps]: "trim_space ''k'' = ''k''" "job_id sample_runner_env ''k'' = ''job_k''"
  by (simp_all add: trim_space_visible visible_def job_id_def sample_runner_env_def Let_def)

lemma sample_fits [sample_simps]: "\<not> maxStateBytes < re_Size sample_runner_env s"
  by (simp add: sample_runner_env_def maxStateBytes_def Let_def)

lemma sample_persist [sample_simps]:
  "persistLocked sample_runner_env Synced jobs disk = (None, Some \<lparr>dk_Version = 1, dk_Jobs = map (\<lambda>(i, j). (i, stored j)) jobs\<rparr>)"
  by (simp add: persistLocked_def sample_simps)

lemma sample_active [sample_simps]:
  "jb_Status (new_sample t u) = ''queued''" "jb_Status (started_sample t u) = ''running''" "jb_Status (reported_sample t u) = ''running''"
  "jb_Status (attempted_sample t u) = ''running''" "jb_Status (failed_sample t u) = ''failed''"
  by (simp_all add: new_sample_def runner_job_def started_sample_def started_job_def reported_sample_def reported_def attempted_sample_def
      attempted_def set_delivery_def failed_sample_def failed_job_def)

lemma sample_identity [sample_simps]:
  "jb_Fingerprint (new_sample t u) = u" "jb_Request (new_sample t u) = sample_task u" "jb_Result (new_sample t u) = None"
  "jb_Result (started_sample t u) = None" "jb_ID (new_sample t u) = ''job_k''"
  by (simp_all add: new_sample_def runner_job_def Let_def started_sample_def started_job_def sample_simps)
     (simp add: sample_runner_env_def sample_task_def Let_def)

lemma sample_delivery [sample_simps]:
  assumes "u \<noteq> ''''"
  shows "delivery_of (reported_sample t u) = Some pending_delivery" "jb_Request (reported_sample t u) = sample_task u"
    "jb_Result (reported_sample t u) = Some (SourceReport.extend sample_report (Report.fields (Some pending_delivery)))"
  using assms
  by (simp_all add: reported_sample_def reported_def delivery_of_def started_sample_def started_job_def sample_simps SourceReport.defs Report.defs)
     (simp_all add: sample_task_def)

lemma sample_stored [sample_simps]: "sj_Fingerprint (stored j) = jb_Fingerprint j" "jb_ID (sj_Job (stored j)) = jb_ID j"
  by (simp_all add: stored_def public_part_def PublicJob.defs)

lemma sample_acceptance:
  assumes "sample_accepts t u" and "allowed (sample_runner_config t)"
  shows "run_moves sample_runner_env allowed (acceptance_run t u) (fresh_machine cfg)
    = Some (sample_machine t (new_sample t u) [''job_k''] [] [] [])"
  by (simp add: acceptance_run_def sample_simps sample_task_valid [OF assms(1)] assms(2) fresh_machine_def load_def unfinished_def submit_request_def
      Let_def maxJobs_def new_sample_def [symmetric] sample_machine_def)

lemma sample_restart:
  assumes "u \<noteq> ''''" and "allowed (sample_runner_config t')"
  shows "run_moves sample_runner_env allowed [Crashes, Starts (sample_runner_config t'), Takes]
      (sample_machine t (new_sample t u) [''job_k''] [] [] []) = Some (sample_machine t' (new_sample t u) [] [] [AtStart] [])"
  using assms by (simp add: sample_simps sample_machine_def load_def unfinished_def active_job_def maxJobs_def)

text \<open>One update of the job, and the steps of its worker.\<close>

lemma sample_update:
  "update_then sample_runner_env (sample_inputs r a) ''job_k'' change next_pc
     (\<lparr>rn_Jobs = [(''job_k'', j)], rn_Queue = queue, rn_Closed = False, rn_Cancelled = False\<rparr>, disk)
   = (next_pc, None, \<lparr>rn_Jobs = [(''job_k'', (change j)\<lparr>jb_UpdatedAt := 1\<rparr>)], rn_Queue = queue, rn_Closed = False, rn_Cancelled = False\<rparr>,
      Some \<lparr>dk_Version = 1, dk_Jobs = [(''job_k'', stored ((change j)\<lparr>jb_UpdatedAt := 1\<rparr>))]\<rparr>)"
  by (simp add: update_then_def update_job_def sample_inputs_def sample_simps)

lemma sample_report_input: "wi_Report (sample_inputs r a) = r"
  by (simp add: sample_inputs_def)

lemma sample_works:
  assumes "work sample_runner_env (sample_runner_config t) (sample_inputs r a) ''job_k'' pc
     (\<lparr>rn_Jobs = [(''job_k'', j)], rn_Queue = [], rn_Closed = False, rn_Cancelled = False\<rparr>, Some \<lparr>dk_Version = 1, dk_Jobs = [(''job_k'', stored j)]\<rparr>)
     = (next_pc, req, \<lparr>rn_Jobs = [(''job_k'', k)], rn_Queue = [], rn_Closed = False, rn_Cancelled = False\<rparr>,
        Some \<lparr>dk_Version = 1, dk_Jobs = [(''job_k'', stored k)]\<rparr>)"
    and "\<not> answer_comes sample_runner_env (sample_runner_config t) pc"
  shows "moves sample_runner_env allowed (Works ''job_k'' (sample_inputs r a)) (sample_machine t j [] [] [pc] sends)
    = Some (sample_machine t k [] [] (case next_pc of None \<Rightarrow> [] | Some p \<Rightarrow> [p]) (case req of None \<Rightarrow> sends | Some q \<Rightarrow> (''job_k'', q, None) # sends))"
  by (simp add: sample_machine_def assms worker_moves_def sends_after_def split: option.split)

definition sample_request :: "string \<Rightarrow> string \<Rightarrow> NotifyRequest" where
  "sample_request t u =
     \<lparr>nq_Address = u, nq_Channel = '''', nq_JobID = ''job_k'', nq_Task = ''repository-watch'',
      nq_Report = SourceReport.extend sample_report (Report.fields None), nq_IdempotencyKey = Some ''wakeplane-notify:job_k'',
      nq_Authorization = (if t = '''' then NoAuthorization else NotifyBearer (''Bearer '' @ t))\<rparr>"

lemma sample_sends:
  assumes "sample_accepts t0 u"
  shows "notify_request sample_runner_env (sample_runner_config t) (reported_sample t0 u)
      (SourceReport.extend sample_report (Report.fields (Some pending_delivery))) = Inr (sample_request t u)"
proof -
  have "jb_ID (reported_sample t0 u) = ''job_k''"
    by (simp add: reported_sample_def reported_def started_sample_def started_job_def sample_simps)
  moreover have "u \<noteq> ''''" "url_parse (re_URLs sample_runner_env) u \<noteq> None"
    using assms by (auto simp: sample_accepts_def sample_runner_env_def Let_def)
  ultimately show ?thesis
    by (simp add: notify_request_def notify_address_def Let_def sample_simps nativeDelivery_def sample_request_def SourceReport.defs Report.defs
        sample_report_def) (simp add: sample_task_def sample_runner_config_def)
qed

lemma sample_channel: "channel_configured cfg (sample_task u)"
  by (simp add: channel_configured_def sample_task_def)

lemma sample_delivering:
  assumes "sample_accepts t0 u"
  shows "run_moves sample_runner_env allowed (replicate 5 (Works ''job_k'' (sample_inputs (Inr sample_report) NoResponse)))
      (sample_machine t (new_sample t0 u) [] [] [AtStart] [])
    = Some (sample_machine t (attempted_sample t0 u) [] [] [AtAnswer (reported_sample t0 u)] [(''job_k'', sample_request t u, None)])"
proof -
  have u: "u \<noteq> ''''" using assms by (auto simp: sample_accepts_def)
  let ?go = "moves sample_runner_env allowed (Works ''job_k'' (sample_inputs (Inr sample_report) NoResponse))"
  note works = sample_works [of t "Inr sample_report" NoResponse]
  have 1: "?go (sample_machine t (new_sample t0 u) [] [] [AtStart] [])
      = Some (sample_machine t (started_sample t0 u) [] [] [AtSource] [])"
    using works [of AtStart "new_sample t0 u" "Some AtSource" None "started_sample t0 u" allowed "[]"]
    by (simp add: sample_simps sample_update started_sample_def answer_comes_def del: moves.simps)
  have 2: "?go (sample_machine t (started_sample t0 u) [] [] [AtSource] [])
      = Some (sample_machine t (reported_sample t0 u) [] [] [AtGate] [])"
    using works [of AtSource "started_sample t0 u" "Some AtGate" None "reported_sample t0 u" allowed "[]"]
    by (simp add: sample_update sample_report_input reported_sample_def answer_comes_def del: moves.simps)
  have 3: "?go (sample_machine t (reported_sample t0 u) [] [] [AtGate] [])
      = Some (sample_machine t (reported_sample t0 u) [] [] [AtDeliver] [])"
    using works [of AtGate "reported_sample t0 u" "Some AtDeliver" None "reported_sample t0 u" allowed "[]"]
    by (simp add: sample_simps u pending_delivery_def answer_comes_def del: moves.simps)
  have 4: "?go (sample_machine t (reported_sample t0 u) [] [] [AtDeliver] [])
      = Some (sample_machine t (attempted_sample t0 u) [] [] [AtSend (reported_sample t0 u)] [])"
    using works [of AtDeliver "reported_sample t0 u" "Some (AtSend (reported_sample t0 u))" None "attempted_sample t0 u" allowed "[]"]
    by (simp add: sample_simps u pending_delivery_def answer_comes_def maxDeliveries_def sample_update attempted_sample_def del: moves.simps)
  have 5: "?go (sample_machine t (attempted_sample t0 u) [] [] [AtSend (reported_sample t0 u)] [])
      = Some (sample_machine t (attempted_sample t0 u) [] [] [AtAnswer (reported_sample t0 u)] [(''job_k'', sample_request t u, None)])"
    using works [of "AtSend (reported_sample t0 u)" "attempted_sample t0 u" "Some (AtAnswer (reported_sample t0 u))" "Some (sample_request t u)"
        "attempted_sample t0 u" allowed "[]"]
    by (simp add: sample_simps u answer_comes_def sample_channel sample_sends [OF assms] del: moves.simps)
  show ?thesis by (simp add: eval_nat_numeral 1 2 3 4 5 del: moves.simps)
qed

lemma sample_failing:
  "run_moves sample_runner_env allowed (replicate 2 (Works ''job_k'' (sample_inputs (Inl ''e'') NoResponse)))
      (sample_machine t (new_sample t0 u) [] [] [AtStart] [])
    = Some (sample_machine t (failed_sample t0 u) [] [] [] [])"
proof -
  let ?go = "moves sample_runner_env allowed (Works ''job_k'' (sample_inputs (Inl ''e'') NoResponse))"
  note works = sample_works [of t "Inl ''e''" NoResponse]
  have 1: "?go (sample_machine t (new_sample t0 u) [] [] [AtStart] [])
      = Some (sample_machine t (started_sample t0 u) [] [] [AtSource] [])"
    using works [of AtStart "new_sample t0 u" "Some AtSource" None "started_sample t0 u" allowed "[]"]
    by (simp add: sample_simps sample_update started_sample_def answer_comes_def del: moves.simps)
  have 2: "?go (sample_machine t (started_sample t0 u) [] [] [AtSource] [])
      = Some (sample_machine t (failed_sample t0 u) [] [] [] [])"
    using works [of AtSource "started_sample t0 u" None None "failed_sample t0 u" allowed "[]"]
    by (simp add: sample_update sample_report_input failed_sample_def answer_comes_def del: moves.simps)
  show ?thesis by (simp add: eval_nat_numeral 1 2 del: moves.simps)
qed

text \<open>The states that are reached: accepted, taken by a worker after a restart, waiting for the answer, failed.\<close>

lemma sample_reach:
  assumes "sample_accepts t u" and "allowed (sample_runner_config t)" and "allowed (sample_runner_config t')"
  shows "(machine_step sample_runner_env allowed)\<^sup>*\<^sup>* (fresh_machine cfg) (sample_machine t (new_sample t u) [''job_k''] [] [] [])"
    and "(machine_step sample_runner_env allowed)\<^sup>*\<^sup>* (sample_machine t (new_sample t u) [''job_k''] [] [] [])
      (sample_machine t' (new_sample t u) [] [] [AtStart] [])"
    and "(machine_step sample_runner_env allowed)\<^sup>*\<^sup>* (fresh_machine cfg) (sample_machine t' (new_sample t u) [] [] [AtStart] [])"
    and "(machine_step sample_runner_env allowed)\<^sup>*\<^sup>* (fresh_machine cfg)
      (sample_machine t' (attempted_sample t u) [] [] [AtAnswer (reported_sample t u)] [(''job_k'', sample_request t' u, None)])"
    and "(machine_step sample_runner_env allowed)\<^sup>*\<^sup>* (fresh_machine cfg) (sample_machine t' (failed_sample t u) [] [] [] [])"
proof -
  have "u \<noteq> ''''" using assms(1) by (auto simp: sample_accepts_def)
  note accept = run_moves_steps [OF sample_acceptance [of t u allowed, OF assms(1,2)], of cfg]
    and restart = run_moves_steps [OF sample_restart [of u allowed t', OF \<open>u \<noteq> ''''\<close> assms(3)], of t]
    and send = run_moves_steps [OF sample_delivering [of t u, OF assms(1)], of allowed t']
    and fail = run_moves_steps [OF sample_failing, of allowed t' t u]
  show "(machine_step sample_runner_env allowed)\<^sup>*\<^sup>* (fresh_machine cfg) (sample_machine t (new_sample t u) [''job_k''] [] [] [])"
    and "(machine_step sample_runner_env allowed)\<^sup>*\<^sup>* (sample_machine t (new_sample t u) [''job_k''] [] [] [])
      (sample_machine t' (new_sample t u) [] [] [AtStart] [])" by (fact accept, fact restart)
  show taken: "(machine_step sample_runner_env allowed)\<^sup>*\<^sup>* (fresh_machine cfg) (sample_machine t' (new_sample t u) [] [] [AtStart] [])"
    using accept restart by (rule rtranclp_trans)
  show "(machine_step sample_runner_env allowed)\<^sup>*\<^sup>* (fresh_machine cfg)
      (sample_machine t' (attempted_sample t u) [] [] [AtAnswer (reported_sample t u)] [(''job_k'', sample_request t' u, None)])"
    using taken send by (rule rtranclp_trans)
  show "(machine_step sample_runner_env allowed)\<^sup>*\<^sup>* (fresh_machine cfg) (sample_machine t' (failed_sample t u) [] [] [] [])"
    using taken fail by (rule rtranclp_trans)
qed

text \<open>The submission of that run by itself.\<close>

definition idle_runner :: Runner where
  "idle_runner = \<lparr>rn_Jobs = [], rn_Queue = [], rn_Closed = False, rn_Cancelled = False\<rparr>"

definition sample_start :: Machine where
  "sample_start = (fresh_machine (sample_runner_config ''''))\<lparr>mc_Runner := Some idle_runner\<rparr>"

definition sample_job :: RunnerJob where
  "sample_job = new_sample '''' ''http://h/x''"

lemma sample_submission:
  shows "(machine_step sample_runner_env (\<lambda>c. True))\<^sup>*\<^sup>* (fresh_machine (sample_runner_config '''')) sample_start"
    and "mc_Runner sample_start = Some idle_runner"
    and "submit_request sample_runner_env (mc_Config sample_start) 0 Synced False ''r'' ''k'' (OneTask (sample_task ''http://h/x''))
      (idle_runner, mc_Disk sample_start) = ((202, RrJob (public_part sample_job)), Some ''job_k'',
        idle_runner\<lparr>rn_Jobs := [(''job_k'', sample_job)]\<rparr>, Some \<lparr>dk_Version = 1, dk_Jobs = [(''job_k'', stored sample_job)]\<rparr>)"
    and "(machine_step sample_runner_env (\<lambda>c. True))\<^sup>*\<^sup>* (sample_start\<lparr>mc_Runner := Some (idle_runner\<lparr>rn_Jobs := [(''job_k'', sample_job)]\<rparr>),
        mc_Disk := Some \<lparr>dk_Version = 1, dk_Jobs = [(''job_k'', stored sample_job)]\<rparr>,
        mc_Pending := (case Some ''job_k'' of None \<Rightarrow> mc_Pending sample_start | Some i \<Rightarrow> i # mc_Pending sample_start)\<rparr>)
      (sample_machine '''' sample_job [] [] [AtStart] [])"
    and "mc_Runner (sample_machine '''' sample_job [] [] [AtStart] []) = Some (idle_runner\<lparr>rn_Jobs := [(''job_k'', sample_job)]\<rparr>)"
proof -
  have u: "sample_accepts '''' ''http://h/x''" by (simp add: sample_accepts_def)
  have "run_moves sample_runner_env (\<lambda>c. True) [Starts (sample_runner_config '''')] (fresh_machine (sample_runner_config '''')) = Some sample_start"
    by (simp add: sample_start_def idle_runner_def fresh_machine_def sample_simps load_def unfinished_def)
  then show "(machine_step sample_runner_env (\<lambda>c. True))\<^sup>*\<^sup>* (fresh_machine (sample_runner_config '''')) sample_start" by (rule run_moves_steps)
  show "mc_Runner sample_start = Some idle_runner" by (simp add: sample_start_def)
  show "submit_request sample_runner_env (mc_Config sample_start) 0 Synced False ''r'' ''k'' (OneTask (sample_task ''http://h/x''))
      (idle_runner, mc_Disk sample_start) = ((202, RrJob (public_part sample_job)), Some ''job_k'',
        idle_runner\<lparr>rn_Jobs := [(''job_k'', sample_job)]\<rparr>, Some \<lparr>dk_Version = 1, dk_Jobs = [(''job_k'', stored sample_job)]\<rparr>)"
    by (simp add: submit_request_def Let_def sample_task_valid [OF u] sample_simps maxJobs_def sample_job_def new_sample_def idle_runner_def
        sample_start_def fresh_machine_def)
  have "sample_start\<lparr>mc_Runner := Some (idle_runner\<lparr>rn_Jobs := [(''job_k'', sample_job)]\<rparr>),
        mc_Disk := Some \<lparr>dk_Version = 1, dk_Jobs = [(''job_k'', stored sample_job)]\<rparr>,
        mc_Pending := (case Some ''job_k'' of None \<Rightarrow> mc_Pending sample_start | Some i \<Rightarrow> i # mc_Pending sample_start)\<rparr>
      = sample_machine '''' sample_job [''job_k''] [] [] []"
    by (simp add: sample_machine_def sample_start_def fresh_machine_def idle_runner_def)
  then show "(machine_step sample_runner_env (\<lambda>c. True))\<^sup>*\<^sup>* (sample_start\<lparr>mc_Runner := Some (idle_runner\<lparr>rn_Jobs := [(''job_k'', sample_job)]\<rparr>),
        mc_Disk := Some \<lparr>dk_Version = 1, dk_Jobs = [(''job_k'', stored sample_job)]\<rparr>,
        mc_Pending := (case Some ''job_k'' of None \<Rightarrow> mc_Pending sample_start | Some i \<Rightarrow> i # mc_Pending sample_start)\<rparr>)
      (sample_machine '''' sample_job [] [] [AtStart] [])"
    using sample_reach(2) [OF u, of "\<lambda>c. True" "''''", OF TrueI TrueI] by (simp only: sample_job_def)
  show "mc_Runner (sample_machine '''' sample_job [] [] [AtStart] []) = Some (idle_runner\<lparr>rn_Jobs := [(''job_k'', sample_job)]\<rparr>)"
    by (simp add: sample_machine_def idle_runner_def)
qed

end
