(* ===== verification/RunnerSafety.thy ===== *)
theory RunnerSafety
  imports RunnerMoves
begin

text \<open>
  What holds of the automation runner over any number of crashes and restarts: the invariant of every job
  is kept by every step, an accepted job and its outcome are not lost, and notifications are not
  repeated beyond their bound or after a send whose outcome is unknown.
\<close>

section \<open>The invariant of the machine\<close>

definition occurrences :: "string \<Rightarrow> string list \<Rightarrow> nat" where
  "occurrences i xs = length (filter (\<lambda>x. x = i) xs)"

definition waiting :: "Machine \<Rightarrow> string \<Rightarrow> nat" where
  "waiting m i = occurrences i (mc_Pending m) + (case mc_Runner m of None \<Rightarrow> 0 | Some rn \<Rightarrow> occurrences i (rn_Queue rn))"

definition pcs_of :: "string \<Rightarrow> (string \<times> work_pc) list \<Rightarrow> work_pc list" where
  "pcs_of i ws = map snd (filter (\<lambda>w. fst w = i) ws)"

definition machine_inv :: "RunnerEnv \<Rightarrow> Machine \<Rightarrow> bool" where
  "machine_inv e m \<longleftrightarrow> (\<forall>i. job_inv e (mc_Config m) (mc_Runner m \<noteq> None) (memory_job m i) (disk_job m i)
     (waiting m i) (pcs_of i (mc_Workers m)) (sends_of i (mc_Sends m)))"

lemma occurrences_simps [simp]:
  "occurrences i [] = 0" "occurrences i (x # xs) = (if x = i then 1 else 0) + occurrences i xs"
  "occurrences i (xs @ ys) = occurrences i xs + occurrences i ys"
  by (simp_all add: occurrences_def)

lemma occurrences_remove1:
  "k \<in> set xs \<Longrightarrow> occurrences i (remove1 k xs) = (if i = k then occurrences i xs - 1 else occurrences i xs)"
  by (auto simp: occurrences_def filter_remove1 length_remove1)

lemma occurrences_pos: "i \<in> set xs \<Longrightarrow> 0 < occurrences i xs"
  by (induction xs) (auto simp: occurrences_def)

lemma occurrences_distinct: "distinct xs \<Longrightarrow> occurrences i xs = (if i \<in> set xs then 1 else 0)"
  by (induction xs) (auto simp: occurrences_def)

lemma pcs_of_simps [simp]:
  "pcs_of i [] = []" "pcs_of i (w # ws) = (if fst w = i then [snd w] else []) @ pcs_of i ws"
  by (simp_all add: pcs_of_def)

lemma pcs_of_member: "(i, pc) \<in> set ws \<Longrightarrow> pc \<in> set (pcs_of i ws)"
  by (force simp: pcs_of_def)

lemma pcs_of_moves:
  assumes "(i, pc) \<in> set ws" and "length (pcs_of i ws) \<le> 1"
  shows "pcs_of k (worker_moves (i, pc) pc' ws)
    = (if k = i then (case pc' of None \<Rightarrow> [] | Some p \<Rightarrow> [p]) else pcs_of k ws)"
proof -
  have "pcs_of i (remove1 (i, pc) ws) = []"
  proof -
    have "(i, pc) \<in> set (filter (\<lambda>w. fst w = i) ws)" "length (filter (\<lambda>w. fst w = i) ws) \<le> 1"
      using assms by (auto simp: pcs_of_def)
    then have "filter (\<lambda>w. fst w = i) ws = [(i, pc)]" by (cases "filter (\<lambda>w. fst w = i) ws") auto
    then show ?thesis by (simp add: pcs_of_def filter_remove1)
  qed
  moreover have "pcs_of k (remove1 (i, pc) ws) = pcs_of k ws" if "k \<noteq> i"
  proof -
    have "(i, pc) \<notin> set (filter (\<lambda>w. fst w = k) ws)" using that by simp
    then show ?thesis by (simp add: pcs_of_def filter_remove1 remove1_idem)
  qed
  ultimately show ?thesis by (simp add: worker_moves_def split: option.split)
qed

text \<open>Small moves of a job between queue and workers.\<close>

lemma job_inv_less: "job_inv e cfg up m d w pcs sends \<Longrightarrow> w' \<le> w \<Longrightarrow> job_inv e cfg up m d w' pcs sends"
  by (cases m) (auto simp: job_inv_def memory_ok_def)

lemma job_inv_taken: "job_inv e cfg up m d (Suc w) pcs sends \<Longrightarrow> job_inv e cfg up m d w (AtStart # pcs) sends"
  by (cases m) (auto simp: job_inv_def memory_ok_def)

lemma machine_inv_at:
  "machine_inv e m \<Longrightarrow> mc_Runner m = Some rn \<Longrightarrow> job_inv e (mc_Config m) True (map_of (rn_Jobs rn) i) (disk_map (mc_Disk m) i)
     (occurrences i (mc_Pending m) + occurrences i (rn_Queue rn)) (pcs_of i (mc_Workers m)) (sends_of i (mc_Sends m))"
  unfolding machine_inv_def by (drule spec [of _ i]) (simp add: memory_job_def disk_job_def waiting_def)

lemma machine_invI:
  assumes "mc_Runner m = Some rn"
    and "\<And>i. job_inv e (mc_Config m) True (map_of (rn_Jobs rn) i) (disk_map (mc_Disk m) i)
     (occurrences i (mc_Pending m) + occurrences i (rn_Queue rn)) (pcs_of i (mc_Workers m)) (sends_of i (mc_Sends m))"
  shows "machine_inv e m"
  using assms by (simp add: machine_inv_def memory_job_def disk_job_def waiting_def)

section \<open>What a submission does\<close>

lemma submit_cases:
  assumes "submit_request e cfg now out tls host header body (rn, disk) = (reply, accepted, rn', disk')"
  obtains (refused) "rn' = rn" "disk' = disk" "accepted = None"
  | (unsynced) task where "validateTask e cfg task = None" "rn' = rn" "accepted = None" "map_of (rn_Jobs rn) (job_id e (trim_space header)) = None"
      "disk_map disk' = (map_of (rn_Jobs rn))(job_id e (trim_space header) \<mapsto> runner_job e cfg tls host now (trim_space header) task)"
  | (stored) task jobs where "validateTask e cfg task = None" "body = OneTask task" "accepted = Some (job_id e (trim_space header))" "rn' = rn\<lparr>rn_Jobs := jobs\<rparr>"
      "map_of (rn_Jobs rn) (job_id e (trim_space header)) = None"
      "map_of jobs = (map_of (rn_Jobs rn))(job_id e (trim_space header) \<mapsto> runner_job e cfg tls host now (trim_space header) task)"
      "disk_map disk' = map_of jobs"
proof -
  let ?i = "job_id e (trim_space header)"
  define entry where "entry task = runner_job e cfg tls host now (trim_space header) task" for task
  define table where "table task = AList.update ?i (entry task) (rn_Jobs rn)" for task
  have table: "map_of (table task) = (map_of (rn_Jobs rn))(?i \<mapsto> entry task)" for task by (simp add: table_def update_conv')
  let ?new = "\<lambda>task. body = OneTask task \<and> validateTask e cfg task = None \<and> \<not> (trim_space header = '''' \<or> int (length (trim_space header)) > 512)
    \<and> \<not> rn_Closed rn \<and> map_of (rn_Jobs rn) ?i = None \<and> \<not> maxJobs \<le> int (length (rn_Jobs rn))"
  show ?thesis
  proof (cases "\<exists>task. ?new task")
    case False
    show ?thesis
      by (rule refused)
         (use assms False in \<open>auto simp: submit_request_def Let_def split: if_splits submit_body.splits option.splits\<close>)
  next
    case True
    then obtain task where new: "?new task" ..
    obtain err disk1 where p: "persistLocked e out (table task) disk = (err, disk1)" by fastforce
    have r: "disk' = disk1" "rn' = (if err = None then rn\<lparr>rn_Jobs := table task\<rparr> else rn)" "accepted = (if err = None then Some ?i else None)"
      using assms new p by (auto simp: submit_request_def Let_def table_def entry_def split: if_splits)
    note 2 = conjunct1 [OF new] new [THEN conjunct2, THEN conjunct2, THEN conjunct2, THEN conjunct2, THEN conjunct1] p r
      new [THEN conjunct2, THEN conjunct1]
    from persistLocked_cases [OF 2(3)] show ?thesis
    proof (elim disjE conjE)
      assume "disk1 = disk" "err \<noteq> None"
      with 2 show ?thesis by (intro refused) simp_all
    next
      assume written: "disk_map disk1 = map_of (table task)"
      show ?thesis
      proof (cases err)
        case None
        with 2 written table show ?thesis by (intro stored [of task "table task"]) (simp_all add: entry_def)
      next
        case (Some x)
        with 2 written table show ?thesis by (intro unsynced [of task]) (simp_all add: entry_def)
      qed
    qed
  qed
qed

lemma runner_job_facts:
  "delivery_of (runner_job e cfg tls host now key task) = None" "active_job (runner_job e cfg tls host now key task)"
  "jb_Request (runner_job e cfg tls host now key task) = task"
  by (simp_all add: runner_job_def delivery_of_def active_job_def Let_def)

section \<open>Every step keeps the invariant\<close>

lemma work_other:
  assumes "work e cfg inp i pc (rn, disk) = (pc', req, rn', disk')" and "k \<noteq> i"
  shows "map_of (rn_Jobs rn') k = map_of (rn_Jobs rn) k
    \<and> (disk_map disk' k = disk_map disk k \<or> disk_map disk' k = map_of (rn_Jobs rn) k)"
  using assms
  by (cases pc) (auto split: option.splits if_splits sum.splits send_error.splits dest: update_then_other)

lemma update_then_queue:
  assumes "update_then e inp i change next_pc (rn, disk) = (pc', req, rn', disk')"
  shows "rn_Queue rn' = rn_Queue rn"
proof -
  obtain err where u: "update_job e (wi_Now inp) (wi_Disk inp) i change (rn, disk) = (err, rn', disk')"
    using assms by (auto simp: update_then_def split: prod.splits)
  from u show ?thesis by (cases rule: update_job_cases) auto
qed

lemma work_queue: "work e cfg inp i pc (rn, disk) = (pc', req, rn', disk') \<Longrightarrow> rn_Queue rn' = rn_Queue rn"
  by (cases pc) (auto split: option.splits if_splits sum.splits send_error.splits dest: update_then_queue)

lemma worker_job:
  assumes "machine_inv e m" and rn: "mc_Runner m = Some rn" and w: "(i, pc) \<in> set (mc_Workers m)"
  obtains j where "map_of (rn_Jobs rn) i = Some j" and "active_job j" and "pcs_of i (mc_Workers m) = [pc]"
    and "job_inv e (mc_Config m) True (Some j) (disk_map (mc_Disk m) i) 0 [pc] (sends_of i (mc_Sends m))"
    and "occurrences i (mc_Pending m) + occurrences i (rn_Queue rn) = 0"
proof -
  note inv = machine_inv_at [OF assms(1) rn, of i]
  have "pc \<in> set (pcs_of i (mc_Workers m))" using w by (rule pcs_of_member)
  moreover have "occurrences i (mc_Pending m) + occurrences i (rn_Queue rn) + length (pcs_of i (mc_Workers m)) \<le> 1"
    using inv by (simp add: job_inv_def)
  ultimately have pcs: "pcs_of i (mc_Workers m) = [pc]" and none: "occurrences i (mc_Pending m) + occurrences i (rn_Queue rn) = 0"
    by (cases "pcs_of i (mc_Workers m)", auto)+
  obtain j where j: "map_of (rn_Jobs rn) i = Some j"
    using inv pcs by (cases "map_of (rn_Jobs rn) i") (auto simp: job_inv_def)
  have "job_inv e (mc_Config m) True (Some j) (disk_map (mc_Disk m) i) 0 [pc] (sends_of i (mc_Sends m))"
    using inv by (simp only: pcs none j)
  then show ?thesis using that [OF j _ pcs _ none] by (simp add: job_inv_def memory_ok_def)
qed

lemma works_keeps:
  assumes "machine_inv e m" and rn: "mc_Runner m = Some rn" and w: "(i, pc) \<in> set (mc_Workers m)"
    and work: "work e (mc_Config m) inp i pc (rn, mc_Disk m) = (pc', req, rn', disk')"
  shows "machine_inv e (m\<lparr>mc_Runner := Some rn', mc_Disk := disk', mc_Workers := worker_moves (i, pc) pc' (mc_Workers m),
    mc_Sends := sends_after e (mc_Config m) i pc (wi_Answer inp) req (mc_Sends m)\<rparr>)" (is "machine_inv e ?m")
proof (rule machine_invI)
  show "mc_Runner ?m = Some rn'" by simp
  note inv = machine_inv_at [OF assms(1) rn]
  obtain j where j: "map_of (rn_Jobs rn) i = Some j" and pcs: "pcs_of i (mc_Workers m) = [pc]"
    and own: "job_inv e (mc_Config m) True (Some j) (disk_map (mc_Disk m) i) 0 [pc] (sends_of i (mc_Sends m))"
    and none: "occurrences i (mc_Pending m) + occurrences i (rn_Queue rn) = 0"
    by (rule worker_job [OF assms(1) rn w])
  note moves = pcs_of_moves [OF w, unfolded pcs, simplified]
  fix k show "job_inv e (mc_Config ?m) True (map_of (rn_Jobs rn') k) (disk_map (mc_Disk ?m) k)
     (occurrences k (mc_Pending ?m) + occurrences k (rn_Queue rn')) (pcs_of k (mc_Workers ?m)) (sends_of k (mc_Sends ?m))"
  proof (cases "k = i")
    case True
    from work_own [OF work own j] show ?thesis
      using none by (simp add: True moves work_queue [OF work])
  next
    case False
    with inv [of k] work_other [OF work False] show ?thesis
      by (auto simp: moves work_queue [OF work] sends_of_other intro: job_inv_written)
  qed
qed

lemma job_inv_unsynced:
  "job_inv e cfg True None d w pcs sends \<Longrightarrow> job_inv e cfg True None (Some (runner_job e cfg' tls host now key task)) w pcs sends"
  by (simp add: job_inv_def disk_ok_def attempts_of_def runner_job_facts sends_ok_def)

lemma job_inv_accepted:
  "job_inv e cfg True None d w pcs sends \<Longrightarrow> job_inv e cfg True (Some (runner_job e cfg' tls host now key task))
     (Some (runner_job e cfg' tls host now key task)) (Suc w) pcs sends"
  by (simp add: job_inv_def disk_ok_def memory_ok_def attempts_of_def runner_job_facts sends_ok_def same_task_def)

lemma submits_keeps:
  assumes "machine_inv e m" and rn: "mc_Runner m = Some rn"
    and submit: "submit_request e (mc_Config m) now out tls host header body (rn, mc_Disk m) = (reply, accepted, rn', disk')"
  shows "machine_inv e (m\<lparr>mc_Runner := Some rn', mc_Disk := disk',
    mc_Pending := (case accepted of None \<Rightarrow> mc_Pending m | Some i \<Rightarrow> i # mc_Pending m)\<rparr>)" (is "machine_inv e ?m")
proof (rule machine_invI)
  show "mc_Runner ?m = Some rn'" by simp
  note inv = machine_inv_at [OF assms(1) rn]
  fix k show "job_inv e (mc_Config ?m) True (map_of (rn_Jobs rn') k) (disk_map (mc_Disk ?m) k)
     (occurrences k (mc_Pending ?m) + occurrences k (rn_Queue rn')) (pcs_of k (mc_Workers ?m)) (sends_of k (mc_Sends ?m))"
    using submit
  proof (cases rule: submit_cases)
    case refused
    then show ?thesis using inv [of k] by simp
  next
    case (unsynced task)
    with inv [of k] show ?thesis
      by (cases "k = job_id e (trim_space header)") (simp_all add: job_inv_unsynced job_inv_written)
  next
    case (stored task jobs)
    with inv [of k] show ?thesis
      by (cases "k = job_id e (trim_space header)") (simp_all add: job_inv_accepted job_inv_written)
  qed
qed

lemma starts_keeps:
  assumes "machine_inv e m" and "mc_Runner m = None" and "load e (mc_Disk m) = Inr jobs" and "distinct queue"
    and "set queue = {i. \<exists>j. map_of jobs i = Some j \<and> active_job j}"
  shows "machine_inv e (m\<lparr>mc_Config := cfg, mc_Pending := [], mc_Workers := [],
    mc_Runner := Some \<lparr>rn_Jobs = jobs, rn_Queue = queue, rn_Closed = False, rn_Cancelled = False\<rparr>\<rparr>)" (is "machine_inv e ?m")
proof (rule machine_invI)
  show "mc_Runner ?m = Some \<lparr>rn_Jobs = jobs, rn_Queue = queue, rn_Closed = False, rn_Cancelled = False\<rparr>" by simp
  fix k
  have "job_inv e (mc_Config m) False None (disk_map (mc_Disk m) k) (waiting m k) (pcs_of k (mc_Workers m)) (sends_of k (mc_Sends m))"
    using spec [OF assms(1) [unfolded machine_inv_def], of k] assms(2) by (simp add: memory_job_def disk_job_def)
  from job_inv_start [OF this refl, of cfg]
  show "job_inv e (mc_Config ?m) True (map_of (rn_Jobs \<lparr>rn_Jobs = jobs, rn_Queue = queue, rn_Closed = False, rn_Cancelled = False\<rparr>) k)
    (disk_map (mc_Disk ?m) k) (occurrences k (mc_Pending ?m) + occurrences k (rn_Queue \<lparr>rn_Jobs = jobs, rn_Queue = queue,
      rn_Closed = False, rn_Cancelled = False\<rparr>)) (pcs_of k (mc_Workers ?m)) (sends_of k (mc_Sends ?m))"
    using assms(4,5) by (simp add: occurrences_distinct load_map [OF assms(3)])
qed

lemma machine_step_keeps:
  assumes "machine_step e allowed m m'" and "machine_inv e m"
  shows "machine_inv e m'"
  using assms(1)
proof cases
  case (enqueues rn i)
  note inv = machine_inv_at [OF assms(2) enqueues(2)]
  have same: "occurrences k (remove1 i (mc_Pending m)) + occurrences k (rn_Queue rn @ [i])
      = occurrences k (mc_Pending m) + occurrences k (rn_Queue rn)" for k
    using occurrences_pos [OF enqueues(3)] by (auto simp: occurrences_remove1 enqueues(3))
  have "job_inv e (mc_Config m) True (map_of (rn_Jobs rn) k) (disk_map (mc_Disk m) k)
     (occurrences k (remove1 i (mc_Pending m)) + occurrences k (rn_Queue rn @ [i])) (pcs_of k (mc_Workers m)) (sends_of k (mc_Sends m))" for k
    unfolding same by (rule inv)
  then show ?thesis
    by (intro machine_invI [of _ "rn\<lparr>rn_Queue := rn_Queue rn @ [i]\<rparr>"]) (simp_all add: enqueues(1) del: occurrences_simps)
next
  case (abandons rn i)
  note inv = machine_inv_at [OF assms(2) abandons(2)]
  have "occurrences k (remove1 i (mc_Pending m)) + occurrences k (rn_Queue rn)
      \<le> occurrences k (mc_Pending m) + occurrences k (rn_Queue rn)" for k
    by (simp add: occurrences_remove1 abandons(4))
  from job_inv_less [OF inv this] show ?thesis by (intro machine_invI [of _ rn]) (simp_all add: abandons(1,2))
next
  case (takes rn i rest)
  note inv = machine_inv_at [OF assms(2) takes(2), unfolded takes(3)]
  have "job_inv e (mc_Config m) True (map_of (rn_Jobs rn) k) (disk_map (mc_Disk m) k) (occurrences k (mc_Pending m) + occurrences k rest)
    (pcs_of k (if rn_Cancelled rn then mc_Workers m else (i, AtStart) # mc_Workers m)) (sends_of k (mc_Sends m))" for k
  proof (cases "rn_Cancelled rn \<or> k \<noteq> i")
    case True
    with job_inv_less [OF inv [of k], of "occurrences k (mc_Pending m) + occurrences k rest"] show ?thesis by auto
  next
    case False
    with inv [of k] show ?thesis by (simp add: job_inv_taken)
  qed
  then show ?thesis by (intro machine_invI [of _ "rn\<lparr>rn_Queue := rest\<rparr>"]) (simp_all add: takes(1))
next
  case (cancelled rn)
  show ?thesis
    by (rule machine_invI [of _ "rn\<lparr>rn_Cancelled := True\<rparr>"]) (use machine_inv_at [OF assms(2) cancelled(2)] cancelled in simp_all)
next
  case (closes rn)
  show ?thesis
    by (rule machine_invI [of _ "rn\<lparr>rn_Closed := True\<rparr>"]) (use machine_inv_at [OF assms(2) closes(2)] closes in simp_all)
next
  case crashes
  have "memory_job m' i = None" "disk_job m' i = disk_job m i" "waiting m' i = 0" for i
    by (simp_all add: crashes memory_job_def disk_job_def waiting_def)
  with assms(2) show ?thesis by (auto simp: machine_inv_def crashes intro: job_inv_crash)
qed (use assms(2) in \<open>auto intro: works_keeps submits_keeps starts_keeps\<close>)

lemma fresh_machine_inv: "machine_inv e (fresh_machine cfg)"
  by (simp add: machine_inv_def fresh_machine_def job_inv_def disk_ok_def attempts_of_def memory_job_def disk_job_def disk_map_def
      waiting_def sends_of_def)

section \<open>What is not lost\<close>

text \<open>The task of a job that was accepted, and the whole of a job that has finished.\<close>

definition accepted :: "Machine \<Rightarrow> string \<Rightarrow> RunnerJob \<Rightarrow> bool" where
  "accepted m i j \<longleftrightarrow> (\<exists>d. disk_job m i = Some d \<and> same_task j d)
     \<and> (mc_Runner m \<noteq> None \<longrightarrow> (\<exists>k. memory_job m i = Some k \<and> same_task j k))"

definition finished :: "Machine \<Rightarrow> string \<Rightarrow> RunnerJob \<Rightarrow> bool" where
  "finished m i j \<longleftrightarrow> \<not> active_job j \<and> disk_job m i = Some j \<and> (mc_Runner m \<noteq> None \<longrightarrow> memory_job m i = Some j)"

definition retained :: "Machine \<Rightarrow> Machine \<Rightarrow> bool" where
  "retained m m' \<longleftrightarrow> (\<forall>i j. (accepted m i j \<longrightarrow> accepted m' i j) \<and> (finished m i j \<longrightarrow> finished m' i j))"

text \<open>How a step can change what is seen of one job.\<close>

datatype job_change = Kept | Worked RunnerJob RunnerJob | Added | Lost | Reloaded

fun changes :: "RunnerEnv \<Rightarrow> Machine \<Rightarrow> Machine \<Rightarrow> string \<Rightarrow> job_change \<Rightarrow> bool" where
  "changes e m m' i Kept \<longleftrightarrow> mc_Runner m \<noteq> None \<and> mc_Runner m' \<noteq> None \<and> memory_job m' i = memory_job m i
     \<and> (disk_job m' i = disk_job m i \<or> disk_job m' i = memory_job m i)"
| "changes e m m' i (Worked j k) \<longleftrightarrow> mc_Runner m \<noteq> None \<and> mc_Runner m' \<noteq> None \<and> memory_job m i = Some j \<and> memory_job m' i = Some k
     \<and> same_task j k \<and> active_job j"
| "changes e m m' i Added \<longleftrightarrow> mc_Runner m \<noteq> None \<and> memory_job m i = None
     \<and> (\<forall>j. disk_job m' i = Some j \<longrightarrow> validateTask e (mc_Config m) (jb_Request j) = None)"
| "changes e m m' i Lost \<longleftrightarrow> mc_Runner m' = None \<and> disk_job m' i = disk_job m i"
| "changes e m m' i Reloaded \<longleftrightarrow> mc_Runner m = None \<and> mc_Runner m' \<noteq> None \<and> disk_job m' i = disk_job m i \<and> memory_job m' i = disk_job m i"

lemma same_task_trans: "same_task j k \<Longrightarrow> same_task k l \<Longrightarrow> same_task j l"
  by (simp add: same_task_def)

lemma memory_on_disk:
  "machine_inv e m \<Longrightarrow> memory_job m i = Some j \<Longrightarrow> \<exists>d. disk_job m i = Some d \<and> same_task j d \<and> (\<not> active_job j \<longrightarrow> d = j)"
  unfolding machine_inv_def by (drule spec [of _ i]) (auto simp: job_inv_def memory_ok_def)

lemma changes_retain:
  assumes "changes e m m' i c" and "machine_inv e m'"
  shows "(accepted m i j \<longrightarrow> accepted m' i j) \<and> (finished m i j \<longrightarrow> finished m' i j)"
proof (cases c)
  case Kept
  then show ?thesis
    using assms memory_on_disk [OF assms(2)] by (auto simp: accepted_def finished_def intro: same_task_trans)
next
  case (Worked k l)
  then show ?thesis
    using assms memory_on_disk [OF assms(2), of i l] by (auto simp: accepted_def finished_def intro: same_task_trans)
qed (use assms in \<open>auto simp: accepted_def finished_def\<close>)

lemma update_then_task:
  assumes "update_then e inp i change next_pc (rn, disk) = (pc', req, rn', disk')" and "map_of (rn_Jobs rn) i = Some j"
    and "\<And>j. same_task j (change j)"
  shows "\<exists>k. map_of (rn_Jobs rn') i = Some k \<and> same_task j k"
proof -
  obtain err where u: "update_job e (wi_Now inp) (wi_Disk inp) i change (rn, disk) = (err, rn', disk')"
    using assms(1) by (auto simp: update_then_def split: prod.splits)
  have "same_task j j" by (simp add: same_task_def)
  from u this show ?thesis by (cases rule: update_job_cases) (use assms(2,3) in auto)
qed

lemmas update_tasks = update_then_task [OF _ _ same_task_changes(1)] update_then_task [OF _ _ same_task_changes(2)]
  update_then_task [OF _ _ same_task_changes(3)] update_then_task [OF _ _ same_task_changes(4)]
  update_then_task [OF _ _ same_task_changes(5)] update_then_task [OF _ _ same_task_changes(6)]
  update_then_task [OF _ _ same_task_changes(7)] update_then_task [OF _ _ same_task_changes(8)]
  update_then_task [OF _ _ same_task_changes(9)] update_then_task [OF _ _ same_task_changes(10)]
  update_then_task [OF _ _ same_task_changes(11)]

lemma work_task:
  assumes "work e cfg inp i pc (rn, disk) = (pc', req, rn', disk')" and "map_of (rn_Jobs rn) i = Some j"
  shows "\<exists>k. map_of (rn_Jobs rn') i = Some k \<and> same_task j k"
proof -
  have same: "same_task j j" by (simp add: same_task_def)
  show ?thesis
    using assms same
    by (cases pc) (auto split: option.splits if_splits sum.splits send_error.splits dest: update_tasks [OF _ assms(2)])
qed

lemma step_changes:
  assumes "machine_step e allowed m m'" and "machine_inv e m"
  shows "\<exists>c. changes e m m' i c"
  using assms(1)
proof cases
  case (starts cfg0 cfg jobs queue)
  then have "changes e m m' i Reloaded"
    by (simp add: memory_job_def disk_job_def load_map)
  then show ?thesis ..
next
  case (submits rn now out tls host header body reply accepted rn' disk')
  from submits(3) show ?thesis
  proof (cases rule: submit_cases)
    case refused
    then have "changes e m m' i Kept" using submits(1,2) by (simp add: memory_job_def disk_job_def)
    then show ?thesis ..
  next
    case (unsynced task)
    then have "changes e m m' i Added \<or> changes e m m' i Kept" using submits(1,2) by (auto simp: memory_job_def disk_job_def runner_job_facts)
    then show ?thesis by blast
  next
    case (stored task jobs)
    then have "changes e m m' i Added \<or> changes e m m' i Kept" using submits(1,2) by (auto simp: memory_job_def disk_job_def runner_job_facts)
    then show ?thesis by blast
  qed
next
  case (works rn k pc inp pc' req rn' disk')
  show ?thesis
  proof (cases "k = i")
    case True
    obtain j where j: "map_of (rn_Jobs rn) i = Some j" "active_job j"
      by (rule worker_job [OF assms(2) works(2), of i pc]) (use works(3) True in simp_all)
    from work_task [OF works(4) [unfolded True] j(1)] obtain l where "map_of (rn_Jobs rn') i = Some l" "same_task j l" by blast
    with j have "changes e m m' i (Worked j l)" by (simp add: works(1,2) memory_job_def)
    then show ?thesis ..
  next
    case False
    then have "changes e m m' i Kept"
      using work_other [OF works(4), of i] by (auto simp: works(1,2) memory_job_def disk_job_def)
    then show ?thesis ..
  qed
next
  case crashes
  then have "changes e m m' i Lost" by (simp add: disk_job_def)
  then show ?thesis ..
qed (rule exI [of _ Kept]; simp add: memory_job_def disk_job_def)+

lemma step_retains: "machine_inv e m \<Longrightarrow> machine_step e allowed m m' \<Longrightarrow> retained m m'"
  using step_changes changes_retain machine_step_keeps unfolding retained_def by metis

interpretation runner: monotone_system "\<lambda>m. \<exists>cfg. m = fresh_machine cfg" "machine_step e allowed" "machine_inv e" retained
  for e allowed
  by unfold_locales (auto simp: retained_def fresh_machine_inv intro: machine_step_keeps dest: step_retains [unfolded retained_def])

section \<open>Properties\<close>

lemma reachable_machine: "(machine_step e allowed)\<^sup>*\<^sup>* (fresh_machine cfg) m \<Longrightarrow> machine_inv e m"
  by (rule runner.reachable_inv [of "fresh_machine cfg"]) blast

text \<open>
  C16: notifications are not repeated. Over the whole life of a state directory, whatever the interleaving
  of handlers, workers, failing disk writes, crashes and restarts, at most three requests are sent for a
  job; and for a delivery to a provider without idempotency (Discord, email), a request is repeated only
  if the provider answered all before it with 429: never after a send whose outcome is unknown.
\<close>

theorem notifications_bounded:
  assumes "(machine_step e allowed)\<^sup>*\<^sup>* (fresh_machine cfg) m"
  shows "length (sends_of i (mc_Sends m)) \<le> maxDeliveries
    \<and> (case disk_job m i of None \<Rightarrow> sends_of i (mc_Sends m) = []
       | Some j \<Rightarrow> nativeDelivery (jb_Request j) \<longrightarrow> list_all rejected (tl (sends_of i (mc_Sends m))))"
proof -
  have "disk_ok (disk_job m i) (sends_of i (mc_Sends m))"
    using reachable_machine [OF assms] by (simp add: machine_inv_def job_inv_def)
  then show ?thesis by (auto simp: disk_ok_def sends_ok_def attempts_of_def split: option.split)
qed

lemma notifications_bounded_witness:
  "length (sends_of ''job_k'' [(''job_k'', sample_request '''' ''http://h/x'', None)]) \<le> maxDeliveries
    \<and> list_all rejected (tl (sends_of ''job_k'' [(''job_k'', sample_request '''' ''http://h/x'', None)]))"
proof -
  have "sample_accepts '''' ''http://h/x''" by (simp add: sample_accepts_def)
  from notifications_bounded [OF sample_reach(4) [OF this, of "\<lambda>c. True" "''''", OF TrueI TrueI], THEN conjunct1, of "''job_k''"] show ?thesis
    by (simp add: sample_machine_def) (simp add: sends_of_def)
qed

lemma submitted_job:
  assumes "submit_request e cfg now out tls host header body (rn, disk) = ((code, RrJob p), acc, rn', disk')"
  obtains j where "map_of (rn_Jobs rn') (job_id e (trim_space header)) = Some j" and "p = public_part j"
    and "\<not> (trim_space header = '''' \<or> int (length (trim_space header)) > 512)"
  using assms
  by (auto simp: submit_request_def Let_def update_conv' split: if_splits submit_body.splits option.splits prod.splits)

lemma accepted_stays:
  assumes "(machine_step e allowed)\<^sup>*\<^sup>* (fresh_machine cfg) m" and "mc_Runner m = Some rn"
    and "submit_request e (mc_Config m) now out tls host header body (rn, mc_Disk m) = ((code, RrJob p), acc, rn', disk')"
    and "(machine_step e allowed)\<^sup>*\<^sup>* (m\<lparr>mc_Runner := Some rn', mc_Disk := disk',
      mc_Pending := (case acc of None \<Rightarrow> mc_Pending m | Some i \<Rightarrow> i # mc_Pending m)\<rparr>) m'"
    and "mc_Runner m' = Some rn2"
  obtains j q where "map_of (rn_Jobs rn') (job_id e (trim_space header)) = Some j" and "p = public_part j"
    and "\<not> (trim_space header = '''' \<or> int (length (trim_space header)) > 512)"
    and "map_of (rn_Jobs rn2) (job_id e (trim_space header)) = Some q" and "same_task j q"
proof -
  let ?i = "job_id e (trim_space header)"
  define m1 where "m1 = m\<lparr>mc_Runner := Some rn', mc_Disk := disk',
      mc_Pending := (case acc of None \<Rightarrow> mc_Pending m | Some i \<Rightarrow> i # mc_Pending m)\<rparr>"
  obtain j where j: "map_of (rn_Jobs rn') ?i = Some j" "p = public_part j"
    and key: "\<not> (trim_space header = '''' \<or> int (length (trim_space header)) > 512)"
    by (rule submitted_job [OF assms(3)])
  have inv: "machine_inv e m1" unfolding m1_def by (rule submits_keeps [OF reachable_machine [OF assms(1)] assms(2,3)])
  have "memory_job m1 ?i = Some j" using j by (simp add: m1_def memory_job_def)
  with memory_on_disk [OF inv] have "accepted m1 ?i j" by (auto simp: accepted_def same_task_def m1_def)
  moreover have "retained m1 m'" by (rule runner.steps_rel [OF assms(4) [folded m1_def] inv])
  ultimately have "accepted m' ?i j" by (simp add: retained_def)
  then obtain q where "map_of (rn_Jobs rn2) ?i = Some q" "same_task j q" using assms(5) by (auto simp: accepted_def memory_job_def)
  with j key show ?thesis by (rule that)
qed

text \<open>
  C17: an accepted job is not lost and not accepted twice. If a submission was answered with a job, then
  after any further steps, whenever a process serves the directory, a lookup under the same key finds
  a job with the same identifier and instructions, and another submission under that key adds none: it
  shows that job, or is refused.
\<close>

theorem accepted_jobs_kept:
  assumes "(machine_step e allowed)\<^sup>*\<^sup>* (fresh_machine cfg) m" and "mc_Runner m = Some rn"
    and "submit_request e (mc_Config m) now out tls host header body (rn, mc_Disk m) = ((code, RrJob p), acc, rn', disk')"
    and "(machine_step e allowed)\<^sup>*\<^sup>* (m\<lparr>mc_Runner := Some rn', mc_Disk := disk',
      mc_Pending := (case acc of None \<Rightarrow> mc_Pending m | Some i \<Rightarrow> i # mc_Pending m)\<rparr>) m'"
    and "mc_Runner m' = Some rn2"
  shows "\<exists>j q. map_of (rn_Jobs rn') (job_id e (trim_space header)) = Some j \<and> p = public_part j
    \<and> map_of (rn_Jobs rn2) (job_id e (trim_space header)) = Some q \<and> same_task j q
    \<and> lookup_request e rn2 header = (200, RrJob (public_part q))
    \<and> (\<forall>now out tls host body reply acc2 rn3 disk3.
         submit_request e (mc_Config m') now out tls host header body (rn2, mc_Disk m') = (reply, acc2, rn3, disk3)
         \<longrightarrow> acc2 = None \<and> rn3 = rn2 \<and> disk3 = mc_Disk m' \<and> (fst reply = 200 \<longrightarrow> reply = (200, RrJob (public_part q))))"
proof -
  let ?i = "job_id e (trim_space header)"
  obtain j q where j: "map_of (rn_Jobs rn') ?i = Some j" "p = public_part j"
    and key: "\<not> (trim_space header = '''' \<or> int (length (trim_space header)) > 512)"
    and q: "map_of (rn_Jobs rn2) ?i = Some q" "same_task j q"
    by (rule accepted_stays [OF assms])
  have "acc2 = None \<and> rn3 = rn2 \<and> disk3 = mc_Disk m' \<and> (fst reply = 200 \<longrightarrow> reply = (200, RrJob (public_part q)))"
    if "submit_request e (mc_Config m') now out tls host header body (rn2, mc_Disk m') = (reply, acc2, rn3, disk3)"
    for now out tls host body reply acc2 rn3 disk3
    using that q(1) by (auto simp: submit_request_def Let_def split: if_splits submit_body.splits option.splits)
  moreover have "lookup_request e rn2 header = (200, RrJob (public_part q))" using q key by (auto simp: lookup_request_def)
  ultimately show ?thesis using j q by blast
qed

lemma accepted_jobs_kept_witness:
  "\<exists>j q. same_task j q
    \<and> lookup_request sample_runner_env (idle_runner\<lparr>rn_Jobs := [(''job_k'', sample_job)]\<rparr>) ''k'' = (200, RrJob (public_part q))"
  using accepted_jobs_kept [OF sample_submission] by (elim exE conjE) (intro exI conjI)

text \<open>
  C18: what is reported as finished stays so. If a status request shows a job that is no longer queued or
  running, then after any further steps, whenever a process serves the directory, the same request gives
  exactly the same answer.
\<close>

theorem finished_jobs_final:
  assumes "(machine_step e allowed)\<^sup>*\<^sup>* (fresh_machine cfg) m" and "mc_Runner m = Some rn"
    and "status_request rn i = (200, RrJob p)" and "jb_Status p \<notin> {''queued'', ''running''}"
    and "(machine_step e allowed)\<^sup>*\<^sup>* m m'" and "mc_Runner m' = Some rn'"
  shows "status_request rn' i = (200, RrJob p) \<and> report_request rn' i = report_request rn i"
proof -
  obtain j where j: "map_of (rn_Jobs rn) i = Some j" "p = public_part j"
    using assms(3) by (auto simp: status_request_def split: option.splits)
  then have "memory_job m i = Some j" by (simp add: memory_job_def assms(2))
  moreover have "\<not> active_job j" using assms(4) j by (cases j) (simp add: active_job_def public_part_def PublicJob.defs)
  ultimately have "finished m i j" using memory_on_disk [OF reachable_machine [OF assms(1)]] by (auto simp: finished_def)
  moreover have "retained m m'" by (rule runner.steps_rel [OF assms(5) reachable_machine [OF assms(1)]])
  ultimately have "finished m' i j" by (simp add: retained_def)
  then have "map_of (rn_Jobs rn') i = Some j" using assms(6) by (simp add: finished_def memory_job_def)
  with j show ?thesis by (simp add: status_request_def report_request_def)
qed

lemma finished_jobs_final_witness:
  "status_request \<lparr>rn_Jobs = [(''job_k'', failed_sample '''' ''http://h/x'')], rn_Queue = [], rn_Closed = False, rn_Cancelled = True\<rparr> ''job_k''
    = (200, RrJob (public_part (failed_sample '''' ''http://h/x'')))"
proof -
  let ?m = "sample_machine '''' (failed_sample '''' ''http://h/x'') [] [] [] []"
  let ?rn = "\<lambda>c. \<lparr>rn_Jobs = [(''job_k'', failed_sample '''' ''http://h/x'')], rn_Queue = [], rn_Closed = False, rn_Cancelled = c\<rparr>"
  have u: "sample_accepts '''' ''http://h/x''" by (simp add: sample_accepts_def)
  have "run_moves sample_runner_env (\<lambda>c. True) [Cancels] ?m = Some (?m\<lparr>mc_Runner := Some (?rn True)\<rparr>)"
    by (simp add: sample_machine_def)
  note cancel = run_moves_steps [OF this]
  have "mc_Runner ?m = Some (?rn False)" by (simp add: sample_machine_def)
  note rn = this
  have shown: "status_request (?rn False) ''job_k'' = (200, RrJob (public_part (failed_sample '''' ''http://h/x'')))"
    by (simp add: status_request_def)
  have ended: "jb_Status (public_part (failed_sample '''' ''http://h/x'')) \<notin> {''queued'', ''running''}"
    by (simp add: public_part_def PublicJob.defs sample_simps)
  have "mc_Runner (?m\<lparr>mc_Runner := Some (?rn True)\<rparr>) = Some (?rn True)" by simp
  from finished_jobs_final [OF sample_reach(5) [OF u, of "\<lambda>c. True" "''''", OF TrueI TrueI] rn shown ended cancel this]
  show ?thesis by (rule conjunct1)
qed

end
