(* ===== verification/RunnerRun.thy ===== *)
theory RunnerRun
  imports RunnerSafety
begin

text \<open>
  A job from start to end on a worker of the automation runner: the loop over the steps of \<open>execute\<close> and
  \<open>deliver\<close> ends whatever the inputs, and if nothing fails it ends with a finished job.
\<close>

section \<open>The loop\<close>

partial_function (option) run_job ::
    "RunnerEnv \<Rightarrow> RunnerConfig \<Rightarrow> (nat \<Rightarrow> WorkInputs) \<Rightarrow> nat \<Rightarrow> string \<Rightarrow> work_pc \<Rightarrow> Runner \<times> disk \<Rightarrow> (Runner \<times> disk) option" where
  "run_job e cfg ins k i pc st =
     (case work e cfg (ins k) i pc st of
        (None, req, st1) \<Rightarrow> Some st1
      | (Some pc1, req, st1) \<Rightarrow> run_job e cfg ins (k + 1) i pc1 st1)"

declare run_job.simps [code]

text \<open>The attempts left come first; between two attempts the worker only moves forward.\<close>

fun pc_rank :: "work_pc \<Rightarrow> nat" where
  "pc_rank AtStart = 7"
| "pc_rank AtSource = 6"
| "pc_rank AtGate = 5"
| "pc_rank (AtSend entry) = 4"
| "pc_rank (AtAnswer entry) = 3"
| "pc_rank AtRetry = 2"
| "pc_rank AtDeliver = 1"
| "pc_rank AtFinish = 0"

definition work_left :: "RunnerJob \<Rightarrow> work_pc \<Rightarrow> nat" where
  "work_left j pc = 8 * (maxDeliveries - attempts_of (Some j)) + pc_rank pc"

lemma update_then_left:
  assumes "update_then e inp i change next_pc (rn, disk) = (Some pc', req, rn', disk')" and "map_of (rn_Jobs rn) i = Some j"
  obtains t where "next_pc = Some pc'" and "map_of (rn_Jobs rn') i = Some ((change j)\<lparr>jb_UpdatedAt := t\<rparr>)"
    and "rn_Closed rn' = rn_Closed rn" and "rn_Cancelled rn' = rn_Cancelled rn"
proof -
  obtain err where u: "update_job e (wi_Now inp) (wi_Disk inp) i change (rn, disk) = (err, rn', disk')"
    and "Some pc' = (if err = None then next_pc else None)"
    using assms(1) by (auto simp: update_then_def split: prod.splits)
  then have "err = None" "next_pc = Some pc'" by (simp_all split: if_splits)
  from u show ?thesis
  proof (cases rule: update_job_cases)
    case (committed k jobs)
    then show ?thesis
      using \<open>next_pc = Some pc'\<close> assms(2) by (intro that [of "wi_Now inp"]) simp_all
  qed (simp_all add: \<open>err = None\<close>)
qed

lemma left_simps [simp]:
  "work_left (j\<lparr>jb_UpdatedAt := t\<rparr>) pc = work_left j pc"
  by (simp add: work_left_def stamped)

lemma attempts_of_set:
  "map_option ds_Attempts (map_option f (delivery_of j)) = map_option ds_Attempts (delivery_of j)
   \<Longrightarrow> attempts_of (Some (set_delivery f j)) = attempts_of (Some j)"
  by (rule attempts_kept) (simp add: change_simps)

lemma attempts_of_changes:
  "attempts_of (Some (started_job j)) = attempts_of (Some j)" "attempts_of (Some (restarted_unknown j)) = attempts_of (Some j)"
  "attempts_of (Some (exhausted j)) = attempts_of (Some j)" "attempts_of (Some (delivered now x j)) = attempts_of (Some j)"
  "attempts_of (Some (undelivered x u j)) = attempts_of (Some j)" "attempts_of (Some (requeued x j)) = attempts_of (Some j)"
  "attempts_of (Some (gave_up j)) = attempts_of (Some j)"
  "delivery_of j = Some d \<Longrightarrow> attempts_of (Some (attempted j)) = Suc (attempts_of (Some j))"
  unfolding restarted_unknown_def exhausted_def delivered_def undelivered_def requeued_def gave_up_def
  by (simp_all add: attempts_of_set option.map_comp o_def) (simp_all add: attempts_of_def change_simps)

lemma request_of_changes [simp]:
  "jb_Request (started_job j) = jb_Request j" "jb_Request (reported r j) = jb_Request j" "jb_Request (attempted j) = jb_Request j"
  "jb_Request (restarted_unknown j) = jb_Request j" "jb_Request (exhausted j) = jb_Request j"
  "jb_Request (delivered now x j) = jb_Request j" "jb_Request (undelivered x u j) = jb_Request j"
  "jb_Request (requeued x j) = jb_Request j" "jb_Request (gave_up j) = jb_Request j" "jb_Request (completed j) = jb_Request j"
  unfolding restarted_unknown_def exhausted_def delivered_def undelivered_def requeued_def gave_up_def
  by (simp_all add: started_job_def reported_def attempted_def completed_def set_delivery_def)

lemma work_decreases:
  assumes "work e cfg inp i pc (rn, disk) = (Some pc', req, rn', disk')" and "map_of (rn_Jobs rn) i = Some j"
    and "pc_ok e cfg j d sends pc"
  shows "\<exists>k. map_of (rn_Jobs rn') i = Some k \<and> work_left k pc' < work_left j pc \<and> jb_Request k = jb_Request j"
proof -
  have upd: "(next_pc = Some pc' \<longrightarrow> work_left (change j) pc' < work_left j pc \<and> jb_Request (change j) = jb_Request j)
      \<longrightarrow> (\<exists>k. map_of (rn_Jobs rn') i = Some k \<and> work_left k pc' < work_left j pc \<and> jb_Request k = jb_Request j)"
    if u: "update_then e inp i change next_pc (rn, disk) = (Some pc', req, rn', disk')" for change next_pc
  proof -
    obtain t where "next_pc = Some pc'" "map_of (rn_Jobs rn') i = Some ((change j)\<lparr>jb_UpdatedAt := t\<rparr>)"
      by (rule update_then_left [OF u assms(2)])
    then show ?thesis by simp
  qed
  show ?thesis
  proof (cases pc)
    case AtSource
    then have "attempts_of (Some j) = 0" using assms(3) by (simp add: attempts_of_def delivery_of_def)
    with AtSource show ?thesis using assms(1)
      by (auto simp: work_left_def reported_attempts dest!: upd split: sum.splits if_splits)
  next
    case AtDeliver
    then obtain x where "delivery_of j = Some x" using assms(3) by auto
    with AtDeliver show ?thesis using assms(1,2)
      by (auto simp: work_left_def attempts_of_changes attempts_of_def [of "Some j"] dest!: upd split: if_splits)
  qed (use assms in \<open>auto simp: work_left_def attempts_of_changes dest!: upd split: option.splits if_splits sum.splits send_error.splits\<close>)
qed

section \<open>The end\<close>

lemma update_then_flags:
  assumes "update_then e inp i change next_pc (rn, disk) = (pc', req, rn', disk')"
  shows "rn_Closed rn' = rn_Closed rn \<and> rn_Cancelled rn' = rn_Cancelled rn"
proof -
  obtain err where u: "update_job e (wi_Now inp) (wi_Disk inp) i change (rn, disk) = (err, rn', disk')"
    using assms by (auto simp: update_then_def split: prod.splits)
  from u show ?thesis by (cases rule: update_job_cases) auto
qed

lemma work_flags:
  "work e cfg inp i pc (rn, disk) = (pc', req, rn', disk') \<Longrightarrow> rn_Closed rn' = rn_Closed rn \<and> rn_Cancelled rn' = rn_Cancelled rn"
  by (cases pc) (auto split: option.splits if_splits sum.splits send_error.splits dest: update_then_flags)

text \<open>
  Nothing is in the way: the runner serves, the disk takes every write, and every state of the job table that
  the run goes through fits. The states are those of a run without the limit, \<open>n\<close> steps on.
\<close>

definition unlimited :: "RunnerEnv \<Rightarrow> RunnerEnv" where
  "unlimited e = e\<lparr>re_Size := \<lambda>_. 0\<rparr>"

fun run_steps ::
    "RunnerEnv \<Rightarrow> RunnerConfig \<Rightarrow> (nat \<Rightarrow> WorkInputs) \<Rightarrow> nat \<Rightarrow> string \<Rightarrow> work_pc \<Rightarrow> Runner \<times> disk \<Rightarrow> nat \<Rightarrow> Runner \<times> disk" where
  "run_steps e cfg ins k i pc st 0 = st"
| "run_steps e cfg ins k i pc st (Suc n) =
     (case work e cfg (ins k) i pc st of
        (None, req, st1) \<Rightarrow> st1
      | (Some pc1, req, st1) \<Rightarrow> run_steps e cfg ins (k + 1) i pc1 st1 n)"

definition table_state :: "Runner \<Rightarrow> DiskState" where
  "table_state rn = \<lparr>dk_Version = 1, dk_Jobs = map (\<lambda>(i, j). (i, stored j)) (rn_Jobs rn)\<rparr>"

definition states_fit ::
    "RunnerEnv \<Rightarrow> RunnerConfig \<Rightarrow> (nat \<Rightarrow> WorkInputs) \<Rightarrow> nat \<Rightarrow> string \<Rightarrow> work_pc \<Rightarrow> Runner \<times> disk \<Rightarrow> bool" where
  "states_fit e cfg ins k i pc st \<longleftrightarrow>
     (\<forall>n. re_Size e (table_state (fst (run_steps (unlimited e) cfg ins k i pc st n))) \<le> maxStateBytes)"

definition calm :: "(nat \<Rightarrow> WorkInputs) \<Rightarrow> Runner \<Rightarrow> bool" where
  "calm ins rn \<longleftrightarrow> \<not> rn_Closed rn \<and> \<not> rn_Cancelled rn \<and> (\<forall>n. wi_Disk (ins n) = Synced)"

lemma update_job_unlimited:
  assumes "update_job (unlimited e) now Synced i change (rn, disk) = (err, rn', disk')" and "re_Size e (table_state rn') \<le> maxStateBytes"
  shows "update_job e now Synced i change (rn, disk) = (err, rn', disk')"
  using assms
  by (auto simp: update_job_def persistLocked_def unlimited_def table_state_def maxStateBytes_def Let_def split: if_splits option.splits)

lemma update_then_unlimited:
  assumes "update_then (unlimited e) inp i change next_pc (rn, disk) = (pc', req, rn', disk')"
    and "wi_Disk inp = Synced" and "re_Size e (table_state rn') \<le> maxStateBytes"
  shows "update_then e inp i change next_pc (rn, disk) = (pc', req, rn', disk')"
  using assms by (auto simp: update_then_def split: prod.splits dest: update_job_unlimited [OF _ assms(3)])

lemma unlimited_fields [simp]: "re_URLs (unlimited e) = re_URLs e" "re_WithWait (unlimited e) = re_WithWait e"
  by (simp_all add: unlimited_def)

lemma notify_unlimited [simp]: "notify_request (unlimited e) cfg entry r = notify_request e cfg entry r"
proof -
  have "notify_address (unlimited e) cfg task = notify_address e cfg task" for task by (simp add: notify_address_def)
  then show ?thesis by (simp only: notify_request_def unlimited_fields)
qed

lemma send_unlimited [simp]: "send_result (unlimited e) cfg entry a = send_result e cfg entry a"
  by (simp only: send_result_def notify_unlimited)

lemma work_unlimited:
  assumes "work (unlimited e) cfg inp i pc (rn, disk) = (pc', req, rn', disk')"
    and "wi_Disk inp = Synced" and "re_Size e (table_state rn') \<le> maxStateBytes"
  shows "work e cfg inp i pc (rn, disk) = (pc', req, rn', disk')"
  using assms(1) update_then_unlimited [OF _ assms(2,3)]
  by (cases pc) (auto split: option.splits if_splits sum.splits send_error.splits)

text \<open>A run whose states fit takes the steps of the run without the limit.\<close>

lemma states_fit_step:
  assumes "states_fit e cfg ins k i pc (rn, disk)" and "calm ins rn" and "work e cfg (ins k) i pc (rn, disk) = (pc', req, rn', disk')"
  shows "re_Size e (table_state rn') \<le> maxStateBytes \<and> work (unlimited e) cfg (ins k) i pc (rn, disk) = (pc', req, rn', disk')
    \<and> (\<forall>pc1. pc' = Some pc1 \<longrightarrow> states_fit e cfg ins (k + 1) i pc1 (rn', disk'))"
proof -
  obtain pc0 req0 rn0 disk0 where w0: "work (unlimited e) cfg (ins k) i pc (rn, disk) = (pc0, req0, rn0, disk0)" by (metis prod_cases4)
  have "run_steps (unlimited e) cfg ins k i pc (rn, disk) (Suc 0) = (rn0, disk0)" by (simp add: w0 split: option.split)
  then have fit: "re_Size e (table_state rn0) \<le> maxStateBytes" using assms(1) by (metis states_fit_def fst_conv)
  from work_unlimited [OF w0 _ fit] assms(2,3) have same: "pc0 = pc'" "req0 = req" "rn0 = rn'" "disk0 = disk'" by (simp_all add: calm_def)
  have "states_fit e cfg ins (k + 1) i pc1 (rn', disk')" if "pc' = Some pc1" for pc1
    unfolding states_fit_def
  proof
    fix n
    have "run_steps (unlimited e) cfg ins k i pc (rn, disk) (Suc n) = run_steps (unlimited e) cfg ins (k + 1) i pc1 (rn', disk') n"
      by (simp add: w0 same that)
    then show "re_Size e (table_state (fst (run_steps (unlimited e) cfg ins (k + 1) i pc1 (rn', disk') n))) \<le> maxStateBytes"
      using assms(1) by (metis states_fit_def)
  qed
  with fit w0 same show ?thesis by simp
qed

definition finished_at :: "Runner \<times> disk \<Rightarrow> string \<Rightarrow> bool" where
  "finished_at st i \<longleftrightarrow> (\<exists>j. map_of (rn_Jobs (fst st)) i = Some j \<and> disk_map (snd st) i = Some j
     \<and> (jb_Status j = ''succeeded'' \<or> jb_Status j = ''failed''))"

lemma update_then_ends:
  assumes "update_then (unlimited e) inp i change next_pc (rn, disk) = (None, req, rn', disk')" and "wi_Disk inp = Synced" "\<not> rn_Closed rn"
    and "map_of (rn_Jobs rn) i = Some j"
  shows "next_pc = None \<and> (jb_Status (change j) = ''succeeded'' \<or> jb_Status (change j) = ''failed'' \<longrightarrow> finished_at (rn', disk') i)"
proof -
  obtain err where u: "update_job (unlimited e) (wi_Now inp) (wi_Disk inp) i change (rn, disk) = (err, rn', disk')"
    and "(if err = None then next_pc else None) = None"
    using assms(1) by (auto simp: update_then_def split: prod.splits)
  moreover have "err = None"
    using u assms(2-4)
    by (auto simp: update_job_def persistLocked_def unlimited_def maxStateBytes_def Let_def split: if_splits prod.splits)
  ultimately have "next_pc = None" by simp
  from u show ?thesis
    by (cases rule: update_job_cases) (use \<open>err = None\<close> \<open>next_pc = None\<close> assms(4) in \<open>auto simp: finished_at_def\<close>)
qed

lemma work_ends:
  assumes "work (unlimited e) cfg inp i pc (rn, disk) = (None, req, rn', disk')"
    and disk: "wi_Disk inp = Synced" and serves: "\<not> rn_Closed rn" "\<not> rn_Cancelled rn"
    and j: "map_of (rn_Jobs rn) i = Some j" and "active_job j" and "pc_ok e cfg j d sends pc"
    and "channel_configured cfg (jb_Request j)"
  shows "finished_at (rn', disk') i"
proof -
  note ends = update_then_ends [OF _ disk serves(1) j]
  show ?thesis
    using assms(1,6-8) j serves(2)
    by (cases pc) (auto simp: active_job_def failed_job_def completed_def split: option.splits if_splits sum.splits send_error.splits dest: ends)
qed

lemma run_job_ends:
  assumes "job_inv e cfg True (Some j) (disk_map disk i) 0 [pc] (sends_of i hist)" and "map_of (rn_Jobs rn) i = Some j"
  shows "\<exists>st. run_job e cfg ins k i pc (rn, disk) = Some st
    \<and> (calm ins rn \<and> states_fit e cfg ins k i pc (rn, disk) \<and> channel_configured cfg (jb_Request j) \<longrightarrow> finished_at st i)"
  using assms
proof (induction "work_left j pc" arbitrary: j pc rn disk hist k rule: less_induct)
  case less
  have at: "pc_ok e cfg j (disk_map disk i) (sends_of i hist) pc" and active: "active_job j"
    using worker_knows [OF less.prems(1)] by (simp_all add: known_def)
  obtain pc' req rn' disk' where w: "work e cfg (ins k) i pc (rn, disk) = (pc', req, rn', disk')"
    by (metis prod_cases4)
  show ?case
  proof (cases pc')
    case None
    have "run_job e cfg ins k i pc (rn, disk) = Some (rn', disk')" by (subst run_job.simps) (simp add: w None)
    moreover have "finished_at (rn', disk') i"
      if "calm ins rn" "states_fit e cfg ins k i pc (rn, disk)" "channel_configured cfg (jb_Request j)"
    proof -
      have "work (unlimited e) cfg (ins k) i pc (rn, disk) = (None, req, rn', disk')"
        using states_fit_step [OF that(2,1) w] by (simp add: None)
      moreover have "wi_Disk (ins k) = Synced" "\<not> rn_Closed rn" "\<not> rn_Cancelled rn" using that(1) by (simp_all add: calm_def)
      ultimately show ?thesis by (rule work_ends [OF _ _ _ _ less.prems(2) active at that(3)])
    qed
    ultimately show ?thesis by blast
  next
    case (Some pc1)
    obtain j' where j': "map_of (rn_Jobs rn') i = Some j'" and falls: "work_left j' pc1 < work_left j pc"
      and task: "jb_Request j' = jb_Request j"
      using work_decreases [OF w [unfolded Some] less.prems(2) at] by blast
    have "calm ins rn' = calm ins rn" using work_flags [OF w] by (simp add: calm_def)
    moreover have "states_fit e cfg ins (k + 1) i pc1 (rn', disk')" if "calm ins rn" "states_fit e cfg ins k i pc (rn, disk)"
      using states_fit_step [OF that(2,1) w] Some by blast
    moreover have "job_inv e cfg True (Some j') (disk_map disk' i) 0 [pc1] (sends_of i (sends_after e cfg i pc (wi_Answer (ins k)) req hist))"
      using work_own [OF w less.prems] by (simp add: Some j')
    note less.hyps [OF falls this j', of "k + 1"]
    ultimately show ?thesis by (subst run_job.simps) (auto simp add: w Some task)
  qed
qed

text \<open>
  C20: a worker of the automation runner comes to an end. From any reachable state of the runner, a worker
  that is left to itself on its job returns, whatever the sources, the notification endpoint, the disk and
  the timer answer. If moreover the runner is not shut down, the disk takes every write, every state of the job
  table that the worker goes through stays within the size limit, and the runner is configured for the
  notification channel of the job, then the job is finished, succeeded or failed, in memory and on disk
  alike.
\<close>

theorem worker_finishes_job:
  assumes "(machine_step e allowed)\<^sup>*\<^sup>* (fresh_machine cfg) m" and "mc_Runner m = Some rn" and "(i, pc) \<in> set (mc_Workers m)"
  shows "\<exists>st j. run_job e (mc_Config m) ins k i pc (rn, mc_Disk m) = Some st \<and> map_of (rn_Jobs rn) i = Some j
    \<and> (\<not> rn_Closed rn \<and> \<not> rn_Cancelled rn \<and> (\<forall>n. wi_Disk (ins n) = Synced)
        \<and> states_fit e (mc_Config m) ins k i pc (rn, mc_Disk m) \<and> channel_configured (mc_Config m) (jb_Request j)
       \<longrightarrow> finished_at st i)"
proof -
  obtain j where "map_of (rn_Jobs rn) i = Some j"
    "job_inv e (mc_Config m) True (Some j) (disk_map (mc_Disk m) i) 0 [pc] (sends_of i (mc_Sends m))"
    by (rule worker_job [OF reachable_machine [OF assms(1)] assms(2,3)])
  then show ?thesis using run_job_ends [of e "mc_Config m" j "mc_Disk m" i pc "mc_Sends m" rn ins k] by (auto simp: calm_def)
qed

lemma worker_finishes_job_witness:
  "\<exists>st. run_job sample_runner_env (sample_runner_config '''') (\<lambda>n. sample_inputs (Inr sample_report) (Answered 200 None)) 0 ''job_k'' AtStart
      (\<lparr>rn_Jobs = [(''job_k'', new_sample '''' ''http://h/x'')], rn_Queue = [], rn_Closed = False, rn_Cancelled = False\<rparr>,
       Some \<lparr>dk_Version = 1, dk_Jobs = [(''job_k'', stored (new_sample '''' ''http://h/x''))]\<rparr>) = Some st
    \<and> finished_at st ''job_k''"
proof -
  let ?ins = "\<lambda>n::nat. sample_inputs (Inr sample_report) (Answered 200 None)"
  let ?m = "sample_machine '''' (new_sample '''' ''http://h/x'') [] [] [AtStart] []"
  let ?rn = "\<lparr>rn_Jobs = [(''job_k'', new_sample '''' ''http://h/x'')], rn_Queue = [], rn_Closed = False, rn_Cancelled = False\<rparr>"
  have u: "sample_accepts '''' ''http://h/x''" by (simp add: sample_accepts_def)
  have m: "mc_Runner ?m = Some ?rn" "(''job_k'', AtStart) \<in> set (mc_Workers ?m)" by (simp_all add: sample_machine_def)
  have fits: "states_fit sample_runner_env (mc_Config ?m) ?ins 0 ''job_k'' AtStart (?rn, mc_Disk ?m)"
    using sample_fits by (simp add: states_fit_def not_less)
  have channel: "channel_configured (mc_Config ?m) (jb_Request (new_sample '''' ''http://h/x''))"
    by (simp add: channel_configured_def sample_simps) (simp add: sample_task_def)
  have "wi_Disk (?ins n) = Synced" for n by (simp add: sample_inputs_def)
  with worker_finishes_job [OF sample_reach(3) [OF u, of "\<lambda>c. True" "''''", OF TrueI TrueI] m, of ?ins 0] fits channel
  obtain st where "run_job sample_runner_env (mc_Config ?m) ?ins 0 ''job_k'' AtStart (?rn, mc_Disk ?m) = Some st" "finished_at st ''job_k''"
    by auto
  then show ?thesis by (intro exI [of _ st]) (simp add: sample_machine_def)
qed

end
