(* ===== verification/RunnerToken.thy ===== *)
theory RunnerToken
  imports RunnerSafety
begin

text \<open>
  Where the automation runner's credentials go. Under a fixed configuration every notification that carries the
  configured token has the configured origin, and the Gmail access token only goes to the Gmail API; the origin
  is checked when a task is submitted.
\<close>

text \<open>What is on disk has been there before, or has been validated under the present configuration.\<close>

lemma step_tasks:
  assumes "machine_step e allowed m m'" and "machine_inv e m" and "disk_job m' i = Some j'"
  shows "(\<exists>j. disk_job m i = Some j \<and> jb_Request j = jb_Request j')
    \<or> mc_Runner m \<noteq> None \<and> validateTask e (mc_Config m) (jb_Request j') = None"
proof -
  note inv = machine_step_keeps [OF assms(1,2)]
  obtain c where "changes e m m' i c" using step_changes [OF assms(1,2)] ..
  then show ?thesis
  proof (cases c)
    case Kept
    with \<open>changes e m m' i c\<close> assms(3) consider "disk_job m i = Some j'" | "memory_job m i = Some j'" by auto
    then show ?thesis using memory_on_disk [OF assms(2), of i j'] by cases (auto simp: same_task_def)
  next
    case (Worked j k)
    then show ?thesis
      using \<open>changes e m m' i c\<close> assms(3) memory_on_disk [OF assms(2), of i j] memory_on_disk [OF inv, of i k]
      by (auto simp: same_task_def)
  next
    case Added
    then show ?thesis using \<open>changes e m m' i c\<close> assms(3) by simp
  qed (use \<open>changes e m m' i c\<close> assms(3) in \<open>metis changes.simps(4,5)\<close>)+
qed

text \<open>The configuration changes only at a start.\<close>

lemma step_config:
  "machine_step e allowed m m' \<Longrightarrow> mc_Config m' = mc_Config m \<or> allowed (mc_Config m')"
  by (erule machine_step.cases) simp_all

definition tasks_valid :: "RunnerEnv \<Rightarrow> RunnerConfig \<Rightarrow> Machine \<Rightarrow> bool" where
  "tasks_valid e cfg m \<longleftrightarrow> machine_inv e m \<and> mc_Config m = cfg
     \<and> (\<forall>i j. disk_job m i = Some j \<longrightarrow> validateTask e cfg (jb_Request j) = None)"

lemma valid_task: "tasks_valid e cfg m \<Longrightarrow> disk_job m i = Some j \<Longrightarrow> validateTask e cfg (jb_Request j) = None"
  by (simp add: tasks_valid_def)

lemma tasks_valid_step:
  assumes "machine_step e (\<lambda>c. c = cfg) m m'" and "tasks_valid e cfg m"
  shows "tasks_valid e cfg m'"
proof -
  have inv: "machine_inv e m" and cfg: "mc_Config m = cfg" using assms(2) by (simp_all add: tasks_valid_def)
  have "validateTask e cfg (jb_Request j) = None" if "disk_job m' i = Some j" for i j
    using step_tasks [OF assms(1) inv that] valid_task [OF assms(2)] by (metis cfg)
  then show ?thesis
    using machine_step_keeps [OF assms(1) inv] step_config [OF assms(1)] cfg by (simp add: tasks_valid_def)
qed

text \<open>A request with a credential, and where it may go.\<close>

definition token_confined :: "RunnerEnv \<Rightarrow> RunnerConfig \<Rightarrow> NotifyRequest \<Rightarrow> bool" where
  "token_confined e cfg q \<longleftrightarrow>
     (case nq_Authorization q of
        NoAuthorization \<Rightarrow> True
      | GmailAccess \<Rightarrow> nq_Address q = gmailSendURL \<and> nq_Channel q = ''email'' \<and> rc_GmailRefreshToken cfg \<noteq> ''''
      | NotifyBearer h \<Rightarrow> h = ''Bearer '' @ rc_NotifyToken cfg
          \<and> (case (validHTTPURL e (nq_Address q), validHTTPURL e (rc_NotifyOrigin cfg)) of
               (Inr u, Inr origin) \<Rightarrow> same_url_origin u origin
             | _ \<Rightarrow> False))"

lemma request_confined:
  assumes "notify_request e cfg entry r = Inr q" and "validateTask e cfg (jb_Request entry) = None" and "notifies (jb_Request entry)"
  shows "token_confined e cfg q"
  using assms
  by (auto simp: notify_request_def Let_def notify_address_def token_confined_def notifies_def validateTask_def validateDelivery_def nativeDelivery_def
      split: option.splits sum.splits if_splits)

lemma update_then_silent: "update_then e inp i change next_pc st = (pc', req, st') \<Longrightarrow> req = None"
  by (auto simp: update_then_def split: prod.splits)

lemma work_sends:
  assumes "work e cfg inp i pc (rn, disk) = (pc', Some q, rn', disk')"
  obtains entry r where "pc = AtSend entry" and "notify_request e cfg entry r = Inr q"
  using assms by (cases pc) (auto split: option.splits if_splits sum.splits send_error.splits dest: update_then_silent)

lemma note_answer_requests: "map (\<lambda>(i, q, a). (i, q)) (note_answer k x hist) = map (\<lambda>(i, q, a). (i, q)) hist"
  by (induction hist) auto

lemma step_sends:
  assumes "machine_step e (\<lambda>c. c = cfg) m m'" and "tasks_valid e cfg m" and "(i, q, a) \<in> set (mc_Sends m')"
  shows "(\<exists>b. (i, q, b) \<in> set (mc_Sends m)) \<or> token_confined e cfg q"
  using assms(1)
proof cases
  case (works rn k pc inp pc' req rn' disk')
  have noted: "\<exists>b. (i, q, b) \<in> set hist" if "(i, q, a) \<in> set (note_answer k x hist)" for x hist
  proof -
    have "(i, q) \<in> set (map (\<lambda>(i, q, a). (i, q)) (note_answer k x hist))" using that by force
    then show ?thesis by (auto simp: note_answer_requests)
  qed
  show ?thesis
  proof (cases req)
    case None
    then show ?thesis using assms(3) noted by (auto simp: works(1) sends_after_def split: if_splits)
  next
    case (Some q')
    obtain entry r where send: "pc = AtSend entry" "notify_request e cfg entry r = Inr q'"
      using work_sends [OF works(4) [unfolded Some]] assms(2) by (auto simp: tasks_valid_def)
    obtain j where own: "job_inv e (mc_Config m) True (Some j) (disk_map (mc_Disk m) k) 0 [pc] (sends_of k (mc_Sends m))"
      by (rule worker_job [OF conjunct1 [OF assms(2) [unfolded tasks_valid_def]] works(2,3)])
    have "disk_job m k = Some j" "jb_Request entry = jb_Request j" "notifies (jb_Request j)"
      using worker_knows [OF own] send(1) by (auto simp: known_def sends_ok_def disk_job_def)
    then have "token_confined e cfg q'" using request_confined [OF send(2)] assms(2) by (simp add: tasks_valid_def)
    then show ?thesis using assms(3) Some by (auto simp: works(1) sends_after_def)
  qed
qed (use assms(3) in auto)

definition sends_confined :: "RunnerEnv \<Rightarrow> RunnerConfig \<Rightarrow> Machine \<Rightarrow> bool" where
  "sends_confined e cfg m \<longleftrightarrow> tasks_valid e cfg m \<and> (\<forall>i q a. (i, q, a) \<in> set (mc_Sends m) \<longrightarrow> token_confined e cfg q)"

lemma sends_confined_step: "sends_confined e cfg m \<Longrightarrow> machine_step e (\<lambda>c. c = cfg) m m' \<Longrightarrow> sends_confined e cfg m'"
  unfolding sends_confined_def using tasks_valid_step step_sends by metis

lemma fresh_confined: "sends_confined e cfg (fresh_machine cfg)"
  using fresh_machine_inv [of e cfg]
  by (simp add: sends_confined_def tasks_valid_def) (simp add: fresh_machine_def disk_job_def disk_map_def)

interpretation confined: transition_system "\<lambda>m. m = fresh_machine cfg" "machine_step e (\<lambda>c. c = cfg)" "sends_confined e cfg"
  for e cfg
  by unfold_locales (auto intro: sends_confined_step fresh_confined)

text \<open>
  C19: the runner's credentials stay at their origins. As long as the runner is started with one configuration,
  then over any crashes and restarts every notification that leaves with an authorization header is of one of two
  kinds. Either it carries the configured notification token and is sent to a URL of the configured origin, or it is
  an e-mail, carries the access token of the configured Gmail account and is sent to the Gmail API.
\<close>

theorem token_stays_at_origin:
  assumes "(machine_step e (\<lambda>c. c = cfg))\<^sup>*\<^sup>* (fresh_machine cfg) m" and "(i, q, a) \<in> set (mc_Sends m)"
  shows "token_confined e cfg q"
  using confined.reachable_inv [OF _ assms(1)] assms(2) by (auto simp: sends_confined_def)

lemma token_stays_at_origin_witness:
  "nq_Authorization (sample_request ''t'' ''http://h/x'') = NotifyBearer ''Bearer t''
    \<and> token_confined sample_runner_env (sample_runner_config ''t'') (sample_request ''t'' ''http://h/x'')"
proof -
  have u: "sample_accepts ''t'' ''http://h/x''" by (simp add: sample_accepts_def)
  have "token_confined sample_runner_env (sample_runner_config ''t'') (sample_request ''t'' ''http://h/x'')"
    by (rule token_stays_at_origin [OF sample_reach(4) [OF u, of "\<lambda>c. c = sample_runner_config ''t''" "''t''", OF refl refl],
        of "''job_k''" _ None]) (simp add: sample_machine_def)
  then show ?thesis by (simp add: sample_request_def)
qed

text \<open>
  Across a change of the configuration the token does not stay there: what was accepted under another
  configuration is not checked again. A job submitted while the runner has no token is delivered after a
  restart with one, to the address it names, with that token.
\<close>

theorem stored_address_gets_new_token:
  "\<exists>m q. (machine_step sample_runner_env (\<lambda>c. True))\<^sup>*\<^sup>* (fresh_machine (sample_runner_config '''')) m
    \<and> mc_Config m = sample_runner_config ''t'' \<and> (''job_k'', q, None) \<in> set (mc_Sends m)
    \<and> nq_Address q = ''http://g/x'' \<and> nq_Authorization q = NotifyBearer ''Bearer t''
    \<and> validateTask sample_runner_env (mc_Config m) (sample_task (nq_Address q)) \<noteq> None \<and> \<not> token_confined sample_runner_env (mc_Config m) q"
proof -
  let ?m = "sample_machine ''t'' (attempted_sample '''' ''http://g/x'') [] [] [AtAnswer (reported_sample '''' ''http://g/x'')]
    [(''job_k'', sample_request ''t'' ''http://g/x'', None)]"
  have u: "sample_accepts '''' ''http://g/x''" by (simp add: sample_accepts_def)
  note urls = sample_runner_env_def sample_runner_config_def Let_def validHTTPURL_def same_url_origin_def equal_fold_def ascii_upper_def
  have "validateTask sample_runner_env (sample_runner_config ''t'') (sample_task ''http://g/x'') \<noteq> None"
    by (simp add: validateTask_def validateDelivery_def nativeDelivery_def sample_task_def urls split: option.split)
  moreover have "\<not> token_confined sample_runner_env (sample_runner_config ''t'') (sample_request ''t'' ''http://g/x'')"
    by (simp add: token_confined_def sample_request_def urls)
  ultimately show ?thesis
    using sample_reach(4) [OF u, of "\<lambda>c. True" "''t''", OF TrueI TrueI]
    by (intro exI [of _ ?m] exI [of _ "sample_request ''t'' ''http://g/x''"]) (simp add: sample_machine_def sample_request_def)
qed

end
