(* ===== verification/RunnerReport.thy ===== *)
theory RunnerReport
  imports RunnerMoves Service
begin

text \<open>
  The reports of the automation runner (\<open>tasks.go\<close>): what a job reads from its sources and how it is merged.
  The network is a function from addresses to answers; the JSON and XML decoders, HTML entities, the
  layouts of \<open>time.Parse\<close> and URL resolution are parameters.
\<close>

section \<open>Sources\<close>

text \<open>The request could not be made, it failed, or there is an answer: its body, or the error of reading it.\<close>

datatype source_answer = RequestFailed string | SourceFailed string | SourceAnswer int "(string, string) result"

record RssItem =
  rss_Title :: string
  rss_Link :: string
  rss_PublishedAt :: string
  rss_Description :: string

record RssFeed =
  rss_ChannelTitle :: string
  rss_Items :: "RssItem list"

record AtomEntry =
  atom_Title :: string
  atom_Links :: "(string \<times> string) list"
  atom_PublishedAt :: string
  atom_UpdatedAt :: string
  atom_Summary :: string
  atom_Content :: string

record AtomFeed =
  atom_FeedTitle :: string
  atom_Entries :: "AtomEntry list"

record GithubRepository =
  gh_FullName :: string
  gh_HTMLURL :: string
  gh_Description :: string
  gh_PushedAt :: string
  gh_Stars :: int
  gh_OpenIssues :: int

record GithubRelease =
  gr_Name :: string
  gr_TagName :: string
  gr_HTMLURL :: string
  gr_PublishedAt :: string

record GithubPull =
  gp_Number :: int
  gp_Title :: string
  gp_HTMLURL :: string
  gp_UpdatedAt :: string

text \<open>\<open>se_Resolve base value\<close> is the text of the resolved reference; \<open>se_Plain\<close> undoes HTML entities and
  \<open>se_Date\<close> is \<open>reportDate\<close>, which normalizes Unicode with a library.\<close>

record SourceEnv =
  se_Get :: "string \<Rightarrow> source_answer"
  se_XmlRoot :: "string \<Rightarrow> (string, string) result"
  se_Rss :: "string \<Rightarrow> (string, RssFeed) result"
  se_Atom :: "string \<Rightarrow> (string, AtomFeed) result"
  se_Repository :: "string \<Rightarrow> (string, GithubRepository) result"
  se_Release :: "string \<Rightarrow> (string, GithubRelease) result"
  se_Pulls :: "string \<Rightarrow> (string, GithubPull list) result"
  se_ParseTime :: "string \<Rightarrow> string \<Rightarrow> time option"
  se_Resolve :: "string \<Rightarrow> string \<Rightarrow> string option"
  se_DropFragment :: "string \<Rightarrow> string option"
  se_Plain :: "string \<Rightarrow> string"
  se_Date :: "string \<Rightarrow> string"

definition maxSourceBytes :: int where "maxSourceBytes = 256 * 1024"
definition maxArticles :: nat where "maxArticles = 20"

definition readSource :: "(string, string) result \<Rightarrow> (string, string) result" where
  "readSource body =
     (case body of
        Inl err \<Rightarrow> Inl err
      | Inr data \<Rightarrow> if int (length data) > maxSourceBytes then Inl (''source exceeds '' @ decimal maxSourceBytes @ '' bytes'') else Inr data)"

definition countLabel :: "int \<Rightarrow> string \<Rightarrow> string \<Rightarrow> string" where
  "countLabel count singular plural = decimal count @ '' '' @ (if count = 1 then singular else plural)"

definition outputURL :: "RunnerEnv \<Rightarrow> SourceEnv \<Rightarrow> string \<Rightarrow> string \<Rightarrow> string" where
  "outputURL e se value base =
     (if value = '''' then ''''
      else case se_Resolve se base value of
        None \<Rightarrow> ''''
      | Some resolved \<Rightarrow>
          if invalid_url e base then ''''
          else (case se_DropFragment se resolved of
              None \<Rightarrow> ''''
            | Some link \<Rightarrow> if invalid_url e link \<or> int (length resolved) > 2048 then '''' else resolved))"

section \<open>Feeds\<close>

definition rss_item :: "RunnerEnv \<Rightarrow> SourceEnv \<Rightarrow> string \<Rightarrow> string \<Rightarrow> RssItem \<Rightarrow> ReportItem" where
  "rss_item e se address channel x =
     \<lparr>ri_Title = plainText (se_Plain se) (rss_Title x) 200, ri_URL = outputURL e se (rss_Link x) address,
      ri_Source = plainText (se_Plain se) channel 200, ri_PublishedAt = truncate_text (rss_PublishedAt x) 80,
      ri_Excerpt = plainText (se_Plain se) (rss_Description x) 320\<rparr>"

definition atom_item :: "RunnerEnv \<Rightarrow> SourceEnv \<Rightarrow> string \<Rightarrow> string \<Rightarrow> AtomEntry \<Rightarrow> ReportItem" where
  "atom_item e se address feed x =
     (let link = (case find (\<lambda>(href, rel). rel = ''alternate'' \<or> rel = '''') (atom_Links x) of None \<Rightarrow> '''' | Some (href, rel) \<Rightarrow> href);
          published = (if atom_PublishedAt x = '''' then atom_UpdatedAt x else atom_PublishedAt x);
          excerpt = (if atom_Summary x = '''' then atom_Content x else atom_Summary x)
      in \<lparr>ri_Title = plainText (se_Plain se) (atom_Title x) 200, ri_URL = outputURL e se link address,
          ri_Source = plainText (se_Plain se) feed 200, ri_PublishedAt = truncate_text published 80,
          ri_Excerpt = plainText (se_Plain se) excerpt 320\<rparr>)"

definition parseFeed :: "RunnerEnv \<Rightarrow> SourceEnv \<Rightarrow> string \<Rightarrow> string \<Rightarrow> (string, ReportItem list) result" where
  "parseFeed e se data address =
     (case se_XmlRoot se data of
        Inl err \<Rightarrow> Inl (''invalid XML: '' @ err)
      | Inr tag \<Rightarrow>
          if tag = ''rss''
          then bind_result (se_Rss se data) (\<lambda>feed. Inr (map (rss_item e se address (rss_ChannelTitle feed)) (rss_Items feed)))
          else if tag = ''feed''
          then bind_result (se_Atom se data) (\<lambda>feed. Inr (map (atom_item e se address (atom_FeedTitle feed)) (atom_Entries feed)))
          else Inl ''expected an RSS or Atom feed'')"

definition readFeed :: "RunnerEnv \<Rightarrow> SourceEnv \<Rightarrow> string \<Rightarrow> (string, ReportItem list) result" where
  "readFeed e se address =
     (case se_Get se address of
        RequestFailed err \<Rightarrow> Inl err
      | SourceFailed err \<Rightarrow> Inl (''read feed '' @ address @ '': '' @ err)
      | SourceAnswer code body \<Rightarrow>
          if code \<noteq> 200 then Inl (''feed '' @ address @ '' returned HTTP '' @ decimal code)
          else case readSource body of
            Inl err \<Rightarrow> Inl (''feed '' @ address @ '': '' @ err)
          | Inr data \<Rightarrow>
              (case parseFeed e se data address of
                 Inl err \<Rightarrow> Inl (''feed '' @ address @ '': '' @ err)
               | Inr items \<Rightarrow> Inr items))"

definition item_key :: "ReportItem \<Rightarrow> string" where
  "item_key x = (if ri_URL x = '''' then ri_Source x @ CHR 0x00 # ri_Title x else ri_URL x)"

fun merge_items :: "string list \<times> ReportItem list \<Rightarrow> ReportItem list \<Rightarrow> string list \<times> ReportItem list" where
  "merge_items (seen, items) [] = (seen, items)"
| "merge_items (seen, items) (x # xs) =
     (if item_key x \<in> set seen then merge_items (seen, items) xs
      else merge_items (item_key x # seen, items @ [x]) xs)"

fun feed_loop ::
    "RunnerEnv \<Rightarrow> SourceEnv \<Rightarrow> string list \<Rightarrow> string list \<times> ReportItem list \<Rightarrow> (string, string list \<times> ReportItem list) result" where
  "feed_loop e se [] st = Inr st"
| "feed_loop e se (address # addresses) st =
     bind_result (readFeed e se address) (\<lambda>items. feed_loop e se addresses (merge_items st items))"

definition parsedFeedTime :: "SourceEnv \<Rightarrow> string \<Rightarrow> time" where
  "parsedFeedTime se value =
     (case find (\<lambda>t. t \<noteq> None) (map (\<lambda>layout. se_ParseTime se layout value) [''RFC3339'', ''RFC1123Z'', ''RFC1123'', ''RFC822Z'', ''RFC822'']) of
        Some (Some t) \<Rightarrow> t
      | _ \<Rightarrow> zero_time)"

definition item_time :: "SourceEnv \<Rightarrow> ReportItem \<Rightarrow> time" where
  "item_time se x = parsedFeedTime se (ri_PublishedAt x)"

text \<open>\<open>sort.SliceStable\<close> by \<open>After\<close>: newest first, in the old order where the times are equal.\<close>

definition feedReport :: "RunnerEnv \<Rightarrow> SourceEnv \<Rightarrow> time \<Rightarrow> string list \<Rightarrow> (string, SourceReport) result" where
  "feedReport e se now addresses =
     bind_result (feed_loop e se addresses ([], [])) (\<lambda>(seen, items).
       let sorted_items = sort_key (\<lambda>x. - item_time se x) items;
           shown = (if length sorted_items > maxArticles then take maxArticles sorted_items else sorted_items)
       in Inr \<lparr>rpt_Title = ''Weekly reading summary'', rpt_GeneratedAt = now,
            rpt_Summary = countLabel (int (length shown)) ''recent entry'' ''recent entries'' @ '' from ''
              @ countLabel (int (length addresses)) ''feed'' ''feeds'' @ ''.'',
            rpt_Items = shown\<rparr>)"

section \<open>Repositories\<close>

definition fetchJSON :: "SourceEnv \<Rightarrow> (string \<Rightarrow> (string, 'a) result) \<Rightarrow> string \<Rightarrow> bool \<Rightarrow> (string, 'a option) result" where
  "fetchJSON se decode address allowNotFound =
     (case se_Get se address of
        RequestFailed err \<Rightarrow> Inl err
      | SourceFailed err \<Rightarrow> Inl err
      | SourceAnswer code body \<Rightarrow>
          if code = 404 \<and> allowNotFound then Inr None
          else if code \<noteq> 200 then Inl (''source returned HTTP '' @ decimal code)
          else bind_result (readSource body) (\<lambda>data.
            case decode data of
              Inl err \<Rightarrow> Inl (''source returned invalid JSON: '' @ err)
            | Inr x \<Rightarrow> Inr (Some x)))"

definition prefixed :: "string \<Rightarrow> (string, 'a) result \<Rightarrow> (string, 'a) result" where
  "prefixed p r = (case r of Inl err \<Rightarrow> Inl (p @ '': '' @ err) | Inr x \<Rightarrow> Inr x)"

definition overview_item :: "RunnerEnv \<Rightarrow> SourceEnv \<Rightarrow> string \<Rightarrow> string \<Rightarrow> GithubRepository \<Rightarrow> ReportItem" where
  "overview_item e se base repository metadata =
     \<lparr>ri_Title = ''Repository overview'', ri_URL = outputURL e se (gh_HTMLURL metadata) base, ri_Source = repository,
      ri_PublishedAt = truncate_text (gh_PushedAt metadata) 80, ri_Excerpt = plainText (se_Plain se) (gh_Description metadata) 500\<rparr>"

definition release_item :: "RunnerEnv \<Rightarrow> SourceEnv \<Rightarrow> string \<Rightarrow> string \<Rightarrow> GithubRelease \<Rightarrow> ReportItem" where
  "release_item e se base repository release =
     (let name = (if gr_Name release = '''' then gr_TagName release else gr_Name release)
      in \<lparr>ri_Title = ''Latest stable release: '' @ plainText (se_Plain se) name 180, ri_URL = outputURL e se (gr_HTMLURL release) base,
          ri_Source = repository, ri_PublishedAt = truncate_text (gr_PublishedAt release) 80, ri_Excerpt = ''''\<rparr>)"

definition pull_item :: "RunnerEnv \<Rightarrow> SourceEnv \<Rightarrow> string \<Rightarrow> string \<Rightarrow> GithubPull \<Rightarrow> ReportItem" where
  "pull_item e se base repository pull =
     \<lparr>ri_Title = ''PR #'' @ decimal (gp_Number pull) @ '': '' @ plainText (se_Plain se) (gp_Title pull) 180,
      ri_URL = outputURL e se (gp_HTMLURL pull) base, ri_Source = repository,
      ri_PublishedAt = truncate_text (gp_UpdatedAt pull) 80, ri_Excerpt = ''''\<rparr>"

definition repositoryReport :: "RunnerEnv \<Rightarrow> RunnerConfig \<Rightarrow> SourceEnv \<Rightarrow> time \<Rightarrow> string \<Rightarrow> (string, SourceReport) result" where
  "repositoryReport e cfg se now repository =
     (let base = trim_slashes (rc_GitHubURL cfg) @ ''/repos/'' @ repository in
      bind_result (prefixed ''repository information'' (fetchJSON se (se_Repository se) base False)) (\<lambda>found.
        case found of
          None \<Rightarrow> Inl ''repository information omitted its identity''
        | Some metadata \<Rightarrow>
            if gh_FullName metadata = '''' then Inl ''repository information omitted its identity''
            else
              bind_result (prefixed ''latest release'' (fetchJSON se (se_Release se) (base @ ''/releases/latest'') True)) (\<lambda>release.
              bind_result (prefixed ''open pull requests''
                (fetchJSON se (se_Pulls se) (base @ ''/pulls?state=open&sort=updated&direction=desc&per_page=5'') False)) (\<lambda>found_pulls.
                let pulls = take 5 (case found_pulls of None \<Rightarrow> [] | Some ps \<Rightarrow> ps) in
                Inr \<lparr>rpt_Title = ''Repository watch: '' @ repository, rpt_GeneratedAt = now,
                  rpt_Summary = countLabel (gh_Stars metadata) ''star'' ''stars'' @ ''. ''
                    @ countLabel (gh_OpenIssues metadata) ''open issue'' ''open issues'' @ '' (including pull requests). Last push: ''
                    @ se_Date se (truncate_text (gh_PushedAt metadata) 80) @ ''.''
                    @ (if release = None then '' No published stable release.'' else '''')
                    @ (if pulls = [] then ''''
                       else '' Showing '' @ countLabel (int (length pulls)) ''recent pull request'' ''recent pull requests'' @ ''.''),
                  rpt_Items = overview_item e se base repository metadata
                    # (case release of None \<Rightarrow> [] | Some x \<Rightarrow> [release_item e se base repository x])
                    @ map (pull_item e se base repository) pulls\<rparr>))))"

text \<open>What \<open>execute\<close> reads for a task: the \<open>wi_Report\<close> of a worker's step.\<close>

definition source_report :: "RunnerEnv \<Rightarrow> RunnerConfig \<Rightarrow> SourceEnv \<Rightarrow> time \<Rightarrow> TaskRequest \<Rightarrow> (string, SourceReport) result" where
  "source_report e cfg se now task =
     (if tk_Task task = ''repository-watch'' then repositoryReport e cfg se now (tk_Repository task)
      else if tk_Task task = ''weekly-summary'' then feedReport e se now (tk_Feeds task)
      else Inr \<lparr>rpt_Title = '''', rpt_GeneratedAt = zero_time, rpt_Summary = '''', rpt_Items = []\<rparr>)"

section \<open>The weekly summary\<close>

text \<open>The first item of every key, in order: what the merge should keep.\<close>

fun firsts :: "ReportItem list \<Rightarrow> ReportItem list" where
  "firsts [] = []"
| "firsts (x # xs) = x # filter (\<lambda>y. item_key y \<noteq> item_key x) (firsts xs)"

lemma merge_items_firsts:
  "set (fst (merge_items (seen, items) xs)) = set seen \<union> item_key ` set xs
   \<and> snd (merge_items (seen, items) xs) = items @ filter (\<lambda>y. item_key y \<notin> set seen) (firsts xs)"
proof (induction xs arbitrary: seen items)
  case (Cons x xs)
  have "filter (\<lambda>y. item_key y \<notin> set seen) (filter (\<lambda>y. item_key y \<noteq> item_key x) ys)
      = filter (\<lambda>y. item_key y \<notin> set (item_key x # seen)) ys" for ys
    by (induction ys) auto
  moreover have "item_key x \<in> set seen \<Longrightarrow> filter (\<lambda>y. item_key y \<notin> set (item_key x # seen)) ys = filter (\<lambda>y. item_key y \<notin> set seen) ys" for ys
    by (induction ys) auto
  ultimately show ?case using Cons [of seen items] Cons [of "item_key x # seen" "items @ [x]"] by auto
qed simp

lemma merge_items_append: "merge_items st (xs @ ys) = merge_items (merge_items st xs) ys"
  by (induction st xs rule: merge_items.induct) auto

lemma firsts_subset: "set (firsts xs) \<subseteq> set xs"
  by (induction xs) auto

lemma firsts_keys: "item_key ` set (firsts xs) = item_key ` set xs"
proof (induction xs)
  case (Cons x xs)
  have "item_key ` {y \<in> A. item_key y \<noteq> k} = item_key ` A - {k}" for A k by auto
  with Cons show ?case by simp
qed simp

lemma firsts_distinct: "distinct (map item_key (firsts xs))"
proof (induction xs)
  case (Cons x xs)
  have "distinct (map item_key (filter P (firsts xs)))" for P using Cons by (rule distinct_map_filter)
  then show ?case by auto
qed simp

lemma feed_loop_feeds:
  assumes "feed_loop e se addresses st = Inr st'"
  shows "\<exists>feeds. list_all2 (\<lambda>a items. readFeed e se a = Inr items) addresses feeds \<and> st' = merge_items st (concat feeds)"
  using assms
proof (induction addresses arbitrary: st)
  case Nil
  have "merge_items st [] = st" by (cases st) simp
  with Nil show ?case by simp
next
  case (Cons a addresses)
  then obtain items where r: "readFeed e se a = Inr items" and l: "feed_loop e se addresses (merge_items st items) = Inr st'"
    by (auto simp: bind_result_Inr_iff)
  from Cons.IH [OF l] obtain feeds where "list_all2 (\<lambda>a items. readFeed e se a = Inr items) addresses feeds"
    "st' = merge_items (merge_items st items) (concat feeds)" by blast
  with r show ?case by (intro exI [of _ "items # feeds"]) (simp add: merge_items_append)
qed

text \<open>Of a list sorted by a key, what is cut off is not smaller than what is kept.\<close>

lemma sorted_take:
  assumes "x \<in> set xs" and "x \<notin> set (take n (sort_key f xs))" and "y \<in> set (take n (sort_key f xs))"
  shows "f y \<le> f x"
proof -
  have "sorted (map f (take n (sort_key f xs) @ drop n (sort_key f xs)))" by simp
  moreover have "x \<in> set (drop n (sort_key f xs))"
    using assms(1,2) set_append [of "take n (sort_key f xs)" "drop n (sort_key f xs)"] by auto
  ultimately show ?thesis using assms(3) unfolding map_append sorted_append by auto
qed

text \<open>
  C22: the weekly summary is the newest of the feeds. It is only given when every feed was read; it then
  shows at most twenty entries, newest first, no two of them the same; and an entry of a feed that is not
  shown is a repetition of one that comes before it in the feeds, or is no newer than any of the twenty.
\<close>

theorem weekly_summary_exact:
  assumes "feedReport e se now addresses = Inr r"
  shows "\<exists>feeds. list_all2 (\<lambda>a items. readFeed e se a = Inr items) addresses feeds
    \<and> length (rpt_Items r) \<le> maxArticles \<and> set (rpt_Items r) \<subseteq> set (firsts (concat feeds))
    \<and> distinct (map item_key (rpt_Items r)) \<and> sorted_wrt (\<lambda>x y. item_time se y \<le> item_time se x) (rpt_Items r)
    \<and> (\<forall>x\<in>set (firsts (concat feeds)). x \<notin> set (rpt_Items r)
        \<longrightarrow> length (rpt_Items r) = maxArticles \<and> (\<forall>y\<in>set (rpt_Items r). item_time se x \<le> item_time se y))"
proof -
  let ?key = "\<lambda>x. - item_time se x"
  obtain st where loop: "feed_loop e se addresses ([], []) = Inr st"
    and items: "rpt_Items r = take maxArticles (sort_key ?key (snd st))"
    using assms by (auto simp: feedReport_def bind_result_Inr_iff Let_def)
  obtain feeds where feeds: "list_all2 (\<lambda>a items. readFeed e se a = Inr items) addresses feeds" "st = merge_items ([], []) (concat feeds)"
    using feed_loop_feeds [OF loop] by blast
  define all where "all = firsts (concat feeds)"
  have "snd st = all" using feeds(2) merge_items_firsts [of "[]" "[]" "concat feeds"] by (simp add: all_def)
  with items have shown: "rpt_Items r = take maxArticles (sort_key ?key all)" by simp
  have "distinct (map item_key (sort_key ?key all))"
    using firsts_distinct [of "concat feeds"] by (simp add: all_def distinct_map)
  then have distinct: "distinct (map item_key (rpt_Items r))" by (simp add: shown flip: take_map)
  have "sorted (map ?key (rpt_Items r))" unfolding shown take_map [symmetric] by (rule sorted_wrt_take) simp
  then have newest: "sorted_wrt (\<lambda>x y. item_time se y \<le> item_time se x) (rpt_Items r)" by (simp add: sorted_wrt_map)
  have "length (rpt_Items r) = maxArticles \<and> (\<forall>y\<in>set (rpt_Items r). item_time se x \<le> item_time se y)"
    if "x \<in> set all" "x \<notin> set (rpt_Items r)" for x
  proof -
    have "\<not> length all \<le> maxArticles" using that by (auto simp: shown)
    moreover have "item_time se x \<le> item_time se y" if "y \<in> set (rpt_Items r)" for y
      using sorted_take [OF \<open>x \<in> set all\<close>, of maxArticles ?key y] \<open>x \<notin> set (rpt_Items r)\<close> that by (simp add: shown)
    ultimately show ?thesis by (simp add: shown)
  qed
  with feeds(1) distinct newest show ?thesis
    by (intro exI [of _ feeds]) (auto simp: shown all_def dest: in_set_takeD)
qed

definition sample_sources :: SourceEnv where
  "sample_sources =
     \<lparr>se_Get = (\<lambda>a. SourceAnswer 200 (Inr '''')), se_XmlRoot = (\<lambda>d. Inr ''rss''),
      se_Rss = (\<lambda>d. Inr \<lparr>rss_ChannelTitle = '''', rss_Items =
        [\<lparr>rss_Title = '''', rss_Link = ''http://h/x'', rss_PublishedAt = '''', rss_Description = ''''\<rparr>,
         \<lparr>rss_Title = '''', rss_Link = ''http://g/x'', rss_PublishedAt = ''1'', rss_Description = ''''\<rparr>,
         \<lparr>rss_Title = '''', rss_Link = ''http://h/x'', rss_PublishedAt = ''1'', rss_Description = ''''\<rparr>]\<rparr>),
      se_Atom = (\<lambda>d. Inl ''''), se_Repository = (\<lambda>d. Inl ''''), se_Release = (\<lambda>d. Inl ''''), se_Pulls = (\<lambda>d. Inl ''''),
      se_ParseTime = (\<lambda>layout v. if v = ''1'' then Some 1 else None), se_Resolve = (\<lambda>base v. Some v), se_DropFragment = Some,
      se_Plain = (\<lambda>s. s), se_Date = (\<lambda>s. s)\<rparr>"

definition sample_entry :: "string \<Rightarrow> string \<Rightarrow> ReportItem" where
  "sample_entry url published = \<lparr>ri_Title = '''', ri_URL = url, ri_Source = '''', ri_PublishedAt = published, ri_Excerpt = ''''\<rparr>"

lemma sample_feed:
  "\<exists>r. feedReport sample_runner_env sample_sources 0 [''http://h/x''] = Inr r
     \<and> rpt_Items r = [sample_entry ''http://g/x'' ''1'', sample_entry ''http://h/x'' '''']"
proof -
  have "trim_left space_runes '''' = ''''" using trim_left_length [of space_runes "''''"] by simp
  then have plain: "plainText (\<lambda>s. s) '''' n = ''''" for n
    by (simp add: plainText_def fields.simps truncate_text_def)
  have cut: "truncate_text ''1'' 80 = ''1''" "truncate_text '''' 80 = ''''" by (simp_all add: truncate_text_def)
  have url: "outputURL sample_runner_env sample_sources ''http://h/x'' ''http://h/x'' = ''http://h/x''"
    "outputURL sample_runner_env sample_sources ''http://g/x'' ''http://h/x'' = ''http://g/x''"
    by (simp_all add: outputURL_def sample_sources_def sample_runner_env_def Let_def invalid_url_def validHTTPURL_def)
  have fields: "se_Get sample_sources a = SourceAnswer 200 (Inr '''')" "se_XmlRoot sample_sources d = Inr ''rss''"
    "se_Plain sample_sources = (\<lambda>s. s)" "se_ParseTime sample_sources layout v = (if v = ''1'' then Some 1 else None)" for a d layout v
    by (simp_all add: sample_sources_def)
  have "readFeed sample_runner_env sample_sources ''http://h/x''
      = Inr [sample_entry ''http://h/x'' '''', sample_entry ''http://g/x'' ''1'', sample_entry ''http://h/x'' ''1'']"
    by (simp add: readFeed_def readSource_def parseFeed_def fields maxSourceBytes_def)
      (simp add: sample_sources_def [THEN arg_cong [of _ _ se_Rss]] rss_item_def fields url sample_entry_def plain cut)
  then show ?thesis
    by (simp add: feedReport_def item_key_def sample_entry_def item_time_def parsedFeedTime_def maxArticles_def Let_def fields zero_time_def second_def)
qed

lemma weekly_summary_exact_witness:
  "\<exists>feeds. list_all2 (\<lambda>a items. readFeed sample_runner_env sample_sources a = Inr items) [''http://h/x''] feeds
    \<and> set [sample_entry ''http://g/x'' ''1'', sample_entry ''http://h/x'' ''''] \<subseteq> set (firsts (concat feeds))"
proof -
  obtain r where r: "feedReport sample_runner_env sample_sources 0 [''http://h/x''] = Inr r"
    and items: "rpt_Items r = [sample_entry ''http://g/x'' ''1'', sample_entry ''http://h/x'' '''']" using sample_feed by blast
  from weekly_summary_exact [OF r] show ?thesis unfolding items by blast
qed

text \<open>A repository report names the repository in every item, and has at most seven.\<close>

lemma repository_report_items:
  assumes "repositoryReport e cfg se now repository = Inr r"
  shows "rpt_Title r = ''Repository watch: '' @ repository \<and> length (rpt_Items r) \<le> 7
    \<and> list_all (\<lambda>x. ri_Source x = repository) (rpt_Items r)"
  using assms unfolding repositoryReport_def Let_def
  by (elim bind_result_InrE) (auto simp: overview_item_def release_item_def pull_item_def list_all_iff
      split: option.splits if_splits dest!: in_set_takeD)

end
