(* ===== verification/RunnerContract.thy ===== *)
theory RunnerContract
  imports RunnerSafety
begin

text \<open>
  The daemon and the automation runner together: what the runner answers is what the HTTP executor of the
  daemon (\<open>HttpJob\<close>) accepts. The interface \<open>job_predicate\<close> carries a property of single jobs through every
  step of the runner.
\<close>

section \<open>Properties of every job\<close>

definition table_all :: "(RunnerJob \<Rightarrow> bool) \<Rightarrow> Runner \<Rightarrow> disk \<Rightarrow> bool" where
  "table_all P rn disk \<longleftrightarrow> (\<forall>i j. map_of (rn_Jobs rn) i = Some j \<longrightarrow> P j) \<and> (\<forall>i j. disk_map disk i = Some j \<longrightarrow> P j)"

definition machine_all :: "(RunnerJob \<Rightarrow> bool) \<Rightarrow> Machine \<Rightarrow> bool" where
  "machine_all P m \<longleftrightarrow> (\<forall>i j. memory_job m i = Some j \<longrightarrow> P j) \<and> (\<forall>i j. disk_job m i = Some j \<longrightarrow> P j)"

lemma machine_all_table: "mc_Runner m = Some rn \<Longrightarrow> machine_all P m \<longleftrightarrow> table_all P rn (mc_Disk m)"
  by (simp add: machine_all_def table_all_def memory_job_def disk_job_def)

locale job_predicate =
  fixes P :: "RunnerJob \<Rightarrow> bool"
  assumes at_acceptance: "P (runner_job e cfg tls host now key task)"
    and at_update: "P j \<Longrightarrow> P (j\<lparr>jb_UpdatedAt := t\<rparr>)"
    and at_change: "P j \<Longrightarrow> P (started_job j)" "P j \<Longrightarrow> P (failed_job x j)" "P j \<Longrightarrow> P (reported r j)" "P j \<Longrightarrow> P (attempted j)"
      "P j \<Longrightarrow> P (completed j)"
    and at_delivery: "P j \<Longrightarrow> P (set_delivery f j)"
begin

lemma update_keeps:
  assumes "update_then e inp i change next_pc (rn, disk) = (pc', req, rn', disk')" and "table_all P rn disk" and "\<And>j. P j \<Longrightarrow> P (change j)"
  shows "table_all P rn' disk'"
proof -
  obtain err where u: "update_job e (wi_Now inp) (wi_Disk inp) i change (rn, disk) = (err, rn', disk')"
    using assms(1) by (auto simp: update_then_def split: prod.splits)
  from u show ?thesis
    by (cases rule: update_job_cases) (use assms(2,3) at_update in \<open>auto simp: table_all_def split: if_splits\<close>)
qed

lemmas changes_keep = update_keeps [OF _ _ at_change(1)] update_keeps [OF _ _ at_change(2)] update_keeps [OF _ _ at_change(3)]
  update_keeps [OF _ _ at_change(4)] update_keeps [OF _ _ at_change(5)] update_keeps [OF _ _ at_delivery]

lemma work_keeps: "work e cfg inp i pc (rn, disk) = (pc', req, rn', disk') \<Longrightarrow> table_all P rn disk \<Longrightarrow> table_all P rn' disk'"
  by (cases pc)
     (auto simp: restarted_unknown_def exhausted_def delivered_def undelivered_def requeued_def gave_up_def
        split: option.splits if_splits sum.splits send_error.splits intro: changes_keep)

lemma submit_keeps:
  assumes "submit_request e cfg now out tls host header body (rn, disk) = (reply, acc, rn', disk')" and "table_all P rn disk"
  shows "table_all P rn' disk'"
  using assms(1)
  by (cases rule: submit_cases) (use assms(2) at_acceptance in \<open>auto simp: table_all_def split: if_splits\<close>)

lemma step_keeps:
  assumes "machine_step e allowed m m'" and "machine_all P m"
  shows "machine_all P m'"
  using assms(1)
proof cases
  case (starts cfg0 cfg jobs queue)
  then show ?thesis
    using assms(2) by (simp add: machine_all_table table_all_def load_map) (simp add: machine_all_def disk_job_def)
next
  case (submits rn now out tls host header body reply acc rn' disk')
  then show ?thesis using assms(2) submit_keeps [OF submits(3)] by (simp add: machine_all_table)
next
  case (works rn i pc inp pc' req rn' disk')
  then show ?thesis using assms(2) work_keeps [OF works(4)] by (simp add: machine_all_table)
qed (use assms(2) in \<open>simp_all add: machine_all_def memory_job_def disk_job_def\<close>)

lemma steps_keep: "(machine_step e allowed)\<^sup>*\<^sup>* m m' \<Longrightarrow> machine_all P m \<Longrightarrow> machine_all P m'"
  by (induction rule: rtranclp_induct) (auto intro: step_keeps)

end

lemma fresh_machine_all: "machine_all P (fresh_machine cfg)"
  by (simp add: machine_all_def fresh_machine_def memory_job_def disk_job_def disk_map_def)

text \<open>What the public part of a job looks like.\<close>

definition presentable :: "RunnerJob \<Rightarrow> bool" where
  "presentable j \<longleftrightarrow> jb_Status j \<in> set [''queued'', ''running'', ''succeeded'', ''failed''] \<and> jb_Percent j \<le> 100
     \<and> list_all (\<lambda>(name, url, content). name = ''Automation report'' \<and> url = jb_StatusURL j @ ''/report'') (jb_Artifacts j)"

interpretation presentable: job_predicate presentable
  by unfold_locales (auto simp: presentable_def runner_job_def Let_def change_defs set_delivery_def)

section \<open>The contract\<close>

text \<open>The JSON of a status response, field by field, as \<open>observeJob\<close> decodes it once it has read the text; \<open>encode\<close> is
  the text of the result.\<close>

definition status_value :: "string \<Rightarrow> ExternalJobStatus" where
  "status_value s =
     (if s = ''submitting'' then ExternalJobSubmitting else if s = ''queued'' then ExternalJobQueued
      else if s = ''running'' then ExternalJobRunning else if s = ''succeeded'' then ExternalJobSucceeded
      else if s = ''failed'' then ExternalJobFailed else if s = ''cancelled'' then ExternalJobCancelled else OtherExternalJobStatus s)"

definition decoded :: "(Report option \<Rightarrow> string) \<Rightarrow> PublicJob \<Rightarrow> jobResponse" where
  "decoded encode p =
     \<lparr>jr_JobID = jb_ID p, jr_StatusURL = jb_StatusURL p, jr_Status = status_value (jb_Status p),
      jr_Progress = Some \<lparr>jp_Percent = Some (Finite (of_nat (jb_Percent p))), jp_Message = jb_Message p\<rparr>,
      jr_Result = encode (jb_Result p),
      jr_Artifacts = map (\<lambda>(name, url, content). \<lparr>ja_Name = name, ja_URL = url, ja_ContentType = content\<rparr>) (jb_Artifacts p),
      jr_Error = jb_Error p\<rparr>"

lemma public_fields [simp]:
  "jb_ID (public_part j) = jb_ID j" "jb_StatusURL (public_part j) = jb_StatusURL j" "jb_Status (public_part j) = jb_Status j"
  "jb_Percent (public_part j) = jb_Percent j" "jb_Artifacts (public_part j) = jb_Artifacts j"
  by (simp_all add: public_part_def PublicJob.defs)

lemma submission_identity:
  "applyJobResponse env job response True now = Inr job1
   \<Longrightarrow> j_JobID job1 = jr_JobID response \<and> j_StatusURL job1 = jr_StatusURL response"
  by (auto simp: applyJobResponse_def Let_def split: if_splits option.splits)

text \<open>A presentable job is accepted as an observation of a remote job with its identifier and URL.\<close>

lemma presentable_observed:
  assumes "presentable j" and "j_JobID job = jb_ID j" and "j_StatusURL job = jb_StatusURL j" and "safeHTTPURL env (jb_StatusURL j @ ''/report'')"
  shows "\<exists>job2. applyJobResponse env job (decoded encode (public_part j)) False now = Inr job2
    \<and> (Terminal job2 \<longleftrightarrow> jb_Status j = ''succeeded'' \<or> jb_Status j = ''failed'')"
proof -
  have "trim_space ''Automation report'' \<noteq> ''''"
    by (simp add: trim_space_visible visible_def)
  then have "\<not> list_ex (\<lambda>a. trim_space (ja_Name a) = '''' \<or> \<not> safeHTTPURL env (ja_URL a)) (jr_Artifacts (decoded encode (public_part j)))"
    using assms(1,4) by (auto simp: decoded_def presentable_def list_ex_iff list_all_iff)
  moreover have "\<not> bad_percent (Finite (of_nat (jb_Percent j)))"
    using assms(1) of_nat_le_iff [of "jb_Percent j" 100, where 'a = rat] by (simp add: bad_percent_def presentable_def)
  ultimately show ?thesis
    using assms(1-3) by (auto simp: applyJobResponse_def check_identity_def decoded_def presentable_def status_value_def Terminal_def Let_def)
qed

text \<open>
  The runner's answer \<open>p\<close> as the next response of the executor's world: its text is \<open>wire p\<close>, and decoding that
  gives its fields, as documented for the JSON package.
\<close>

definition delivers :: "World \<Rightarrow> nat \<Rightarrow> (Report option \<Rightarrow> string) \<Rightarrow> (PublicJob \<Rightarrow> string) \<Rightarrow> PublicJob \<Rightarrow> bool" where
  "delivers w k encode wire p \<longleftrightarrow> w_reply w k = Response 200 (Data (wire p)) \<and> w_decode w (wire p) = Inr (decoded encode p)"

lemma observeJob_reads:
  assumes "sameOrigin env (t_URL target) url" and "ctx_ended ctx t = None"
    and "delivers w (length tr) encode wire p"
  shows "fst (observeJob env w ctx t tr run target meth url body)
    = (if int (length (wire p)) \<le> 262144 then Inr (decoded encode p, 200)
       else Inl (''external job response exceeds 262144 bytes'', Some 200))"
  using assms by (simp add: observeJob_def Let_def delivers_def maxJobResponseBytes_def)

text \<open>
  C15: the runner and the daemon's executor agree on every status response of at most 262144 bytes. If the
  runner answered a submission with a job and the executor took that answer, then after any further work, crashes
  and restarts of the runner it still knows the job, and a poll of the executor that gets its status response
  over HTTP accepts it, for the same remote job, and considers the job ended exactly when the runner has
  finished it. A longer response, which the runner does not prevent, is refused. (The report's address must
  be one the executor can parse, as the status URL is.)
\<close>

theorem runner_speaks_contract:
  assumes "(machine_step e allowed)\<^sup>*\<^sup>* (fresh_machine cfg) m" and "mc_Runner m = Some rn"
    and "submit_request e (mc_Config m) now out tls host header body (rn, mc_Disk m) = ((code, RrJob p), acc, rn', disk')"
    and "(machine_step e allowed)\<^sup>*\<^sup>* (m\<lparr>mc_Runner := Some rn', mc_Disk := disk',
      mc_Pending := (case acc of None \<Rightarrow> mc_Pending m | Some i \<Rightarrow> i # mc_Pending m)\<rparr>) m'"
    and "mc_Runner m' = Some rn2"
    and "applyJobResponse env job (decoded encode p) True t1 = Inr job1" and "safeHTTPURL env (jb_StatusURL p @ ''/report'')"
    and "ctx_ended ctx t = None"
    and "\<And>q. status_request rn2 (job_id e (trim_space header)) = (200, RrJob q) \<Longrightarrow> delivers w (length tr) encode wire q"
  shows "\<exists>q. status_request rn2 (job_id e (trim_space header)) = (200, RrJob q)
    \<and> (if int (length (wire q)) \<le> 262144
       then \<exists>response job2. fst (observeJob env w ctx t tr run (j_RequestTarget job) ''GET'' (j_StatusURL job1) '''') = Inr (response, 200)
         \<and> applyJobResponse env job1 response False t2 = Inr job2
         \<and> (Terminal job2 \<longleftrightarrow> jb_Status q = ''succeeded'' \<or> jb_Status q = ''failed'')
       else fst (observeJob env w ctx t tr run (j_RequestTarget job) ''GET'' (j_StatusURL job1) '''')
         = Inl (''external job response exceeds 262144 bytes'', Some 200))"
proof -
  obtain j q where j: "p = public_part j" and q: "map_of (rn_Jobs rn2) (job_id e (trim_space header)) = Some q" "same_task j q"
    by (rule accepted_stays [OF assms(1-5)])
  have "machine_step e allowed m (m\<lparr>mc_Runner := Some rn', mc_Disk := disk',
      mc_Pending := (case acc of None \<Rightarrow> mc_Pending m | Some i \<Rightarrow> i # mc_Pending m)\<rparr>)"
    using assms(2,3) by (rule machine_step.submits)
  with assms(1,4) have "(machine_step e allowed)\<^sup>*\<^sup>* (fresh_machine cfg) m'"
    by (meson rtranclp.rtrancl_into_rtrancl rtranclp_trans)
  then have "machine_all presentable m'" by (rule presentable.steps_keep [OF _ fresh_machine_all])
  then have "presentable q" using q(1) assms(5) by (simp add: machine_all_def memory_job_def)
  moreover have "j_JobID job1 = jb_ID q" "j_StatusURL job1 = jb_StatusURL q"
    using submission_identity [OF assms(6)] q(2) by (simp_all add: decoded_def j same_task_def)
  ultimately obtain job2 where took: "applyJobResponse env job1 (decoded encode (public_part q)) False t2 = Inr job2"
    "Terminal job2 \<longleftrightarrow> jb_Status q = ''succeeded'' \<or> jb_Status q = ''failed''"
    using presentable_observed [of q job1 env encode t2] assms(7) q(2) by (auto simp: j same_task_def)
  have answer: "status_request rn2 (job_id e (trim_space header)) = (200, RrJob (public_part q))"
    using q(1) by (simp add: status_request_def)
  have "sameOrigin env (t_URL (j_RequestTarget job)) (j_StatusURL job1)" using applyJobResponse_ok [OF assms(6)] by simp
  note read = observeJob_reads [OF this assms(8) assms(9) [OF answer]]
  show ?thesis
    by (rule exI [of _ "public_part q"]) (use took in \<open>simp add: answer read; blast\<close>)
qed

lemma runner_speaks_contract_witness:
  "\<exists>env job job1 q response job2 w. applyJobResponse env job (decoded (\<lambda>r. '''') (public_part sample_job)) True 0 = Inr job1
    \<and> status_request (idle_runner\<lparr>rn_Jobs := [(''job_k'', sample_job)]\<rparr>) ''job_k'' = (200, RrJob q)
    \<and> fst (observeJob env w None 1 [] busy_execution (j_RequestTarget job) ''GET'' (j_StatusURL job1) '''') = Inr (response, 200)
    \<and> applyJobResponse env job1 response False 1 = Inr job2"
proof -
  let ?u = "\<lparr>u_Scheme = ''http'', u_Host = ''r'', u_Hostname = ''r'', u_Port = '''', u_HasUser = False, u_Fragment = ''''\<rparr>"
  let ?env = "sample_env\<lparr>url_parse := \<lambda>s. Some ?u\<rparr>" and ?job = "job_of sample_world job_schedule busy_execution 60"
  let ?a = "decoded (\<lambda>r. '''') (public_part sample_job)"
  have job: "jb_ID sample_job = ''job_k''" "jb_Status sample_job = ''queued''" "jb_Percent sample_job = 0" "jb_Artifacts sample_job = []"
    by (simp_all add: sample_job_def new_sample_def runner_job_def sample_simps Let_def)
  have origin: "sameOrigin ?env a b" for a b
    by (simp add: sameOrigin_def safeHTTPURL_def equal_fold_def)
  have "trim_space ''job_k'' = ''job_k''" "has_control ''job_k'' = False" by (simp add: trim_space_visible visible_def, code_simp)
  then have "\<exists>job1. applyJobResponse ?env ?job ?a True 0 = Inr job1"
    using origin by (simp add: applyJobResponse_def check_identity_def decoded_def job status_value_def bad_percent_def Let_def)
  then obtain job1 where took: "applyJobResponse ?env ?job ?a True 0 = Inr job1" ..
  have "safeHTTPURL ?env (jb_StatusURL (public_part sample_job) @ ''/report'')" by (simp add: safeHTTPURL_def)
  note contract = runner_speaks_contract [OF sample_submission took this]
  define w where "w = sample_world\<lparr>w_reply := \<lambda>k. Response 200 (Data ''job''), w_decode := \<lambda>text. Inr ?a\<rparr>"
  have answers: "delivers w (length []) (\<lambda>r. '''') (\<lambda>q. ''job'') q"
    if "status_request (idle_runner\<lparr>rn_Jobs := [(''job_k'', sample_job)]\<rparr>) (job_id sample_runner_env (trim_space ''k'')) = (200, RrJob q)" for q
    using that by (simp add: delivers_def w_def status_request_def sample_key)
  have "ctx_ended None 1 = None" by (simp add: ctx_ended_def)
  from contract [OF this answers, where run = busy_execution and ?t2.0 = 1] took
  show ?thesis unfolding sample_key by (simp; blast)
qed

end
