(* ===== verification/Spec2Isabelle.thy ===== *)
theory Spec2Isabelle
  imports Recovery Commands Daemon Deploy RunnerRun RunnerToken RunnerReport RunnerContract
begin

text \<open>
  A verification development for Wakeplane, a durable scheduler written in Go.

  \<^bold>\<open>The program.\<close> A daemon keeps schedules in a database (SQLite or Postgres) and turns their due slots
  into runs. The planner (\<open>internal/planner\<close>) inserts a row of \<open>schedule_runs\<close> per due slot, using the
  time calculator (\<open>internal/timecalc\<close>). The dispatcher (\<open>internal/dispatcher\<close>) first recovers runs whose
  lease has expired, then claims pending runs through the store (\<open>internal/store\<close>), which gives each
  claim a lease with a fresh token, and executes them with an executor (\<open>internal/executors\<close>): a
  shell command, a registered workflow, a plain HTTP request, or a remote job that is submitted, polled and
  checkpointed. Every later write of the execution is fenced by the lease token. Operators act through
  the application service (\<open>internal/app\<close>), which the REST and MCP front ends (\<open>internal/api\<close>,
  \<open>internal/mcp\<close>) and the command-line client (\<open>internal/cli\<close>) call. Several daemons may share a database;
  all coordination goes through its transactions. The automation runner
  (\<open>examples/automation-runner\<close>) is the other end of a remote job: a server with a job table in a file, which
  reads feeds or a repository and delivers a report.

  \<^bold>\<open>Conventions.\<close> A Go struct is a record, a string type with named constants is a datatype with a
  constructor per constant and one for any other text, an error is the left value of a sum, a Go string
  is a list of bytes, and an instant an integer number of nanoseconds; \<open>time.Duration\<close> arithmetic is
  64-bit and wraps (\<open>int64_wrap\<close>). A table is a list of rows, and a transaction is a function from the
  database to an error or the database after its commit, so an error leaves everything as it was. Clocks,
  fresh identifiers, the network, the operating system and the handlers of workflows are arguments.

  \<^bold>\<open>Theories.\<close>
  \<^item> \<open>Prelude\<close>: results, the four SQL statements on tables (\<open>table_simps\<close>), and the interfaces for
    transition systems (locales \<open>transition_system\<close>, \<open>monotone_system\<close>). \<open>GoTime\<close>, \<open>GoString\<close>: the parts
    of the standard library the code uses (civil dates, the RFC 3339 form, trimming, case folding).
    \<open>External\<close>: what the code asks of the time zone database, the cron library and the URL parser (\<open>Env\<close>).
  \<^item> \<open>Domain\<close>, \<open>Validation\<close>: the data model and the request checks of \<open>internal/domain\<close>. \<open>Timecalc\<close>:
    \<open>NextAfter\<close>, with the locales \<open>slot_source\<close> (slots are later and inside the window) and
    \<open>exact_slot_source\<close> (no slot is missed), the first interpreted for every kind of schedule, the second for
    intervals.
  \<^item> \<open>Store\<close>, \<open>Leases\<close>, \<open>ExternalJobs\<close>, \<open>Events\<close>: the methods of \<open>internal/store\<close>, one definition each.
    \<open>Integrity\<close> has the key invariant \<open>wf_db\<close>, \<open>Ownership\<close> the ownership invariant \<open>sys_ok\<close> (an active run
    is held by exactly one lease, of the worker and expiry the row names), each kept by every method.
  \<^item> \<open>Planner\<close>: \<open>due_loop\<close> (a \<open>partial_function\<close>; its termination is proved), the misfire policies,
    \<open>materializeSchedule\<close> and \<open>Planner_Tick\<close>. \<open>Dispatcher\<close>, \<open>Execution\<close>, \<open>Admission\<close>, \<open>Recovery\<close>: back-off, the ends of
    an execution, the queue policy and the claim, the recovery pass.
  \<^item> \<open>History\<close>, \<open>System\<close>: the whole as a transition system \<open>sys_step\<close>, in which every transaction of any
    actor is a step, with the invariant \<open>sys_inv\<close> and the relation \<open>later\<close> between a state and what can become
    of it; both are interpretations of the Prelude's locales, as is the invariant of the concurrency limit.
  \<^item> \<open>HttpJob\<close>, \<open>JobContract\<close>, \<open>Executors\<close>: the executors against an arbitrary world (\<open>World\<close>: what a runner
    answers, whether a save succeeds, how long both take, when the caller's context
    ends; the clock is carried along), the agreement of validation, executor and store on remote jobs, and
    \<open>executeRun\<close> as a sequence of heartbeats and saves followed by its end.
  \<^item> \<open>Config\<close>, \<open>Service\<close>, \<open>Operators\<close>: the environment's configuration, the operations of
    \<open>internal/app\<close>, and commands as transactions of the system (\<open>transaction\<close>, \<open>commits\<close>). \<open>Daemon\<close>: a
    service's life: \<open>Run\<close> with the loops of planner and dispatcher, and \<open>CloseContext\<close>, as steps of a process.
  \<^item> \<open>Listing\<close>, \<open>Client\<close>: stored timestamps, cursors and pages (locale \<open>cursor_pages\<close>, interpreted by the
    listing query), and the client's export and import over them. \<open>Mcp\<close>, \<open>Api\<close>: the tools, the handlers, the
    mux, the bearer check and the audit. \<open>Commands\<close>: the client's other commands and what they reach at the server.
    \<open>Deploy\<close>: the check of rendered deployments (\<open>tools/deploycheck\<close>).
  \<^item> \<open>RunnerText\<close>, \<open>Runner\<close>, \<open>RunnerWork\<close>, \<open>RunnerReport\<close>: the automation runner's text functions, its
    configuration, job table and handlers, its workers (\<open>work\<close>: what \<open>execute\<close> and \<open>deliver\<close> do between two
    updates of the table) and its reports. \<open>machine_step\<close> is the runner with its file, queue, handlers,
    workers, crashes and restarts; \<open>RunnerMoves\<close> runs it as a function of the actions taken.
    \<open>RunnerSafety\<close> has its invariant \<open>job_inv\<close>, per job, and what is retained from one state to the next;
    \<open>RunnerRun\<close> follows a worker to its end, \<open>RunnerToken\<close> the credentials of the notifications, and
    \<open>RunnerContract\<close> (locale \<open>job_predicate\<close>: a property of single jobs that every change keeps) puts the
    runner's answers before the daemon's executor.

  \<^bold>\<open>What is shown.\<close> About any interleaving of any number of daemons and operators: an active run has
  one owner, who is fenced off after losing the lease, a schedule's limit is never exceeded and a finished run stays
  as it is. Commands and HTTP requests are steps of that system, leave existing runs alone, need the token and are
  audited; a command of the client reaches its handler. Recovery misses no expired lease, spares all others and gives
  every lost attempt a successor or a dead letter; every execution that keeps its lease is settled, with the retry or
  dead letter the policy asks for. A remote job is only contacted at its own origin, counts as succeeded only when it
  says so, and its observation is what the database gives back after a restart. The planner records exactly the due
  slots, once, under each misfire policy; the preview shows the slots it will record. A service shuts down cleanly,
  and exactly the deployments that keep one daemon and one runner safe pass their check. Loops end: the catch-up loop
  for every schedule whose slots advance, the polling loop at the deadline, the worker of the runner for whatever
  happens to it. About the runner, over any crashes and failing writes: an accepted job is neither lost nor accepted
  twice, a finished one stays as it is, a notification is sent at most three times and never again after an unknown
  outcome, each credential goes to one origin, and the daemon's executor accepts every status the runner gives, up to
  its limit on the length of a response.

  \<^bold>\<open>Bounds and fuel.\<close> No definition takes fuel. \<open>due_loop\<close>, \<open>poll_job\<close>, \<open>export_loop\<close> and \<open>run_job\<close> are partial
  functions over options, where \<open>None\<close> means that the loop does not end, and the theorems that rely
  on them include that they return. Hypotheses on numbers are those under which the code's 64-bit arithmetic
  is exact: durations up to the validated limits, instants whose seconds are below \<open>2 ^ 60\<close>, retention of at
  most 106751 days. Where code leaves that range the lemmas say what happens instead
  (\<open>retention_overflows\<close>). Where the code departs from its documents or its purpose there is a theorem with
  the run that shows it (\<open>planner_overwrites_row\<close>, \<open>full_schedule_skips_queue\<close>, \<open>stored_address_gets_new_token\<close>).

  \<^bold>\<open>Not modelled.\<close> Failures of the database itself (a transaction either commits or reports one of
  the store's own errors), the SQL text, connections and migrations; the JSON form of rows, requests and responses
  (decoders are parameters; the encoding of trigger events and of cursors is modelled, because identities depend on
  it; the runner's file is the value that is encoded); the fractional seconds of the duration metrics; logging, flag
  parsing, the embedded console, the documentation generator; of the runner, the Markdown and e-mail rendering (it
  normalizes Unicode with a library), the state directory's lock, which is taken for granted, and the start of the
  program.
\<close>

end
